(* ===== verification/Prelude.thy ===== *)
theory Prelude
  imports Complex_Main "HOL-Library.Sublist" "HOL-Library.List_Lexorder"
    "HOL-Library.Product_Lexorder" "HOL-Library.Option_ord"
begin

text \<open>
  Shared vocabulary of the development: the Python strings, numbers, times, exceptions and
  tables that the components of the backend work on, with the lemmas about them that more than
  one component uses.

  \<^item> A Python \<open>str\<close> is the list of its code points (\<open>ustr\<close>), so that \<open>length\<close> and slicing
    count what Python counts; \<open>lit ''abc''\<close> is an ASCII literal.
  \<^item> A \<open>datetime\<close> is an \<open>int\<close>, the microseconds since the epoch in UTC (Python's resolution);
    \<open>seconds n\<close> is \<open>timedelta(seconds=n)\<close>.
  \<^item> An exception is a value of \<open>exn\<close>; a fallible operation returns \<open>exn + 'a\<close>.
  \<^item> A database table is the list of its rows, each row with its primary key.
\<close>

section \<open>Hint collections\<close>

named_theorems row_simps \<open>reading a table back after a keyed update\<close>
named_theorems str_simps \<open>lengths and content of string operations\<close>
named_theorems guard_simps \<open>unfolding of the guards of the code\<close>

section \<open>Strings\<close>

type_synonym ustr = "nat list"

definition lit :: "string \<Rightarrow> ustr" where
  "lit s = map of_char s"

lemma lit_eq_iff [simp]: "lit a = lit b \<longleftrightarrow> a = b"
  unfolding lit_def by (rule inj_map_eq_map) (simp add: inj_on_def)

lemma lit_Nil [simp]: "lit [] = []"
  by (simp add: lit_def)

lemma lit_append: "lit a @ lit b = lit (a @ b)"
  by (simp add: lit_def)

lemma lit_eq_Nil_iff [simp]: "lit a = [] \<longleftrightarrow> a = []" "[] = lit a \<longleftrightarrow> a = []"
  by (auto simp: lit_def)

lemma length_lit [simp]: "length (lit s) = length s"
  by (simp add: lit_def)

text \<open>\<open>str.isspace\<close> of a code point, complete: the characters \<open>strip()\<close> and \<open>split()\<close> remove.\<close>

definition py_space :: "nat \<Rightarrow> bool" where
  "py_space c \<longleftrightarrow> (9 \<le> c \<and> c \<le> 13) \<or> (28 \<le> c \<and> c \<le> 32) \<or> c = 133 \<or> c = 160 \<or> c = 5760
     \<or> (8192 \<le> c \<and> c \<le> 8202) \<or> c = 8232 \<or> c = 8233 \<or> c = 8239 \<or> c = 8287 \<or> c = 12288"

text \<open>
  \<open>str.lower\<close> and \<open>str.casefold\<close> per code point. Both are exact on ASCII and Latin-1, and on
  every code point outside them whose image contains an ASCII character (the Kelvin sign, the
  long s, the dotted capital I, the ligatures); the remaining cased scripts are mapped to
  themselves. The code only ever compares a folded text with ASCII and CJK terms, or extracts
  ASCII and CJK tokens from it, so these comparisons are exact.
\<close>

definition lower_cp :: "nat \<Rightarrow> ustr" where
  "lower_cp c =
     (if 65 \<le> c \<and> c \<le> 90 then [c + 32]
      else if 192 \<le> c \<and> c \<le> 222 \<and> c \<noteq> 215 then [c + 32]
      else if c = 304 then [105, 775]
      else if c = 8490 then [107]
      else if c = 8491 then [229]
      else [c])"

definition casefold_cp :: "nat \<Rightarrow> ustr" where
  "casefold_cp c =
     (if c = 181 then [956]
      else if c = 223 \<or> c = 7838 then [115, 115]
      else if c = 329 then [700, 110]
      else if c = 383 then [115]
      else if c = 496 then [106, 780]
      else if c = 7830 then [104, 817]
      else if c = 7831 then [116, 776]
      else if c = 7832 then [119, 778]
      else if c = 7833 then [121, 778]
      else if c = 7834 then [97, 702]
      else if c = 64256 then [102, 102]
      else if c = 64257 then [102, 105]
      else if c = 64258 then [102, 108]
      else if c = 64259 then [102, 102, 105]
      else if c = 64260 then [102, 102, 108]
      else if c = 64261 \<or> c = 64262 then [115, 116]
      else lower_cp c)"

definition lower :: "ustr \<Rightarrow> ustr" where
  "lower s = concat (map lower_cp s)"

definition casefold :: "ustr \<Rightarrow> ustr" where
  "casefold s = concat (map casefold_cp s)"

definition lstrip_by :: "(nat \<Rightarrow> bool) \<Rightarrow> ustr \<Rightarrow> ustr" where
  "lstrip_by p s = dropWhile p s"

definition rstrip_by :: "(nat \<Rightarrow> bool) \<Rightarrow> ustr \<Rightarrow> ustr" where
  "rstrip_by p s = rev (dropWhile p (rev s))"

definition strip_by :: "(nat \<Rightarrow> bool) \<Rightarrow> ustr \<Rightarrow> ustr" where
  "strip_by p s = rstrip_by p (lstrip_by p s)"

definition strip :: "ustr \<Rightarrow> ustr" where
  "strip s = strip_by py_space s"

text \<open>The facts that evaluate the string operations on literals.\<close>

lemmas str_eval = lit_def strip_def strip_by_def lstrip_by_def rstrip_by_def py_space_def of_char_Char

text \<open>\<open>str.split()\<close> without a separator: the maximal runs of non-space characters.\<close>

fun split_ws_from :: "ustr \<Rightarrow> ustr \<Rightarrow> ustr list" where
  "split_ws_from acc [] = (if acc = [] then [] else [rev acc])"
| "split_ws_from acc (c # cs) =
     (if py_space c then (if acc = [] then split_ws_from [] cs else rev acc # split_ws_from [] cs)
      else split_ws_from (c # acc) cs)"

definition split_ws :: "ustr \<Rightarrow> ustr list" where
  "split_ws s = split_ws_from [] s"

fun join :: "ustr \<Rightarrow> ustr list \<Rightarrow> ustr" where
  "join sep [] = []"
| "join sep [x] = x"
| "join sep (x # y # xs) = x @ sep @ join sep (y # xs)"

text \<open>\<open>needle in haystack\<close>, with the argument order of the code.\<close>

abbreviation substr :: "ustr \<Rightarrow> ustr \<Rightarrow> bool" where
  "substr needle haystack \<equiv> sublist needle haystack"

abbreviation any_in :: "ustr list \<Rightarrow> ustr \<Rightarrow> bool" where
  "any_in terms text \<equiv> list_ex (\<lambda>term. substr term text) terms"

text \<open>\<open>str(n)\<close> of an integer.\<close>

fun digits_rev :: "nat \<Rightarrow> ustr" where
  "digits_rev n = (if n < 10 then [48 + n] else (48 + n mod 10) # digits_rev (n div 10))"

declare digits_rev.simps [simp del]

definition show_nat :: "nat \<Rightarrow> ustr" where
  "show_nat n = rev (digits_rev n)"

definition show_int :: "int \<Rightarrow> ustr" where
  "show_int i = (if i < 0 then 45 # show_nat (nat (- i)) else show_nat (nat i))"

text \<open>
  \<open>int(text)\<close> on ASCII digits: surrounding whitespace, one sign, digits with single underscores
  between them; \<open>None\<close> where it raises \<open>ValueError\<close>.
\<close>

fun parse_digits :: "int \<Rightarrow> bool \<Rightarrow> ustr \<Rightarrow> int option" where
  "parse_digits acc seen [] = (if seen then Some acc else None)"
| "parse_digits acc seen (c # cs) =
     (if 48 \<le> c \<and> c \<le> 57 then parse_digits (acc * 10 + int (c - 48)) True cs
      else if c = 95 \<and> seen \<and> cs \<noteq> [] then parse_digits acc False cs
      else None)"

definition py_int :: "ustr \<Rightarrow> int option" where
  "py_int s = (case strip s of
     [] \<Rightarrow> None
   | c # cs \<Rightarrow> if c = 45 then map_option uminus (parse_digits 0 False cs)
              else if c = 43 then parse_digits 0 False cs
              else parse_digits 0 False (c # cs))"

text \<open>\<open>text.split(sep, 1)\<close> when the separator is present.\<close>

fun split_once :: "nat \<Rightarrow> ustr \<Rightarrow> (ustr \<times> ustr) option" where
  "split_once sep [] = None"
| "split_once sep (c # cs) =
     (if c = sep then Some ([], cs) else map_option (\<lambda>(a, b). (c # a, b)) (split_once sep cs))"

text \<open>\<open>text.replace(needle, repl)\<close>: non-overlapping, from the left; an empty needle is not used.\<close>

function replace_all :: "ustr \<Rightarrow> ustr \<Rightarrow> ustr \<Rightarrow> ustr" where
  "replace_all needle repl [] = []"
| "replace_all needle repl (c # cs) =
     (if needle \<noteq> [] \<and> prefix needle (c # cs)
      then repl @ replace_all needle repl (drop (length needle) (c # cs))
      else c # replace_all needle repl cs)"
  by pat_completeness auto
termination
  by (relation "measure (\<lambda>(n, r, s). length s)") (auto simp: length_greater_0_conv [symmetric] simp del: length_greater_0_conv)

text \<open>\<open>str.splitlines()\<close>.\<close>

definition line_break :: "nat \<Rightarrow> bool" where
  "line_break c \<longleftrightarrow> (10 \<le> c \<and> c \<le> 13) \<or> (28 \<le> c \<and> c \<le> 30) \<or> c = 133 \<or> c = 8232 \<or> c = 8233"

fun splitlines_from :: "ustr \<Rightarrow> ustr \<Rightarrow> ustr list" where
  "splitlines_from acc [] = (if acc = [] then [] else [rev acc])"
| "splitlines_from acc [c] = (if line_break c then [rev acc] else [rev (c # acc)])"
| "splitlines_from acc (c # e # cs) =
     (if c = 13 \<and> e = 10 then rev acc # splitlines_from [] cs
      else if line_break c then rev acc # splitlines_from [] (e # cs)
      else splitlines_from (c # acc) (e # cs))"

definition splitlines :: "ustr \<Rightarrow> ustr list" where
  "splitlines s = splitlines_from [] s"

text \<open>The Python slice \<open>s[:n]\<close> for an \<open>int\<close> bound: a negative bound counts from the end.\<close>

definition py_take :: "int \<Rightarrow> 'a list \<Rightarrow> 'a list" where
  "py_take n xs = (if n \<ge> 0 then take (nat n) xs else take (length xs - nat (- n)) xs)"

text \<open>The slice \<open>xs[-n:]\<close> for a positive \<open>n\<close>: the last \<open>n\<close> items.\<close>

definition last_n :: "nat \<Rightarrow> 'a list \<Rightarrow> 'a list" where
  "last_n n xs = drop (length xs - n) xs"

lemma length_last_n [str_simps]: "length (last_n n xs) = min n (length xs)"
  by (simp add: last_n_def)

lemma last_n_snoc: "0 < n \<Longrightarrow> last_n n (xs @ [x]) = last_n (n - 1) xs @ [x]"
  by (cases n) (auto simp: last_n_def Suc_diff_le)

lemma set_last_n: "set (last_n n xs) \<subseteq> set xs"
  by (simp add: last_n_def set_drop_subset)

lemma length_py_take [str_simps]: "0 \<le> n \<Longrightarrow> length (py_take n xs) = min (nat n) (length xs)"
  by (simp add: py_take_def)

lemma length_py_take_le: "length (py_take n xs) \<le> length xs"
  by (simp add: py_take_def)

lemma sort_key_empty: "sort_key f xs = [] \<longleftrightarrow> xs = []"
  by (metis set_empty set_sort)

section \<open>Time\<close>

type_synonym time = int

definition seconds :: "int \<Rightarrow> time" where
  "seconds n = n * 1000000"

text \<open>
  \<open>datetime.isoformat()\<close> of a UTC time: the proleptic Gregorian date of a day number, then the time
  of day, with microseconds only when they are not zero.
\<close>

definition civil_from_days :: "int \<Rightarrow> int \<times> int \<times> int" where
  "civil_from_days days =
     (let z = days + 719468; era = z div 146097; doe = z mod 146097;
          yoe = (doe - doe div 1460 + doe div 36524 - doe div 146096) div 365;
          doy = doe - (365 * yoe + yoe div 4 - yoe div 100);
          mp = (5 * doy + 2) div 153;
          day = doy - (153 * mp + 2) div 5 + 1;
          month = (if mp < 10 then mp + 3 else mp - 9);
          year = yoe + era * 400 + (if month \<le> 2 then 1 else 0)
      in (year, month, day))"

fun pad_nat :: "nat \<Rightarrow> nat \<Rightarrow> ustr" where
  "pad_nat 0 n = []"
| "pad_nat (Suc w) n = pad_nat w (n div 10) @ [48 + n mod 10]"

definition pad :: "nat \<Rightarrow> int \<Rightarrow> ustr" where
  "pad w i = pad_nat w (nat i)"

definition isoformat :: "time \<Rightarrow> ustr" where
  "isoformat t =
     (let days = t div 86400000000; us = t mod 86400000000;
          (year, month, day) = civil_from_days days;
          secs = us div 1000000; micro = us mod 1000000
      in pad 4 year @ [45] @ pad 2 month @ [45] @ pad 2 day @ [84]
         @ pad 2 (secs div 3600) @ [58] @ pad 2 (secs div 60 mod 60) @ [58] @ pad 2 (secs mod 60)
         @ (if micro = 0 then [] else [46] @ pad 6 micro) @ lit ''+00:00'')"

lemma length_pad_nat [simp]: "length (pad_nat w n) = w"
  by (induction w arbitrary: n) auto

lemma seconds_mono: "m \<le> n \<Longrightarrow> seconds m \<le> seconds n"
  by (simp add: seconds_def)

lemma seconds_pos: "0 < n \<Longrightarrow> 0 < seconds n"
  by (simp add: seconds_def)

lemma seconds_add: "seconds (m + n) = seconds m + seconds n"
  by (simp add: seconds_def algebra_simps)

section \<open>Exceptions\<close>

text \<open>
  The exceptions the backend raises and catches, one constructor per class that some handler
  distinguishes. \<open>TaskLeaseLost\<close> is a subclass of \<open>CancelledError\<close> in the code.
\<close>

datatype exn =
    HttpError int ustr
  | ValueError ustr
  | TypeError ustr
  | KeyError ustr
  | RuntimeError ustr
  | TimeoutError ustr
  | TaskLeaseLost
  | Cancelled
  | ModelResponseError ustr
  | McpError int ustr
  | IntegrityError
  | OtherError ustr

text \<open>\<open>isinstance(exc, Exception)\<close>: cancellation is a \<open>BaseException\<close> only.\<close>

fun is_exception :: "exn \<Rightarrow> bool" where
  "is_exception Cancelled = False"
| "is_exception TaskLeaseLost = False"
| "is_exception _ = True"

text \<open>\<open>str(exc)\<close>.\<close>

fun exn_str :: "exn \<Rightarrow> ustr" where
  "exn_str (HttpError code detail) = show_int code @ lit '': '' @ detail"
| "exn_str (ValueError m) = m"
| "exn_str (TypeError m) = m"
| "exn_str (KeyError m) = m"
| "exn_str (RuntimeError m) = m"
| "exn_str (TimeoutError m) = m"
| "exn_str TaskLeaseLost = lit ''Background task no longer owns a live execution lease''"
| "exn_str Cancelled = []"
| "exn_str (ModelResponseError m) = m"
| "exn_str (McpError code m) = m"
| "exn_str IntegrityError = lit ''IntegrityError''"
| "exn_str (OtherError m) = m"

type_synonym 'a res = "exn + 'a"

definition is_ok :: "'e + 'a \<Rightarrow> bool" where
  "is_ok r = (case r of Inl _ \<Rightarrow> False | Inr _ \<Rightarrow> True)"

lemma is_ok_simps [simp]: "is_ok (Inr x)" "\<not> is_ok (Inl e)"
  by (simp_all add: is_ok_def)

text \<open>\<open>[f(x) for x in xs]\<close> where \<open>f\<close> may raise: the first exception ends the loop.\<close>

fun map_res :: "('a \<Rightarrow> 'e + 'b) \<Rightarrow> 'a list \<Rightarrow> 'e + 'b list" where
  "map_res f [] = Inr []"
| "map_res f (x # xs) =
     (case f x of Inl e \<Rightarrow> Inl e
      | Inr y \<Rightarrow> (case map_res f xs of Inl e \<Rightarrow> Inl e | Inr ys \<Rightarrow> Inr (y # ys)))"

lemma map_res_length: "map_res f xs = Inr ys \<Longrightarrow> length ys = length xs"
  by (induction xs arbitrary: ys) (auto split: sum.splits)

lemma map_res_set: "map_res f xs = Inr ys \<Longrightarrow> y \<in> set ys \<Longrightarrow> \<exists>x \<in> set xs. f x = Inr y"
  by (induction xs arbitrary: ys) (auto split: sum.splits)

section \<open>Identifiers\<close>

text \<open>
  A UUID is an opaque key with equality and the order that \<open>ORDER BY id\<close> uses. \<open>uuid4()\<close> is an
  argument of the operation that draws it.
\<close>

datatype uuid = UUID (uuid_bits: nat)

instantiation uuid :: linorder
begin

definition less_eq_uuid :: "uuid \<Rightarrow> uuid \<Rightarrow> bool" where
  "a \<le> b \<longleftrightarrow> uuid_bits a \<le> uuid_bits b"

definition less_uuid :: "uuid \<Rightarrow> uuid \<Rightarrow> bool" where
  "a < b \<longleftrightarrow> uuid_bits a < uuid_bits b"

instance
  by standard (auto simp: less_eq_uuid_def less_uuid_def uuid.expand)

end

text \<open>\<open>str(uuid)\<close>: 32 hexadecimal digits in groups of 8, 4, 4, 4 and 12; \<open>uuid.hex\<close> without the dashes.\<close>

definition hex_digit :: "nat \<Rightarrow> nat" where
  "hex_digit n = (if n < 10 then 48 + n else 87 + n)"

fun hex_nat :: "nat \<Rightarrow> nat \<Rightarrow> ustr" where
  "hex_nat 0 n = []"
| "hex_nat (Suc w) n = hex_nat w (n div 16) @ [hex_digit (n mod 16)]"

definition uuid_hex :: "uuid \<Rightarrow> ustr" where
  "uuid_hex i = hex_nat 32 (uuid_bits i)"

definition uuid_str :: "uuid \<Rightarrow> ustr" where
  "uuid_str i = (let h = uuid_hex i in
     take 8 h @ [45] @ take 4 (drop 8 h) @ [45] @ take 4 (drop 12 h) @ [45] @ take 4 (drop 16 h)
     @ [45] @ drop 20 h)"

section \<open>Tables\<close>

text \<open>
  \<open>find_row key k rows\<close> is the primary-key lookup \<open>session.get\<close>; \<open>put_row key r rows\<close> writes the
  attributes of a loaded row back; \<open>update_where p f rows\<close> is \<open>UPDATE ... WHERE\<close>.
\<close>

definition find_row :: "('r \<Rightarrow> 'k) \<Rightarrow> 'k \<Rightarrow> 'r list \<Rightarrow> 'r option" where
  "find_row key k rows = find (\<lambda>r. key r = k) rows"

definition put_row :: "('r \<Rightarrow> 'k) \<Rightarrow> 'r \<Rightarrow> 'r list \<Rightarrow> 'r list" where
  "put_row key r rows = map (\<lambda>x. if key x = key r then r else x) rows"

definition update_where :: "('r \<Rightarrow> bool) \<Rightarrow> ('r \<Rightarrow> 'r) \<Rightarrow> 'r list \<Rightarrow> 'r list" where
  "update_where p f rows = map (\<lambda>x. if p x then f x else x) rows"

definition keys_distinct :: "('r \<Rightarrow> 'k) \<Rightarrow> 'r list \<Rightarrow> bool" where
  "keys_distinct key rows \<longleftrightarrow> distinct (map key rows)"

lemma find_append:
  "find p (xs @ ys) = (case find p xs of None \<Rightarrow> find p ys | Some x \<Rightarrow> Some x)"
  by (induction xs) auto

lemma find_SomeD: "find p xs = Some x \<Longrightarrow> x \<in> set xs \<and> p x"
  by (auto simp: find_Some_iff)

lemma find_row_Some:
  assumes "find_row key k rows = Some r"
  shows "r \<in> set rows" and "key r = k"
  using assms by (auto simp: find_row_def find_Some_iff)

lemma find_row_None_iff: "find_row key k rows = None \<longleftrightarrow> k \<notin> key ` set rows"
  by (auto simp: find_row_def find_None_iff)

lemma find_row_in_distinct:
  "keys_distinct key rows \<Longrightarrow> r \<in> set rows \<Longrightarrow> find_row key (key r) rows = Some r"
  by (induction rows) (auto simp: find_row_def keys_distinct_def)

lemma find_put_row [row_simps]:
  "find_row key k (put_row key r rows) =
     (if k = key r then map_option (\<lambda>_. r) (find_row key k rows) else find_row key k rows)"
  by (induction rows) (auto simp: find_row_def put_row_def)

lemma map_key_put_row [row_simps]: "map key (put_row key r rows) = map key rows"
  by (induction rows) (auto simp: put_row_def)

lemma keys_distinct_put_row [row_simps]:
  "keys_distinct key (put_row key r rows) = keys_distinct key rows"
  by (simp add: keys_distinct_def map_key_put_row)

lemma length_put_row [row_simps]: "length (put_row key r rows) = length rows"
  by (simp add: put_row_def)

lemma set_put_row: "x \<in> set (put_row key r rows) \<Longrightarrow> x = r \<or> (x \<in> set rows \<and> key x \<noteq> key r)"
  by (auto simp: put_row_def split: if_splits)

lemma find_row_append [row_simps]:
  "find_row key k (rows @ [r]) =
     (case find_row key k rows of Some x \<Rightarrow> Some x | None \<Rightarrow> if key r = k then Some r else None)"
  by (induction rows) (auto simp: find_row_def)

lemma find_row_filter_key:
  "find_row key k (filter (\<lambda>r. key r \<notin> V) rows) = (if k \<in> V then None else find_row key k rows)"
  by (induction rows) (auto simp: find_row_def)

lemma keys_distinct_append [row_simps]:
  "keys_distinct key (rows @ [r]) \<longleftrightarrow> keys_distinct key rows \<and> key r \<notin> key ` set rows"
  by (auto simp: keys_distinct_def)

lemma map_key_update_where [row_simps]:
  "(\<And>x. key (f x) = key x) \<Longrightarrow> map key (update_where p f rows) = map key rows"
  by (induction rows) (auto simp: update_where_def)

lemma find_update_where [row_simps]:
  "(\<And>x. key (f x) = key x) \<Longrightarrow>
   find_row key k (update_where p f rows) =
     map_option (\<lambda>x. if p x then f x else x) (find_row key k rows)"
  by (induction rows) (auto simp: find_row_def update_where_def)

text \<open>
  A keyed store as an interface: what a client of a table relies on. Every handler of the code
  reads a row by its key, changes attributes and commits; the laws say that the written row is
  what is read back and that no other row changed.
\<close>

locale keyed_store =
  fixes get_row :: "'k \<Rightarrow> 's \<Rightarrow> 'r option"
    and set_row :: "'r \<Rightarrow> 's \<Rightarrow> 's"
    and key_of :: "'r \<Rightarrow> 'k"
  assumes get_key: "get_row k s = Some r \<Longrightarrow> key_of r = k"
    and get_set_same: "get_row (key_of r) s = Some r0 \<Longrightarrow> get_row (key_of r) (set_row r s) = Some r"
    and get_set_other: "k \<noteq> key_of r \<Longrightarrow> get_row k (set_row r s) = get_row k s"
    and set_absent: "get_row (key_of r) s = None \<Longrightarrow> get_row (key_of r) (set_row r s) = None"
begin

lemma set_row_get:
  "get_row k (set_row r s) =
     (if k = key_of r then (case get_row k s of None \<Rightarrow> None | Some _ \<Rightarrow> Some r) else get_row k s)"
  by (auto simp: get_set_same get_set_other set_absent split: option.splits)

lemma modify_other:
  "get_row k s = Some r \<Longrightarrow> key_of (f r) = key_of r \<Longrightarrow> k' \<noteq> k \<Longrightarrow>
   get_row k' (set_row (f r) s) = get_row k' s"
  by (metis get_key get_set_other)

lemma modify_same:
  "get_row k s = Some r \<Longrightarrow> key_of (f r) = key_of r \<Longrightarrow> get_row k (set_row (f r) s) = Some (f r)"
  by (metis get_key get_set_same)

lemma modify_dom:
  "get_row k s = Some r \<Longrightarrow> key_of (f r) = key_of r \<Longrightarrow>
   (get_row k' (set_row (f r) s) = None) = (get_row k' s = None)"
  by (cases "k' = k") (auto simp: modify_same modify_other)

end

interpretation table: keyed_store "find_row key" "put_row key" key
  for key :: "'r \<Rightarrow> 'k"
  by unfold_locales (auto simp: find_put_row dest: find_row_Some)

section \<open>Step systems\<close>

text \<open>
  A component with state is a set of initial states and a step relation. An invariant that holds
  at the start and is kept by each step holds in every reachable state: proved once here, used by
  every state machine of the development through an interpretation.
\<close>

locale step_system =
  fixes initial :: "'s \<Rightarrow> bool"
    and step :: "'s \<Rightarrow> 's \<Rightarrow> bool"
    and inv :: "'s \<Rightarrow> bool"
  assumes inv_init: "initial s \<Longrightarrow> inv s"
    and inv_step: "inv s \<Longrightarrow> step s t \<Longrightarrow> inv t"
begin

lemma inv_steps: "step\<^sup>*\<^sup>* s t \<Longrightarrow> inv s \<Longrightarrow> inv t"
  by (induction rule: rtranclp_induct) (auto intro: inv_step)

lemma inv_reachable: "initial s \<Longrightarrow> step\<^sup>*\<^sup>* s t \<Longrightarrow> inv t"
  by (blast intro: inv_init inv_steps)

text \<open>A relation between two states that every step from a good state keeps, along a run.\<close>

lemma stable_steps:
  assumes "step\<^sup>*\<^sup>* s t" and "inv s"
    and "\<And>a b. inv a \<Longrightarrow> step a b \<Longrightarrow> P a \<Longrightarrow> P b" and "P s"
  shows "P t"
  using assms(1,2,4)
proof (induction rule: rtranclp_induct)
  case base
  then show ?case by simp
next
  case (step y z)
  then show ?case using assms(3) inv_steps by blast
qed

end

section \<open>Operation systems\<close>

text \<open>
  A component whose operations are functions of its state: what every operation keeps holds after any
  history of operations.
\<close>

locale op_system =
  fixes apply_op :: "'op \<Rightarrow> 's \<Rightarrow> 's"
    and inv :: "'s \<Rightarrow> bool"
  assumes op_keeps: "inv s \<Longrightarrow> inv (apply_op op s)"
begin

lemma history_keeps: "inv s \<Longrightarrow> inv (fold apply_op ops s)"
  by (induction ops arbitrary: s) (simp_all add: op_keeps)

text \<open>A fact every operation keeps on good states is kept by every history.\<close>

lemma history_stable:
  assumes "inv s" "P s" and "\<And>op a. inv a \<Longrightarrow> P a \<Longrightarrow> P (apply_op op a)"
  shows "P (fold apply_op ops s)"
  using assms(1,2)
proof (induction ops arbitrary: s)
  case (Cons op ops)
  then show ?case using assms(3) op_keeps by simp
qed simp

end

end
