(* ===== verification/Json.thy ===== *)
theory Json
  imports Prelude
begin

text \<open>
  The dynamic values of the backend: what \<open>json.loads\<close> returns and what the JSONB columns hold,
  with Python's truth value, equality and dictionary operations on them. A dictionary is the list
  of its items in insertion order. Floats are exact rationals, infinities and NaN: rounding of
  float arithmetic is not modelled.
\<close>

section \<open>Values\<close>

datatype pyfloat = Fin rat | PInf | NInf | NaN

datatype json =
    JNull
  | JBool bool
  | JInt int
  | JFloat pyfloat
  | JStr ustr
  | JList "json list"
  | JObj "(ustr \<times> json) list"

type_synonym dict = "(ustr \<times> json) list"

definition is_finite :: "pyfloat \<Rightarrow> bool" where
  "is_finite x = (case x of Fin _ \<Rightarrow> True | _ \<Rightarrow> False)"

text \<open>\<open>bool(x)\<close>.\<close>

fun truthy :: "json \<Rightarrow> bool" where
  "truthy JNull = False"
| "truthy (JBool b) = b"
| "truthy (JInt i) = (i \<noteq> 0)"
| "truthy (JFloat x) = (x \<noteq> Fin 0)"
| "truthy (JStr s) = (s \<noteq> [])"
| "truthy (JList xs) = (xs \<noteq> [])"
| "truthy (JObj kvs) = (kvs \<noteq> [])"

definition is_obj :: "json \<Rightarrow> bool" where
  "is_obj j = (case j of JObj _ \<Rightarrow> True | _ \<Rightarrow> False)"

definition is_list :: "json \<Rightarrow> bool" where
  "is_list j = (case j of JList _ \<Rightarrow> True | _ \<Rightarrow> False)"

definition is_str :: "json \<Rightarrow> bool" where
  "is_str j = (case j of JStr _ \<Rightarrow> True | _ \<Rightarrow> False)"

section \<open>Dictionaries\<close>

text \<open>\<open>d.get(k)\<close> with \<open>None\<close> and a missing key both read as \<open>JNull\<close>, as \<open>get\<close> does.\<close>

definition dget :: "dict \<Rightarrow> ustr \<Rightarrow> json" where
  "dget d k = (case map_of d k of None \<Rightarrow> JNull | Some v \<Rightarrow> v)"

definition dhas :: "dict \<Rightarrow> ustr \<Rightarrow> bool" where
  "dhas d k \<longleftrightarrow> map_of d k \<noteq> None"

text \<open>\<open>d[k] = v\<close>: in place for a present key, at the end for a new one.\<close>

fun dset :: "ustr \<Rightarrow> json \<Rightarrow> dict \<Rightarrow> dict" where
  "dset k v [] = [(k, v)]"
| "dset k v ((k', v') # d) = (if k' = k then (k, v) # d else (k', v') # dset k v d)"

definition dupdate :: "dict \<Rightarrow> dict \<Rightarrow> dict" where
  "dupdate d new = fold (\<lambda>(k, v). dset k v) new d"

lemma map_of_dset: "map_of (dset k v d) = (map_of d)(k \<mapsto> v)"
  by (induction k v d rule: dset.induct) auto

lemma dget_dset [row_simps]: "dget (dset k v d) k' = (if k' = k then v else dget d k')"
  by (simp add: dget_def map_of_dset)

lemma keys_dset: "set (map fst (dset k v d)) = insert k (set (map fst d))"
  by (induction k v d rule: dset.induct) auto

lemma distinct_dset: "distinct (map fst d) \<Longrightarrow> distinct (map fst (dset k v d))"
proof (induction k v d rule: dset.induct)
  case (2 k v k' v' d)
  then show ?case using keys_dset [of k v d] by auto
qed simp

text \<open>\<open>value.get(k)\<close> on a value known to be a dictionary; \<open>JNull\<close> otherwise.\<close>

definition jget :: "json \<Rightarrow> ustr \<Rightarrow> json" where
  "jget j k = (case j of JObj d \<Rightarrow> dget d k | _ \<Rightarrow> JNull)"

text \<open>The items of \<open>(value or {})\<close> for a dictionary column.\<close>

definition obj_items :: "json \<Rightarrow> dict" where
  "obj_items j = (case j of JObj d \<Rightarrow> d | _ \<Rightarrow> [])"

text \<open>\<open>list(x or [])\<close>: the items of a list, the keys of a dictionary, the characters of a string.\<close>

definition list_or_empty :: "json \<Rightarrow> json list res" where
  "list_or_empty j =
     (if \<not> truthy j then Inr []
      else case j of JList xs \<Rightarrow> Inr xs
           | JObj d \<Rightarrow> Inr (map (\<lambda>(k, _). JStr k) d)
           | JStr s \<Rightarrow> Inr (map (\<lambda>c. JStr [c]) s)
           | JInt i \<Rightarrow> Inl (TypeError (lit [CHR 0x27] @ lit ''int'' @ lit [CHR 0x27] @ lit '' object is not iterable''))
           | JBool b \<Rightarrow> Inl (TypeError (lit [CHR 0x27] @ lit ''bool'' @ lit [CHR 0x27] @ lit '' object is not iterable''))
           | _ \<Rightarrow> Inl (TypeError (lit [CHR 0x27] @ lit ''float'' @ lit [CHR 0x27] @ lit '' object is not iterable'')))"

lemma list_or_empty_JList [simp]: "list_or_empty (JList xs) = Inr xs"
  by (simp add: list_or_empty_def)

lemma list_or_empty_JNull [simp]: "list_or_empty JNull = Inr []"
  by (simp add: list_or_empty_def)

section \<open>Equality\<close>

text \<open>
  Python's \<open>==\<close>: booleans and numbers compare as numbers, NaN equals nothing, dictionaries
  compare without regard to order.
\<close>

fun num_of :: "json \<Rightarrow> pyfloat option" where
  "num_of (JBool b) = Some (Fin (if b then 1 else 0))"
| "num_of (JInt i) = Some (Fin (of_int i))"
| "num_of (JFloat x) = Some x"
| "num_of _ = None"

fun py_eq :: "json \<Rightarrow> json \<Rightarrow> bool"
  and py_eq_list :: "json list \<Rightarrow> json list \<Rightarrow> bool"
  and py_eq_items :: "dict \<Rightarrow> dict \<Rightarrow> bool"
where
  "py_eq (JList xs) b = (case b of JList ys \<Rightarrow> py_eq_list xs ys | _ \<Rightarrow> False)"
| "py_eq (JObj xs) b =
     (case b of JObj ys \<Rightarrow> length xs = length ys \<and> py_eq_items xs ys | _ \<Rightarrow> False)"
| "py_eq JNull b = (b = JNull)"
| "py_eq (JStr s) b = (b = JStr s)"
| "py_eq a b = (case (num_of a, num_of b) of (Some x, Some y) \<Rightarrow> x = y \<and> x \<noteq> NaN | _ \<Rightarrow> False)"
| "py_eq_list [] ys = (ys = [])"
| "py_eq_list (x # xs) ys = (case ys of [] \<Rightarrow> False | y # ys' \<Rightarrow> py_eq x y \<and> py_eq_list xs ys')"
| "py_eq_items [] ys = True"
| "py_eq_items ((k, v) # xs) ys =
     (case map_of ys k of None \<Rightarrow> False | Some w \<Rightarrow> py_eq v w \<and> py_eq_items xs ys)"

section \<open>Text\<close>

text \<open>\<open>loads\<close> stands for \<open>json.loads\<close>; it returns \<open>None\<close> where it raises \<open>JSONDecodeError\<close>.\<close>

type_synonym json_reader = "ustr \<Rightarrow> json option"

text \<open>
  \<open>str(value)\<close>. \<open>py_repr\<close> stands for Python's \<open>repr\<close> of a float, a list or a dictionary, an
  argument of the operations that render one.
\<close>

type_synonym py_repr = "json \<Rightarrow> ustr"

fun scalar_str :: "py_repr \<Rightarrow> json \<Rightarrow> ustr" where
  "scalar_str fr JNull = lit ''None''"
| "scalar_str fr (JBool b) = (if b then lit ''True'' else lit ''False'')"
| "scalar_str fr (JInt i) = show_int i"
| "scalar_str fr (JFloat x) = fr (JFloat x)"
| "scalar_str fr (JStr s) = s"
| "scalar_str fr (JList xs) = fr (JList xs)"
| "scalar_str fr (JObj d) = fr (JObj d)"

text \<open>\<open>str(value or default)\<close>.\<close>

definition str_or :: "py_repr \<Rightarrow> json \<Rightarrow> ustr \<Rightarrow> ustr" where
  "str_or fr j dflt = (if truthy j then scalar_str fr j else dflt)"

text \<open>\<open>json.dumps(value, ensure_ascii=False)\<close>.\<close>

definition escape_cp :: "nat \<Rightarrow> ustr" where
  "escape_cp c =
     (if c = 34 then [92, 34] else if c = 92 then [92, 92]
      else if c = 10 then lit [CHR 0x5C, CHR ''n''] else if c = 13 then lit [CHR 0x5C, CHR ''r'']
      else if c = 9 then lit [CHR 0x5C, CHR ''t''] else if c = 8 then lit [CHR 0x5C, CHR ''b'']
      else if c = 12 then lit [CHR 0x5C, CHR ''f'']
      else if c < 32 then lit [CHR 0x5C, CHR ''u'', CHR ''0'', CHR ''0''] @ [hex_digit (c div 16), hex_digit (c mod 16)]
      else [c])"

definition dumps_str :: "ustr \<Rightarrow> ustr" where
  "dumps_str s = [34] @ concat (map escape_cp s) @ [34]"

definition dumps_float :: "py_repr \<Rightarrow> pyfloat \<Rightarrow> ustr" where
  "dumps_float fr x = (case x of Fin _ \<Rightarrow> fr (JFloat x) | PInf \<Rightarrow> lit ''Infinity''
     | NInf \<Rightarrow> lit ''-Infinity'' | NaN \<Rightarrow> lit ''NaN'')"

fun dumps :: "py_repr \<Rightarrow> json \<Rightarrow> ustr"
  and dumps_list :: "py_repr \<Rightarrow> json list \<Rightarrow> ustr list"
  and dumps_items :: "py_repr \<Rightarrow> dict \<Rightarrow> ustr list"
where
  "dumps fr JNull = lit ''null''"
| "dumps fr (JBool b) = (if b then lit ''true'' else lit ''false'')"
| "dumps fr (JInt i) = show_int i"
| "dumps fr (JFloat x) = dumps_float fr x"
| "dumps fr (JStr s) = dumps_str s"
| "dumps fr (JList xs) = lit ''['' @ join (lit '', '') (dumps_list fr xs) @ lit '']''"
| "dumps fr (JObj d) = lit ''{'' @ join (lit '', '') (dumps_items fr d) @ lit ''}''"
| "dumps_list fr [] = []"
| "dumps_list fr (x # xs) = dumps fr x # dumps_list fr xs"
| "dumps_items fr [] = []"
| "dumps_items fr ((k, v) # d) = (dumps_str k @ lit '': '' @ dumps fr v) # dumps_items fr d"

end
