(* ===== verification/Db_Model.thy ===== *)
theory Db_Model
  imports Json
begin

text \<open>
  The data model (\<open>backend/app/models\<close>): one record per table with the columns of the ORM class,
  the task status machine of \<open>models/task.py\<close>, and the database as the record of its tables.
  A JSONB column whose keys the code fixes is a record of its own (approvals, memory cursor, tool
  calls); a free one is a \<open>json\<close> value.
\<close>

section \<open>Tasks\<close>

datatype task_status = Queued | Running | Succeeded | Failed | Cancelled_st | Stale

datatype task_kind = Manual | Agent

definition task_statuses :: "task_status list" where
  "task_statuses = [Queued, Running, Succeeded, Failed, Cancelled_st, Stale]"

fun status_str :: "task_status \<Rightarrow> ustr" where
  "status_str Queued = lit ''queued''"
| "status_str Running = lit ''running''"
| "status_str Succeeded = lit ''succeeded''"
| "status_str Failed = lit ''failed''"
| "status_str Cancelled_st = lit ''cancelled''"
| "status_str Stale = lit ''stale''"

definition parse_status :: "ustr \<Rightarrow> task_status option" where
  "parse_status s = find (\<lambda>st. status_str st = s) task_statuses"

definition is_valid_task_status :: "ustr \<Rightarrow> bool" where
  "is_valid_task_status s \<longleftrightarrow> s \<in> set (map status_str task_statuses)"

definition terminal_task_statuses :: "task_status list" where
  "terminal_task_statuses = [Succeeded, Failed, Cancelled_st, Stale]"

fun task_status_transitions :: "task_status \<Rightarrow> task_status list" where
  "task_status_transitions Queued = [Queued, Running, Failed, Cancelled_st]"
| "task_status_transitions Running = [Running, Succeeded, Failed, Cancelled_st, Stale]"
| "task_status_transitions Succeeded = [Succeeded]"
| "task_status_transitions Failed = [Failed]"
| "task_status_transitions Cancelled_st = [Cancelled_st]"
| "task_status_transitions Stale = [Stale]"

definition is_valid_task_status_transition :: "task_status \<Rightarrow> task_status \<Rightarrow> bool" where
  "is_valid_task_status_transition current nxt \<longleftrightarrow> nxt \<in> set (task_status_transitions current)"

definition is_terminal :: "task_status \<Rightarrow> bool" where
  "is_terminal st \<longleftrightarrow> st \<in> set terminal_task_statuses"

lemma is_terminal_simps [simp]:
  "\<not> is_terminal Queued" "\<not> is_terminal Running" "is_terminal Succeeded" "is_terminal Failed"
  "is_terminal Cancelled_st" "is_terminal Stale"
  by (simp_all add: is_terminal_def terminal_task_statuses_def)

record task =
  t_id :: uuid
  t_user_id :: "uuid option"
  t_conversation_id :: "uuid option"
  t_schedule_id :: "uuid option"
  t_name :: ustr
  t_kind :: task_kind
  t_prompt :: "ustr option"
  t_status :: task_status
  t_progress :: int
  t_error :: "ustr option"
  t_result :: "json option"
  t_trace_id :: "ustr option"
  t_idempotency_key :: "ustr option"
  t_attempt_count :: int
  t_max_attempts :: int
  t_next_attempt_at :: "time option"
  t_heartbeat_at :: "time option"
  t_lease_expires_at :: "time option"
  t_run_token :: "uuid option"
  t_timeout_seconds :: int
  t_deadline_at :: "time option"
  t_replay_blocked_at :: "time option"
  t_replay_blocked_reason :: "ustr option"
  t_metadata :: json
  t_created_at :: time
  t_started_at :: "time option"
  t_finished_at :: "time option"

section \<open>Schedules\<close>

datatype schedule_kind = Once | Interval | Daily

record task_schedule =
  sc_id :: uuid
  sc_user_id :: uuid
  sc_conversation_id :: "uuid option"
  sc_name :: ustr
  sc_prompt :: ustr
  sc_kind :: schedule_kind
  sc_timezone :: ustr
  sc_run_at :: "time option"
  sc_interval_seconds :: "int option"
  sc_daily_time :: "ustr option"
  sc_max_attempts :: int
  sc_next_run_at :: "time option"
  sc_last_run_at :: "time option"
  sc_last_task_id :: "uuid option"
  sc_enabled :: bool
  sc_misfire_grace_seconds :: int
  sc_last_dispatch_status :: "ustr option"
  sc_last_dispatch_at :: "time option"
  sc_last_dispatch_error :: "ustr option"
  sc_created_at :: time

section \<open>Users and sessions\<close>

record user =
  us_id :: uuid
  us_username :: ustr
  us_username_normalized :: ustr
  us_password_hash :: ustr

record user_session =
  ss_id :: uuid
  ss_user_id :: uuid
  ss_token_hash :: ustr
  ss_expires_at :: time
  ss_last_seen_at :: time
  ss_revoked_at :: "time option"
  ss_created_at :: time

record auth_rate_limit =
  rl_key :: ustr
  rl_count :: int
  rl_reset_at :: time

section \<open>Conversations\<close>

text \<open>The result of a tool run (\<open>ToolRunResponse\<close>), stored with the tool call.\<close>

record tool_response =
  tr_tool_name :: ustr
  tr_provider :: ustr
  tr_provider_tool_id :: "ustr option"
  tr_server_name :: "ustr option"
  tr_status :: ustr
  tr_output :: json
  tr_output_summary :: "ustr option"
  tr_error :: "ustr option"
  tr_trace_id :: ustr

record search_target =
  st_url :: ustr
  st_title :: ustr
  st_snippet :: ustr

datatype approval_status = Pending | Approved | Completed | ACancelled | Expired | Interrupted

record tool_call_entry =
  tc_tool_name :: ustr
  tc_provider :: ustr
  tc_provider_tool_id :: "ustr option"
  tc_server_name :: "ustr option"
  tc_arguments :: dict
  tc_reason :: ustr
  tc_requires_confirmation :: bool
  tc_search_enrichment :: bool
  tc_search_target :: "search_target option"
  tc_result :: tool_response
  tc_approval_id :: "uuid option"
  tc_approval_status :: "approval_status option"
  tc_approval_expires_at :: "time option"
  tc_approval_error :: "ustr option"

record approval =
  ap_status :: approval_status
  ap_expires_at :: time
  ap_tool_name :: ustr
  ap_arguments :: dict
  ap_message :: ustr
  ap_reason :: ustr
  ap_task_type :: ustr
  ap_updated_at :: "time option"
  ap_error :: "ustr option"

record continuation =
  cn_citations :: "json list"
  cn_mcp_resources :: "json list"
  cn_mcp_prompts :: "json list"
  cn_observations :: "ustr list"
  cn_tool_calls :: "tool_call_entry list"
  cn_search_fetch_targets :: "search_target list"

text \<open>\<open>Message.role\<close> takes two values; the metadata keys the code reads back are columns here.\<close>

datatype role = UserRole | AssistantRole

record message =
  m_id :: uuid
  m_conversation_id :: uuid
  m_role :: role
  m_content :: ustr
  m_model_name :: "ustr option"
  m_created_at :: time
  m_agent_task_id :: "uuid option"
  m_tool_calls :: "tool_call_entry list"
  m_continuation :: "continuation option"
  m_approval :: "approval option"
  m_metadata :: json

text \<open>The memory cursor: absent, the boundary of a forgotten summary, or a message position.\<close>

datatype cursor =
    NoCursor
  | AfterTime time
  | AtMessage (cur_message_id: uuid) (cur_created_at: time) (cur_offset: nat) (cur_message_count: nat)

record conversation =
  c_id :: uuid
  c_user_id :: "uuid option"
  c_title :: ustr
  c_memory_cursor :: cursor
  c_updated_at :: time

record memory_summary =
  ms_id :: uuid
  ms_conversation_id :: uuid
  ms_summary :: ustr
  ms_valid_from :: "time option"
  ms_valid_to :: "time option"
  ms_created_at :: time
  ms_updated_at :: time

definition memory_summary_disabled :: "memory_summary \<Rightarrow> bool" where
  "memory_summary_disabled s \<longleftrightarrow> ms_valid_to s \<noteq> None"

section \<open>Tool audit and knowledge\<close>

record tool_call_row =
  tl_id :: uuid
  tl_user_id :: "uuid option"
  tl_conversation_id :: "uuid option"
  tl_task_id :: "uuid option"
  tl_tool_name :: ustr
  tl_provider :: ustr
  tl_status :: ustr
  tl_input :: dict
  tl_input_summary :: "ustr option"
  tl_output_summary :: "ustr option"
  tl_error :: "ustr option"
  tl_trace_id :: ustr

record knowledge_document =
  kd_id :: uuid
  kd_user_id :: "uuid option"
  kd_conversation_id :: "uuid option"
  kd_title :: ustr
  kd_source_type :: ustr
  kd_source_uri :: "ustr option"
  kd_status :: ustr
  kd_metadata :: dict
  kd_created_at :: time

definition retrieval_mode :: "knowledge_document \<Rightarrow> json" where
  "retrieval_mode d = (case map_of (kd_metadata d) (lit ''retrieval_mode'') of
     None \<Rightarrow> JStr (lit ''legacy'') | Some v \<Rightarrow> v)"

record knowledge_chunk =
  kc_id :: uuid
  kc_document_id :: uuid
  kc_chunk_index :: nat
  kc_content :: ustr
  kc_embedding :: "rat list option"
  kc_metadata :: dict

section \<open>The database\<close>

record db =
  db_users :: "user list"
  db_sessions :: "user_session list"
  db_rate_limits :: "auth_rate_limit list"
  db_conversations :: "conversation list"
  db_messages :: "message list"
  db_summaries :: "memory_summary list"
  db_tasks :: "task list"
  db_schedules :: "task_schedule list"
  db_tool_calls :: "tool_call_row list"
  db_documents :: "knowledge_document list"
  db_chunks :: "knowledge_chunk list"

definition empty_db :: db where
  "empty_db = \<lparr>db_users = [], db_sessions = [], db_rate_limits = [], db_conversations = [],
     db_messages = [], db_summaries = [], db_tasks = [], db_schedules = [], db_tool_calls = [],
     db_documents = [], db_chunks = []\<rparr>"

text \<open>Reading and writing one task row of the database; writing back is the commit.\<close>

definition get_task :: "uuid \<Rightarrow> db \<Rightarrow> task option" where
  "get_task i d = find_row t_id i (db_tasks d)"

definition put_task :: "task \<Rightarrow> db \<Rightarrow> db" where
  "put_task t d = d\<lparr>db_tasks := put_row t_id t (db_tasks d)\<rparr>"

lemma get_put_task [row_simps]:
  "get_task i (put_task t d) =
     (if i = t_id t then map_option (\<lambda>_. t) (get_task i d) else get_task i d)"
  by (simp add: get_task_def put_task_def find_put_row)

lemma get_task_id: "get_task i d = Some t \<Longrightarrow> t_id t = i"
  unfolding get_task_def by (rule find_row_Some(2))

lemma get_task_mem: "get_task i d = Some t \<Longrightarrow> t \<in> set (db_tasks d)"
  unfolding get_task_def by (rule find_row_Some(1))

interpretation tasks: keyed_store get_task put_task t_id
  by unfold_locales (auto simp: get_put_task dest: get_task_id)

section \<open>The status machine\<close>

text \<open>Terminal statuses are exactly those with no way out, and every other status can end.\<close>

lemma terminal_iff_absorbing:
  "is_terminal st \<longleftrightarrow> (\<forall>nxt. is_valid_task_status_transition st nxt \<longrightarrow> nxt = st)"
  by (cases st) (auto simp: is_valid_task_status_transition_def)

lemma status_str_inj: "status_str a = status_str b \<Longrightarrow> a = b"
  by (cases a; cases b) auto

lemma parse_status_str [simp]: "parse_status (status_str st) = Some st"
  by (cases st) (auto simp: parse_status_def task_statuses_def)

lemma parse_status_Some: "parse_status s = Some st \<Longrightarrow> status_str st = s"
  by (auto simp: parse_status_def find_Some_iff)

end
