(* ===== verification/Task_Lease.thy ===== *)
theory Task_Lease
  imports Db_Model
begin

text \<open>
  Execution fencing (\<open>services/task_lease.py\<close>): a worker may write a background task only while it
  holds the task's live lease. The token stored in the row decides, not process-local state:
  \<open>lock_task_lease\<close> reads the row under lock and raises \<open>TaskLeaseLost\<close> when the caller's token is
  not the row's, the task is not running, or (for \<open>live\<close>) the lease or the deadline has passed.
\<close>

record lease =
  l_task_id :: uuid
  l_token :: uuid

definition replay_blocked_error :: ustr where
  "replay_blocked_error = lit ''Execution stopped after a tool dispatch or saved answer. Automatic retry is disabled; review the conversation and tool history before starting a new task.''"

text \<open>The disjunction that makes \<open>lock_task_lease\<close> raise.\<close>

definition lease_lost :: "lease \<Rightarrow> bool \<Rightarrow> time \<Rightarrow> task \<Rightarrow> bool" where
  "lease_lost l live now t \<longleftrightarrow>
     t_status t \<noteq> Running \<or> t_run_token t \<noteq> Some (l_token l)
     \<or> (live \<and> (case t_lease_expires_at t of None \<Rightarrow> True | Some e \<Rightarrow> e \<le> now))
     \<or> (live \<and> (case t_deadline_at t of None \<Rightarrow> False | Some e \<Rightarrow> e \<le> now))"

text \<open>
  \<open>current\<close> is the value of the context variable: \<open>None\<close> outside a worker, where no fencing
  applies and no task is returned.
\<close>

definition lock_task_lease :: "lease option \<Rightarrow> bool \<Rightarrow> time \<Rightarrow> db \<Rightarrow> task option res" where
  "lock_task_lease current live now d =
     (case current of
        None \<Rightarrow> Inr None
      | Some l \<Rightarrow>
          (case get_task (l_task_id l) d of
             None \<Rightarrow> Inl TaskLeaseLost
           | Some t \<Rightarrow> if lease_lost l live now t then Inl TaskLeaseLost else Inr (Some t)))"

definition block_replay :: "time \<Rightarrow> ustr \<Rightarrow> task \<Rightarrow> task" where
  "block_replay now reason t = t\<lparr>
     t_replay_blocked_at := (case t_replay_blocked_at t of None \<Rightarrow> Some now | Some x \<Rightarrow> Some x),
     t_replay_blocked_reason :=
       (case t_replay_blocked_reason t of Some r \<Rightarrow> (if r = [] then Some reason else Some r)
        | None \<Rightarrow> Some reason)\<rparr>"

text \<open>The transaction every holder of a lease runs: lock, change the row, commit.\<close>

definition with_task_lease ::
  "lease \<Rightarrow> bool \<Rightarrow> time \<Rightarrow> (task \<Rightarrow> task res) \<Rightarrow> db \<Rightarrow> db \<times> unit res" where
  "with_task_lease l live now f d =
     (case lock_task_lease (Some l) live now d of
        Inl e \<Rightarrow> (d, Inl e)
      | Inr None \<Rightarrow> (d, Inr ())
      | Inr (Some t) \<Rightarrow> (case f t of Inl e \<Rightarrow> (d, Inl e) | Inr t' \<Rightarrow> (put_task t' d, Inr ())))"

section \<open>Ownership\<close>

text \<open>A token owns a task when the row is running under it, expired or not.\<close>

definition owns :: "lease \<Rightarrow> db \<Rightarrow> bool" where
  "owns l d \<longleftrightarrow> (case get_task (l_task_id l) d of None \<Rightarrow> False
     | Some t \<Rightarrow> t_status t = Running \<and> t_run_token t = Some (l_token l))"

lemma lock_ok_iff [guard_simps]:
  "lock_task_lease (Some l) live now d = Inr (Some t) \<longleftrightarrow>
     get_task (l_task_id l) d = Some t \<and> \<not> lease_lost l live now t"
  by (auto simp: lock_task_lease_def split: option.splits)

lemma lock_never_anonymous: "lock_task_lease (Some l) live now d \<noteq> Inr None"
  by (auto simp: lock_task_lease_def split: option.splits)

lemma lock_lost_iff:
  "lock_task_lease (Some l) live now d = Inl e \<longleftrightarrow>
     e = TaskLeaseLost \<and>
     (case get_task (l_task_id l) d of None \<Rightarrow> True | Some t \<Rightarrow> lease_lost l live now t)"
  by (auto simp: lock_task_lease_def split: option.splits)

lemma lease_lost_mono: "lease_lost l False now t \<Longrightarrow> lease_lost l live now t"
  by (auto simp: lease_lost_def)

lemma lock_ok_owns: "lock_task_lease (Some l) live now d = Inr (Some t) \<Longrightarrow> owns l d"
  by (auto simp: guard_simps owns_def lease_lost_def)

lemma lock_not_owner: "\<not> owns l d \<Longrightarrow> lock_task_lease (Some l) live now d = Inl TaskLeaseLost"
  by (auto simp: owns_def lock_lost_iff lease_lost_def split: option.splits)

lemma lock_live_deadline:
  "lock_task_lease (Some l) True now d = Inr (Some t) \<Longrightarrow>
   (\<exists>e. t_lease_expires_at t = Some e \<and> now < e)
   \<and> (\<forall>x. t_deadline_at t = Some x \<longrightarrow> now < x)"
  by (auto simp: guard_simps lease_lost_def split: option.splits)

lemma owns_unique:
  "owns l d \<Longrightarrow> owns l' d \<Longrightarrow> l_task_id l = l_task_id l' \<Longrightarrow> l = l'"
  by (auto simp: owns_def split: option.splits)

lemma with_task_lease_cases:
  assumes "with_task_lease l live now f d = (d', r)"
  obtains (lost) "d' = d" "r = Inl TaskLeaseLost"
  | (failed) t e where "get_task (l_task_id l) d = Some t" "\<not> lease_lost l live now t"
      "f t = Inl e" "d' = d" "r = Inl e"
  | (written) t t' where "get_task (l_task_id l) d = Some t" "\<not> lease_lost l live now t"
      "f t = Inr t'" "d' = put_task t' d" "r = Inr ()"
proof (cases "lock_task_lease (Some l) live now d")
  case (Inl e)
  with assms lost show ?thesis by (auto simp: with_task_lease_def lock_lost_iff)
next
  case (Inr o')
  then obtain t where t: "lock_task_lease (Some l) live now d = Inr (Some t)"
    by (cases o') (auto simp: lock_never_anonymous)
  then have t': "get_task (l_task_id l) d = Some t" "\<not> lease_lost l live now t"
    by (simp_all add: guard_simps)
  show ?thesis
  proof (cases "f t")
    case (Inl e)
    with t' assms show ?thesis by (intro failed) (auto simp: with_task_lease_def t)
  next
    case (Inr t2)
    with t' assms show ?thesis by (intro written) (auto simp: with_task_lease_def t)
  qed
qed

text \<open>
  The interface the writers rely on: a denied write changes nothing, a write changes the row of
  its own task only, and at most one lease of a task is the owner.
\<close>

locale fence =
  fixes owner :: "'l \<Rightarrow> 's \<Rightarrow> bool"
    and put :: "'l \<Rightarrow> 'c \<Rightarrow> 's \<Rightarrow> 's \<times> unit res"
    and row_of :: "'k \<Rightarrow> 's \<Rightarrow> 'r option"
    and target :: "'l \<Rightarrow> 'k"
  assumes denied: "\<not> owner l s \<Longrightarrow> put l c s = (s, Inl TaskLeaseLost)"
    and frame: "k \<noteq> target l \<Longrightarrow> row_of k (fst (put l c s)) = row_of k s"
    and exclusive: "owner l s \<Longrightarrow> owner l' s \<Longrightarrow> target l = target l' \<Longrightarrow> l = l'"
begin

lemma denied_unchanged: "\<not> owner l s \<Longrightarrow> fst (put l c s) = s"
  by (simp add: denied)

lemma loser_cannot_write:
  "owner l s \<Longrightarrow> target l' = target l \<Longrightarrow> l' \<noteq> l \<Longrightarrow> put l' c s = (s, Inl TaskLeaseLost)"
  using exclusive denied by metis

fun writes :: "'l \<Rightarrow> 'c list \<Rightarrow> 's \<Rightarrow> 's" where
  "writes l [] s = s"
| "writes l (c # cs) s = writes l cs (fst (put l c s))"

lemma denied_run: "\<not> owner l s \<Longrightarrow> writes l cs s = s"
  by (induction cs) (simp_all add: denied)

lemma writes_frame: "k \<noteq> target l \<Longrightarrow> row_of k (writes l cs s) = row_of k s"
  by (induction cs arbitrary: s) (simp_all add: frame)

end

text \<open>A command of the fence is a row change together with its time and liveness.\<close>

definition lease_write :: "lease \<Rightarrow> bool \<times> time \<times> (task \<Rightarrow> task res) \<Rightarrow> db \<Rightarrow> db \<times> unit res" where
  "lease_write l c d = (case c of (live, now, f) \<Rightarrow>
     with_task_lease l live now (\<lambda>t. case f t of Inl e \<Rightarrow> Inl e | Inr t' \<Rightarrow> Inr (t'\<lparr>t_id := t_id t\<rparr>)) d)"

interpretation lease_fence: fence owns lease_write get_task l_task_id
proof unfold_locales
  fix l :: lease and d and c :: "bool \<times> time \<times> (task \<Rightarrow> task res)"
  assume "\<not> owns l d"
  then show "lease_write l c d = (d, Inl TaskLeaseLost)"
    by (cases c) (auto simp: lease_write_def with_task_lease_def lock_not_owner)
next
  fix k and l :: lease and d and c :: "bool \<times> time \<times> (task \<Rightarrow> task res)"
  assume k: "k \<noteq> l_task_id l"
  obtain live now f where c: "c = (live, now, f)" by (cases c) auto
  obtain d' r where w: "lease_write l c d = (d', r)" by fastforce
  then have "with_task_lease l live now
      (\<lambda>t. case f t of Inl e \<Rightarrow> Inl e | Inr t' \<Rightarrow> Inr (t'\<lparr>t_id := t_id t\<rparr>)) d = (d', r)"
    by (simp add: lease_write_def c)
  then have "get_task k d' = get_task k d"
    using k by (cases rule: with_task_lease_cases)
      (auto simp: get_put_task dest: get_task_id split: sum.splits)
  then show "get_task k (fst (lease_write l c d)) = get_task k d"
    by (simp add: w)
next
  fix l l' :: lease and d :: db
  assume "owns l d" "owns l' d" "l_task_id l = l_task_id l'"
  then show "l = l'" by (rule owns_unique)
qed

end
