(* ===== verification/Task_Invariant.thy ===== *)
theory Task_Invariant
  imports Task_Lease
begin

text \<open>
  What every operation on background tasks keeps: the relation between a task's status and its
  lease, deadline, attempt budget, replay block and progress. It is stated per row and lifted to
  the table; the lemmas reduce an operation of the worker, the scheduler or the API to one
  obligation on the row it writes.
\<close>

definition agent_task_ok :: "task \<Rightarrow> bool" where
  "agent_task_ok t \<longleftrightarrow>
     (t_run_token t \<noteq> None \<longleftrightarrow> t_status t = Running)
     \<and> (t_lease_expires_at t \<noteq> None \<longleftrightarrow> t_status t = Running)
     \<and> (t_status t = Running \<longrightarrow>
          (case (t_deadline_at t, t_lease_expires_at t) of
             (Some x, Some e) \<Rightarrow> e \<le> x | _ \<Rightarrow> False) \<and> 1 \<le> t_attempt_count t
          \<and> t_next_attempt_at t = None)
     \<and> (t_status t = Queued \<longrightarrow> t_replay_blocked_at t = None \<and> t_finished_at t = None)
     \<and> (is_terminal (t_status t) \<longrightarrow> t_finished_at t \<noteq> None \<and> t_next_attempt_at t = None)
     \<and> 0 \<le> t_attempt_count t \<and> t_attempt_count t \<le> t_max_attempts t
     \<and> 0 \<le> t_progress t
     \<and> t_progress t \<le> (if t_status t = Succeeded then 100 else 95)"

definition task_ok :: "task \<Rightarrow> bool" where
  "task_ok t \<longleftrightarrow> (t_kind t = Agent \<longrightarrow> agent_task_ok t) \<and> (t_kind t = Manual \<longrightarrow> t_run_token t = None)"

definition tasks_ok :: "db \<Rightarrow> bool" where
  "tasks_ok d \<longleftrightarrow> keys_distinct t_id (db_tasks d) \<and> list_all task_ok (db_tasks d)"

lemma tasks_ok_get: "tasks_ok d \<Longrightarrow> get_task i d = Some t \<Longrightarrow> task_ok t"
  by (auto simp: tasks_ok_def list_all_iff dest: get_task_mem)

lemma tasks_ok_put: "tasks_ok d \<Longrightarrow> task_ok t \<Longrightarrow> tasks_ok (put_task t d)"
  unfolding tasks_ok_def put_task_def list_all_iff
  using set_put_row [of _ t_id t "db_tasks d"] by (auto simp: keys_distinct_put_row)

lemma tasks_ok_frame: "db_tasks d' = db_tasks d \<Longrightarrow> tasks_ok d' = tasks_ok d"
  by (simp add: tasks_ok_def)

lemma tasks_ok_append:
  "tasks_ok d \<Longrightarrow> task_ok t \<Longrightarrow> get_task (t_id t) d = None \<Longrightarrow>
   tasks_ok (d\<lparr>db_tasks := db_tasks d @ [t]\<rparr>)"
  by (auto simp: tasks_ok_def keys_distinct_append get_task_def find_row_None_iff)

lemma tasks_ok_with_lease:
  assumes ok: "tasks_ok d" and w: "with_task_lease l live now f d = (d', r)"
    and f: "\<And>t t'. task_ok t \<Longrightarrow> \<not> lease_lost l live now t \<Longrightarrow> f t = Inr t' \<Longrightarrow> task_ok t'"
  shows "tasks_ok d'"
  using w
proof (cases rule: with_task_lease_cases)
  case (written t t')
  with ok have "task_ok t" by (blast intro: tasks_ok_get)
  with written f have "task_ok t'" by blast
  with ok written show ?thesis by (simp add: tasks_ok_put)
qed (use ok in simp_all)

text \<open>A running row under the invariant has its deadline and an unexpired claim to write down.\<close>

lemma running_bounds:
  "agent_task_ok t \<Longrightarrow> t_status t = Running \<Longrightarrow>
   \<exists>x e. t_deadline_at t = Some x \<and> t_lease_expires_at t = Some e \<and> e \<le> x"
  by (auto simp: agent_task_ok_def split: option.splits)

lemma queued_not_blocked: "agent_task_ok t \<Longrightarrow> t_status t = Queued \<Longrightarrow> t_replay_blocked_at t = None"
  by (simp add: agent_task_ok_def)

text \<open>The database changes of the other components that leave every task row alone.\<close>

lemma tasks_ok_other_tables [simp]:
  "tasks_ok (d\<lparr>db_conversations := c\<rparr>) = tasks_ok d"
  "tasks_ok (d\<lparr>db_messages := m\<rparr>) = tasks_ok d"
  "tasks_ok (d\<lparr>db_schedules := s\<rparr>) = tasks_ok d"
  "tasks_ok (d\<lparr>db_tool_calls := x\<rparr>) = tasks_ok d"
  by (simp_all add: tasks_ok_def)

lemma get_task_other_tables [simp]:
  "get_task i (d\<lparr>db_conversations := c\<rparr>) = get_task i d"
  "get_task i (d\<lparr>db_messages := m\<rparr>) = get_task i d"
  "get_task i (d\<lparr>db_schedules := s\<rparr>) = get_task i d"
  "get_task i (d\<lparr>db_tool_calls := x\<rparr>) = get_task i d"
  by (simp_all add: get_task_def)

text \<open>A queued background task as \<open>create_agent_task\<close> makes it, for evaluation on concrete input.\<close>

definition demo_task :: "uuid \<Rightarrow> task" where
  "demo_task i = \<lparr>t_id = i, t_user_id = Some (UUID 7), t_conversation_id = Some (UUID 8),
     t_schedule_id = None, t_name = lit ''demo'', t_kind = Agent, t_prompt = Some (lit ''hello''),
     t_status = Queued, t_progress = 0, t_error = None, t_result = None, t_trace_id = None,
     t_idempotency_key = None, t_attempt_count = 0, t_max_attempts = 3,
     t_next_attempt_at = Some 0, t_heartbeat_at = None, t_lease_expires_at = None,
     t_run_token = None, t_timeout_seconds = 180, t_deadline_at = Some (seconds 900),
     t_replay_blocked_at = None, t_replay_blocked_reason = None,
     t_metadata = JObj [(lit ''events'', JList [])], t_created_at = 0, t_started_at = None,
     t_finished_at = None\<rparr>"

definition demo_db :: "task list \<Rightarrow> db" where
  "demo_db ts = empty_db\<lparr>db_tasks := ts\<rparr>"

lemma demo_get [simp]: "get_task i (demo_db [t]) = (if t_id t = i then Some t else None)"
  by (simp add: get_task_def demo_db_def find_row_def)

lemma demo_tasks_ok: "tasks_ok (demo_db [demo_task i])"
  by (simp add: tasks_ok_def demo_db_def keys_distinct_def task_ok_def agent_task_ok_def demo_task_def)

end
