(* ===== verification/Config.thy ===== *)
theory Config
  imports Json
begin

text \<open>
  The settings of \<open>backend/app/core/config.py\<close> that the modelled code reads, one record per group,
  with their defaults and the bounds pydantic enforces on them (\<open>Field(ge=..., le=...)\<close>).
  Durations given as floats are rationals.
\<close>

record auth_settings =
  agent_access_token :: ustr
  auth_session_ttl_seconds :: int
  auth_session_idle_seconds :: int
  auth_max_sessions :: int
  auth_rate_window_seconds :: int
  auth_rate_ip_limit :: int
  auth_rate_account_limit :: int

record model_settings =
  openai_api_key :: ustr
  openai_base_url :: ustr
  openai_embedding_model :: ustr
  deepseek_api_key :: ustr
  llm_provider :: ustr
  llm_api_key :: ustr
  llm_api_key_required :: bool
  llm_base_url :: ustr
  llm_chat_model :: ustr
  llm_request_timeout_seconds :: rat
  llm_connect_timeout_seconds :: rat
  llm_max_retries :: nat
  llm_retry_base_seconds :: rat
  llm_retry_max_seconds :: rat
  llm_max_output_tokens :: int
  llm_output_token_parameter :: ustr
  llm_reasoning_effort :: "ustr option"
  embedding_dimensions :: nat
  embedding_batch_size :: nat

record rag_settings =
  rag_rerank_mode :: ustr
  rag_rerank_url :: ustr
  rag_rerank_model :: ustr
  rag_rerank_api_key :: ustr
  rag_rerank_timeout_seconds :: rat
  rag_rerank_candidates :: nat

record agent_settings =
  agent_memory_message_limit :: int
  agent_memory_timeout_seconds :: rat
  agent_memory_input_max_chars :: nat
  agent_run_timeout_seconds :: rat
  agent_retrieval_timeout_seconds :: rat
  agent_context_max_chars :: nat
  agent_approval_ttl_seconds :: int
  agent_task_max_concurrency :: int
  agent_task_default_max_attempts :: int
  agent_task_retry_base_seconds :: int
  agent_task_lease_seconds :: int
  agent_task_heartbeat_seconds :: int
  task_schedule_poll_seconds :: int

record tool_settings =
  tool_timeout_seconds :: int
  max_tool_output_chars :: int
  web_search_provider :: ustr
  web_search_api_key :: ustr
  web_search_base_url :: ustr
  web_search_max_results :: int
  web_search_timeout_seconds :: int

record mcp_settings =
  mcp_enabled :: bool
  mcp_server_enabled :: bool
  mcp_client_enabled :: bool
  mcp_allowed_transports :: "ustr list"
  mcp_max_tool_timeout_seconds :: int
  mcp_remote_enabled :: bool
  mcp_require_confirmation_by_default :: bool
  mcp_access_policy :: ustr
  mcp_server_bind_host :: ustr
  mcp_max_concurrent_tool_calls :: int

definition default_auth_settings :: auth_settings where
  "default_auth_settings = \<lparr>
     agent_access_token = [], auth_session_ttl_seconds = 604800,
     auth_session_idle_seconds = 86400, auth_max_sessions = 5, auth_rate_window_seconds = 60,
     auth_rate_ip_limit = 30, auth_rate_account_limit = 10\<rparr>"

definition default_model_settings :: model_settings where
  "default_model_settings = \<lparr>
     openai_api_key = [], openai_base_url = lit ''https://api.openai.com/v1'',
     openai_embedding_model = lit ''text-embedding-3-small'', deepseek_api_key = [],
     llm_provider = lit ''deepseek'', llm_api_key = [], llm_api_key_required = True,
     llm_base_url = lit ''https://api.deepseek.com'', llm_chat_model = lit ''deepseek-v4-pro'',
     llm_request_timeout_seconds = 120, llm_connect_timeout_seconds = 10, llm_max_retries = 2,
     llm_retry_base_seconds = 1 / 2, llm_retry_max_seconds = 8, llm_max_output_tokens = 4096,
     llm_output_token_parameter = lit ''max_tokens'', llm_reasoning_effort = None,
     embedding_dimensions = 1536, embedding_batch_size = 64\<rparr>"

definition default_rag_settings :: rag_settings where
  "default_rag_settings = \<lparr>
     rag_rerank_mode = lit ''local'', rag_rerank_url = [],
     rag_rerank_model = lit ''jina-reranker-v3.5'', rag_rerank_api_key = [],
     rag_rerank_timeout_seconds = 3, rag_rerank_candidates = 24\<rparr>"

definition default_agent_settings :: agent_settings where
  "default_agent_settings = \<lparr>
     agent_memory_message_limit = 12, agent_memory_timeout_seconds = 15,
     agent_memory_input_max_chars = 16000, agent_run_timeout_seconds = 180,
     agent_retrieval_timeout_seconds = 12, agent_context_max_chars = 48000,
     agent_approval_ttl_seconds = 86400, agent_task_max_concurrency = 2,
     agent_task_default_max_attempts = 3, agent_task_retry_base_seconds = 5,
     agent_task_lease_seconds = 180, agent_task_heartbeat_seconds = 15,
     task_schedule_poll_seconds = 5\<rparr>"

definition default_tool_settings :: tool_settings where
  "default_tool_settings = \<lparr>
     tool_timeout_seconds = 30, max_tool_output_chars = 8000,
     web_search_provider = lit ''disabled'', web_search_api_key = [], web_search_base_url = [],
     web_search_max_results = 5, web_search_timeout_seconds = 10\<rparr>"

definition default_mcp_settings :: mcp_settings where
  "default_mcp_settings = \<lparr>
     mcp_enabled = True, mcp_server_enabled = True, mcp_client_enabled = True,
     mcp_allowed_transports = [lit ''stdio'', lit ''http'', lit ''streamable-http''],
     mcp_max_tool_timeout_seconds = 30, mcp_remote_enabled = False,
     mcp_require_confirmation_by_default = True, mcp_access_policy = lit ''local-only'',
     mcp_server_bind_host = lit ''127.0.0.1'', mcp_max_concurrent_tool_calls = 4\<rparr>"

text \<open>The bounds of the fields, as pydantic checks them at start-up.\<close>

definition valid_auth_settings :: "auth_settings \<Rightarrow> bool" where
  "valid_auth_settings s \<longleftrightarrow>
     60 \<le> auth_session_ttl_seconds s \<and> auth_session_ttl_seconds s \<le> 2592000
     \<and> 60 \<le> auth_session_idle_seconds s \<and> auth_session_idle_seconds s \<le> 2592000
     \<and> 1 \<le> auth_max_sessions s \<and> auth_max_sessions s \<le> 100
     \<and> 1 \<le> auth_rate_window_seconds s \<and> auth_rate_window_seconds s \<le> 3600
     \<and> 1 \<le> auth_rate_ip_limit s \<and> auth_rate_ip_limit s \<le> 10000
     \<and> 1 \<le> auth_rate_account_limit s \<and> auth_rate_account_limit s \<le> 1000"

definition valid_agent_settings :: "agent_settings \<Rightarrow> bool" where
  "valid_agent_settings s \<longleftrightarrow>
     0 < agent_memory_timeout_seconds s \<and> agent_memory_timeout_seconds s \<le> 120
     \<and> 1000 \<le> agent_memory_input_max_chars s \<and> agent_memory_input_max_chars s \<le> 100000
     \<and> 0 < agent_run_timeout_seconds s \<and> agent_run_timeout_seconds s \<le> 3600
     \<and> 0 < agent_retrieval_timeout_seconds s \<and> agent_retrieval_timeout_seconds s \<le> 120
     \<and> 1000 \<le> agent_context_max_chars s \<and> agent_context_max_chars s \<le> 1000000
     \<and> 60 \<le> agent_approval_ttl_seconds s \<and> agent_approval_ttl_seconds s \<le> 604800"

definition valid_model_settings :: "model_settings \<Rightarrow> bool" where
  "valid_model_settings s \<longleftrightarrow>
     llm_provider s \<noteq> []
     \<and> 0 < llm_request_timeout_seconds s \<and> llm_request_timeout_seconds s \<le> 3600
     \<and> 0 < llm_connect_timeout_seconds s \<and> llm_connect_timeout_seconds s \<le> 120
     \<and> llm_max_retries s \<le> 5
     \<and> 0 \<le> llm_retry_base_seconds s \<and> llm_retry_base_seconds s \<le> 30
     \<and> 0 \<le> llm_retry_max_seconds s \<and> llm_retry_max_seconds s \<le> 60
     \<and> 1 \<le> llm_max_output_tokens s \<and> llm_max_output_tokens s \<le> 131072
     \<and> llm_output_token_parameter s \<in> {lit ''max_tokens'', lit ''max_completion_tokens''}
     \<and> 1 \<le> embedding_dimensions s \<and> embedding_dimensions s \<le> 65536
     \<and> 1 \<le> embedding_batch_size s \<and> embedding_batch_size s \<le> 2048"

lemma default_settings_valid:
  "valid_auth_settings default_auth_settings" "valid_agent_settings default_agent_settings"
  "valid_model_settings default_model_settings"
  by (simp_all add: valid_auth_settings_def default_auth_settings_def valid_agent_settings_def
      default_agent_settings_def valid_model_settings_def default_model_settings_def)

end
