(* ===== verification/Task_Runner.thy ===== *)
theory Task_Runner
  imports Task_Invariant Config
begin

text \<open>
  The durable background worker (\<open>services/agent_task_runner.py\<close>). Every database session of the
  worker is one transaction here: claiming the task, recording an event, a heartbeat, finishing.
  A clock reading, a fresh UUID, the random retry delay and the runtime's event stream are
  arguments; one clock reading serves a whole transaction. What other processes commit between
  two events of the stream is an arbitrary change of the database.
\<close>

section \<open>Constants\<close>

definition persisted_event_types :: "ustr list" where
  "persisted_event_types = [lit ''status'', lit ''plan'', lit ''tool_call'', lit ''tool_result'',
     lit ''done'', lit ''error'']"

definition max_task_events :: nat where
  "max_task_events = 100"

definition confirmation_required_error :: ustr where
  "confirmation_required_error = lit ''Tool requires confirmation before execution''"

definition interrupted_task_error :: ustr where
  "interrupted_task_error = lit ''Execution interrupted before external work; retry scheduled within the attempt budget''"

definition status_progress :: "(ustr \<times> int) list" where
  "status_progress = [(lit ''ensure_conversation'', 5), (lit ''load_history'', 10),
     (lit ''save_user_message'', 15), (lit ''retrieving_context'', 25), (lit ''planning'', 35),
     (lit ''generating'', 70), (lit ''save_assistant_message'', 90)]"

definition event_progress :: "(ustr \<times> int) list" where
  "event_progress = [(lit ''plan'', 40), (lit ''tool_call'', 50), (lit ''tool_result'', 65),
     (lit ''done'', 100)]"

definition non_retryable_error_markers :: "ustr list" where
  "non_retryable_error_markers = [lit ''authentication'', lit ''confirmation'', lit ''forbidden'',
     lit ''invalid api key'', lit ''invalid input'', lit ''missing api key'',
     lit ''not include a prompt'', lit ''not available'', lit ''outside workspace'',
     lit ''permission denied'', lit ''requires confirmation'', lit ''unauthorized'']"

definition retryable_error_markers :: "ustr list" where
  "retryable_error_markers = [lit ''429'', lit ''500'', lit ''502'', lit ''503'', lit ''504'',
     lit ''connection'', lit ''network'', lit ''rate limit'', lit ''temporarily'', lit ''timeout'',
     lit ''timed out'', lit ''unavailable'']"

section \<open>Configuration\<close>

record runner_config =
  rc_retry_base_seconds :: int
  rc_lease_seconds :: int
  rc_heartbeat_seconds :: int

text \<open>\<open>argument or setting\<close>: \<open>None\<close> and 0 fall back to the setting.\<close>

definition or_setting :: "int option \<Rightarrow> int \<Rightarrow> int" where
  "or_setting x dflt = (case x of None \<Rightarrow> dflt | Some i \<Rightarrow> if i = 0 then dflt else i)"

definition runner_init :: "int option \<Rightarrow> int option \<Rightarrow> int option \<Rightarrow> agent_settings \<Rightarrow> runner_config" where
  "runner_init retry lease heartbeat s = \<lparr>
     rc_retry_base_seconds = max (or_setting retry (agent_task_retry_base_seconds s)) 1,
     rc_lease_seconds = max (or_setting lease (agent_task_lease_seconds s)) 5,
     rc_heartbeat_seconds = max (or_setting heartbeat (agent_task_heartbeat_seconds s)) 1\<rparr>"

definition runner_ok :: "runner_config \<Rightarrow> bool" where
  "runner_ok cfg \<longleftrightarrow> 1 \<le> rc_retry_base_seconds cfg \<and> 5 \<le> rc_lease_seconds cfg
     \<and> 1 \<le> rc_heartbeat_seconds cfg"

lemma runner_init_ok: "runner_ok (runner_init r l h s)"
  by (simp add: runner_ok_def runner_init_def)

section \<open>Event data and error classification\<close>

text \<open>\<open>_event_data\<close>: the payload of a server-sent event as a dictionary.\<close>

definition event_data :: "json_reader \<Rightarrow> ustr \<Rightarrow> dict" where
  "event_data loads data =
     (let raw = (if data = [] then lit ''{}'' else data) in
      case loads raw of
        None \<Rightarrow> [(lit ''message'', JStr raw)]
      | Some (JObj d) \<Rightarrow> d
      | Some v \<Rightarrow> [(lit ''value'', v)])"

definition compact_keys :: "ustr list" where
  "compact_keys = [lit ''label'', lit ''model'', lit ''tool_name'', lit ''provider'',
     lit ''provider_tool_id'', lit ''server_name'', lit ''status'', lit ''reason'', lit ''error'',
     lit ''message'', lit ''trace_id'']"

definition compact_event_data :: "dict \<Rightarrow> dict" where
  "compact_event_data data =
     map (\<lambda>k. (k, dget data k)) (filter (\<lambda>k. dget data k \<noteq> JNull) compact_keys)"

definition lookup_int :: "ustr \<Rightarrow> (ustr \<times> int) list \<Rightarrow> int \<Rightarrow> int" where
  "lookup_int k table dflt = (case map_of table k of None \<Rightarrow> dflt | Some v \<Rightarrow> v)"

definition progress_of :: "py_repr \<Rightarrow> ustr \<Rightarrow> dict \<Rightarrow> int" where
  "progress_of fr event_type data =
     (if event_type = lit ''status''
      then lookup_int (str_or fr (dget data (lit ''label'')) []) status_progress 1
      else lookup_int event_type event_progress 1)"

definition is_retryable_error :: "ustr \<Rightarrow> bool" where
  "is_retryable_error error =
     (let lowered = casefold error in
      if any_in non_retryable_error_markers lowered then False
      else if any_in retryable_error_markers lowered then True
      else True)"

section \<open>Finishing a task\<close>

definition finish_failed :: "ustr \<Rightarrow> time \<Rightarrow> task \<Rightarrow> task" where
  "finish_failed error now t = t\<lparr>
     t_status := Failed,
     t_error := Some (if error = [] then lit ''Background agent task failed'' else error),
     t_finished_at := Some now,
     t_next_attempt_at := None,
     t_lease_expires_at := None,
     t_run_token := None\<rparr>"

text \<open>Appending to \<open>metadata["events"]\<close>, keeping the last \<open>MAX_TASK_EVENTS\<close>.\<close>

definition push_event :: "json \<Rightarrow> json \<Rightarrow> json res" where
  "push_event metadata event =
     (case list_or_empty (jget metadata (lit ''events'')) of
        Inl e \<Rightarrow> Inl e
      | Inr events \<Rightarrow> Inr (JObj (dset (lit ''events'') (JList (last_n max_task_events (events @ [event])))
                                 (obj_items metadata))))"

definition event_record :: "ustr \<Rightarrow> time \<Rightarrow> int \<Rightarrow> dict \<Rightarrow> json" where
  "event_record event_type now attempt rest =
     JObj ([(lit ''type'', JStr event_type), (lit ''at'', JStr (isoformat now)),
            (lit ''attempt'', JInt attempt)] @ rest)"

section \<open>Claiming\<close>

datatype claim_result =
    NotRun (retry_at: "time option")
  | Claimed (cl_lease: lease) (cl_conversation: uuid) (cl_user: "uuid option") (cl_prompt: ustr)
      (cl_timeout: time)

definition task_prompt :: "task \<Rightarrow> ustr" where
  "task_prompt t = strip (case t_prompt t of None \<Rightarrow> [] | Some p \<Rightarrow> p)"

text \<open>The \<open>if / elif\<close> chain of the reasons a queued task is failed instead of run.\<close>

definition claim_error :: "task \<Rightarrow> time \<Rightarrow> ustr option" where
  "claim_error t now =
     (if task_prompt t = [] then Some (lit ''Agent task input did not include a prompt'')
      else if (case t_deadline_at t of None \<Rightarrow> False | Some x \<Rightarrow> x \<le> now)
        then Some (lit ''Task deadline expired before execution'')
      else if t_attempt_count t \<ge> t_max_attempts t then Some (lit ''Task attempt budget exhausted'')
      else if t_replay_blocked_at t \<noteq> None then Some replay_blocked_error
      else None)"

definition start_attempt :: "runner_config \<Rightarrow> time \<Rightarrow> uuid \<Rightarrow> task \<Rightarrow> task" where
  "start_attempt cfg now token t =
     (let deadline = (case t_deadline_at t of None \<Rightarrow> now + seconds 900 | Some x \<Rightarrow> x) in
      t\<lparr>t_status := Running,
        t_run_token := Some token,
        t_progress := 1,
        t_error := None,
        t_attempt_count := t_attempt_count t + 1,
        t_started_at := (case t_started_at t of None \<Rightarrow> Some now | Some x \<Rightarrow> Some x),
        t_finished_at := None,
        t_next_attempt_at := None,
        t_deadline_at := Some deadline,
        t_heartbeat_at := Some now,
        t_lease_expires_at := Some (min (now + seconds (rc_lease_seconds cfg)) deadline)\<rparr>)"

text \<open>The conversation a task runs in is created before the runtime starts, so retries reuse it.\<close>

definition ensure_task_conversation :: "time \<Rightarrow> uuid \<Rightarrow> task \<Rightarrow> db \<Rightarrow> uuid \<times> db" where
  "ensure_task_conversation now new_conversation t d =
     (case t_conversation_id t of
        Some c \<Rightarrow> (c, d)
      | None \<Rightarrow> (new_conversation, d\<lparr>db_conversations := db_conversations d @
          [\<lparr>c_id = new_conversation, c_user_id = t_user_id t, c_title = lit ''New conversation'',
            c_memory_cursor = NoCursor, c_updated_at = now\<rparr>]\<rparr>))"

definition start_task ::
  "runner_config \<Rightarrow> time \<Rightarrow> uuid \<Rightarrow> uuid \<Rightarrow> task \<Rightarrow> db \<Rightarrow> db \<times> claim_result" where
  "start_task cfg now token new_conversation t d =
     (let (conv, d1) = ensure_task_conversation now new_conversation t d;
          t' = start_attempt cfg now token (t\<lparr>t_conversation_id := Some conv\<rparr>);
          deadline = (case t_deadline_at t' of None \<Rightarrow> now | Some x \<Rightarrow> x)
      in (put_task t' d1,
          Claimed \<lparr>l_task_id = t_id t, l_token = token\<rparr> conv (t_user_id t) (task_prompt t)
            (min (seconds (t_timeout_seconds t')) (deadline - now))))"

text \<open>
  The first transaction of \<open>run\<close>. \<open>locked\<close> holds the rows another transaction has locked, which
  \<open>SKIP LOCKED\<close> passes over.
\<close>

definition claim ::
  "runner_config \<Rightarrow> uuid list \<Rightarrow> time \<Rightarrow> uuid \<Rightarrow> uuid \<Rightarrow> uuid \<Rightarrow> db \<Rightarrow> db \<times> claim_result" where
  "claim cfg locked now token new_conversation i d =
     (case (if i \<in> set locked then None else get_task i d) of
        None \<Rightarrow> (d, NotRun None)
      | Some t \<Rightarrow>
          if t_kind t \<noteq> Agent \<or> t_status t \<noteq> Queued then (d, NotRun None)
          else case claim_error t now of
            Some e \<Rightarrow> (put_task (finish_failed e now t) d, NotRun None)
          | None \<Rightarrow>
              if (case t_next_attempt_at t of None \<Rightarrow> False | Some n \<Rightarrow> now < n)
              then (d, NotRun (t_next_attempt_at t))
              else start_task cfg now token new_conversation t d)"

section \<open>While the lease is held\<close>

definition record_event ::
  "py_repr \<Rightarrow> lease \<Rightarrow> time \<Rightarrow> ustr \<Rightarrow> dict \<Rightarrow> db \<Rightarrow> db \<times> unit res" where
  "record_event fr l now event_type data d =
     with_task_lease l True now (\<lambda>t.
       case push_event (t_metadata t)
              (event_record event_type now (t_attempt_count t) (compact_event_data data)) of
         Inl e \<Rightarrow> Inl e
       | Inr metadata \<Rightarrow> Inr (t\<lparr>
           t_metadata := metadata,
           t_progress := max (t_progress t) (min (progress_of fr event_type data) 95),
           t_trace_id := (if truthy (dget data (lit ''trace_id''))
                          then Some (scalar_str fr (dget data (lit ''trace_id''))) else t_trace_id t)\<rparr>)) d"

text \<open>The sleep between heartbeats, and one beat.\<close>

definition heartbeat_interval :: "runner_config \<Rightarrow> rat" where
  "heartbeat_interval cfg =
     min (of_int (rc_heartbeat_seconds cfg)) (of_int (rc_lease_seconds cfg) / 3)"

definition heartbeat :: "runner_config \<Rightarrow> lease \<Rightarrow> time \<Rightarrow> db \<Rightarrow> db \<times> unit res" where
  "heartbeat cfg l now d =
     with_task_lease l True now (\<lambda>t.
       case t_deadline_at t of
         None \<Rightarrow> Inl (TypeError (lit ''None is not a datetime''))
       | Some deadline \<Rightarrow> Inr (t\<lparr>
           t_heartbeat_at := Some now,
           t_lease_expires_at := Some (min (now + seconds (rc_lease_seconds cfg)) deadline)\<rparr>)) d"

text \<open>Whether a heartbeat that ended this way cancels the worker it belongs to.\<close>

definition heartbeat_cancels_owner :: "unit res \<Rightarrow> bool" where
  "heartbeat_cancels_owner r = (case r of Inr _ \<Rightarrow> False | Inl e \<Rightarrow> e \<noteq> Cancelled)"

section \<open>Completion, failure and retry\<close>

definition opt_str :: "ustr \<Rightarrow> ustr option" where
  "opt_str s = (if s = [] then None else Some s)"

definition task_result :: "ustr list \<Rightarrow> uuid \<Rightarrow> dict \<Rightarrow> json" where
  "task_result answer_parts conv done_payload = JObj
     [(lit ''answer'', JStr (concat answer_parts)),
      (lit ''conversation_id'', JStr (uuid_str conv)),
      (lit ''citations'', (let c = dget done_payload (lit ''citations'') in if truthy c then c else JList [])),
      (lit ''tool_calls'', (let c = dget done_payload (lit ''tool_calls'') in if truthy c then c else JList [])),
      (lit ''model_route'', dget done_payload (lit ''model_route''))]"

definition complete_task ::
  "py_repr \<Rightarrow> lease \<Rightarrow> time \<Rightarrow> ustr list \<Rightarrow> uuid \<Rightarrow> dict \<Rightarrow> db \<Rightarrow> db \<times> unit res" where
  "complete_task fr l now answer_parts conv done_payload d =
     with_task_lease l True now (\<lambda>t. Inr (t\<lparr>
       t_status := Succeeded,
       t_progress := 100,
       t_trace_id := opt_str (str_or fr (dget done_payload (lit ''trace_id''))
                        (case t_trace_id t of None \<Rightarrow> [] | Some x \<Rightarrow> x)),
       t_result := Some (task_result answer_parts conv done_payload),
       t_finished_at := Some now,
       t_lease_expires_at := None,
       t_run_token := None\<rparr>)) d"

definition retry_delay :: "runner_config \<Rightarrow> int \<Rightarrow> int" where
  "retry_delay cfg attempt_count =
     min (rc_retry_base_seconds cfg * 2 ^ nat (max (attempt_count - 1) 0)) 3600"

text \<open>\<open>uniform(delay / 2, delay)\<close> as a number of microseconds: the draws that can occur.\<close>

definition jitter_ok :: "runner_config \<Rightarrow> int \<Rightarrow> time \<Rightarrow> bool" where
  "jitter_ok cfg attempt_count jitter \<longleftrightarrow>
     seconds (retry_delay cfg attempt_count) \<le> 2 * jitter \<and> jitter \<le> seconds (retry_delay cfg attempt_count)"

definition finish_or_retry ::
  "lease \<Rightarrow> ustr \<Rightarrow> bool \<Rightarrow> time \<Rightarrow> time \<Rightarrow> db \<Rightarrow> db \<times> time option res" where
  "finish_or_retry l error retryable now jitter d =
     (case lock_task_lease (Some l) False now d of
        Inl e \<Rightarrow> (d, Inl e)
      | Inr None \<Rightarrow> (d, Inl (TypeError (lit ''no task'')))
      | Inr (Some t) \<Rightarrow>
          (let retry_at = now + jitter in
           if t_replay_blocked_at t \<noteq> None
           then (put_task (finish_failed (error @ lit '' '' @ replay_blocked_error) now t) d, Inr None)
           else if (case t_deadline_at t of None \<Rightarrow> False | Some x \<Rightarrow> x \<le> retry_at)
           then (put_task (finish_failed (lit ''Task deadline exhausted: '' @ error) now t) d, Inr None)
           else if retryable \<and> t_attempt_count t < t_max_attempts t
           then (case push_event (t_metadata t)
                        (event_record (lit ''retry_scheduled'') now (t_attempt_count t)
                           [(lit ''retry_at'', JStr (isoformat retry_at)),
                            (lit ''error'', JStr (take 2000 error))]) of
                   Inl e \<Rightarrow> (d, Inl e)
                 | Inr metadata \<Rightarrow>
                     (put_task (t\<lparr>
                        t_status := Queued,
                        t_error := Some (lit ''Attempt '' @ show_int (t_attempt_count t) @ lit ''/''
                          @ show_int (t_max_attempts t) @ lit '' failed; retry scheduled: '' @ error),
                        t_finished_at := None,
                        t_next_attempt_at := Some retry_at,
                        t_lease_expires_at := None,
                        t_run_token := None,
                        t_metadata := metadata\<rparr>) d,
                      Inr (Some retry_at)))
           else (put_task (finish_failed error now t) d, Inr None)))"

section \<open>The run of one task\<close>

record run_acc =
  ra_answer :: "ustr list"
  ra_done :: "dict option"
  ra_failure :: "ustr option"

definition confirmation_failure :: ustr where
  "confirmation_failure = lit ''This background task needs tool confirmation. Run the request in interactive chat to review and confirm the tool call.''"

definition absorb_event :: "py_repr \<Rightarrow> ustr \<Rightarrow> dict \<Rightarrow> run_acc \<Rightarrow> run_acc" where
  "absorb_event fr event_type data acc =
     (if event_type = lit ''token''
      then acc\<lparr>ra_answer := ra_answer acc @ [str_or fr (dget data (lit ''text'')) []]\<rparr>
      else if event_type = lit ''done'' then acc\<lparr>ra_done := Some data\<rparr>
      else if event_type = lit ''error''
      then acc\<lparr>ra_failure := Some (str_or fr (dget data (lit ''message'')) (lit ''Background agent task failed''))\<rparr>
      else if event_type = lit ''tool_result'' \<and> dget data (lit ''error'') = JStr confirmation_required_error
      then acc\<lparr>ra_failure := Some confirmation_failure\<rparr>
      else acc)"

text \<open>
  The \<open>async for\<close> over the runtime's stream. Each item carries what was committed before it (by
  the runtime itself and by other processes), the clock, the event type and its raw data.
\<close>

type_synonym stream_item = "(db \<Rightarrow> db) \<times> time \<times> ustr \<times> ustr"

fun consume ::
  "py_repr \<Rightarrow> json_reader \<Rightarrow> lease \<Rightarrow> stream_item list \<Rightarrow> run_acc \<Rightarrow> db \<Rightarrow> db \<times> run_acc res" where
  "consume fr loads l [] acc d = (d, Inr acc)"
| "consume fr loads l ((env, now, event_type, raw) # items) acc d =
     (let data = event_data loads raw;
          acc' = absorb_event fr event_type data acc;
          d1 = env d in
      if event_type \<in> set persisted_event_types
      then (case record_event fr l now event_type data d1 of
              (d2, Inl e) \<Rightarrow> (d2, Inl e)
            | (d2, Inr _) \<Rightarrow> consume fr loads l items acc' d2)
      else consume fr loads l items acc' d1)"

datatype run_result = RunOutcome "time option" | RunCancelled | RunRaised exn

text \<open>
  How the attempt ends: \<open>r\<close> is what the stream gave, or the exception that left it (a timeout of
  the attempt is \<open>TimeoutError\<close> with an empty message).
\<close>

definition settle ::
  "py_repr \<Rightarrow> lease \<Rightarrow> uuid \<Rightarrow> time \<Rightarrow> time \<Rightarrow> run_acc res \<Rightarrow> db \<Rightarrow> db \<times> run_result" where
  "settle fr l conv now jitter r d =
     (let on_exception = (\<lambda>d e.
            if e = TaskLeaseLost then (d, RunOutcome None)
            else if e = Cancelled
            then (case finish_or_retry l interrupted_task_error True now jitter d of
                    (d', Inl e') \<Rightarrow> (d', if e' = TaskLeaseLost then RunCancelled else RunRaised e')
                  | (d', Inr _) \<Rightarrow> (d', RunCancelled))
            else (let msg = exn_str e in
                  case finish_or_retry l (if msg = [] then lit ''Task attempt timed out'' else msg)
                         (is_retryable_error msg) now jitter d of
                    (d', Inr retry) \<Rightarrow> (d', RunOutcome retry)
                  | (d', Inl e') \<Rightarrow> (d', if e' = TaskLeaseLost then RunOutcome None else RunRaised e')))
      in case r of
           Inl e \<Rightarrow> on_exception d e
         | Inr acc \<Rightarrow>
             (let failure = (case ra_failure acc of None \<Rightarrow> [] | Some f \<Rightarrow> f) in
              case ra_done acc of
                Some payload \<Rightarrow>
                  if failure = []
                  then (case complete_task fr l now (ra_answer acc) conv payload d of
                          (d', Inr _) \<Rightarrow> (d', RunOutcome None)
                        | (d', Inl e) \<Rightarrow> on_exception d' e)
                  else (case finish_or_retry l failure (is_retryable_error failure) now jitter d of
                          (d', Inr retry) \<Rightarrow> (d', RunOutcome retry)
                        | (d', Inl e) \<Rightarrow> on_exception d' e)
              | None \<Rightarrow>
                  (let msg = (if failure = [] then lit ''Agent task ended without a completion event''
                              else failure) in
                   case finish_or_retry l msg (is_retryable_error msg) now jitter d of
                     (d', Inr retry) \<Rightarrow> (d', RunOutcome retry)
                   | (d', Inl e) \<Rightarrow> on_exception d' e)))"

definition run_task ::
  "py_repr \<Rightarrow> json_reader \<Rightarrow> runner_config \<Rightarrow> uuid list \<Rightarrow> time \<Rightarrow> uuid \<Rightarrow> uuid \<Rightarrow> uuid
   \<Rightarrow> stream_item list \<Rightarrow> exn option \<Rightarrow> time \<Rightarrow> time \<Rightarrow> db \<Rightarrow> db \<times> run_result" where
  "run_task fr loads cfg locked now token new_conv i items ending now_end jitter d =
     (case claim cfg locked now token new_conv i d of
        (d1, NotRun retry) \<Rightarrow> (d1, RunOutcome retry)
      | (d1, Claimed l conv usr prompt timeout) \<Rightarrow>
          (case consume fr loads l items \<lparr>ra_answer = [], ra_done = None, ra_failure = None\<rparr> d1 of
             (d2, r) \<Rightarrow>
               settle fr l conv now_end jitter
                 (case (r, ending) of (Inr acc, Some e) \<Rightarrow> Inl e | _ \<Rightarrow> r) d2))"

section \<open>Facts about claiming\<close>

lemma get_task_after_start:
  assumes "get_task (t_id t) d = Some t"
  shows "get_task (t_id t) (fst (start_task cfg now token nc t d)) =
    Some (start_attempt cfg now token (t\<lparr>t_conversation_id := Some (fst (ensure_task_conversation now nc t d))\<rparr>))"
  using assms
  by (auto simp: start_task_def ensure_task_conversation_def get_put_task start_attempt_def Let_def
      split: option.splits)

text \<open>Inversion of a successful claim: the row it read and the transaction it ran.\<close>

lemma claim_ClaimedE:
  assumes "claim cfg locked now token nc i d = (d', Claimed l conv usr prompt timeout)"
  obtains t where "get_task i d = Some t" "t_id t = i" "i \<notin> set locked" "t_kind t = Agent"
    "t_status t = Queued" "claim_error t now = None"
    "\<And>n. t_next_attempt_at t = Some n \<Longrightarrow> n \<le> now"
    "start_task cfg now token nc t d = (d', Claimed l conv usr prompt timeout)"
  using assms
  by (auto simp: claim_def split: if_splits option.splits dest: get_task_id)

lemma start_task_result:
  "start_task cfg now token nc t d = (d', Claimed l conv usr prompt timeout) \<Longrightarrow>
   l = \<lparr>l_task_id = t_id t, l_token = token\<rparr> \<and> usr = t_user_id t \<and> prompt = task_prompt t
   \<and> conv = fst (ensure_task_conversation now nc t d)
   \<and> d' = fst (start_task cfg now token nc t d)"
  by (auto simp: start_task_def Let_def split: prod.splits)

lemma claim_error_None:
  "claim_error t now = None \<longleftrightarrow>
     task_prompt t \<noteq> [] \<and> (\<forall>x. t_deadline_at t = Some x \<longrightarrow> now < x)
     \<and> t_attempt_count t < t_max_attempts t \<and> t_replay_blocked_at t = None"
  by (auto simp: claim_error_def split: option.splits)

lemma claimed_row:
  assumes "claim cfg locked now token nc i d = (d', Claimed l conv usr prompt timeout)"
  shows "\<exists>t. get_task i d = Some t \<and> t_kind t = Agent \<and> t_status t = Queued
    \<and> claim_error t now = None \<and> l = \<lparr>l_task_id = i, l_token = token\<rparr>
    \<and> get_task i d' = Some (start_attempt cfg now token (t\<lparr>t_conversation_id := Some conv\<rparr>))"
  using assms
proof (rule claim_ClaimedE)
  fix t
  assume t: "get_task i d = Some t" "t_id t = i" "t_kind t = Agent" "t_status t = Queued"
      "claim_error t now = None"
    and s: "start_task cfg now token nc t d = (d', Claimed l conv usr prompt timeout)"
  from t start_task_result [OF s] get_task_after_start [of t d cfg now token nc]
  show ?thesis by auto
qed

lemma start_attempt_not_lost:
  assumes "runner_ok cfg" and "claim_error t now = None" and "l = \<lparr>l_task_id = i, l_token = token\<rparr>"
  shows "\<not> lease_lost l True now (start_attempt cfg now token (t\<lparr>t_conversation_id := Some conv\<rparr>))"
  using assms seconds_pos [of "rc_lease_seconds cfg"]
  by (auto simp: lease_lost_def start_attempt_def Let_def claim_error_None runner_ok_def seconds_def
      split: option.splits)

lemma start_attempt_ok:
  assumes "agent_task_ok t" and "t_status t = Queued" and "claim_error t now = None"
  shows "agent_task_ok (start_attempt cfg now token (t\<lparr>t_conversation_id := conv\<rparr>))"
  using assms
  by (auto simp: agent_task_ok_def start_attempt_def Let_def claim_error_None split: option.splits)

lemma finish_failed_ok: "agent_task_ok t \<Longrightarrow> \<not> is_terminal (t_status t) \<Longrightarrow> agent_task_ok (finish_failed e now t)"
  by (auto simp: agent_task_ok_def finish_failed_def split: if_splits)

lemma finish_failed_simps [simp]:
  "t_id (finish_failed e now t) = t_id t" "t_kind (finish_failed e now t) = t_kind t"
  "t_status (finish_failed e now t) = Failed" "t_run_token (finish_failed e now t) = None"
  "t_replay_blocked_at (finish_failed e now t) = t_replay_blocked_at t"
  "t_attempt_count (finish_failed e now t) = t_attempt_count t"
  "t_schedule_id (finish_failed e now t) = t_schedule_id t"
  by (simp_all add: finish_failed_def)

lemma start_attempt_simps [simp]:
  "t_id (start_attempt cfg now token t) = t_id t" "t_kind (start_attempt cfg now token t) = t_kind t"
  "t_status (start_attempt cfg now token t) = Running"
  "t_run_token (start_attempt cfg now token t) = Some token"
  "t_attempt_count (start_attempt cfg now token t) = t_attempt_count t + 1"
  "t_max_attempts (start_attempt cfg now token t) = t_max_attempts t"
  "t_replay_blocked_at (start_attempt cfg now token t) = t_replay_blocked_at t"
  by (simp_all add: start_attempt_def Let_def)

lemma start_task_tasks:
  "db_tasks (fst (start_task cfg now token nc t d)) =
     db_tasks (put_task (start_attempt cfg now token
       (t\<lparr>t_conversation_id := Some (fst (ensure_task_conversation now nc t d))\<rparr>)) d)"
  by (auto simp: start_task_def ensure_task_conversation_def put_task_def Let_def split: option.splits)

lemma claim_task_ids: "map t_id (db_tasks (fst (claim cfg locked now token nc i d))) = map t_id (db_tasks d)"
  by (auto simp: claim_def put_task_def map_key_put_row start_task_tasks split: option.split)

lemma claim_tasks_ok:
  assumes ok: "tasks_ok d"
  shows "tasks_ok (fst (claim cfg locked now token nc i d))"
proof (cases "if i \<in> set locked then None else get_task i d")
  case None
  with ok show ?thesis by (simp add: claim_def)
next
  case (Some t)
  then have t: "get_task i d = Some t" by (simp split: if_splits)
  with ok have row: "task_ok t" by (rule tasks_ok_get)
  show ?thesis
  proof (cases "t_kind t \<noteq> Agent \<or> t_status t \<noteq> Queued")
    case True
    with ok Some show ?thesis by (auto simp: claim_def)
  next
    case False
    with row have agent: "agent_task_ok t" by (simp add: task_ok_def)
    show ?thesis
    proof (cases "claim_error t now")
      case None
      let ?t' = "start_attempt cfg now token
        (t\<lparr>t_conversation_id := Some (fst (ensure_task_conversation now nc t d))\<rparr>)"
      from agent False None have "task_ok ?t'" by (simp add: task_ok_def start_attempt_ok)
      with ok have "tasks_ok (put_task ?t' d)" by (rule tasks_ok_put)
      then have "tasks_ok (fst (start_task cfg now token nc t d))"
        using start_task_tasks tasks_ok_frame by metis
      with ok Some None False show ?thesis by (auto simp: claim_def)
    next
      case (Some e)
      from agent False have "task_ok (finish_failed e now t)"
        by (simp add: task_ok_def finish_failed_ok)
      with ok have "tasks_ok (put_task (finish_failed e now t) d)" by (rule tasks_ok_put)
      with Some False \<open>(if i \<in> set locked then None else get_task i d) = Some t\<close>
      show ?thesis by (auto simp: claim_def)
    qed
  qed
qed

section \<open>Facts about the writes of a lease holder\<close>

lemma push_event_bound:
  "push_event m e = Inr m' \<Longrightarrow>
   \<exists>events. jget m' (lit ''events'') = JList (events @ [e]) \<and> length events < max_task_events"
  by (auto simp: push_event_def jget_def row_simps max_task_events_def last_n_snoc length_last_n
      split: sum.splits)

lemma record_event_row:
  assumes "agent_task_ok t" "\<not> lease_lost l True now t"
    and "t' = t\<lparr>t_metadata := m, t_progress := max (t_progress t) (min p 95), t_trace_id := tr\<rparr>"
  shows "agent_task_ok t'"
  using assms by (auto simp: agent_task_ok_def lease_lost_def split: option.splits if_splits)

lemma heartbeat_row:
  assumes "agent_task_ok t" "\<not> lease_lost l True now t" "t_deadline_at t = Some x"
  shows "agent_task_ok (t\<lparr>t_heartbeat_at := Some now, t_lease_expires_at := Some (min y x)\<rparr>)"
  using assms by (auto simp: agent_task_ok_def lease_lost_def split: option.splits if_splits)

lemma record_event_tasks_ok:
  assumes "tasks_ok d" shows "tasks_ok (fst (record_event fr l now ty data d))"
proof -
  obtain d' r where w: "record_event fr l now ty data d = (d', r)" by fastforce
  with assms have "tasks_ok d'"
    unfolding record_event_def
    by (rule tasks_ok_with_lease) (auto simp: task_ok_def split: sum.splits intro: record_event_row)
  with w show ?thesis by simp
qed

lemma heartbeat_tasks_ok:
  assumes "tasks_ok d" shows "tasks_ok (fst (heartbeat cfg l now d))"
proof -
  obtain d' r where w: "heartbeat cfg l now d = (d', r)" by fastforce
  with assms have "tasks_ok d'"
    unfolding heartbeat_def
    by (rule tasks_ok_with_lease) (auto simp: task_ok_def heartbeat_row split: option.splits)
  with w show ?thesis by simp
qed

lemma complete_task_tasks_ok:
  assumes "tasks_ok d" shows "tasks_ok (fst (complete_task fr l now parts conv payload d))"
proof -
  obtain d' r where w: "complete_task fr l now parts conv payload d = (d', r)" by fastforce
  with assms have "tasks_ok d'"
    unfolding complete_task_def
    by (rule tasks_ok_with_lease)
      (auto simp: task_ok_def agent_task_ok_def lease_lost_def split: option.splits)
  with w show ?thesis by simp
qed

text \<open>The three ways out of \<open>_finish_or_retry\<close>.\<close>

lemma finish_or_retry_cases:
  assumes "finish_or_retry l error retryable now jitter d = (d', r)"
  obtains (lost) e where "d' = d" "r = Inl e"
  | (failed) t msg where "get_task (l_task_id l) d = Some t" "\<not> lease_lost l False now t"
      "d' = put_task (finish_failed msg now t) d" "r = Inr None"
  | (retried) t m where "get_task (l_task_id l) d = Some t" "\<not> lease_lost l False now t"
      "t_replay_blocked_at t = None" "\<And>x. t_deadline_at t = Some x \<Longrightarrow> now + jitter < x"
      "retryable" "t_attempt_count t < t_max_attempts t"
      "d' = put_task (t\<lparr>t_status := Queued,
          t_error := Some (lit ''Attempt '' @ show_int (t_attempt_count t) @ lit ''/''
            @ show_int (t_max_attempts t) @ lit '' failed; retry scheduled: '' @ error),
          t_finished_at := None, t_next_attempt_at := Some (now + jitter),
          t_lease_expires_at := None, t_run_token := None, t_metadata := m\<rparr>) d"
      "r = Inr (Some (now + jitter))"
proof (cases "lock_task_lease (Some l) False now d")
  case (Inl e)
  with assms show ?thesis by (intro lost) (auto simp: finish_or_retry_def)
next
  case (Inr o')
  then obtain t where t: "lock_task_lease (Some l) False now d = Inr (Some t)"
    by (cases o') (auto simp: lock_never_anonymous)
  then have row: "get_task (l_task_id l) d = Some t" "\<not> lease_lost l False now t"
    by (simp_all add: guard_simps)
  show ?thesis
  proof (cases "t_replay_blocked_at t = None \<and> (\<forall>x. t_deadline_at t = Some x \<longrightarrow> now + jitter < x)
      \<and> retryable \<and> t_attempt_count t < t_max_attempts t")
    case False
    with assms t have "\<exists>msg. d' = put_task (finish_failed msg now t) d \<and> r = Inr None"
      by (auto simp: finish_or_retry_def Let_def split: if_splits option.splits)
    with row failed show ?thesis by blast
  next
    case True
    show ?thesis
    proof (cases "push_event (t_metadata t) (event_record (lit ''retry_scheduled'') now (t_attempt_count t)
          [(lit ''retry_at'', JStr (isoformat (now + jitter))), (lit ''error'', JStr (take 2000 error))])")
      case (Inl e)
      with assms t True show ?thesis
        by (intro lost) (auto simp: finish_or_retry_def Let_def split: if_splits option.splits)
    next
      case (Inr m)
      with assms row t True show ?thesis
        by (intro retried) (auto simp: finish_or_retry_def Let_def split: if_splits option.splits)
    qed
  qed
qed

lemma finish_or_retry_tasks_ok:
  assumes ok: "tasks_ok d"
  shows "tasks_ok (fst (finish_or_retry l error retryable now jitter d))"
proof -
  obtain d' r where w: "finish_or_retry l error retryable now jitter d = (d', r)" by fastforce
  then have "tasks_ok d'"
  proof (cases rule: finish_or_retry_cases)
    case (lost e)
    with ok show ?thesis by simp
  next
    case (failed t msg)
    with ok have "task_ok t" by (blast intro: tasks_ok_get)
    with failed have "task_ok (finish_failed msg now t)"
      by (auto simp: task_ok_def lease_lost_def finish_failed_ok)
    with ok failed show ?thesis by (simp add: tasks_ok_put)
  next
    case (retried t m)
    with ok have "task_ok t" by (blast intro: tasks_ok_get)
    with retried ok show ?thesis
      by (auto intro!: tasks_ok_put simp: task_ok_def agent_task_ok_def lease_lost_def)
  qed
  with w show ?thesis by simp
qed

section \<open>Properties\<close>

text \<open>
  A successful claim hands the worker a live lease: the row is running under exactly the
  worker's token, the lease lies in the future and within the deadline, the attempt is counted
  within the budget, nothing was dispatched before, and the conversation the retries reuse is
  stored.
\<close>

theorem claim_grants_live_lease:
  assumes "claim cfg locked now token nc i d = (d', Claimed l conv usr prompt timeout)"
    and "runner_ok cfg"
  shows "l = \<lparr>l_task_id = i, l_token = token\<rparr> \<and>
    (\<exists>t'. lock_task_lease (Some l) True now d' = Inr (Some t')
      \<and> t_attempt_count t' \<le> t_max_attempts t' \<and> t_replay_blocked_at t' = None
      \<and> t_conversation_id t' = Some conv
      \<and> (\<exists>e x. t_lease_expires_at t' = Some e \<and> t_deadline_at t' = Some x \<and> now < e \<and> e \<le> x
               \<and> timeout \<le> x - now \<and> timeout \<le> seconds (t_timeout_seconds t')))"
proof -
  from claimed_row [OF assms(1)] obtain t where t: "claim_error t now = None"
      "l = \<lparr>l_task_id = i, l_token = token\<rparr>" "get_task i d = Some t"
      "get_task i d' = Some (start_attempt cfg now token (t\<lparr>t_conversation_id := Some conv\<rparr>))"
    by blast
  let ?t' = "start_attempt cfg now token (t\<lparr>t_conversation_id := Some conv\<rparr>)"
  from t start_attempt_not_lost [OF assms(2) t(1,2)]
  have lock: "lock_task_lease (Some l) True now d' = Inr (Some ?t')" by (simp add: guard_simps)
  from assms(1) t(3) have "timeout = min (seconds (t_timeout_seconds ?t')) (the (t_deadline_at ?t') - now)"
    by (auto elim!: claim_ClaimedE simp: start_task_def start_attempt_def Let_def split: prod.splits option.splits)
  with lock t(1,2) show ?thesis
    using lock_live_deadline [OF lock]
    by (auto simp: claim_error_None start_attempt_def Let_def split: option.splits)
qed

definition demo_cfg :: runner_config where
  "demo_cfg = runner_init None None None default_agent_settings"

lemma claim_demo:
  "\<exists>d'. claim demo_cfg [] 5 (UUID 99) (UUID 50) (UUID 11) (demo_db [demo_task (UUID 11)]) =
     (d', Claimed \<lparr>l_task_id = UUID 11, l_token = UUID 99\<rparr> (UUID 8) (Some (UUID 7)) (lit ''hello'')
            (seconds 180))"
proof -
  have "strip (lit ''hello'') = lit ''hello''" by (simp add: str_eval)
  then show ?thesis
    by (simp add: claim_def start_task_def ensure_task_conversation_def claim_error_def task_prompt_def
        demo_task_def start_attempt_def Let_def seconds_def)
qed

theorem claim_grants_live_lease_witness:
  "\<exists>d' t'. lock_task_lease (Some \<lparr>l_task_id = UUID 11, l_token = UUID 99\<rparr>) True 5 d' = Inr (Some t')
     \<and> claim demo_cfg [] 5 (UUID 99) (UUID 50) (UUID 11) (demo_db [demo_task (UUID 11)]) =
     (d', Claimed \<lparr>l_task_id = UUID 11, l_token = UUID 99\<rparr> (UUID 8) (Some (UUID 7)) (lit ''hello'')
            (seconds 180))"
proof -
  have "runner_ok demo_cfg" by (simp add: demo_cfg_def runner_init_ok)
  with claim_demo claim_grants_live_lease show ?thesis by blast
qed

text \<open>
  A claimed task cannot be claimed again: while the first worker's row stands, every other
  claim of the task, by any worker at any time, finds it not queued, runs nothing and leaves the
  database as it is.
\<close>

theorem claim_excludes_other_workers:
  assumes "claim cfg locked now token nc i d = (d', Claimed l conv usr prompt timeout)"
  shows "claim cfg' locked' now' token' nc' i d' = (d', NotRun None)"
  using claimed_row [OF assms] by (auto simp: claim_def)

theorem claim_excludes_other_workers_witness:
  "\<exists>d' r. claim demo_cfg [] 5 (UUID 99) (UUID 50) (UUID 11) (demo_db [demo_task (UUID 11)]) = (d', r)
     \<and> claim demo_cfg [] 6 (UUID 100) (UUID 51) (UUID 11) d' = (d', NotRun None)"
  using claim_demo claim_excludes_other_workers by blast


definition demo_running :: db where
  "demo_running = fst (claim demo_cfg [] 5 (UUID 99) (UUID 50) (UUID 11) (demo_db [demo_task (UUID 11)]))"

lemma demo_running_row:
  "get_task (UUID 11) demo_running = Some ((demo_task (UUID 11))\<lparr>t_status := Running,
     t_run_token := Some (UUID 99), t_progress := 1, t_attempt_count := 1, t_started_at := Some 5,
     t_next_attempt_at := None, t_heartbeat_at := Some 5, t_lease_expires_at := Some (5 + seconds 180)\<rparr>)"
proof -
  have "strip (lit ''hello'') = lit ''hello''" by (simp add: str_eval)
  then show ?thesis
    by (simp add: demo_running_def claim_def start_task_def ensure_task_conversation_def claim_error_def
        task_prompt_def demo_task_def start_attempt_def Let_def seconds_def demo_cfg_def runner_init_def
        or_setting_def default_agent_settings_def get_put_task)
qed


text \<open>
  The event log: recording an event under a live lease appends it as the last entry, keeps at
  most the last hundred, and never lowers the progress nor lets it pass 95 before the task is
  done; without the lease nothing is written.
\<close>

theorem record_event_effect:
  assumes "tasks_ok d" and "get_task (l_task_id l) d = Some t" and "t_kind t = Agent"
    and "record_event fr l now ty data d = (d', r)"
  shows "(r = Inr () \<longrightarrow> (\<exists>t' events. get_task (l_task_id l) d' = Some t'
        \<and> jget (t_metadata t') (lit ''events'') =
            JList (events @ [event_record ty now (t_attempt_count t) (compact_event_data data)])
        \<and> length events < 100 \<and> t_progress t \<le> t_progress t' \<and> t_progress t' \<le> 95
        \<and> t_status t' = Running \<and> owns l d'))
    \<and> (r \<noteq> Inr () \<longrightarrow> d' = d)"
proof (cases rule: with_task_lease_cases [OF assms(4) [unfolded record_event_def]])
  case 1
  then show ?thesis by simp
next
  case (2 t0 e)
  then show ?thesis by simp
next
  case (3 t0 t')
  with assms(2) have t0: "t0 = t" "t_id t = l_task_id l" by (auto dest: get_task_id)
  from assms(1,2,3) have ok: "agent_task_ok t" using tasks_ok_get task_ok_def by blast
  from 3 t0 obtain m where m: "push_event (t_metadata t)
      (event_record ty now (t_attempt_count t) (compact_event_data data)) = Inr m"
    and t': "t_metadata t' = m" "t_id t' = t_id t" "t_status t' = t_status t"
      "t_run_token t' = t_run_token t" "t_progress t' = max (t_progress t) (min (progress_of fr ty data) 95)"
    by (auto split: sum.splits)
  from 3 t0 have run: "t_status t = Running" "t_run_token t = Some (l_token l)"
    by (auto simp: lease_lost_def)
  with ok have "t_progress t \<le> 95" by (simp add: agent_task_ok_def)
  with 3 t0 t' run push_event_bound [OF m] assms(2) show ?thesis
    by (auto simp: get_put_task owns_def max_task_events_def)
qed

theorem record_event_effect_witness:
  "\<exists>d' t'. record_event (\<lambda>_. []) \<lparr>l_task_id = UUID 11, l_token = UUID 99\<rparr> 10 (lit ''plan'') []
       demo_running = (d', Inr ())
     \<and> get_task (UUID 11) d' = Some t' \<and> t_progress t' \<le> 95 \<and> t_status t' = Running"
proof -
  let ?l = "\<lparr>l_task_id = UUID 11, l_token = UUID 99\<rparr>"
  have ok: "tasks_ok demo_running"
    unfolding demo_running_def by (rule claim_tasks_ok) (rule demo_tasks_ok)
  have "\<exists>d'. record_event (\<lambda>_. []) ?l 10 (lit ''plan'') [] demo_running = (d', Inr ())"
    by (simp add: record_event_def with_task_lease_def lock_task_lease_def demo_running_row
        lease_lost_def push_event_def demo_task_def seconds_def jget_def dget_def)
  then obtain d' where d': "record_event (\<lambda>_. []) ?l 10 (lit ''plan'') [] demo_running = (d', Inr ())"
    by blast
  from record_event_effect [OF ok _ _ d'] d' show ?thesis
    by (auto simp: demo_running_row demo_task_def)
qed

end
