(* ===== verification/Task_Schedules.thy ===== *)
theory Task_Schedules
  imports Task_Invariant
begin

text \<open>
  Recurring work (\<open>services/task_schedules.py\<close>): the computation of the next run of a one-time,
  interval or daily schedule, the occurrence a late tick stands for, and the dispatch of due
  schedules into queued tasks. The tz database is an argument: \<open>zones\<close> maps a zone name to the
  conversions between UTC and local wall time (fold 0); nothing is assumed about them.
  Differences of times are exact; \<open>total_seconds() // n\<close> of the code agrees with the integer
  division below while a difference stays under 2^32 seconds.
\<close>

definition max_due_schedules_per_tick :: nat where
  "max_due_schedules_per_tick = 100"

record zone =
  zone_local :: "time \<Rightarrow> time"
  zone_utc :: "time \<Rightarrow> time"

type_synonym tzdb = "ustr \<Rightarrow> zone option"

definition validate_timezone :: "tzdb \<Rightarrow> ustr \<Rightarrow> ustr res" where
  "validate_timezone zones name =
     (let clean = strip name in
      case zones clean of
        None \<Rightarrow> Inl (ValueError (lit ''Unknown IANA timezone: '' @ clean))
      | Some _ \<Rightarrow> Inr clean)"

text \<open>A \<open>datetime\<close> of a request may carry no offset; \<open>_as_utc\<close> refuses it.\<close>

datatype py_datetime = Aware time | Naive time

fun as_utc :: "py_datetime \<Rightarrow> time res" where
  "as_utc (Aware t) = Inr t"
| "as_utc (Naive t) = Inl (ValueError (lit ''Scheduled datetimes must include a timezone offset''))"

section \<open>Daily schedules\<close>

definition day_length :: time where
  "day_length = 86400000000"

text \<open>\<open>time(hour=int(h), minute=int(m))\<close> of an \<open>HH:MM\<close> text, as the time since midnight.\<close>

definition parse_daily_time :: "ustr \<Rightarrow> time res" where
  "parse_daily_time daily_time =
     (case split_once 58 daily_time of
        None \<Rightarrow> Inl (ValueError (lit ''daily_time must use HH:MM in 24-hour time''))
      | Some (h, m) \<Rightarrow>
          (case (py_int h, py_int m) of
             (Some hour, Some minute) \<Rightarrow>
               if 0 \<le> hour \<and> hour \<le> 23 \<and> 0 \<le> minute \<and> minute \<le> 59
               then Inr (seconds (hour * 3600 + minute * 60))
               else Inl (ValueError (lit ''daily_time must use HH:MM in 24-hour time''))
           | _ \<Rightarrow> Inl (ValueError (lit ''daily_time must use HH:MM in 24-hour time''))))"

text \<open>
  The loop over 370 days: the first day whose wall time exists (it survives the round trip
  through UTC) and lies after \<open>now\<close>.
\<close>

fun daily_search :: "zone \<Rightarrow> time \<Rightarrow> time \<Rightarrow> nat \<Rightarrow> time option" where
  "daily_search z now naive 0 = None"
| "daily_search z now naive (Suc n) =
     (let candidate = zone_utc z naive in
      if zone_local z candidate \<noteq> naive then daily_search z now (naive + day_length) n
      else if now < candidate then Some candidate
      else daily_search z now (naive + day_length) n)"

lemma daily_search_numeral:
  "daily_search z now naive (numeral v) =
     (let candidate = zone_utc z naive in
      if zone_local z candidate \<noteq> naive \<or> candidate \<le> now
      then daily_search z now (naive + day_length) (pred_numeral v)
      else Some candidate)"
  by (auto simp: numeral_eq_Suc Let_def)

definition next_daily_run :: "tzdb \<Rightarrow> time \<Rightarrow> ustr \<Rightarrow> ustr option \<Rightarrow> time res" where
  "next_daily_run zones now_utc timezone_name daily_time =
     (case daily_time of
        None \<Rightarrow> Inl (ValueError (lit ''daily_time is required for a daily schedule''))
      | Some text \<Rightarrow>
          (case parse_daily_time text of
             Inl e \<Rightarrow> Inl e
           | Inr local_time \<Rightarrow>
               (case validate_timezone zones timezone_name of
                  Inl e \<Rightarrow> Inl e
                | Inr name \<Rightarrow>
                    (case zones name of
                       None \<Rightarrow> Inl (ValueError (lit ''Unknown IANA timezone: '' @ name))
                     | Some z \<Rightarrow>
                         (let today = zone_local z now_utc div day_length * day_length in
                          case daily_search z now_utc (today + local_time) 370 of
                            None \<Rightarrow> Inl (ValueError (lit ''No valid daily occurrence in the next year''))
                          | Some candidate \<Rightarrow> Inr candidate)))))"

section \<open>The next run\<close>

definition initial_next_run ::
  "tzdb \<Rightarrow> schedule_kind \<Rightarrow> ustr \<Rightarrow> time \<Rightarrow> py_datetime option \<Rightarrow> int option \<Rightarrow> ustr option \<Rightarrow> time res" where
  "initial_next_run zones kind timezone_name now_utc run_at interval_seconds daily_time =
     (case validate_timezone zones timezone_name of
        Inl e \<Rightarrow> Inl e
      | Inr name \<Rightarrow>
          (case kind of
             Once \<Rightarrow>
               (case run_at of
                  None \<Rightarrow> Inl (ValueError (lit ''run_at is required for a one-time schedule''))
                | Some r \<Rightarrow>
                    (case as_utc r of
                       Inl e \<Rightarrow> Inl e
                     | Inr t \<Rightarrow> if t \<le> now_utc then Inl (ValueError (lit ''run_at must be in the future''))
                              else Inr t))
           | Interval \<Rightarrow>
               (case interval_seconds of
                  None \<Rightarrow> Inl (ValueError (lit ''interval_minutes must be at least 1''))
                | Some n \<Rightarrow>
                    if n < 60 then Inl (ValueError (lit ''interval_minutes must be at least 1''))
                    else case run_at of
                      None \<Rightarrow> Inr (now_utc + seconds n)
                    | Some r \<Rightarrow>
                        (case as_utc r of
                           Inl e \<Rightarrow> Inl e
                         | Inr t \<Rightarrow> Inr (if now_utc < t then t else now_utc + seconds n)))
           | Daily \<Rightarrow> next_daily_run zones now_utc name daily_time))"

definition stored_interval :: "task_schedule \<Rightarrow> int res" where
  "stored_interval s =
     (let n = (case sc_interval_seconds s of None \<Rightarrow> 0 | Some i \<Rightarrow> i) in
      if n < 60 then Inl (ValueError (lit ''Stored interval_seconds must be at least 60'')) else Inr n)"

definition next_run_after_occurrence :: "tzdb \<Rightarrow> task_schedule \<Rightarrow> time \<Rightarrow> time option res" where
  "next_run_after_occurrence zones s now_utc =
     (case sc_kind s of
        Once \<Rightarrow> Inr None
      | Interval \<Rightarrow>
          (case stored_interval s of
             Inl e \<Rightarrow> Inl e
           | Inr n \<Rightarrow>
               (let candidate = (case sc_next_run_at s of None \<Rightarrow> now_utc | Some t \<Rightarrow> t) + seconds n in
                if candidate \<le> now_utc
                then (let missed = (now_utc - candidate) div seconds n + 1
                      in Inr (Some (candidate + seconds (missed * n))))
                else Inr (Some candidate)))
      | Daily \<Rightarrow>
          (case next_daily_run zones now_utc (sc_timezone s) (sc_daily_time s) of
             Inl e \<Rightarrow> Inl e | Inr t \<Rightarrow> Inr (Some t)))"

lemma daily_search_after: "daily_search z now naive n = Some c \<Longrightarrow> now < c"
  by (induction z now naive n rule: daily_search.induct) (auto simp: Let_def split: if_splits)

lemma next_daily_run_after: "next_daily_run zones now name dt = Inr c \<Longrightarrow> now < c"
  by (auto simp: next_daily_run_def Let_def dest: daily_search_after
      split: option.splits sum.splits)

section \<open>The occurrence a tick stands for\<close>

text \<open>The \<open>while candidate <= now\<close> loop; each round moves to a later candidate, so it ends.\<close>

function daily_occurrence ::
  "tzdb \<Rightarrow> ustr \<Rightarrow> ustr option \<Rightarrow> time \<Rightarrow> time \<Rightarrow> time \<Rightarrow> time res" where
  "daily_occurrence zones name dt now occurrence candidate =
     (if candidate \<le> now
      then (case next_daily_run zones candidate name dt of
              Inl e \<Rightarrow> Inl e
            | Inr nxt \<Rightarrow> daily_occurrence zones name dt now (max occurrence candidate) nxt)
      else Inr occurrence)"
  by pat_completeness auto
termination
  by (relation "measure (\<lambda>(zones, name, dt, now, occurrence, candidate). nat (now - candidate + 1))")
    (auto dest: next_daily_run_after)

declare daily_occurrence.simps [simp del]

definition latest_due_occurrence :: "tzdb \<Rightarrow> task_schedule \<Rightarrow> time \<Rightarrow> time res" where
  "latest_due_occurrence zones s now =
     (let occurrence = (case sc_next_run_at s of None \<Rightarrow> now | Some t \<Rightarrow> t) in
      case sc_kind s of
        Once \<Rightarrow> Inr occurrence
      | Interval \<Rightarrow>
          (case stored_interval s of
             Inl e \<Rightarrow> Inl e
           | Inr n \<Rightarrow> Inr (occurrence + seconds ((now - occurrence) div seconds n * n)))
      | Daily \<Rightarrow>
          (case next_daily_run zones (now - seconds 259200) (sc_timezone s) (sc_daily_time s) of
             Inl e \<Rightarrow> Inl e
           | Inr candidate \<Rightarrow>
               daily_occurrence zones (sc_timezone s) (sc_daily_time s) now occurrence candidate))"

section \<open>Dispatch\<close>

definition schedule_active :: "uuid \<Rightarrow> task \<Rightarrow> bool" where
  "schedule_active schedule_id t \<longleftrightarrow>
     t_schedule_id t = Some schedule_id \<and> t_status t \<in> {Queued, Running}"

definition active_schedule_task :: "db \<Rightarrow> uuid \<Rightarrow> task option" where
  "active_schedule_task d schedule_id =
     (case sort_key t_created_at (filter (schedule_active schedule_id) (db_tasks d)) of
        [] \<Rightarrow> None | t # _ \<Rightarrow> Some t)"

fun schedule_kind_str :: "schedule_kind \<Rightarrow> ustr" where
  "schedule_kind_str Once = lit ''once''"
| "schedule_kind_str Interval = lit ''interval''"
| "schedule_kind_str Daily = lit ''daily''"

text \<open>\<open>new_id\<close> is the primary key of the task, \<open>nonce\<close> the \<open>uuid4()\<close> of a manual run.\<close>

definition schedule_key :: "task_schedule \<Rightarrow> time \<Rightarrow> uuid option \<Rightarrow> ustr" where
  "schedule_key s occurrence nonce =
     lit ''schedule:'' @ uuid_str (sc_id s) @ lit '':''
     @ (case nonce of Some i \<Rightarrow> uuid_hex i | None \<Rightarrow> isoformat occurrence)"

definition build_scheduled_task :: "uuid \<Rightarrow> time \<Rightarrow> task_schedule \<Rightarrow> time \<Rightarrow> uuid option \<Rightarrow> task" where
  "build_scheduled_task new_id created s occurrence nonce = \<lparr>
     t_id = new_id, t_user_id = Some (sc_user_id s), t_conversation_id = sc_conversation_id s,
     t_schedule_id = Some (sc_id s), t_name = sc_name s, t_kind = Agent,
     t_prompt = Some (sc_prompt s), t_status = Queued, t_progress = 0, t_error = None,
     t_result = None, t_trace_id = None,
     t_idempotency_key = Some (schedule_key s occurrence nonce),
     t_attempt_count = 0, t_max_attempts = sc_max_attempts s, t_next_attempt_at = Some occurrence,
     t_heartbeat_at = None, t_lease_expires_at = None, t_run_token = None,
     t_timeout_seconds = 180, t_deadline_at = Some (occurrence + seconds 900),
     t_replay_blocked_at = None, t_replay_blocked_reason = None,
     t_metadata = JObj [(lit ''events'', JList []),
       (lit ''schedule'', JObj [(lit ''schedule_id'', JStr (uuid_str (sc_id s))),
          (lit ''schedule_kind'', JStr (schedule_kind_str (sc_kind s))),
          (lit ''scheduled_for'', JStr (isoformat occurrence)),
          (lit ''manual'', JBool (nonce \<noteq> None))])],
     t_created_at = created, t_started_at = None, t_finished_at = None\<rparr>"

text \<open>
  \<open>session.add(task); flush()\<close>: the primary key and \<open>UNIQUE (user_id, idempotency_key)\<close>; in SQL a
  null in either column never conflicts.
\<close>

definition insert_task :: "task \<Rightarrow> db \<Rightarrow> db res" where
  "insert_task t d =
     (if get_task (t_id t) d \<noteq> None
         \<or> list_ex (\<lambda>x. t_user_id x \<noteq> None \<and> t_user_id x = t_user_id t
              \<and> t_idempotency_key x \<noteq> None \<and> t_idempotency_key x = t_idempotency_key t) (db_tasks d)
      then Inl IntegrityError
      else Inr (d\<lparr>db_tasks := db_tasks d @ [t]\<rparr>))"

definition put_schedule :: "task_schedule \<Rightarrow> db \<Rightarrow> db" where
  "put_schedule s d = d\<lparr>db_schedules := put_row sc_id s (db_schedules d)\<rparr>"

definition get_schedule :: "uuid \<Rightarrow> db \<Rightarrow> task_schedule option" where
  "get_schedule i d = find_row sc_id i (db_schedules d)"

lemma get_put_schedule [row_simps]:
  "get_schedule i (put_schedule s d) =
     (if i = sc_id s then map_option (\<lambda>_. s) (get_schedule i d) else get_schedule i d)"
  by (simp add: get_schedule_def put_schedule_def find_put_row)

lemma get_schedule_id: "get_schedule i d = Some s \<Longrightarrow> sc_id s = i"
  unfolding get_schedule_def by (rule find_row_Some(2))

interpretation schedules: keyed_store get_schedule put_schedule sc_id
  by unfold_locales (auto simp: get_put_schedule dest: get_schedule_id)

definition schedule_due :: "time \<Rightarrow> task_schedule \<Rightarrow> bool" where
  "schedule_due now s \<longleftrightarrow> sc_enabled s
     \<and> (case sc_next_run_at s of None \<Rightarrow> False | Some t \<Rightarrow> t \<le> now)"

text \<open>The rows \<open>SELECT ... ORDER BY next_run_at LIMIT 100 FOR UPDATE SKIP LOCKED\<close> returns.\<close>

definition due_schedules :: "uuid list \<Rightarrow> time \<Rightarrow> db \<Rightarrow> task_schedule list" where
  "due_schedules locked now d =
     take max_due_schedules_per_tick
       (sort_key (\<lambda>s. case sc_next_run_at s of None \<Rightarrow> now | Some t \<Rightarrow> t)
          (filter (\<lambda>s. schedule_due now s \<and> sc_id s \<notin> set locked) (db_schedules d)))"

text \<open>One round of the dispatch loop: the schedule's row, and the id of the task it queued.\<close>

definition dispatch_schedule ::
  "tzdb \<Rightarrow> time \<Rightarrow> uuid \<Rightarrow> task_schedule \<Rightarrow> db \<Rightarrow> (db \<times> uuid option) res" where
  "dispatch_schedule zones now new_id s d =
     (let s = s\<lparr>sc_last_dispatch_at := Some now, sc_last_dispatch_error := None\<rparr> in
      case (case latest_due_occurrence zones s now of
              Inl e \<Rightarrow> Inl e
            | Inr occurrence \<Rightarrow>
                (case next_run_after_occurrence zones s now of
                   Inl e \<Rightarrow> Inl e | Inr next_run \<Rightarrow> Inr (occurrence, next_run))) of
        Inl e \<Rightarrow> Inr (put_schedule (s\<lparr>sc_enabled := False,
             sc_last_dispatch_status := Some (lit ''invalid''),
             sc_last_dispatch_error := Some (exn_str e)\<rparr>) d, None)
      | Inr (occurrence, next_run) \<Rightarrow>
          (let s = s\<lparr>sc_next_run_at := next_run,
                     sc_enabled := (if next_run = None then False else sc_enabled s)\<rparr> in
           if now - occurrence > seconds (sc_misfire_grace_seconds s)
           then Inr (put_schedule (s\<lparr>sc_last_dispatch_status := Some (lit ''missed'')\<rparr>) d, None)
           else if active_schedule_task d (sc_id s) \<noteq> None
           then Inr (put_schedule (s\<lparr>sc_last_dispatch_status := Some (lit ''overlap_skipped'')\<rparr>) d, None)
           else (let task = build_scheduled_task new_id now s occurrence None in
                 case insert_task task d of
                   Inl e \<Rightarrow> Inl e
                 | Inr d' \<Rightarrow> Inr (put_schedule (s\<lparr>sc_last_run_at := Some occurrence,
                       sc_last_task_id := Some new_id,
                       sc_last_dispatch_status := Some (lit ''queued'')\<rparr>) d', Some new_id))))"

fun dispatch_loop ::
  "tzdb \<Rightarrow> time \<Rightarrow> (uuid \<Rightarrow> uuid) \<Rightarrow> task_schedule list \<Rightarrow> db \<Rightarrow> (db \<times> uuid list) res" where
  "dispatch_loop zones now fresh [] d = Inr (d, [])"
| "dispatch_loop zones now fresh (s # ss) d =
     (case dispatch_schedule zones now (fresh (sc_id s)) s d of
        Inl e \<Rightarrow> Inl e
      | Inr (d1, queued) \<Rightarrow>
          (case dispatch_loop zones now fresh ss d1 of
             Inl e \<Rightarrow> Inl e
           | Inr (d2, ids) \<Rightarrow> Inr (d2, (case queued of None \<Rightarrow> ids | Some i \<Rightarrow> i # ids))))"

text \<open>The transaction commits at the end of the loop; an exception rolls all of it back.\<close>

definition dispatch_due_schedules ::
  "tzdb \<Rightarrow> uuid list \<Rightarrow> time \<Rightarrow> (uuid \<Rightarrow> uuid) \<Rightarrow> db \<Rightarrow> db \<times> uuid list res" where
  "dispatch_due_schedules zones locked now fresh d =
     (case dispatch_loop zones now fresh (due_schedules locked now d) d of
        Inl e \<Rightarrow> (d, Inl e)
      | Inr (d', ids) \<Rightarrow> (d', Inr ids))"


section \<open>Facts about the next run\<close>

text \<open>The interval arithmetic both computations of an interval schedule rest on.\<close>

lemma interval_floor:
  fixes p a now :: int
  assumes "0 < p" and "a \<le> now"
  shows "a + (now - a) div p * p \<le> now" and "now < a + (now - a) div p * p + p"
    and "0 \<le> (now - a) div p"
proof -
  have m: "0 \<le> (now - a) mod p" "(now - a) mod p < p" using assms(1) by simp_all
  have e: "(now - a) div p * p = now - a - (now - a) mod p" by (simp add: minus_mod_eq_div_mult)
  from m e show "a + (now - a) div p * p \<le> now" "now < a + (now - a) div p * p + p" by linarith+
  show "0 \<le> (now - a) div p" using assms by (simp add: pos_imp_zdiv_nonneg_iff)
qed

lemma stored_interval_Inr:
  "stored_interval s = Inr n \<longleftrightarrow> sc_interval_seconds s = Some n \<and> 60 \<le> n"
  by (auto simp: stored_interval_def Let_def split: option.splits if_splits)

lemma seconds_mult: "seconds (k * n) = k * seconds n"
  by (simp add: seconds_def)

lemma next_run_interval:
  assumes "sc_kind s = Interval" "stored_interval s = Inr n" "sc_next_run_at s = Some a" "a \<le> now"
  shows "next_run_after_occurrence zones s now =
    Inr (Some (a + ((now - a) div seconds n + 1) * seconds n))"
proof -
  let ?p = "seconds n"
  have p: "0 < ?p" using assms(2) by (auto simp: stored_interval_Inr seconds_def)
  have "now - a = (now - (a + ?p)) + ?p" by simp
  then have step: "(now - a) div ?p = (now - (a + ?p)) div ?p + 1"
    using p div_add_self2 [of ?p "now - (a + ?p)"] by (metis less_irrefl)
  show ?thesis
  proof (cases "a + ?p \<le> now")
    case True
    with assms p step show ?thesis
      by (simp add: next_run_after_occurrence_def Let_def seconds_mult algebra_simps)
  next
    case False
    then have "(now - a) div ?p = 0" using assms(4) by (simp add: div_pos_pos_trivial)
    with False assms show ?thesis by (simp add: next_run_after_occurrence_def Let_def)
  qed
qed

lemma next_run_after_now:
  assumes "next_run_after_occurrence zones s now = Inr (Some t)"
    and "\<And>a. sc_next_run_at s = Some a \<Longrightarrow> a \<le> now"
  shows "now < t"
proof (cases "sc_kind s")
  case Once
  with assms show ?thesis by (simp add: next_run_after_occurrence_def)
next
  case Daily
  with assms show ?thesis
    by (auto simp: next_run_after_occurrence_def dest: next_daily_run_after split: sum.splits)
next
  case Interval
  with assms(1) obtain n where n: "stored_interval s = Inr n"
    by (auto simp: next_run_after_occurrence_def split: sum.splits)
  then have p: "0 < seconds n" by (auto simp: stored_interval_Inr seconds_def)
  show ?thesis
  proof (cases "sc_next_run_at s")
    case None
    with Interval n p assms(1) show ?thesis by (auto simp: next_run_after_occurrence_def Let_def)
  next
    case (Some a)
    with assms(2) have a: "a \<le> now" by simp
    from interval_floor(2) [OF p a] next_run_interval [OF Interval n Some a] assms(1)
    show ?thesis by (auto simp: algebra_simps)
  qed
qed

lemma daily_occurrence_bounds:
  "daily_occurrence zones name dt now occ cand = Inr r \<Longrightarrow> occ \<le> now \<Longrightarrow> occ \<le> r \<and> r \<le> now"
proof (induction zones name dt now occ cand rule: daily_occurrence.induct)
  case (1 zones name dt now occ cand)
  show ?case
  proof (cases "cand \<le> now")
    case False
    with 1 show ?thesis by (simp add: daily_occurrence.simps [of zones name dt now occ cand])
  next
    case True
    then obtain nxt where nxt: "next_daily_run zones cand name dt = Inr nxt"
        "daily_occurrence zones name dt now (max occ cand) nxt = Inr r"
      using 1(2) by (auto simp: daily_occurrence.simps [of zones name dt now occ cand] split: sum.splits)
    from 1(1) [OF True nxt] True 1(3) show ?thesis by simp
  qed
qed

lemma latest_due_bounds:
  assumes "latest_due_occurrence zones s now = Inr occ" and "sc_next_run_at s = Some a" and "a \<le> now"
  shows "a \<le> occ \<and> occ \<le> now"
proof (cases "sc_kind s")
  case Once
  with assms show ?thesis by (simp add: latest_due_occurrence_def)
next
  case Interval
  with assms obtain n where n: "stored_interval s = Inr n"
      "occ = a + (now - a) div seconds n * seconds n"
    by (auto simp: latest_due_occurrence_def seconds_mult Let_def split: sum.splits)
  then have p: "0 < seconds n" by (auto simp: stored_interval_Inr seconds_def)
  from interval_floor [OF p assms(3)] n p show ?thesis by simp
next
  case Daily
  with assms show ?thesis
    by (auto simp: latest_due_occurrence_def Let_def dest: daily_occurrence_bounds split: sum.splits)
qed

lemma daily_search_finds:
  "daily_search z now naive n = Some c \<Longrightarrow>
   \<exists>k < n. zone_local z c = naive + int k * day_length \<and> now < c
     \<and> (\<forall>j < k. let cand = zone_utc z (naive + int j * day_length) in
          zone_local z cand \<noteq> naive + int j * day_length \<or> cand \<le> now)"
proof (induction z now naive n rule: daily_search.induct)
  case (1 z now naive)
  then show ?case by simp
next
  case (2 z now naive n)
  let ?cand = "zone_utc z naive"
  show ?case
  proof (cases "zone_local z ?cand = naive \<and> now < ?cand")
    case True
    with 2(3) have "c = ?cand" by (simp add: Let_def)
    with True show ?thesis by (intro exI [of _ 0]) simp
  next
    case False
    with 2(3) have rest: "daily_search z now (naive + day_length) n = Some c"
      by (auto simp: Let_def split: if_splits)
    with False 2(1,2) obtain k where k: "k < n"
        "zone_local z c = naive + day_length + int k * day_length" "now < c"
        "\<forall>j < k. let cand = zone_utc z (naive + day_length + int j * day_length) in
          zone_local z cand \<noteq> naive + day_length + int j * day_length \<or> cand \<le> now"
      by (auto simp: Let_def)
    have "let cand = zone_utc z (naive + int j * day_length) in
          zone_local z cand \<noteq> naive + int j * day_length \<or> cand \<le> now" if "j < Suc k" for j
    proof (cases j)
      case 0
      with False show ?thesis by (auto simp: Let_def)
    next
      case (Suc i)
      with that k(4) show ?thesis by (simp add: algebra_simps)
    qed
    with k show ?thesis by (intro exI [of _ "Suc k"]) (simp add: algebra_simps)
  qed
qed

section \<open>Facts about dispatch\<close>

lemma active_schedule_task_None:
  "active_schedule_task d k = None \<longleftrightarrow> filter (schedule_active k) (db_tasks d) = []"
  unfolding active_schedule_task_def
  by (subst sort_key_empty [of t_created_at, symmetric])
    (cases "sort_key t_created_at (filter (schedule_active k) (db_tasks d))"; simp only: list.case option.distinct simp_thms list.distinct)

lemma insert_task_Inr:
  "insert_task t d = Inr d' \<Longrightarrow> d' = d\<lparr>db_tasks := db_tasks d @ [t]\<rparr> \<and> get_task (t_id t) d = None"
  by (auto simp: insert_task_def split: if_splits)

lemma put_schedule_other [simp]:
  "db_tasks (put_schedule s d) = db_tasks d" "get_task i (put_schedule s d) = get_task i d"
  "tasks_ok (put_schedule s d) = tasks_ok d"
  by (simp_all add: put_schedule_def)

lemma build_scheduled_task_simps [simp]:
  "t_id (build_scheduled_task i c s occ nonce) = i"
  "t_status (build_scheduled_task i c s occ nonce) = Queued"
  "t_schedule_id (build_scheduled_task i c s occ nonce) = Some (sc_id s)"
  "t_kind (build_scheduled_task i c s occ nonce) = Agent"
  by (simp_all add: build_scheduled_task_def)

lemma build_scheduled_task_ok: "0 \<le> sc_max_attempts s \<Longrightarrow> task_ok (build_scheduled_task i c s occ nonce)"
  by (simp add: build_scheduled_task_def task_ok_def agent_task_ok_def)

text \<open>The columns the computations read are not those the dispatch writes.\<close>

lemma stored_interval_update:
  "stored_interval (s\<lparr>sc_last_dispatch_at := a, sc_last_dispatch_error := e\<rparr>) = stored_interval s"
  by (simp add: stored_interval_def)

lemma dispatch_reads_stable:
  "latest_due_occurrence zones (s\<lparr>sc_last_dispatch_at := a, sc_last_dispatch_error := e\<rparr>) now =
     latest_due_occurrence zones s now"
  "next_run_after_occurrence zones (s\<lparr>sc_last_dispatch_at := a, sc_last_dispatch_error := e\<rparr>) now =
     next_run_after_occurrence zones s now"
  by (cases "sc_kind s"; auto simp: latest_due_occurrence_def next_run_after_occurrence_def
      stored_interval_update Let_def split: sum.split)+

lemma build_reads_stable:
  "build_scheduled_task i c (s\<lparr>sc_last_dispatch_at := a, sc_last_dispatch_error := e,
     sc_next_run_at := n, sc_enabled := b\<rparr>) occ nonce = build_scheduled_task i c s occ nonce"
  by (simp add: build_scheduled_task_def schedule_key_def)

text \<open>The two outcomes of one round: the row is put back not due, with or without a queued task.\<close>

lemma dispatch_schedule_cases:
  assumes "dispatch_schedule zones now new_id s d = Inr (d', q)" and due: "schedule_due now s"
  obtains (skipped) s' where "d' = put_schedule s' d" "q = None" "sc_id s' = sc_id s"
      "\<not> schedule_due now s'" "sc_last_dispatch_at s' = Some now"
      "sc_max_attempts s' = sc_max_attempts s"
  | (queued) s' occ d1 where "insert_task (build_scheduled_task new_id now s occ None) d = Inr d1"
      "d' = put_schedule s' d1" "q = Some new_id" "sc_id s' = sc_id s" "\<not> schedule_due now s'"
      "sc_last_dispatch_at s' = Some now" "sc_max_attempts s' = sc_max_attempts s"
      "latest_due_occurrence zones s now = Inr occ"
      "now - occ \<le> seconds (sc_misfire_grace_seconds s)"
      "filter (schedule_active (sc_id s)) (db_tasks d) = []"
proof -
  have not_due: "\<not> schedule_due now x"
    if "next_run_after_occurrence zones s now = Inr n" "sc_next_run_at x = n" for x n
    using that due next_run_after_now [of zones s now]
    by (auto simp: schedule_due_def split: option.splits)
  show ?thesis
  proof (cases "latest_due_occurrence zones s now")
    case (Inl e)
    with assms skipped show ?thesis
      by (auto simp: dispatch_schedule_def dispatch_reads_stable schedule_due_def Let_def)
  next
    case (Inr occ)
    note occ = this
    show ?thesis
    proof (cases "next_run_after_occurrence zones s now")
      case (Inl e)
      with assms occ skipped show ?thesis
        by (auto simp: dispatch_schedule_def dispatch_reads_stable schedule_due_def Let_def)
    next
      case (Inr n)
      show ?thesis
      proof (cases "now - occ > seconds (sc_misfire_grace_seconds s) \<or> active_schedule_task d (sc_id s) \<noteq> None")
        case True
        with assms occ Inr skipped not_due [OF Inr] show ?thesis
          by (auto simp: dispatch_schedule_def dispatch_reads_stable Let_def split: if_splits)
      next
        case False
        with assms occ Inr queued not_due [OF Inr] show ?thesis
          by (auto simp: dispatch_schedule_def dispatch_reads_stable build_reads_stable Let_def
              active_schedule_task_None split: if_splits sum.splits)
      qed
    qed
  qed
qed

lemma due_schedules_props:
  assumes "s \<in> set (due_schedules locked now d)"
  shows "s \<in> set (db_schedules d)" and "schedule_due now s" and "sc_id s \<notin> set locked"
  using assms set_take_subset by (fastforce simp: due_schedules_def)+

lemma due_schedules_distinct:
  assumes "keys_distinct sc_id (db_schedules d)"
  shows "distinct (map sc_id (due_schedules locked now d))"
proof -
  have "distinct (map f (sort_key g xs))" if "distinct (map f xs)"
    for f :: "task_schedule \<Rightarrow> uuid" and g :: "task_schedule \<Rightarrow> time" and xs
    using that by (simp add: distinct_map)
  then show ?thesis
    using assms
    by (simp add: due_schedules_def take_map [symmetric] distinct_map_filter keys_distinct_def)
qed

text \<open>What one round does to the rows of the schedule table.\<close>

lemma dispatch_schedule_rows:
  assumes "dispatch_schedule zones now i s d = Inr (d', q)" and "schedule_due now s"
    and "get_schedule (sc_id s) d \<noteq> None"
  shows "\<exists>s'. get_schedule (sc_id s) d' = Some s' \<and> \<not> schedule_due now s'
    \<and> sc_last_dispatch_at s' = Some now"
    and "k \<noteq> sc_id s \<Longrightarrow> get_schedule k d' = get_schedule k d"
proof -
  have ins: "get_schedule j d1 = get_schedule j d" if "insert_task t d = Inr d1" for t d1 j
    using insert_task_Inr [OF that] by (simp add: get_schedule_def)
  show "\<exists>s'. get_schedule (sc_id s) d' = Some s' \<and> \<not> schedule_due now s'
    \<and> sc_last_dispatch_at s' = Some now"
    using assms(1,2) by (cases rule: dispatch_schedule_cases) (use assms(3) ins in \<open>auto simp: get_put_schedule\<close>)
  show "get_schedule k d' = get_schedule k d" if "k \<noteq> sc_id s"
    using assms(1,2) by (cases rule: dispatch_schedule_cases) (use that ins in \<open>auto simp: get_put_schedule\<close>)
qed

lemma dispatch_loop_ConsE:
  assumes "dispatch_loop zones now fresh (s # ss) d = Inr (d', ids)"
  obtains d1 q ids1 where "dispatch_schedule zones now (fresh (sc_id s)) s d = Inr (d1, q)"
    "dispatch_loop zones now fresh ss d1 = Inr (d', ids1)"
    "ids = (case q of None \<Rightarrow> ids1 | Some i \<Rightarrow> i # ids1)"
  using assms by (auto split: sum.splits)

lemma dispatch_loop_rows:
  assumes "dispatch_loop zones now fresh ss d = Inr (d', ids)"
    and "distinct (map sc_id ss)" and "list_all (schedule_due now) ss"
    and "\<forall>s \<in> set ss. get_schedule (sc_id s) d \<noteq> None"
  shows "(\<forall>s \<in> set ss. \<exists>s'. get_schedule (sc_id s) d' = Some s' \<and> \<not> schedule_due now s'
      \<and> sc_last_dispatch_at s' = Some now)
    \<and> (\<forall>k. k \<notin> sc_id ` set ss \<longrightarrow> get_schedule k d' = get_schedule k d)"
  using assms
proof (induction ss arbitrary: d ids)
  case Nil
  then show ?case by simp
next
  case (Cons s ss)
  from Cons(2) obtain d1 q ids1 where
      one: "dispatch_schedule zones now (fresh (sc_id s)) s d = Inr (d1, q)"
    and rest: "dispatch_loop zones now fresh ss d1 = Inr (d', ids1)"
    by (rule dispatch_loop_ConsE)
  from Cons(4,5) have s: "schedule_due now s" "get_schedule (sc_id s) d \<noteq> None" by simp_all
  note rows = dispatch_schedule_rows [OF one s]
  from Cons(3) have fresh: "sc_id s \<notin> sc_id ` set ss" "distinct (map sc_id ss)" by auto
  have "\<forall>x \<in> set ss. get_schedule (sc_id x) d1 \<noteq> None"
  proof
    fix x assume x: "x \<in> set ss"
    with fresh have "sc_id x \<noteq> sc_id s" by (metis imageI)
    then have "get_schedule (sc_id x) d1 = get_schedule (sc_id x) d" by (rule rows(2))
    with x Cons(5) show "get_schedule (sc_id x) d1 \<noteq> None" by simp
  qed
  with Cons(1) [OF rest fresh(2)] Cons(4) have ih: "(\<forall>s \<in> set ss. \<exists>s'. get_schedule (sc_id s) d' = Some s'
      \<and> \<not> schedule_due now s' \<and> sc_last_dispatch_at s' = Some now)
    \<and> (\<forall>k. k \<notin> sc_id ` set ss \<longrightarrow> get_schedule k d' = get_schedule k d1)"
    by simp
  with fresh rows show ?case by auto
qed

text \<open>No two active tasks of one schedule.\<close>

definition no_overlap :: "db \<Rightarrow> bool" where
  "no_overlap d \<longleftrightarrow> list_all (\<lambda>t. case t_schedule_id t of None \<Rightarrow> True
     | Some k \<Rightarrow> length (filter (schedule_active k) (db_tasks d)) \<le> 1) (db_tasks d)"

lemma no_overlap_iff:
  "no_overlap d \<longleftrightarrow> (\<forall>k. length (filter (schedule_active k) (db_tasks d)) \<le> 1)"
proof
  assume *: "no_overlap d"
  show "\<forall>k. length (filter (schedule_active k) (db_tasks d)) \<le> 1"
  proof
    fix k
    show "length (filter (schedule_active k) (db_tasks d)) \<le> 1"
    proof (cases "filter (schedule_active k) (db_tasks d)")
      case Nil
      then show ?thesis by simp
    next
      case (Cons t ts)
      then have "t \<in> set (filter (schedule_active k) (db_tasks d))" by simp
      then have "t \<in> set (db_tasks d)" "schedule_active k t" by simp_all
      with * show ?thesis by (auto simp: no_overlap_def list_all_iff schedule_active_def)
    qed
  qed
qed (auto simp: no_overlap_def list_all_iff split: option.splits)

lemma no_overlap_frame: "db_tasks d' = db_tasks d \<Longrightarrow> no_overlap d' = no_overlap d"
  by (simp add: no_overlap_iff)

lemma no_overlap_append:
  assumes "no_overlap d" and "\<And>k. schedule_active k t \<Longrightarrow> filter (schedule_active k) (db_tasks d) = []"
    and "db_tasks d' = db_tasks d @ [t]"
  shows "no_overlap d'"
  using assms by (auto simp: no_overlap_iff)

text \<open>One lemma carries every row invariant of the task table through the loop.\<close>

lemma dispatch_loop_invariant:
  assumes "dispatch_loop zones now fresh ss d = Inr (d', ids)" and "list_all (schedule_due now) ss"
    and "set ss \<subseteq> S" and "P d" and put: "\<And>d s. P d \<Longrightarrow> P (put_schedule s d)"
    and ins: "\<And>s occ d d1. s \<in> S \<Longrightarrow> P d \<Longrightarrow>
        filter (schedule_active (sc_id s)) (db_tasks d) = [] \<Longrightarrow>
        insert_task (build_scheduled_task (fresh (sc_id s)) now s occ None) d = Inr d1 \<Longrightarrow> P d1"
  shows "P d'"
  using assms(1,2,3,4)
proof (induction ss arbitrary: d ids)
  case Nil
  then show ?case by simp
next
  case (Cons s ss)
  from Cons(2) obtain d1 q ids1 where
      one: "dispatch_schedule zones now (fresh (sc_id s)) s d = Inr (d1, q)"
    and rest: "dispatch_loop zones now fresh ss d1 = Inr (d', ids1)"
    by (rule dispatch_loop_ConsE)
  from Cons(3,4) have s: "schedule_due now s" "s \<in> S" by simp_all
  from one s(1) have "P d1"
  proof (cases rule: dispatch_schedule_cases)
    case (skipped s')
    with Cons(5) put show ?thesis by simp
  next
    case (queued s' occ d0)
    with ins [OF s(2) Cons(5)] put show ?thesis by blast
  qed
  with Cons(1) [OF rest] Cons(3,4) show ?case by simp
qed

definition schedules_ok :: "db \<Rightarrow> bool" where
  "schedules_ok d \<longleftrightarrow> keys_distinct sc_id (db_schedules d)
     \<and> list_all (\<lambda>s. 1 \<le> sc_max_attempts s) (db_schedules d)"

lemma due_schedules_due: "list_all (schedule_due now) (due_schedules locked now d)"
  using due_schedules_props(2) by (auto simp: list_all_iff)

lemma dispatch_due_schedules_cases:
  assumes "dispatch_due_schedules zones locked now fresh d = (d', r)"
  obtains (rolled_back) e where "d' = d" "r = Inl e"
  | (committed) ids where "r = Inr ids"
      "dispatch_loop zones now fresh (due_schedules locked now d) d = Inr (d', ids)"
  using assms by (auto simp: dispatch_due_schedules_def split: sum.splits)

lemma dispatch_tasks_ok:
  assumes ok: "tasks_ok d" and sc: "schedules_ok d"
  shows "tasks_ok (fst (dispatch_due_schedules zones locked now fresh d))"
proof -
  obtain d' r where w: "dispatch_due_schedules zones locked now fresh d = (d', r)" by fastforce
  then have "tasks_ok d'"
  proof (cases rule: dispatch_due_schedules_cases)
    case (rolled_back e)
    with ok show ?thesis by simp
  next
    case (committed ids)
    show ?thesis
    proof (rule dispatch_loop_invariant [where P = tasks_ok,
          OF committed(2) due_schedules_due subset_refl ok])
      show "tasks_ok (put_schedule s d)" if "tasks_ok d" for d s using that by simp
      fix s occ e d1
      assume s: "s \<in> set (due_schedules locked now d)" and e: "tasks_ok e"
        and ins: "insert_task (build_scheduled_task (fresh (sc_id s)) now s occ None) e = Inr d1"
      from due_schedules_props(1) [OF s] sc have "0 \<le> sc_max_attempts s"
        by (fastforce simp: schedules_ok_def list_all_iff)
      then have "task_ok (build_scheduled_task (fresh (sc_id s)) now s occ None)"
        by (rule build_scheduled_task_ok)
      with e insert_task_Inr [OF ins] show "tasks_ok d1" by (simp add: tasks_ok_append)
    qed
  qed
  with w show ?thesis by simp
qed

text \<open>A UTC-only tz database and schedules for evaluation on concrete input.\<close>

definition demo_zones :: tzdb where
  "demo_zones name = (if name = lit ''UTC'' then Some \<lparr>zone_local = id, zone_utc = id\<rparr> else None)"

definition demo_schedule :: "uuid \<Rightarrow> time \<Rightarrow> task_schedule" where
  "demo_schedule i next_run = \<lparr>sc_id = i, sc_user_id = UUID 7, sc_conversation_id = None,
     sc_name = lit ''report'', sc_prompt = lit ''write it'', sc_kind = Interval,
     sc_timezone = lit ''UTC'', sc_run_at = None, sc_interval_seconds = Some 60,
     sc_daily_time = None, sc_max_attempts = 3, sc_next_run_at = Some next_run,
     sc_last_run_at = None, sc_last_task_id = None, sc_enabled = True,
     sc_misfire_grace_seconds = 300, sc_last_dispatch_status = None, sc_last_dispatch_at = None,
     sc_last_dispatch_error = None, sc_created_at = 0\<rparr>"

definition demo_schedule_db :: db where
  "demo_schedule_db = empty_db\<lparr>db_schedules := [demo_schedule (UUID 21) (seconds 10)]\<rparr>"

lemma demo_due: "due_schedules [] (seconds 75) demo_schedule_db = [demo_schedule (UUID 21) (seconds 10)]"
  by (simp add: due_schedules_def demo_schedule_db_def schedule_due_def demo_schedule_def seconds_def
      max_due_schedules_per_tick_def)

lemma demo_dispatch_ids:
  "snd (dispatch_due_schedules demo_zones [] (seconds 75) (\<lambda>_. UUID 31) demo_schedule_db) = Inr [UUID 31]"
proof -
  have "sort_key t_created_at [] = ([] :: task list)" by simp
  then show ?thesis
    unfolding dispatch_due_schedules_def demo_due dispatch_loop.simps
    by (simp add: dispatch_schedule_def latest_due_occurrence_def next_run_after_occurrence_def
        stored_interval_def demo_schedule_def seconds_def active_schedule_task_def
        demo_schedule_db_def empty_db_def insert_task_def get_task_def find_row_def)
qed

lemma demo_dispatch:
  obtains d' where "dispatch_due_schedules demo_zones [] (seconds 75) (\<lambda>_. UUID 31) demo_schedule_db =
     (d', Inr [UUID 31])"
  using demo_dispatch_ids by (metis prod.collapse)

section \<open>Properties\<close>

text \<open>
  A late interval schedule: the occurrence a tick stands for is the last grid point not after
  now, the stored next run is the grid point right after it, strictly in the future; the grid of
  the anchor is kept however many intervals were missed.
\<close>

theorem interval_schedule_advances:
  assumes "sc_kind s = Interval" and "stored_interval s = Inr n"
    and "sc_next_run_at s = Some a" and "a \<le> now"
  shows "\<exists>k \<ge> 0. \<exists>occ. latest_due_occurrence zones s now = Inr occ
    \<and> next_run_after_occurrence zones s now = Inr (Some (occ + seconds n))
    \<and> occ = a + seconds (k * n) \<and> occ \<le> now \<and> now < occ + seconds n"
proof -
  from assms(2) have p: "0 < seconds n" by (auto simp: stored_interval_Inr seconds_def)
  let ?k = "(now - a) div seconds n"
  from interval_floor [OF p assms(4)] next_run_interval [OF assms] assms
  have "latest_due_occurrence zones s now = Inr (a + seconds (?k * n))"
    "next_run_after_occurrence zones s now = Inr (Some (a + seconds (?k * n) + seconds n))"
    "a + seconds (?k * n) \<le> now" "now < a + seconds (?k * n) + seconds n" "0 \<le> ?k"
    by (simp_all add: latest_due_occurrence_def seconds_mult [of "(now - a) div seconds n" n] add.assoc
        distrib_right)
  then show ?thesis by blast
qed

theorem interval_schedule_advances_witness:
  "\<exists>k \<ge> 0. \<exists>occ. latest_due_occurrence demo_zones (demo_schedule (UUID 21) (seconds 10)) (seconds 200) = Inr occ
    \<and> next_run_after_occurrence demo_zones (demo_schedule (UUID 21) (seconds 10)) (seconds 200) =
        Inr (Some (occ + seconds 60))
    \<and> occ = seconds 10 + seconds (k * 60) \<and> occ \<le> seconds 200 \<and> seconds 200 < occ + seconds 60"
  by (rule interval_schedule_advances)
    (simp_all add: demo_schedule_def stored_interval_def seconds_def)





text \<open>
  Schedules do not overlap with themselves: a dispatch never leaves a schedule with two
  active (queued or running) tasks, whatever schedules were due and however late.
\<close>

theorem dispatch_never_overlaps:
  assumes "no_overlap d"
  shows "no_overlap (fst (dispatch_due_schedules zones locked now fresh d))"
proof -
  obtain d' r where w: "dispatch_due_schedules zones locked now fresh d = (d', r)" by fastforce
  then have "no_overlap d'"
  proof (cases rule: dispatch_due_schedules_cases)
    case (rolled_back e)
    with assms show ?thesis by simp
  next
    case (committed ids)
    show ?thesis
    proof (rule dispatch_loop_invariant [where P = no_overlap,
          OF committed(2) due_schedules_due subset_refl assms])
      show "no_overlap (put_schedule s d)" if "no_overlap d" for d s
        using that by (simp add: no_overlap_iff)
      show "no_overlap d1" if "no_overlap e" "filter (schedule_active (sc_id s)) (db_tasks e) = []"
        "insert_task (build_scheduled_task (fresh (sc_id s)) now s occ None) e = Inr d1" for s occ e d1
        using that insert_task_Inr [OF that(3)]
        by (intro no_overlap_append [OF that(1)]) (auto simp: schedule_active_def)
    qed
  qed
  with w show ?thesis by simp
qed

theorem dispatch_never_overlaps_witness:
  "no_overlap (fst (dispatch_due_schedules demo_zones [] (seconds 75) (\<lambda>_. UUID 31) demo_schedule_db))
   \<and> snd (dispatch_due_schedules demo_zones [] (seconds 75) (\<lambda>_. UUID 31) demo_schedule_db) = Inr [UUID 31]"
proof -
  have "no_overlap demo_schedule_db"
    by (simp add: no_overlap_def demo_schedule_db_def empty_db_def)
  from dispatch_never_overlaps [OF this] demo_dispatch_ids show ?thesis by blast
qed

end
