(* ===== verification/Task_Scheduler.thy ===== *)
theory Task_Scheduler
  imports Task_Runner Task_Schedules
begin

text \<open>
  The in-process scheduler (\<open>services/task_scheduler.py\<close>): the table of asyncio jobs with its
  capacity, the recovery of tasks whose lease ran out, and the maintenance round that recovers,
  dispatches and enqueues. A job is a value with an identity, so that the done callback of an old
  job and a newer job of the same task are told apart as \<open>is\<close> tells them apart in the code.
\<close>

definition stale_task_error :: ustr where
  "stale_task_error = lit ''Task lease expired after the final permitted attempt''"

definition recovered_task_error :: ustr where
  "recovered_task_error = lit ''Task lease expired before external work; execution was re-queued''"

section \<open>The job table\<close>

text \<open>A job waits for the semaphore, runs, and is done; cancellation is a request.\<close>

datatype job_phase = JWaiting | JRunning | JDone

record job =
  jb_task :: uuid
  jb_serial :: nat
  jb_phase :: job_phase
  jb_cancel_requested :: bool

record scheduler =
  sd_max_concurrency :: nat
  sd_poll_seconds :: int
  sd_jobs :: "job list"
  sd_maintenance :: bool
  sd_started :: bool
  sd_next_serial :: nat

definition scheduler_init :: "int option \<Rightarrow> int option \<Rightarrow> int \<Rightarrow> int \<Rightarrow> scheduler" where
  "scheduler_init max_concurrency poll_seconds dflt_concurrency dflt_poll = \<lparr>
     sd_max_concurrency = nat (max (or_setting max_concurrency dflt_concurrency) 1),
     sd_poll_seconds = max (or_setting poll_seconds dflt_poll) 1,
     sd_jobs = [], sd_maintenance = False, sd_started = False, sd_next_serial = 0\<rparr>"

text \<open>\<open>_jobs\<close> is keyed by task id; \<open>find_row\<close> is its \<open>get\<close>.\<close>

definition scheduler_start :: "bool \<Rightarrow> scheduler \<Rightarrow> scheduler" where
  "scheduler_start loop_running s =
     (if sd_started s \<or> \<not> loop_running then s else s\<lparr>sd_started := True, sd_maintenance := True\<rparr>)"

definition scheduler_shutdown :: "scheduler \<Rightarrow> scheduler" where
  "scheduler_shutdown s = s\<lparr>sd_jobs := [], sd_maintenance := False, sd_started := False\<rparr>"

definition enqueue :: "bool \<Rightarrow> uuid \<Rightarrow> scheduler \<Rightarrow> scheduler \<times> bool" where
  "enqueue loop_running i s =
     (if (case find_row jb_task i (sd_jobs s) of None \<Rightarrow> False | Some j \<Rightarrow> jb_phase j \<noteq> JDone)
      then (s, False)
      else if length (sd_jobs s) \<ge> sd_max_concurrency s * 2 then (s, False)
      else if \<not> loop_running then (s, False)
      else (let j = \<lparr>jb_task = i, jb_serial = sd_next_serial s, jb_phase = JWaiting,
                     jb_cancel_requested = False\<rparr> in
            (s\<lparr>sd_jobs := (if i \<in> jb_task ` set (sd_jobs s) then put_row jb_task j (sd_jobs s)
                           else sd_jobs s @ [j]),
               sd_next_serial := sd_next_serial s + 1\<rparr>, True)))"

definition cancel_job :: "uuid \<Rightarrow> scheduler \<Rightarrow> scheduler \<times> bool" where
  "cancel_job i s =
     (case find_row jb_task i (sd_jobs s) of
        None \<Rightarrow> (s, False)
      | Some j \<Rightarrow>
          if jb_phase j = JDone then (s, False)
          else (s\<lparr>sd_jobs := put_row jb_task (j\<lparr>jb_cancel_requested := True\<rparr>) (sd_jobs s)\<rparr>, True))"

text \<open>The done callback: only the very job it was registered for leaves the table.\<close>

definition job_finished :: "uuid \<Rightarrow> nat \<Rightarrow> scheduler \<Rightarrow> scheduler" where
  "job_finished i serial s =
     (case find_row jb_task i (sd_jobs s) of
        None \<Rightarrow> s
      | Some j \<Rightarrow>
          if jb_serial j = serial then s\<lparr>sd_jobs := filter (\<lambda>x. jb_task x \<noteq> i) (sd_jobs s)\<rparr> else s)"

text \<open>
  \<open>_run_job\<close>: a waiting job enters the semaphore when fewer than \<open>max_concurrency\<close> jobs are
  inside; leaving it, the job is done (also when it was cancelled).
\<close>

definition running_jobs :: "scheduler \<Rightarrow> nat" where
  "running_jobs s = length (filter (\<lambda>j. jb_phase j = JRunning) (sd_jobs s))"

definition run_job_enter :: "uuid \<Rightarrow> scheduler \<Rightarrow> scheduler" where
  "run_job_enter i s =
     (case find_row jb_task i (sd_jobs s) of
        Some j \<Rightarrow>
          if jb_phase j = JWaiting \<and> running_jobs s < sd_max_concurrency s
          then s\<lparr>sd_jobs := put_row jb_task (j\<lparr>jb_phase := JRunning\<rparr>) (sd_jobs s)\<rparr> else s
      | None \<Rightarrow> s)"

definition run_job_exit :: "uuid \<Rightarrow> scheduler \<Rightarrow> scheduler" where
  "run_job_exit i s =
     (case find_row jb_task i (sd_jobs s) of
        Some j \<Rightarrow> s\<lparr>sd_jobs := put_row jb_task (j\<lparr>jb_phase := JDone\<rparr>) (sd_jobs s)\<rparr>
      | None \<Rightarrow> s)"

section \<open>Recovery of abandoned tasks\<close>

definition lease_expired :: "time \<Rightarrow> task \<Rightarrow> bool" where
  "lease_expired now t \<longleftrightarrow> (case t_lease_expires_at t of None \<Rightarrow> True | Some e \<Rightarrow> e \<le> now)"

text \<open>The rows the recovery query locks: at most 100, the longest expired first, nulls first.\<close>

definition stale_tasks :: "uuid list \<Rightarrow> time \<Rightarrow> db \<Rightarrow> task list" where
  "stale_tasks locked now d =
     take 100 (sort_key (\<lambda>t. (t_lease_expires_at t, t_id t))
       (filter (\<lambda>t. t_status t = Running \<and> t_kind t = Agent \<and> lease_expired now t
                    \<and> t_id t \<notin> set locked) (db_tasks d)))"

definition recover_task :: "time \<Rightarrow> task \<Rightarrow> task" where
  "recover_task now t =
     (let attempt_count = (if t_attempt_count t = 0 then 1 else t_attempt_count t);
          max_attempts = (if t_max_attempts t = 0 then 1 else t_max_attempts t);
          deadline_expired = (case t_deadline_at t of None \<Rightarrow> False | Some x \<Rightarrow> x \<le> now);
          t' = (if attempt_count < max_attempts \<and> t_replay_blocked_at t = None \<and> \<not> deadline_expired
                then t\<lparr>t_status := Queued, t_error := Some recovered_task_error,
                       t_finished_at := None, t_next_attempt_at := Some now\<rparr>
                else t\<lparr>t_status := Stale, t_finished_at := Some now,
                       t_error := Some (if t_replay_blocked_at t \<noteq> None then replay_blocked_error
                                  else if deadline_expired then lit ''Task deadline expired during recovery''
                                  else stale_task_error),
                       t_next_attempt_at := None\<rparr>)
      in t'\<lparr>t_lease_expires_at := None, t_run_token := None\<rparr>)"

fun recover_loop :: "time \<Rightarrow> task list \<Rightarrow> db \<Rightarrow> db \<times> nat" where
  "recover_loop now [] d = (d, 0)"
| "recover_loop now (t # ts) d =
     (if (case t_lease_expires_at t of None \<Rightarrow> False | Some e \<Rightarrow> now < e) then recover_loop now ts d
      else (case recover_loop now ts (put_task (recover_task now t) d) of (d', n) \<Rightarrow> (d', n + 1)))"

definition recover_stale_running_tasks :: "uuid list \<Rightarrow> time \<Rightarrow> db \<Rightarrow> db \<times> nat" where
  "recover_stale_running_tasks locked now d = recover_loop now (stale_tasks locked now d) d"

section \<open>The maintenance round\<close>

definition ready_task_ids :: "nat \<Rightarrow> time \<Rightarrow> db \<Rightarrow> uuid list" where
  "ready_task_ids limit now d =
     take limit (map t_id (sort_key (\<lambda>t. (t_next_attempt_at t, t_created_at t, t_id t))
       (filter (\<lambda>t. t_status t = Queued \<and> t_kind t = Agent
            \<and> (case t_next_attempt_at t of None \<Rightarrow> True | Some n \<Rightarrow> n \<le> now)) (db_tasks d))))"

fun enqueue_all :: "bool \<Rightarrow> uuid list \<Rightarrow> scheduler \<Rightarrow> scheduler" where
  "enqueue_all loop_running [] s = s"
| "enqueue_all loop_running (i # is) s = enqueue_all loop_running is (fst (enqueue loop_running i s))"

text \<open>
  \<open>_recover_and_resume\<close>: recovery and dispatch commit separately; when the dispatch raises, its
  transaction is rolled back, the round ends and the loop logs it and sleeps.
\<close>

definition recover_and_resume ::
  "tzdb \<Rightarrow> uuid list \<Rightarrow> uuid list \<Rightarrow> time \<Rightarrow> (uuid \<Rightarrow> uuid) \<Rightarrow> db \<Rightarrow> scheduler \<Rightarrow> db \<times> scheduler" where
  "recover_and_resume zones locked_tasks locked_schedules now fresh d s =
     (case recover_stale_running_tasks locked_tasks now d of
        (d1, _) \<Rightarrow>
          (case dispatch_due_schedules zones locked_schedules now fresh d1 of
             (d2, Inl e) \<Rightarrow> (d2, s)
           | (d2, Inr ids) \<Rightarrow>
               (d2, enqueue_all True (ready_task_ids (sd_max_concurrency s * 2) now d2) s)))"

section \<open>The job table is bounded\<close>

definition jobs_ok :: "scheduler \<Rightarrow> bool" where
  "jobs_ok s \<longleftrightarrow> keys_distinct jb_task (sd_jobs s)
     \<and> length (sd_jobs s) \<le> sd_max_concurrency s * 2
     \<and> running_jobs s \<le> sd_max_concurrency s
     \<and> list_all (\<lambda>j. jb_serial j < sd_next_serial s) (sd_jobs s)"

lemma length_filter_put_row:
  assumes "keys_distinct key rows" and "find_row key (key r) rows = Some r0"
  shows "length (filter p (put_row key r rows)) + (if p r0 then 1 else 0)
    = length (filter p rows) + (if p r then 1 else 0)"
  using assms
proof (induction rows)
  case Nil
  then show ?case by (simp add: find_row_def)
next
  case (Cons x xs)
  have rest: "put_row key r xs = xs" if "key r \<notin> key ` set xs"
    using that unfolding put_row_def by (intro map_idI) (metis image_eqI)
  show ?case
  proof (cases "key x = key r")
    case True
    with Cons(2,3) rest show ?thesis
      by (auto simp: find_row_def keys_distinct_def put_row_def)
  next
    case False
    with Cons(2,3) have "find_row key (key r) xs = Some r0" "keys_distinct key xs"
      by (auto simp: find_row_def keys_distinct_def)
    with Cons(1) False show ?thesis by (auto simp: put_row_def)
  qed
qed

lemma serial_put_row:
  "list_all (\<lambda>j. jb_serial j < n) js \<Longrightarrow> jb_serial r < n \<Longrightarrow>
   list_all (\<lambda>j. jb_serial j < n) (put_row jb_task r js)"
  by (auto simp: list_all_iff put_row_def)

lemma put_job_ok:
  assumes "jobs_ok s" and f: "find_row jb_task (jb_task j) (sd_jobs s) = Some j0"
    and "jb_serial j < n" and "sd_next_serial s \<le> n"
    and "jb_phase j = JRunning \<Longrightarrow> jb_phase j0 = JRunning \<or> running_jobs s < sd_max_concurrency s"
  shows "jobs_ok (s\<lparr>sd_jobs := put_row jb_task j (sd_jobs s), sd_next_serial := n\<rparr>)"
proof -
  from assms(1) have ok: "keys_distinct jb_task (sd_jobs s)" by (simp add: jobs_ok_def)
  have "list_all (\<lambda>x. jb_serial x < n) (sd_jobs s)"
    using assms(1,4) by (fastforce simp: jobs_ok_def list_all_iff)
  then have "list_all (\<lambda>x. jb_serial x < n) (put_row jb_task j (sd_jobs s))"
    using assms(3) by (rule serial_put_row)
  with length_filter_put_row [OF ok f, of "\<lambda>j. jb_phase j = JRunning"] assms(1,5) show ?thesis
    by (auto simp: jobs_ok_def row_simps running_jobs_def split: if_splits)
qed

lemma scheduler_init_ok: "jobs_ok (scheduler_init a b c e)"
  by (simp add: jobs_ok_def scheduler_init_def keys_distinct_def running_jobs_def)

lemma scheduler_start_ok: "jobs_ok s \<Longrightarrow> jobs_ok (scheduler_start r s)"
  by (simp add: scheduler_start_def jobs_ok_def running_jobs_def)

lemma scheduler_shutdown_ok: "jobs_ok (scheduler_shutdown s)"
  by (simp add: scheduler_shutdown_def jobs_ok_def running_jobs_def keys_distinct_def)

lemma enqueue_ok: "jobs_ok s \<Longrightarrow> jobs_ok (fst (enqueue r i s))"
proof -
  assume ok: "jobs_ok s"
  let ?j = "\<lparr>jb_task = i, jb_serial = sd_next_serial s, jb_phase = JWaiting, jb_cancel_requested = False\<rparr>"
  show ?thesis
  proof (cases "find_row jb_task i (sd_jobs s)")
    case None
    with ok show ?thesis
      by (auto simp: enqueue_def find_row_None_iff jobs_ok_def row_simps running_jobs_def Let_def list_all_iff)
  next
    case (Some j0)
    then have "i \<in> jb_task ` set (sd_jobs s)" using find_row_None_iff by (metis option.distinct(1))
    with Some put_job_ok [OF ok, of ?j j0 "sd_next_serial s + 1"] ok show ?thesis
      by (auto simp: enqueue_def Let_def)
  qed
qed

lemma put_same_serial_ok:
  assumes "jobs_ok s" and "find_row jb_task i (sd_jobs s) = Some j"
    and "jb_task j' = i" and "jb_serial j' = jb_serial j"
    and "jb_phase j' = JRunning \<Longrightarrow> jb_phase j = JRunning \<or> running_jobs s < sd_max_concurrency s"
  shows "jobs_ok (s\<lparr>sd_jobs := put_row jb_task j' (sd_jobs s)\<rparr>)"
proof -
  from assms(1,2) have "jb_serial j < sd_next_serial s"
    by (auto simp: jobs_ok_def list_all_iff dest: find_row_Some(1))
  with put_job_ok [OF assms(1), of j' j "sd_next_serial s"] assms(2-5) show ?thesis by simp
qed

lemma cancel_job_ok: "jobs_ok s \<Longrightarrow> jobs_ok (fst (cancel_job i s))"
  by (auto simp: cancel_job_def split: option.split intro!: put_same_serial_ok dest: find_row_Some(2))

lemma run_job_enter_ok: "jobs_ok s \<Longrightarrow> jobs_ok (run_job_enter i s)"
  by (auto simp: run_job_enter_def split: option.split intro!: put_same_serial_ok dest: find_row_Some(2))

lemma run_job_exit_ok: "jobs_ok s \<Longrightarrow> jobs_ok (run_job_exit i s)"
  by (auto simp: run_job_exit_def split: option.split intro!: put_same_serial_ok dest: find_row_Some(2))

lemma length_filter_filter_le: "length (filter p (filter q xs)) \<le> length (filter p xs)"
  by (induction xs) auto

lemma job_finished_ok: "jobs_ok s \<Longrightarrow> jobs_ok (job_finished i n s)"
proof -
  assume ok: "jobs_ok s"
  let ?js = "filter (\<lambda>x. jb_task x \<noteq> i) (sd_jobs s)"
  have "length ?js \<le> sd_max_concurrency s * 2"
    using ok by (meson jobs_ok_def le_trans length_filter_le)
  moreover have "length (filter (\<lambda>j. jb_phase j = JRunning) ?js) \<le> sd_max_concurrency s"
    using ok length_filter_filter_le [of "\<lambda>j. jb_phase j = JRunning" "\<lambda>x. jb_task x \<noteq> i" "sd_jobs s"]
    by (simp add: jobs_ok_def running_jobs_def)
  moreover have "list_all (\<lambda>j. jb_serial j < sd_next_serial s) ?js" "distinct (map jb_task ?js)"
    using ok by (auto simp: jobs_ok_def list_all_iff keys_distinct_def distinct_map_filter)
  ultimately have "jobs_ok (s\<lparr>sd_jobs := ?js\<rparr>)"
    using ok by (simp add: jobs_ok_def keys_distinct_def running_jobs_def)
  with ok show ?thesis by (simp add: job_finished_def split: option.split)
qed

lemma enqueue_all_ok: "jobs_ok s \<Longrightarrow> jobs_ok (enqueue_all r is s)"
  by (induction r "is" s rule: enqueue_all.induct) (simp_all add: enqueue_ok)

text \<open>Every way the table changes, as one step relation.\<close>

inductive scheduler_step :: "scheduler \<Rightarrow> scheduler \<Rightarrow> bool" where
  start: "scheduler_step s (scheduler_start r s)"
| shutdown: "scheduler_step s (scheduler_shutdown s)"
| enqueue: "scheduler_step s (fst (enqueue r i s))"
| cancel: "scheduler_step s (fst (cancel_job i s))"
| enter: "scheduler_step s (run_job_enter i s)"
| exit: "scheduler_step s (run_job_exit i s)"
| finished: "scheduler_step s (job_finished i n s)"
    if "find_row jb_task i (sd_jobs s) = Some j" "jb_phase j = JDone"

inductive_cases scheduler_stepE: "scheduler_step s t"

definition scheduler_initial :: "scheduler \<Rightarrow> bool" where
  "scheduler_initial s \<longleftrightarrow> jobs_ok s \<and> sd_jobs s = []"

interpretation jobs: step_system scheduler_initial scheduler_step jobs_ok
proof unfold_locales
  show "jobs_ok s" if "scheduler_initial s" for s using that by (simp add: scheduler_initial_def)
  show "jobs_ok t" if "jobs_ok s" "scheduler_step s t" for s t
    using that(2,1)
    by (induction rule: scheduler_step.induct) (simp_all add: scheduler_start_ok scheduler_shutdown_ok
        enqueue_ok cancel_job_ok run_job_enter_ok run_job_exit_ok job_finished_ok)
qed

section \<open>Facts about recovery\<close>

lemma recover_task_simps [simp]:
  "t_id (recover_task now t) = t_id t" "t_kind (recover_task now t) = t_kind t"
  "t_schedule_id (recover_task now t) = t_schedule_id t"
  "t_run_token (recover_task now t) = None" "t_lease_expires_at (recover_task now t) = None"
  "t_attempt_count (recover_task now t) = t_attempt_count t"
  "t_replay_blocked_at (recover_task now t) = t_replay_blocked_at t"
  by (simp_all add: recover_task_def Let_def)

lemma recover_task_status:
  assumes "agent_task_ok t" and "t_status t = Running"
  shows "t_status (recover_task now t) =
    (if t_attempt_count t < t_max_attempts t \<and> t_replay_blocked_at t = None
        \<and> (\<forall>x. t_deadline_at t = Some x \<longrightarrow> now < x) then Queued else Stale)"
  using assms by (auto simp: recover_task_def agent_task_ok_def Let_def split: option.splits)

lemma recover_task_row:
  "agent_task_ok t \<Longrightarrow> t_status t = Running \<Longrightarrow> agent_task_ok (recover_task now t)"
  by (auto simp: recover_task_def agent_task_ok_def Let_def split: option.splits)

lemma stale_tasks_props:
  assumes "t \<in> set (stale_tasks locked now d)"
  shows "t \<in> set (db_tasks d)" "t_status t = Running" "t_kind t = Agent" "lease_expired now t"
    "t_id t \<notin> set locked"
  using assms set_take_subset by (fastforce simp: stale_tasks_def)+

lemma stale_tasks_distinct:
  assumes "tasks_ok d" shows "distinct (map t_id (stale_tasks locked now d))"
proof -
  have "distinct (map t_id (sort_key g xs))" if "distinct (map t_id xs)"
    for g :: "task \<Rightarrow> time option \<times> uuid" and xs
    using that by (simp add: distinct_map)
  then show ?thesis
    using assms
    by (simp add: stale_tasks_def take_map [symmetric] distinct_map_filter keys_distinct_def tasks_ok_def)
qed

lemma not_expired_now: "lease_expired now t \<Longrightarrow> \<not> (case t_lease_expires_at t of None \<Rightarrow> False | Some e \<Rightarrow> now < e)"
  by (auto simp: lease_expired_def split: option.splits)

lemma recover_loop_rows:
  assumes "list_all (lease_expired now) ts" and "distinct (map t_id ts)"
    and "\<forall>t \<in> set ts. get_task (t_id t) d = Some t"
  shows "snd (recover_loop now ts d) = length ts
    \<and> (\<forall>t \<in> set ts. get_task (t_id t) (fst (recover_loop now ts d)) = Some (recover_task now t))
    \<and> (\<forall>i. i \<notin> t_id ` set ts \<longrightarrow> get_task i (fst (recover_loop now ts d)) = get_task i d)"
  using assms
proof (induction ts arbitrary: d)
  case Nil
  then show ?case by simp
next
  case (Cons t ts)
  let ?d = "put_task (recover_task now t) d"
  from Cons(3) have t: "t_id t \<notin> t_id ` set ts" by simp
  have step: "recover_loop now (t # ts) d =
      (fst (recover_loop now ts ?d), snd (recover_loop now ts ?d) + 1)"
    using not_expired_now [of now t] Cons(2) by (simp split: prod.splits)
  have "\<forall>x \<in> set ts. get_task (t_id x) ?d = Some x"
  proof
    fix x assume x: "x \<in> set ts"
    with t have "t_id x \<noteq> t_id t" by (metis imageI)
    with x Cons(4) show "get_task (t_id x) ?d = Some x" by (simp add: get_put_task)
  qed
  with Cons(1) [of ?d] Cons(2,3) have ih: "snd (recover_loop now ts ?d) = length ts
    \<and> (\<forall>t \<in> set ts. get_task (t_id t) (fst (recover_loop now ts ?d)) = Some (recover_task now t))
    \<and> (\<forall>i. i \<notin> t_id ` set ts \<longrightarrow> get_task i (fst (recover_loop now ts ?d)) = get_task i ?d)"
    by simp
  with t Cons(4) show ?case unfolding step by (auto simp: get_put_task)
qed

lemma recover_rows:
  assumes ok: "tasks_ok d" and r: "recover_stale_running_tasks locked now d = (d', n)"
  shows "n = length (stale_tasks locked now d)"
    and "t \<in> set (stale_tasks locked now d) \<Longrightarrow> get_task (t_id t) d' = Some (recover_task now t)"
    and "i \<notin> t_id ` set (stale_tasks locked now d) \<Longrightarrow> get_task i d' = get_task i d"
proof -
  have "\<forall>t \<in> set (stale_tasks locked now d). get_task (t_id t) d = Some t"
    using ok stale_tasks_props(1) find_row_in_distinct [of t_id "db_tasks d"]
    by (fastforce simp: get_task_def tasks_ok_def)
  moreover have "list_all (lease_expired now) (stale_tasks locked now d)"
    by (auto simp: list_all_iff stale_tasks_props)
  ultimately have "snd (d', n) = length (stale_tasks locked now d)
    \<and> (\<forall>t \<in> set (stale_tasks locked now d). get_task (t_id t) (fst (d', n)) = Some (recover_task now t))
    \<and> (\<forall>i. i \<notin> t_id ` set (stale_tasks locked now d) \<longrightarrow> get_task i (fst (d', n)) = get_task i d)"
    using recover_loop_rows [OF _ stale_tasks_distinct [OF ok]] r
    unfolding recover_stale_running_tasks_def by metis
  then show "n = length (stale_tasks locked now d)"
    "t \<in> set (stale_tasks locked now d) \<Longrightarrow> get_task (t_id t) d' = Some (recover_task now t)"
    "i \<notin> t_id ` set (stale_tasks locked now d) \<Longrightarrow> get_task i d' = get_task i d"
    by simp_all
qed

text \<open>Recovery as a sequence of single row writes: what carries an invariant of the task table.\<close>

lemma recover_loop_invariant:
  assumes "P d" and "\<And>d t. P d \<Longrightarrow> t \<in> set ts \<Longrightarrow> P (put_task (recover_task now t) d)"
  shows "P (fst (recover_loop now ts d))"
  using assms
proof (induction ts arbitrary: d)
  case (Cons t ts)
  have "P (fst (recover_loop now ts e))" if "P e" for e
    using Cons(1) [of e] that Cons(3) by simp
  with Cons(2,3) show ?case by (auto split: prod.splits) (metis fst_conv list.set_intros(1))+
qed simp

lemma recover_tasks_ok:
  assumes ok: "tasks_ok d" shows "tasks_ok (fst (recover_stale_running_tasks locked now d))"
  unfolding recover_stale_running_tasks_def
proof (rule recover_loop_invariant [where P = tasks_ok, OF ok])
  fix e t
  assume e: "tasks_ok e" and t: "t \<in> set (stale_tasks locked now d)"
  from ok stale_tasks_props(1,3) [OF t] have "agent_task_ok t"
    by (auto simp: tasks_ok_def list_all_iff task_ok_def)
  with e stale_tasks_props(2) [OF t] show "tasks_ok (put_task (recover_task now t) e)"
    by (auto intro!: tasks_ok_put simp: task_ok_def recover_task_row)
qed

section \<open>Facts about readiness\<close>

lemma ready_task_ids_props:
  assumes "i \<in> set (ready_task_ids n now d)"
  shows "\<exists>t \<in> set (db_tasks d). t_id t = i \<and> t_status t = Queued \<and> t_kind t = Agent
    \<and> (\<forall>x. t_next_attempt_at t = Some x \<longrightarrow> x \<le> now)"
  using assms set_take_subset
  by (fastforce simp: ready_task_ids_def split: option.splits)

lemma get_task_in_distinct: "tasks_ok d \<Longrightarrow> t \<in> set (db_tasks d) \<Longrightarrow> get_task (t_id t) d = Some t"
  by (simp add: tasks_ok_def get_task_def find_row_in_distinct)

section \<open>Properties\<close>



text \<open>
  Bounded concurrency: whatever is enqueued, cancelled, finished or shut down, in any order,
  the job table never holds two jobs of one task, never more than twice the configured number of
  jobs, and never lets more than the configured number run at once.
\<close>

theorem scheduler_bounded:
  assumes "scheduler_initial s" and "scheduler_step\<^sup>*\<^sup>* s t"
  shows "keys_distinct jb_task (sd_jobs t) \<and> length (sd_jobs t) \<le> sd_max_concurrency t * 2
    \<and> running_jobs t \<le> sd_max_concurrency t"
  using jobs.inv_reachable [OF assms] by (simp add: jobs_ok_def)

theorem scheduler_bounded_witness:
  "running_jobs (fst (enqueue True (UUID 11) (scheduler_init None None 2 30))) \<le> 2
   \<and> snd (enqueue True (UUID 11) (scheduler_init None None 2 30))"
proof -
  let ?s = "scheduler_init None None 2 30"
  have init: "scheduler_initial ?s"
    by (simp add: scheduler_initial_def scheduler_init_ok) (simp add: scheduler_init_def)
  have "scheduler_step\<^sup>*\<^sup>* ?s (fst (enqueue True (UUID 11) ?s))"
    by (rule r_into_rtranclp) (rule scheduler_step.enqueue)
  from scheduler_bounded [OF init this] show ?thesis
    by (simp add: enqueue_def scheduler_init_def or_setting_def find_row_def Let_def)
qed

text \<open>
  No queued task is polled in vain: a task that the maintenance query returns, when the
  worker gets to it unlocked and unchanged at that time or later, either starts an attempt or
  ends as failed with the reason; it is never put off again.
\<close>

theorem ready_task_makes_progress:
  assumes "tasks_ok d" and "i \<in> set (ready_task_ids n now d)" and "i \<notin> set locked" and "now \<le> now'"
    and "claim cfg locked now' token nc i d = (d', r)"
  shows "(\<exists>conv usr prompt timeout. r = Claimed \<lparr>l_task_id = i, l_token = token\<rparr> conv usr prompt timeout)
    \<or> (r = NotRun None \<and> (\<exists>t'. get_task i d' = Some t' \<and> t_status t' = Failed \<and> t_error t' \<noteq> None))"
proof -
  from ready_task_ids_props [OF assms(2)] obtain t where t: "t \<in> set (db_tasks d)" "t_id t = i"
      "t_status t = Queued" "t_kind t = Agent" "\<forall>x. t_next_attempt_at t = Some x \<longrightarrow> x \<le> now"
    by blast
  then have g: "get_task i d = Some t" using get_task_in_distinct [OF assms(1)] by blast
  have ready: "\<not> (case t_next_attempt_at t of None \<Rightarrow> False | Some x \<Rightarrow> now' < x)"
    using t(5) assms(4) by (auto split: option.splits)
  show ?thesis
  proof (cases "claim_error t now'")
    case None
    with assms(3,5) g t(3,4) ready have "start_task cfg now' token nc t d = (d', r)"
      by (simp add: claim_def)
    then show ?thesis using t(2) by (auto simp: start_task_def Let_def split: prod.splits)
  next
    case (Some e)
    with assms(3,5) g t(2,3,4) show ?thesis
      by (auto simp: claim_def get_put_task) (simp add: finish_failed_def)
  qed
qed

theorem ready_task_makes_progress_witness:
  "UUID 11 \<in> set (ready_task_ids 4 0 (demo_db [demo_task (UUID 11)]))
   \<and> (\<exists>r. snd (claim demo_cfg [] 5 (UUID 99) (UUID 50) (UUID 11) (demo_db [demo_task (UUID 11)])) = r
     \<and> (\<exists>c u p tm. r = Claimed \<lparr>l_task_id = UUID 11, l_token = UUID 99\<rparr> c u p tm))"
proof -
  have m: "UUID 11 \<in> set (ready_task_ids 4 0 (demo_db [demo_task (UUID 11)]))"
    by (simp add: ready_task_ids_def demo_db_def demo_task_def)
  obtain d' where d': "claim demo_cfg [] 5 (UUID 99) (UUID 50) (UUID 11) (demo_db [demo_task (UUID 11)]) =
     (d', Claimed \<lparr>l_task_id = UUID 11, l_token = UUID 99\<rparr> (UUID 8) (Some (UUID 7)) (lit ''hello'')
            (seconds 180))"
    using claim_demo by blast
  from ready_task_makes_progress [OF demo_tasks_ok m _ _ d'] d' m show ?thesis by simp
qed

end
