(* ===== verification/Task_Routes.thy ===== *)
theory Task_Routes
  imports Task_Scheduler
begin

text \<open>
  The HTTP operations on tasks and schedules (\<open>api/routes/tasks.py\<close>,
  \<open>api/routes/task_schedules.py\<close>) with the request models they take (\<open>schemas.py\<close>). A handler
  takes the authenticated user's id and the database and returns the database after its commit
  with the row or the \<open>HTTPException\<close>. The in-process scheduler is threaded through as an
  option (\<open>app.state.task_scheduler\<close>). \<open>digest\<close> stands for the SHA-256 of the sorted JSON text of
  the request values.
\<close>

section \<open>Request models\<close>

record task_create =
  tcr_name :: ustr
  tcr_conversation_id :: "uuid option"
  tcr_trace_id :: "ustr option"
  tcr_metadata :: dict

record agent_task_create =
  ac_prompt :: ustr
  ac_name :: "ustr option"
  ac_conversation_id :: "uuid option"
  ac_idempotency_key :: "ustr option"
  ac_max_attempts :: "int option"
  ac_timeout_seconds :: int
  ac_deadline_seconds :: int

record schedule_create =
  scr_prompt :: ustr
  scr_name :: "ustr option"
  scr_conversation_id :: "uuid option"
  scr_kind :: schedule_kind
  scr_timezone :: ustr
  scr_run_at :: "py_datetime option"
  scr_interval_minutes :: "int option"
  scr_daily_time :: "ustr option"
  scr_max_attempts :: "int option"
  scr_misfire_grace_seconds :: int

record task_update =
  tu_status :: "task_status option"
  tu_progress :: "int option"
  tu_error :: "ustr option"
  tu_result :: "dict option"
  tu_trace_id :: "ustr option"
  tu_metadata :: "dict option"

definition opt_all :: "('a \<Rightarrow> bool) \<Rightarrow> 'a option \<Rightarrow> bool" where
  "opt_all p x = (case x of None \<Rightarrow> True | Some v \<Rightarrow> p v)"

text \<open>Each validator runs its field constraints, then normalises the value.\<close>

definition validate_prompt :: "ustr \<Rightarrow> ustr res" where
  "validate_prompt value =
     (if strip value = [] then Inl (ValueError (lit ''prompt must include non-whitespace text''))
      else Inr (strip value))"

definition validate_idempotency_key :: "ustr option \<Rightarrow> ustr option res" where
  "validate_idempotency_key value =
     (case value of
        None \<Rightarrow> Inr None
      | Some v \<Rightarrow>
          if length (strip v) < 8
          then Inl (ValueError (lit ''idempotency_key must contain at least 8 non-whitespace characters''))
          else Inr (Some (strip v)))"

definition agent_task_create_fields :: "agent_task_create \<Rightarrow> bool" where
  "agent_task_create_fields p \<longleftrightarrow>
     1 \<le> length (ac_prompt p) \<and> length (ac_prompt p) \<le> 20000
     \<and> opt_all (\<lambda>n. 1 \<le> length n \<and> length n \<le> 200) (ac_name p)
     \<and> opt_all (\<lambda>k. 8 \<le> length k \<and> length k \<le> 200) (ac_idempotency_key p)
     \<and> opt_all (\<lambda>n. 1 \<le> n \<and> n \<le> 10) (ac_max_attempts p)
     \<and> 5 \<le> ac_timeout_seconds p \<and> ac_timeout_seconds p \<le> 3600
     \<and> 5 \<le> ac_deadline_seconds p \<and> ac_deadline_seconds p \<le> 86400"

definition validate_agent_task_create :: "agent_task_create \<Rightarrow> agent_task_create res" where
  "validate_agent_task_create p =
     (if \<not> agent_task_create_fields p then Inl (ValueError (lit ''field constraint''))
      else case validate_prompt (ac_prompt p) of
        Inl e \<Rightarrow> Inl e
      | Inr prompt \<Rightarrow>
          (case validate_idempotency_key (ac_idempotency_key p) of
             Inl e \<Rightarrow> Inl e
           | Inr key \<Rightarrow> Inr (p\<lparr>ac_prompt := prompt, ac_idempotency_key := key\<rparr>)))"

text \<open>\<open>pattern=...\<close> of \<open>daily_time\<close>, on ASCII digits.\<close>

definition daily_time_pattern :: "ustr \<Rightarrow> bool" where
  "daily_time_pattern s = (case s of
     [a, b, c, d, e] \<Rightarrow>
       ((a = 48 \<or> a = 49) \<and> 48 \<le> b \<and> b \<le> 57 \<or> a = 50 \<and> 48 \<le> b \<and> b \<le> 51)
       \<and> c = 58 \<and> 48 \<le> d \<and> d \<le> 53 \<and> 48 \<le> e \<and> e \<le> 57
   | _ \<Rightarrow> False)"

definition schedule_create_fields :: "schedule_create \<Rightarrow> bool" where
  "schedule_create_fields p \<longleftrightarrow>
     1 \<le> length (scr_prompt p) \<and> length (scr_prompt p) \<le> 20000
     \<and> opt_all (\<lambda>n. 1 \<le> length n \<and> length n \<le> 200) (scr_name p)
     \<and> 1 \<le> length (scr_timezone p) \<and> length (scr_timezone p) \<le> 80
     \<and> opt_all (\<lambda>n. 1 \<le> n \<and> n \<le> 525600) (scr_interval_minutes p)
     \<and> opt_all daily_time_pattern (scr_daily_time p)
     \<and> opt_all (\<lambda>n. 1 \<le> n \<and> n \<le> 10) (scr_max_attempts p)
     \<and> 0 \<le> scr_misfire_grace_seconds p \<and> scr_misfire_grace_seconds p \<le> 86400"

definition validate_schedule_create :: "schedule_create \<Rightarrow> schedule_create res" where
  "validate_schedule_create p =
     (if \<not> schedule_create_fields p then Inl (ValueError (lit ''field constraint''))
      else case validate_prompt (scr_prompt p) of
        Inl e \<Rightarrow> Inl e
      | Inr prompt \<Rightarrow>
          if strip (scr_timezone p) = [] then Inl (ValueError (lit ''timezone must not be empty''))
          else if scr_kind p = Once \<and> scr_run_at p = None
          then Inl (ValueError (lit ''run_at is required for a one-time schedule''))
          else if scr_kind p = Interval \<and> scr_interval_minutes p = None
          then Inl (ValueError (lit ''interval_minutes is required for an interval schedule''))
          else if scr_kind p = Daily \<and> scr_daily_time p = None
          then Inl (ValueError (lit ''daily_time is required for a daily schedule''))
          else Inr (p\<lparr>scr_prompt := prompt, scr_timezone := strip (scr_timezone p)\<rparr>))"

definition validate_status :: "ustr option \<Rightarrow> task_status option res" where
  "validate_status value =
     (case value of
        None \<Rightarrow> Inr None
      | Some s \<Rightarrow>
          (case parse_status s of
             None \<Rightarrow> Inl (ValueError (lit ''status must be one of: cancelled, failed, queued, running, stale, succeeded''))
           | Some st \<Rightarrow> Inr (Some st)))"

section \<open>Lookups\<close>

definition get_owned_conversation :: "db \<Rightarrow> uuid \<Rightarrow> uuid \<Rightarrow> conversation option" where
  "get_owned_conversation d i usr =
     find (\<lambda>c. c_id c = i \<and> c_user_id c = Some usr) (db_conversations d)"

definition get_owned_task :: "db \<Rightarrow> uuid \<Rightarrow> uuid \<Rightarrow> task option" where
  "get_owned_task d i usr = find (\<lambda>t. t_id t = i \<and> t_user_id t = Some usr) (db_tasks d)"

definition get_task_by_idempotency_key :: "db \<Rightarrow> uuid \<Rightarrow> ustr \<Rightarrow> task option" where
  "get_task_by_idempotency_key d usr k =
     find (\<lambda>t. t_user_id t = Some usr \<and> t_idempotency_key t = Some k) (db_tasks d)"

definition get_owned_schedule :: "db \<Rightarrow> uuid \<Rightarrow> uuid \<Rightarrow> task_schedule option" where
  "get_owned_schedule d i usr =
     find (\<lambda>s. sc_id s = i \<and> sc_user_id s = usr) (db_schedules d)"

section \<open>Creating tasks\<close>

text \<open>\<open>splitlines()\<close> up to empty lines, which the caller skips.\<close>

fun split_lines_from :: "ustr \<Rightarrow> ustr \<Rightarrow> ustr list" where
  "split_lines_from acc [] = [rev acc]"
| "split_lines_from acc (c # cs) =
     (if line_break c then rev acc # split_lines_from [] cs else split_lines_from (c # acc) cs)"

definition agent_task_name :: "ustr \<Rightarrow> ustr" where
  "agent_task_name prompt =
     (case filter (\<lambda>l. l \<noteq> []) (map strip (split_lines_from [] prompt)) of
        [] \<Rightarrow> lit ''Agent task'' | l # _ \<Rightarrow> take 80 l)"

text \<open>\<open>payload.name or _agent_task_name(prompt)\<close>, stripped.\<close>

definition name_or_default :: "ustr option \<Rightarrow> ustr \<Rightarrow> ustr" where
  "name_or_default name prompt =
     strip (case name of Some n \<Rightarrow> (if n = [] then agent_task_name prompt else n)
            | None \<Rightarrow> agent_task_name prompt)"

definition request_values :: "agent_settings \<Rightarrow> agent_task_create \<Rightarrow> dict" where
  "request_values cfg p =
     [(lit ''conversation_id'', case ac_conversation_id p of None \<Rightarrow> JNull | Some c \<Rightarrow> JStr (uuid_str c)),
      (lit ''deadline_seconds'', JInt (ac_deadline_seconds p)),
      (lit ''max_attempts'', JInt (or_setting (ac_max_attempts p) (agent_task_default_max_attempts cfg))),
      (lit ''name'', JStr (name_or_default (ac_name p) (ac_prompt p))),
      (lit ''prompt'', JStr (ac_prompt p)),
      (lit ''timeout_seconds'', JInt (ac_timeout_seconds p))]"

definition request_fingerprint :: "(dict \<Rightarrow> ustr) \<Rightarrow> agent_settings \<Rightarrow> agent_task_create \<Rightarrow> ustr" where
  "request_fingerprint digest cfg p = digest (request_values cfg p)"

definition conflict_detail :: ustr where
  "conflict_detail = lit ''Idempotency key was already used for a different task request''"

definition validate_repeated_request :: "task \<Rightarrow> agent_task_create \<Rightarrow> ustr \<Rightarrow> unit res" where
  "validate_repeated_request t p fingerprint =
     (let saved = jget (t_metadata t) (lit ''request_fingerprint'');
          matches = (if truthy saved then saved = JStr fingerprint
                     else t_kind t = Agent \<and> t_prompt t = Some (ac_prompt p)
                          \<and> t_conversation_id t = ac_conversation_id p)
      in if matches then Inr () else Inl (HttpError 409 conflict_detail))"

definition conversation_missing :: "db \<Rightarrow> uuid option \<Rightarrow> uuid \<Rightarrow> bool" where
  "conversation_missing d conv usr \<longleftrightarrow>
     (case conv of None \<Rightarrow> False | Some c \<Rightarrow> get_owned_conversation d c usr = None)"

definition not_found :: "string \<Rightarrow> exn" where
  "not_found what = HttpError 404 (lit what)"

definition create_task :: "uuid \<Rightarrow> task_create \<Rightarrow> uuid \<Rightarrow> time \<Rightarrow> db \<Rightarrow> db \<times> task res" where
  "create_task usr p new_id now d =
     (if conversation_missing d (tcr_conversation_id p) usr
      then (d, Inl (not_found ''Conversation not found''))
      else (let t = \<lparr>t_id = new_id, t_user_id = Some usr, t_conversation_id = tcr_conversation_id p,
              t_schedule_id = None, t_name = tcr_name p, t_kind = Manual, t_prompt = None,
              t_status = Queued, t_progress = 0, t_error = None, t_result = None,
              t_trace_id = tcr_trace_id p, t_idempotency_key = None, t_attempt_count = 0,
              t_max_attempts = 1, t_next_attempt_at = None, t_heartbeat_at = None,
              t_lease_expires_at = None, t_run_token = None, t_timeout_seconds = 180,
              t_deadline_at = None, t_replay_blocked_at = None, t_replay_blocked_reason = None,
              t_metadata = JObj (tcr_metadata p), t_created_at = now, t_started_at = None,
              t_finished_at = None\<rparr>
            in case insert_task t d of Inl e \<Rightarrow> (d, Inl e) | Inr d' \<Rightarrow> (d', Inr t)))"

definition build_agent_task ::
  "(dict \<Rightarrow> ustr) \<Rightarrow> agent_settings \<Rightarrow> uuid \<Rightarrow> agent_task_create \<Rightarrow> uuid \<Rightarrow> time \<Rightarrow> task" where
  "build_agent_task digest cfg usr p new_id now = \<lparr>
     t_id = new_id, t_user_id = Some usr, t_conversation_id = ac_conversation_id p,
     t_schedule_id = None, t_name = name_or_default (ac_name p) (strip (ac_prompt p)), t_kind = Agent,
     t_prompt = Some (strip (ac_prompt p)), t_status = Queued, t_progress = 0, t_error = None,
     t_result = None, t_trace_id = None,
     t_idempotency_key = (case ac_idempotency_key p of None \<Rightarrow> None
        | Some k \<Rightarrow> if k = [] then None else Some (strip k)),
     t_attempt_count = 0,
     t_max_attempts = or_setting (ac_max_attempts p) (agent_task_default_max_attempts cfg),
     t_next_attempt_at = Some now, t_heartbeat_at = None, t_lease_expires_at = None,
     t_run_token = None, t_timeout_seconds = ac_timeout_seconds p,
     t_deadline_at = Some (now + seconds (ac_deadline_seconds p)),
     t_replay_blocked_at = None, t_replay_blocked_reason = None,
     t_metadata = JObj [(lit ''events'', JList []),
       (lit ''request_fingerprint'', JStr (request_fingerprint digest cfg p))],
     t_created_at = now, t_started_at = None, t_finished_at = None\<rparr>"

text \<open>\<open>if scheduler is not None: scheduler.enqueue(...)\<close> and \<open>.cancel(...)\<close>.\<close>

definition opt_enqueue :: "uuid \<Rightarrow> scheduler option \<Rightarrow> scheduler option" where
  "opt_enqueue i so = map_option (\<lambda>s. fst (enqueue True i s)) so"

definition opt_cancel :: "uuid \<Rightarrow> scheduler option \<Rightarrow> scheduler option" where
  "opt_cancel i so = map_option (\<lambda>s. fst (cancel_job i s)) so"

text \<open>The answer to a request whose idempotency key already has a task.\<close>

definition answer_repeated ::
  "task \<Rightarrow> agent_task_create \<Rightarrow> ustr \<Rightarrow> scheduler option \<Rightarrow> scheduler option \<times> task res" where
  "answer_repeated existing p fingerprint so =
     (case validate_repeated_request existing p fingerprint of
        Inl e \<Rightarrow> (so, Inl e)
      | Inr _ \<Rightarrow> ((if t_status existing = Queued then opt_enqueue (t_id existing) so else so), Inr existing))"

text \<open>\<open>env\<close> is what other requests commit between the lookup of the key and this commit.\<close>

definition create_agent_task ::
  "(dict \<Rightarrow> ustr) \<Rightarrow> agent_settings \<Rightarrow> uuid \<Rightarrow> agent_task_create \<Rightarrow> uuid \<Rightarrow> time \<Rightarrow> (db \<Rightarrow> db)
   \<Rightarrow> db \<Rightarrow> scheduler option \<Rightarrow> db \<times> scheduler option \<times> task res" where
  "create_agent_task digest cfg usr p new_id now env d so =
     (if conversation_missing d (ac_conversation_id p) usr
      then (d, so, Inl (not_found ''Conversation not found''))
      else
        (let t = build_agent_task digest cfg usr p new_id now;
             fingerprint = request_fingerprint digest cfg p;
             find_existing = (\<lambda>d. case t_idempotency_key t of None \<Rightarrow> None
               | Some k \<Rightarrow> if k = [] then None else get_task_by_idempotency_key d usr k)
         in case find_existing d of
              Some existing \<Rightarrow> (case answer_repeated existing p fingerprint so of (so', r) \<Rightarrow> (d, so', r))
            | None \<Rightarrow>
                (let d1 = env d in
                 case insert_task t d1 of
                   Inr d2 \<Rightarrow> (d2, opt_enqueue new_id so, Inr t)
                 | Inl e \<Rightarrow>
                     (case find_existing d1 of
                        Some existing \<Rightarrow>
                          (case answer_repeated existing p fingerprint so of (so', r) \<Rightarrow> (d1, so', r))
                      | None \<Rightarrow> (d1, so, Inl e)))))"

section \<open>Reading tasks\<close>

definition list_tasks :: "uuid \<Rightarrow> uuid option \<Rightarrow> db \<Rightarrow> task list res" where
  "list_tasks usr conv d =
     (if conversation_missing d conv usr then Inl (not_found ''Conversation not found'')
      else Inr (sort_key (\<lambda>t. - t_created_at t)
             (filter (\<lambda>t. t_user_id t = Some usr
                \<and> (case conv of None \<Rightarrow> True | Some c \<Rightarrow> t_conversation_id t = Some c)) (db_tasks d))))"

definition get_task_route :: "uuid \<Rightarrow> uuid \<Rightarrow> db \<Rightarrow> task res" where
  "get_task_route usr i d = (case get_owned_task d i usr of
     None \<Rightarrow> Inl (not_found ''Task not found'') | Some t \<Rightarrow> Inr t)"

definition get_task_events :: "uuid \<Rightarrow> uuid \<Rightarrow> db \<Rightarrow> json list res" where
  "get_task_events usr i d = (case get_owned_task d i usr of
     None \<Rightarrow> Inl (not_found ''Task not found'')
   | Some t \<Rightarrow> list_or_empty (jget (t_metadata t) (lit ''events'')))"

section \<open>Changing tasks\<close>

definition validate_task_transition :: "task \<Rightarrow> task_status \<Rightarrow> unit res" where
  "validate_task_transition t nxt =
     (if is_valid_task_status_transition (t_status t) nxt then Inr ()
      else Inl (HttpError 409 (lit ''Invalid task status transition from '' @ status_str (t_status t)
             @ lit '' to '' @ status_str nxt)))"

definition apply_task_status_timestamps :: "time \<Rightarrow> task_status \<Rightarrow> task \<Rightarrow> task" where
  "apply_task_status_timestamps now nxt t =
     (let t1 = (if nxt = Running \<and> t_started_at t = None then t\<lparr>t_started_at := Some now\<rparr> else t)
      in if is_terminal nxt \<and> t_finished_at t1 = None then t1\<lparr>t_finished_at := Some now\<rparr> else t1)"

definition apply_update :: "time \<Rightarrow> task_update \<Rightarrow> task \<Rightarrow> task" where
  "apply_update now u t =
     (let t1 = (case tu_status u of None \<Rightarrow> t
                | Some st \<Rightarrow> (apply_task_status_timestamps now st t)\<lparr>t_status := st\<rparr>);
          t2 = (case tu_progress u of None \<Rightarrow> t1 | Some p \<Rightarrow> t1\<lparr>t_progress := p\<rparr>);
          t3 = (case tu_error u of None \<Rightarrow> t2 | Some e \<Rightarrow> t2\<lparr>t_error := Some e\<rparr>);
          t4 = (case tu_result u of None \<Rightarrow> t3 | Some r \<Rightarrow> t3\<lparr>t_result := Some (JObj r)\<rparr>);
          t5 = (case tu_trace_id u of None \<Rightarrow> t4 | Some x \<Rightarrow> t4\<lparr>t_trace_id := Some x\<rparr>)
      in (case tu_metadata u of None \<Rightarrow> t5 | Some m \<Rightarrow> t5\<lparr>t_metadata := JObj m\<rparr>))"

definition update_task :: "uuid \<Rightarrow> uuid \<Rightarrow> task_update \<Rightarrow> time \<Rightarrow> db \<Rightarrow> db \<times> task res" where
  "update_task usr i u now d =
     (case get_owned_task d i usr of
        None \<Rightarrow> (d, Inl (not_found ''Task not found''))
      | Some t \<Rightarrow>
          if t_kind t = Agent
          then (d, Inl (HttpError 409 (lit ''Agent task state is managed by the worker; use cancel to stop it'')))
          else (case (case tu_status u of None \<Rightarrow> Inr () | Some st \<Rightarrow> validate_task_transition t st) of
                  Inl e \<Rightarrow> (d, Inl e)
                | Inr _ \<Rightarrow> (put_task (apply_update now u t) d, Inr (apply_update now u t))))"

definition cancelled_row :: "time \<Rightarrow> task \<Rightarrow> task" where
  "cancelled_row now t =
     (let t1 = (apply_task_status_timestamps now Cancelled_st t)\<lparr>
            t_status := Cancelled_st, t_run_token := None, t_lease_expires_at := None,
            t_next_attempt_at := None\<rparr>
      in if t_replay_blocked_at t \<noteq> None
         then t1\<lparr>t_error := Some (lit ''Cancelled after work started. Review tool history for operations already dispatched.'')\<rparr>
         else t1)"

definition cancel_task ::
  "uuid \<Rightarrow> uuid \<Rightarrow> time \<Rightarrow> db \<Rightarrow> scheduler option \<Rightarrow> db \<times> scheduler option \<times> task res" where
  "cancel_task usr i now d so =
     (case get_owned_task d i usr of
        None \<Rightarrow> (d, so, Inl (not_found ''Task not found''))
      | Some t \<Rightarrow>
          (case validate_task_transition t Cancelled_st of
             Inl e \<Rightarrow> (d, so, Inl e)
           | Inr _ \<Rightarrow> (put_task (cancelled_row now t) d, opt_cancel (t_id t) so, Inr (cancelled_row now t))))"

section \<open>Schedules\<close>

definition create_task_schedule ::
  "tzdb \<Rightarrow> agent_settings \<Rightarrow> uuid \<Rightarrow> schedule_create \<Rightarrow> uuid \<Rightarrow> time \<Rightarrow> db \<Rightarrow> db \<times> task_schedule res" where
  "create_task_schedule zones cfg usr p new_id now d =
     (if conversation_missing d (scr_conversation_id p) usr
      then (d, Inl (not_found ''Conversation not found''))
      else
        (let prompt = strip (scr_prompt p);
             interval = (case scr_interval_minutes p of None \<Rightarrow> None
                         | Some m \<Rightarrow> if m = 0 then None else Some (m * 60))
         in case initial_next_run zones (scr_kind p) (scr_timezone p) now (scr_run_at p) interval
                   (scr_daily_time p) of
              Inl (ValueError m) \<Rightarrow> (d, Inl (HttpError 422 m))
            | Inl e \<Rightarrow> (d, Inl e)
            | Inr next_run \<Rightarrow>
                (let s = \<lparr>sc_id = new_id, sc_user_id = usr, sc_conversation_id = scr_conversation_id p,
                       sc_name = name_or_default (scr_name p) prompt, sc_prompt = prompt,
                       sc_kind = scr_kind p, sc_timezone = strip (scr_timezone p),
                       sc_run_at = (case scr_run_at p of Some (Aware t) \<Rightarrow> Some t
                          | Some (Naive t) \<Rightarrow> Some t | None \<Rightarrow> None),
                       sc_interval_seconds = interval, sc_daily_time = scr_daily_time p,
                       sc_max_attempts = or_setting (scr_max_attempts p) (agent_task_default_max_attempts cfg),
                       sc_next_run_at = Some next_run, sc_last_run_at = None, sc_last_task_id = None,
                       sc_enabled = True, sc_misfire_grace_seconds = scr_misfire_grace_seconds p,
                       sc_last_dispatch_status = None, sc_last_dispatch_at = None,
                       sc_last_dispatch_error = None, sc_created_at = now\<rparr>
                 in if get_schedule new_id d \<noteq> None then (d, Inl IntegrityError)
                    else (d\<lparr>db_schedules := db_schedules d @ [s]\<rparr>, Inr s))))"

definition update_task_schedule ::
  "tzdb \<Rightarrow> uuid \<Rightarrow> uuid \<Rightarrow> bool \<Rightarrow> time \<Rightarrow> db \<Rightarrow> db \<times> task_schedule res" where
  "update_task_schedule zones usr i enabled now d =
     (case get_owned_schedule d i usr of
        None \<Rightarrow> (d, Inl (not_found ''Task schedule not found''))
      | Some s \<Rightarrow>
          (let s1 = s\<lparr>sc_last_dispatch_error := None\<rparr>;
               stale = (case sc_next_run_at s of None \<Rightarrow> True | Some t \<Rightarrow> t \<le> now) in
           case (if enabled \<and> stale
                 then map_sum id Some (initial_next_run zones (sc_kind s) (sc_timezone s) now
                        (map_option Aware (sc_run_at s)) (sc_interval_seconds s) (sc_daily_time s))
                 else Inr (sc_next_run_at s)) of
             Inl (ValueError m) \<Rightarrow> (d, Inl (HttpError 409 m))
           | Inl e \<Rightarrow> (d, Inl e)
           | Inr next_run \<Rightarrow>
               (let s2 = s1\<lparr>sc_next_run_at := next_run, sc_enabled := enabled\<rparr>
                in (put_schedule s2 d, Inr s2))))"

definition run_task_schedule_now ::
  "uuid \<Rightarrow> uuid \<Rightarrow> uuid \<Rightarrow> uuid \<Rightarrow> time \<Rightarrow> db \<Rightarrow> scheduler option \<Rightarrow> db \<times> scheduler option \<times> task res" where
  "run_task_schedule_now usr i new_id nonce now d so =
     (case get_owned_schedule d i usr of
        None \<Rightarrow> (d, so, Inl (not_found ''Task schedule not found''))
      | Some s \<Rightarrow>
          (case active_schedule_task d (sc_id s) of
             Some existing \<Rightarrow> (d, so, Inr existing)
           | None \<Rightarrow>
               (let t = build_scheduled_task new_id now s now (Some nonce) in
                case insert_task t d of
                  Inl e \<Rightarrow> (d, so, Inl e)
                | Inr d1 \<Rightarrow>
                    (put_schedule (s\<lparr>sc_last_task_id := Some new_id, sc_last_run_at := Some now,
                        sc_last_dispatch_at := Some now,
                        sc_last_dispatch_status := Some (lit ''queued''),
                        sc_last_dispatch_error := None\<rparr>) d1,
                     opt_enqueue new_id so, Inr t))))"

definition list_task_schedules :: "uuid \<Rightarrow> uuid option \<Rightarrow> db \<Rightarrow> task_schedule list res" where
  "list_task_schedules usr conv d =
     (if conversation_missing d conv usr then Inl (not_found ''Conversation not found'')
      else Inr (sort_key (\<lambda>s. - sc_created_at s) (filter (\<lambda>s. sc_user_id s = usr
             \<and> (case conv of None \<Rightarrow> True | Some c \<Rightarrow> sc_conversation_id s = Some c)) (db_schedules d))))"

section \<open>Facts about the handlers\<close>

lemma get_owned_task_Some:
  "get_owned_task d i usr = Some t \<Longrightarrow> t \<in> set (db_tasks d) \<and> t_id t = i \<and> t_user_id t = Some usr"
  by (auto simp: get_owned_task_def find_Some_iff)

lemma get_owned_task_get:
  "tasks_ok d \<Longrightarrow> get_owned_task d i usr = Some t \<Longrightarrow> get_task i d = Some t"
  using get_owned_task_Some get_task_in_distinct by blast

lemma get_owned_task_iff:
  assumes "tasks_ok d"
  shows "get_owned_task d i usr = (case get_task i d of None \<Rightarrow> None
     | Some t \<Rightarrow> if t_user_id t = Some usr then Some t else None)"
proof (cases "get_owned_task d i usr")
  case (Some t)
  with get_owned_task_get [OF assms Some] get_owned_task_Some [OF Some] show ?thesis by simp
next
  case None
  then have "\<forall>t \<in> set (db_tasks d). \<not> (t_id t = i \<and> t_user_id t = Some usr)"
    by (auto simp: get_owned_task_def find_None_iff)
  then show ?thesis using None by (auto split: option.split dest: get_task_id get_task_mem)
qed

lemma get_owned_schedule_Some:
  "get_owned_schedule d i usr = Some s \<Longrightarrow> s \<in> set (db_schedules d) \<and> sc_id s = i \<and> sc_user_id s = usr"
  by (auto simp: get_owned_schedule_def find_Some_iff)

lemma timestamps_simps [simp]:
  "t_id (apply_task_status_timestamps now st t) = t_id t"
  "t_kind (apply_task_status_timestamps now st t) = t_kind t"
  "t_status (apply_task_status_timestamps now st t) = t_status t"
  "t_user_id (apply_task_status_timestamps now st t) = t_user_id t"
  "t_schedule_id (apply_task_status_timestamps now st t) = t_schedule_id t"
  "t_attempt_count (apply_task_status_timestamps now st t) = t_attempt_count t"
  "t_replay_blocked_at (apply_task_status_timestamps now st t) = t_replay_blocked_at t"
  by (simp_all add: apply_task_status_timestamps_def Let_def)

lemma apply_update_simps [simp]:
  "t_id (apply_update now u t) = t_id t" "t_kind (apply_update now u t) = t_kind t"
  "t_user_id (apply_update now u t) = t_user_id t"
  "t_schedule_id (apply_update now u t) = t_schedule_id t"
  "t_attempt_count (apply_update now u t) = t_attempt_count t"
  "t_replay_blocked_at (apply_update now u t) = t_replay_blocked_at t"
  "t_status (apply_update now u t) = (case tu_status u of None \<Rightarrow> t_status t | Some st \<Rightarrow> st)"
  by (simp_all add: apply_update_def Let_def split: option.split)

lemma cancelled_row_simps [simp]:
  "t_id (cancelled_row now t) = t_id t" "t_kind (cancelled_row now t) = t_kind t"
  "t_status (cancelled_row now t) = Cancelled_st" "t_run_token (cancelled_row now t) = None"
  "t_user_id (cancelled_row now t) = t_user_id t"
  "t_schedule_id (cancelled_row now t) = t_schedule_id t"
  "t_attempt_count (cancelled_row now t) = t_attempt_count t"
  "t_replay_blocked_at (cancelled_row now t) = t_replay_blocked_at t"
  by (simp_all add: cancelled_row_def Let_def)

lemma cancelled_row_ok:
  "agent_task_ok t \<Longrightarrow> is_valid_task_status_transition (t_status t) Cancelled_st \<Longrightarrow>
   agent_task_ok (cancelled_row now t)"
  by (cases "t_status t")
    (auto simp: agent_task_ok_def cancelled_row_def apply_task_status_timestamps_def Let_def
      is_valid_task_status_transition_def)

text \<open>The two ways out of an update and of a cancellation.\<close>

lemma update_task_cases:
  assumes "update_task usr i u now d = (d', r)"
  obtains (refused) e where "d' = d" "r = Inl e"
  | (written) t where "get_owned_task d i usr = Some t" "t_kind t = Manual"
      "\<And>st. tu_status u = Some st \<Longrightarrow> is_valid_task_status_transition (t_status t) st"
      "d' = put_task (apply_update now u t) d" "r = Inr (apply_update now u t)"
  using assms
  by (cases "get_owned_task d i usr"; cases "tu_status u")
    (auto simp: update_task_def validate_task_transition_def
      split: if_splits intro: task_kind.exhaust)

lemma cancel_task_cases:
  assumes "cancel_task usr i now d so = (d', so', r)"
  obtains (refused) e where "d' = d" "so' = so" "r = Inl e"
  | (written) t where "get_owned_task d i usr = Some t"
      "is_valid_task_status_transition (t_status t) Cancelled_st"
      "d' = put_task (cancelled_row now t) d" "so' = opt_cancel (t_id t) so"
      "r = Inr (cancelled_row now t)"
  using assms
  by (cases "get_owned_task d i usr")
    (auto simp: cancel_task_def validate_task_transition_def split: if_splits)

lemma initial_next_run_after:
  "initial_next_run zones k name now run_at n dt = Inr t \<Longrightarrow> now < t"
  by (cases k; auto simp: initial_next_run_def seconds_def dest: next_daily_run_after
      split: sum.splits option.splits if_splits)

text \<open>A create call either commits exactly the new row or writes nothing.\<close>

lemma create_agent_task_effect:
  assumes "create_agent_task digest cfg usr p i now env d so = (d', so', r)"
  shows "d' = d \<or> d' = env d
    \<or> insert_task (build_agent_task digest cfg usr p i now) (env d) = Inr d'"
  using assms
  by (auto simp: create_agent_task_def Let_def split: if_splits option.splits sum.splits prod.splits)

lemma build_agent_task_ok:
  "0 \<le> or_setting (ac_max_attempts p) (agent_task_default_max_attempts cfg) \<Longrightarrow>
   task_ok (build_agent_task digest cfg usr p i now)"
  by (simp add: build_agent_task_def task_ok_def agent_task_ok_def)

lemma build_agent_task_simps [simp]:
  "t_id (build_agent_task digest cfg usr p i now) = i"
  "t_user_id (build_agent_task digest cfg usr p i now) = Some usr"
  "t_kind (build_agent_task digest cfg usr p i now) = Agent"
  "t_status (build_agent_task digest cfg usr p i now) = Queued"
  "t_schedule_id (build_agent_task digest cfg usr p i now) = None"
  by (simp_all add: build_agent_task_def)

lemma insert_task_find:
  assumes "insert_task t d = Inr d'" and "t_user_id t = Some usr" and "t_idempotency_key t = Some k"
  shows "get_task_by_idempotency_key d' usr k = Some t"
proof -
  from assms have none: "find (\<lambda>x. t_user_id x = Some usr \<and> t_idempotency_key x = Some k) (db_tasks d) = None"
    by (auto simp: insert_task_def find_None_iff list_ex_iff split: if_splits)
  have "find p (xs @ [x]) = (case find p xs of None \<Rightarrow> if p x then Some x else None | Some y \<Rightarrow> Some y)"
    for p :: "task \<Rightarrow> bool" and xs x by (induction xs) auto
  with none assms show ?thesis
    by (auto simp: get_task_by_idempotency_key_def dest: insert_task_Inr)
qed

lemma saved_fingerprint:
  "jget (t_metadata (build_agent_task digest cfg usr p i now)) (lit ''request_fingerprint'') =
     JStr (request_fingerprint digest cfg p)"
  by (simp add: build_agent_task_def jget_def dget_def)

section \<open>Properties\<close>

text \<open>
  C30. Idempotent creation: once a request with a key has created its task, every later request
  of the user with that key, whatever other requests are in flight, stores nothing. It returns
  the same task when its values are the same (with the same digest), and is refused with 409
  when they differ.
\<close>

theorem repeated_create_is_idempotent:
  assumes "create_agent_task digest cfg usr p i now env d so = (d1, so1, Inr t)"
    and "ac_idempotency_key p = Some k" "strip k \<noteq> []"
    and "get_task_by_idempotency_key d usr (strip k) = None"
    and "get_task_by_idempotency_key (env d) usr (strip k) = None"
    and "ac_idempotency_key p' = Some k'" "strip k' = strip k"
    and "\<not> conversation_missing d1 (ac_conversation_id p') usr"
    and "digest (request_values cfg p) \<noteq> []"
  shows "create_agent_task digest cfg usr p' i' now' env' d1 so' =
    (if digest (request_values cfg p') = digest (request_values cfg p)
     then (d1, opt_enqueue i so', Inr t) else (d1, so', Inl (HttpError 409 conflict_detail)))"
proof -
  have "strip [] = []" by (simp add: strip_def strip_by_def lstrip_by_def rstrip_by_def)
  then have nonempty: "k \<noteq> []" "k' \<noteq> []"
    using assms(3,7) by auto
  let ?t = "build_agent_task digest cfg usr p i now"
  have key: "t_idempotency_key ?t = Some (strip k)"
    using assms(2) nonempty by (simp add: build_agent_task_def)
  have key': "t_idempotency_key (build_agent_task digest cfg usr p' i' now') = Some (strip k)"
    using assms(6,7) nonempty by (simp add: build_agent_task_def)
  from assms(1,3,4,5) key have "insert_task ?t (env d) = Inr d1" "t = ?t"
    by (auto simp: create_agent_task_def Let_def split: if_splits sum.splits)
  then have "get_task_by_idempotency_key d1 usr (strip k) = Some t"
    using insert_task_find [of ?t "env d" d1 usr "strip k"] key by simp
  then show ?thesis
    using \<open>t = ?t\<close> assms(3,8,9) key'
    by (auto simp: create_agent_task_def Let_def answer_repeated_def validate_repeated_request_def
        saved_fingerprint request_fingerprint_def)
qed

definition demo_create :: agent_task_create where
  "demo_create = \<lparr>ac_prompt = lit ''sum up'', ac_name = Some (lit ''job''), ac_conversation_id = None,
     ac_idempotency_key = Some (lit ''key-0001''), ac_max_attempts = Some 2,
     ac_timeout_seconds = 180, ac_deadline_seconds = 900\<rparr>"

theorem repeated_create_is_idempotent_witness:
  "\<exists>d1 t. create_agent_task (\<lambda>_. lit ''f'') default_agent_settings (UUID 7) demo_create (UUID 12) 5 id empty_db None
      = (d1, None, Inr t)
    \<and> create_agent_task (\<lambda>_. lit ''f'') default_agent_settings (UUID 7) demo_create (UUID 13) 6 id d1 None
      = (d1, None, Inr t)"
proof -
  have k: "ac_idempotency_key demo_create = Some (lit ''key-0001'')" by (simp add: demo_create_def)
  have s: "strip (lit ''key-0001'') \<noteq> []" by (simp add: str_eval)
  let ?t = "build_agent_task (\<lambda>_. lit ''f'') default_agent_settings (UUID 7) demo_create (UUID 12) 5"
  let ?d = "empty_db\<lparr>db_tasks := [?t]\<rparr>"
  have c: "create_agent_task (\<lambda>_. lit ''f'') default_agent_settings (UUID 7) demo_create (UUID 12) 5 id empty_db None
      = (?d, None, Inr ?t)"
    by (auto simp: create_agent_task_def conversation_missing_def demo_create_def insert_task_def
        empty_db_def get_task_by_idempotency_key_def get_task_def find_row_def opt_enqueue_def Let_def
        split: option.split)
  have m: "\<not> conversation_missing ?d (ac_conversation_id demo_create) (UUID 7)"
    by (simp add: conversation_missing_def demo_create_def)
  have n: "get_task_by_idempotency_key empty_db (UUID 7) (strip (lit ''key-0001'')) = None"
    by (simp add: get_task_by_idempotency_key_def empty_db_def)
  from repeated_create_is_idempotent [OF c k s n _ k refl m, of "UUID 13" 6 id None] n
  have "create_agent_task (\<lambda>_. lit ''f'') default_agent_settings (UUID 7) demo_create (UUID 13) 6 id ?d None
      = (?d, None, Inr ?t)"
    by (simp add: opt_enqueue_def)
  with c show ?thesis by blast
qed



text \<open>
  Cancelling takes the work away from its worker: after a successful cancellation the row is
  cancelled with no token, and no lease of any worker is accepted for a write any more, whatever
  the worker would write.
\<close>

theorem cancel_revokes_leases:
  assumes "tasks_ok d" and "cancel_task usr i now d so = (d', so', Inr t')" and "l_task_id l = i"
  shows "get_task i d' = Some t' \<and> t_status t' = Cancelled_st \<and> t_run_token t' = None
    \<and> lease_fence.writes l cs d' = d' \<and> lease_write l c d' = (d', Inl TaskLeaseLost)"
  using assms(2)
proof (cases rule: cancel_task_cases)
  case (refused e)
  then show ?thesis by simp
next
  case (written t)
  with get_owned_task_get [OF assms(1) written(1)] get_owned_task_Some [OF written(1)]
  have g: "get_task i d' = Some (cancelled_row now t)" "t' = cancelled_row now t"
    by (auto simp: get_put_task)
  then have "\<not> owns l d'" using assms(3) by (simp add: owns_def)
  with g show ?thesis
    using lease_fence.denied lease_fence.denied_run by simp
qed

theorem cancel_revokes_leases_witness:
  "\<exists>d' so' t'. cancel_task (UUID 7) (UUID 11) 20 demo_running None = (d', so', Inr t')
     \<and> owns \<lparr>l_task_id = UUID 11, l_token = UUID 99\<rparr> demo_running
     \<and> t_status t' = Cancelled_st
     \<and> lease_write \<lparr>l_task_id = UUID 11, l_token = UUID 99\<rparr> (True, 21, Inr) d' = (d', Inl TaskLeaseLost)"
proof -
  let ?l = "\<lparr>l_task_id = UUID 11, l_token = UUID 99\<rparr>"
  have ok: "tasks_ok demo_running"
    unfolding demo_running_def by (rule claim_tasks_ok) (rule demo_tasks_ok)
  have "get_owned_task demo_running (UUID 11) (UUID 7) = get_task (UUID 11) demo_running"
    by (simp add: get_owned_task_iff [OF ok] demo_running_row demo_task_def)
  then obtain d' so' t' where c: "cancel_task (UUID 7) (UUID 11) 20 demo_running None = (d', so', Inr t')"
    by (simp add: cancel_task_def demo_running_row validate_task_transition_def
        is_valid_task_status_transition_def)
  have "owns ?l demo_running" by (simp add: owns_def demo_running_row)
  with cancel_revokes_leases [OF ok c, of ?l] c show ?thesis by fastforce
qed

text \<open>
  A schedule the API creates or re-enables starts in the future: the stored next run lies
  strictly after the moment of the request, so the next tick does not back-fill the time the
  schedule did not exist or was disabled.
\<close>

theorem api_schedules_start_in_future:
  "(create_task_schedule zones cfg usr p new_id now d = (d', Inr s) \<longrightarrow>
      \<not> schedule_due now s \<and> sc_enabled s \<and> get_schedule new_id d' = Some s)
    \<and> (update_task_schedule zones usr i enabled now d = (d'', Inr s') \<longrightarrow>
      sc_enabled s' = enabled \<and> \<not> schedule_due now s')"
proof (intro conjI impI)
  assume c: "create_task_schedule zones cfg usr p new_id now d = (d', Inr s)"
  then obtain t n where t: "initial_next_run zones (scr_kind p) (scr_timezone p) now (scr_run_at p) n
      (scr_daily_time p) = Inr t" and s: "sc_next_run_at s = Some t" "sc_enabled s" "sc_id s = new_id"
      "d' = d\<lparr>db_schedules := db_schedules d @ [s]\<rparr>" "get_schedule new_id d = None"
    by (auto simp: create_task_schedule_def Let_def split: if_splits sum.splits exn.splits)
  from initial_next_run_after [OF t] s
  show "\<not> schedule_due now s" "sc_enabled s" "get_schedule new_id d' = Some s"
    by (auto simp: schedule_due_def get_schedule_def find_row_append)
next
  assume u: "update_task_schedule zones usr i enabled now d = (d'', Inr s')"
  then show "sc_enabled s' = enabled"
    by (auto simp: update_task_schedule_def Let_def split: option.splits sum.splits exn.splits if_splits)
  have after: "now < t" if "map_sum id Some (initial_next_run zones k name now r n dt) = Inr (Some t)"
    for k name r n dt t
    using that by (cases "initial_next_run zones k name now r n dt") (auto dest: initial_next_run_after)
  from u show "\<not> schedule_due now s'"
    by (auto simp: update_task_schedule_def Let_def schedule_due_def dest!: after
        split: option.splits sum.splits exn.splits if_splits)
qed

theorem api_schedules_start_in_future_witness:
  "\<exists>d'' s'. update_task_schedule demo_zones (UUID 7) (UUID 21) True (seconds 75) demo_schedule_db = (d'', Inr s')
     \<and> sc_enabled s' \<and> \<not> schedule_due (seconds 75) s'"
proof -
  have u: "strip (lit ''UTC'') = lit ''UTC''" by (simp add: str_eval)
  obtain d'' s' where "update_task_schedule demo_zones (UUID 7) (UUID 21) True (seconds 75) demo_schedule_db =
      (d'', Inr s')"
    by (simp add: update_task_schedule_def get_owned_schedule_def demo_schedule_db_def demo_schedule_def
        seconds_def initial_next_run_def validate_timezone_def demo_zones_def u Let_def)
  with api_schedules_start_in_future [THEN conjunct2, THEN mp, OF this] show ?thesis by blast
qed

end
