(* ===== verification/Tool_Schema.thy ===== *)
theory Tool_Schema
  imports Json
begin

text \<open>
  Tools as the registry holds them (\<open>services/plugin_registry.py\<close>) and the validation of their
  arguments (\<open>_validate_arguments\<close> and its helpers in \<open>services/tool_executor.py\<close>,
  \<open>services/tool_schema.py\<close>). The \<open>jsonschema\<close> validator is an argument: it accepts, rejects the
  schema, or names the first error by its path and keyword.
\<close>

section \<open>Registered tools\<close>

record plugin_manifest =
  pm_name :: ustr
  pm_description :: ustr
  pm_permission :: ustr
  pm_requires_confirmation :: bool
  pm_parameters :: dict
  pm_output_schema :: "dict option"
  pm_timeout_seconds :: int
  pm_output_strategy :: dict
  pm_entrypoint :: ustr
  pm_enabled :: bool

record registered_tool =
  rt_manifest :: plugin_manifest
  rt_has_handler :: bool
  rt_provider :: ustr
  rt_provider_tool_id :: "ustr option"
  rt_transport :: ustr
  rt_server_name :: "ustr option"
  rt_has_client :: bool

definition local_plugin :: ustr where
  "local_plugin = lit ''local_plugin''"

definition mcp_server :: ustr where
  "mcp_server = lit ''mcp_server''"

definition tool_name_char :: "nat \<Rightarrow> bool" where
  "tool_name_char c \<longleftrightarrow> (97 \<le> c \<and> c \<le> 122) \<or> (65 \<le> c \<and> c \<le> 90) \<or> (48 \<le> c \<and> c \<le> 57)
     \<or> c = 95 \<or> c = 46 \<or> c = 45"

definition valid_manifest :: "plugin_manifest \<Rightarrow> bool" where
  "valid_manifest m \<longleftrightarrow> pm_name m \<noteq> [] \<and> list_all tool_name_char (pm_name m)
     \<and> 0 < pm_timeout_seconds m \<and> pm_timeout_seconds m \<le> 300"

text \<open>
  The registry is a dictionary by name; \<open>load\<close> replaces its content by the manifests found, a
  manifest that fails to load (\<open>None\<close>) being skipped.
\<close>

type_synonym registry = "registered_tool list"

definition tool_name :: "registered_tool \<Rightarrow> ustr" where
  "tool_name t = pm_name (rt_manifest t)"

definition register_tool :: "registered_tool \<Rightarrow> registry \<Rightarrow> registry" where
  "register_tool t r =
     (if tool_name t \<in> tool_name ` set r then put_row tool_name t r else r @ [t])"

definition registry_get :: "registry \<Rightarrow> ustr \<Rightarrow> registered_tool option" where
  "registry_get r name = find_row tool_name name r"

definition registry_load :: "bool \<Rightarrow> registered_tool option list \<Rightarrow> registry" where
  "registry_load dir_exists found =
     (if \<not> dir_exists then []
      else fold (\<lambda>x r. case x of None \<Rightarrow> r | Some t \<Rightarrow> register_tool t r) found [])"

definition list_tools :: "registry \<Rightarrow> registered_tool list" where
  "list_tools r = sort_key tool_name r"

lemma registry_get_register:
  "registry_get (register_tool t r) name = (if name = tool_name t then Some t else registry_get r name)"
proof (cases "tool_name t \<in> tool_name ` set r")
  case True
  then have "find_row tool_name (tool_name t) r \<noteq> None" by (simp add: find_row_None_iff)
  with True show ?thesis by (auto simp: registry_get_def register_tool_def find_put_row)
next
  case False
  then have "find_row tool_name (tool_name t) r = None" by (simp add: find_row_None_iff)
  with False show ?thesis
    by (auto simp: registry_get_def register_tool_def find_row_append split: option.split)
qed

lemma registry_names_distinct: "distinct (map tool_name (registry_load b found))"
proof -
  have "distinct (map tool_name (fold (\<lambda>x r. case x of None \<Rightarrow> r | Some t \<Rightarrow> register_tool t r) xs r))"
    if "distinct (map tool_name r)" for xs r
    using that
    by (induction xs arbitrary: r) (auto simp: register_tool_def map_key_put_row split: option.split)
  then show ?thesis by (simp add: registry_load_def)
qed

section \<open>Types and formats\<close>

fun matches_schema_type :: "json \<Rightarrow> json \<Rightarrow> bool"
  and matches_any_type :: "json \<Rightarrow> json list \<Rightarrow> bool"
where
  "matches_schema_type v (JList ts) = matches_any_type v ts"
| "matches_schema_type v (JStr t) =
     (if t = lit ''string'' then is_str v
      else if t = lit ''integer'' then (case v of JInt _ \<Rightarrow> True | _ \<Rightarrow> False)
      else if t = lit ''number'' then (case v of JInt _ \<Rightarrow> True | JFloat _ \<Rightarrow> True | _ \<Rightarrow> False)
      else if t = lit ''boolean'' then (case v of JBool _ \<Rightarrow> True | _ \<Rightarrow> False)
      else if t = lit ''object'' then is_obj v
      else if t = lit ''array'' then is_list v
      else if t = lit ''null'' then v = JNull
      else True)"
| "matches_schema_type v _ = True"
| "matches_any_type v [] = False"
| "matches_any_type v (t # ts) = (matches_schema_type v t \<or> matches_any_type v ts)"

definition type_label :: "py_repr \<Rightarrow> json \<Rightarrow> ustr" where
  "type_label fr t = (case t of JList ts \<Rightarrow> join (lit '' or '') (map (scalar_str fr) ts) | _ \<Rightarrow> scalar_str fr t)"

text \<open>\<open>int(text, 16)\<close> succeeds: spaces around, a sign, a \<open>0x\<close> prefix, hex digits with single underscores.\<close>

definition is_hex :: "nat \<Rightarrow> bool" where
  "is_hex c \<longleftrightarrow> (48 \<le> c \<and> c \<le> 57) \<or> (97 \<le> c \<and> c \<le> 102) \<or> (65 \<le> c \<and> c \<le> 70)"

fun hex_digits :: "bool \<Rightarrow> ustr \<Rightarrow> bool" where
  "hex_digits seen [] = seen"
| "hex_digits seen (c # cs) =
     (if is_hex c then hex_digits True cs
      else c = 95 \<and> seen \<and> cs \<noteq> [] \<and> hex_digits False cs)"

definition int16_ok :: "ustr \<Rightarrow> bool" where
  "int16_ok s =
     (let body = (case strip s of [] \<Rightarrow> [] | c # cs \<Rightarrow> if c = 43 \<or> c = 45 then cs else c # cs) in
      case body of
        a # b # cs \<Rightarrow>
          if a = 48 \<and> (b = 120 \<or> b = 88)
          then (case cs of c # cs' \<Rightarrow> if c = 95 then hex_digits False cs' else hex_digits False cs
                | [] \<Rightarrow> False)
          else hex_digits False body
      | _ \<Rightarrow> hex_digits False body)"

definition uuid_text_ok :: "ustr \<Rightarrow> bool" where
  "uuid_text_ok value =
     (let hex = filter (\<lambda>c. c \<noteq> 45)
        (strip_by (\<lambda>c. c = 123 \<or> c = 125)
          (replace_all (lit ''uuid:'') [] (replace_all (lit ''urn:'') [] value)))
      in length hex = 32 \<and> int16_ok hex)"

definition path_text_ok :: "ustr \<Rightarrow> bool" where
  "path_text_ok value \<longleftrightarrow> strip value \<noteq> [] \<and> 0 \<notin> set value"

definition matches_format :: "json \<Rightarrow> json \<Rightarrow> bool" where
  "matches_format v fmt = (case v of
     JStr s \<Rightarrow> if fmt = JStr (lit ''path'') then path_text_ok s
               else if fmt = JStr (lit ''uuid'') then uuid_text_ok s else True
   | _ \<Rightarrow> True)"

section \<open>Schema validation\<close>

datatype schema_outcome = SchemaOk | SchemaInvalid | SchemaError (se_path: "ustr list") (se_validator: ustr)

type_synonym schema_checker = "dict \<Rightarrow> json \<Rightarrow> schema_outcome"

definition validate_tool_schema :: "schema_checker \<Rightarrow> dict \<Rightarrow> json \<Rightarrow> ustr \<Rightarrow> unit res" where
  "validate_tool_schema check schema value label =
     (case check schema value of
        SchemaOk \<Rightarrow> Inr ()
      | SchemaInvalid \<Rightarrow>
          Inl (HttpError 422 (lit ''Invalid '' @ label @ lit '' schema or unresolved local reference''))
      | SchemaError path validator \<Rightarrow>
          Inl (HttpError 422 (label @ lit '' at ''
            @ (let p = join (lit ''.'') path in if p = [] then [36] else p)
            @ lit '' failed '' @ validator @ lit '' validation'')))"

text \<open>\<open>name in container\<close> for a value of a schema.\<close>

definition name_in :: "ustr \<Rightarrow> json \<Rightarrow> bool res" where
  "name_in name container = (case container of
     JObj d \<Rightarrow> Inr (dhas d name)
   | JList xs \<Rightarrow> Inr (list_ex (py_eq (JStr name)) xs)
   | JStr s \<Rightarrow> Inr (substr name s)
   | _ \<Rightarrow> Inl (TypeError (lit ''argument is not iterable'')))"

text \<open>\<open>[name for name in required if name not in arguments]\<close>.\<close>

definition missing_required :: "json \<Rightarrow> dict \<Rightarrow> json list res" where
  "missing_required required arguments =
     (let absent = (\<lambda>n. case n of JStr s \<Rightarrow> \<not> dhas arguments s | _ \<Rightarrow> True) in
      case required of
        JList xs \<Rightarrow>
          if list_ex (\<lambda>x. is_list x \<or> is_obj x) xs then Inl (TypeError (lit ''unhashable type''))
          else Inr (filter absent xs)
      | JObj d \<Rightarrow> Inr (filter absent (map (\<lambda>(k, _). JStr k) d))
      | JStr s \<Rightarrow> Inr (filter absent (map (\<lambda>c. JStr [c]) s))
      | _ \<Rightarrow> Inl (TypeError (lit ''object is not iterable'')))"

text \<open>The message for one argument, if it is wrong.\<close>

definition argument_error :: "py_repr \<Rightarrow> json \<Rightarrow> ustr \<Rightarrow> json \<Rightarrow> ustr option" where
  "argument_error fr property_schema name value = (case property_schema of
     JObj ps \<Rightarrow>
       (let expected = dget ps (lit ''type''); fmt = dget ps (lit ''format'') in
        if expected \<noteq> JNull \<and> \<not> matches_schema_type value expected
        then Some (name @ lit '' must be '' @ type_label fr expected)
        else if fmt \<noteq> JNull \<and> \<not> matches_format value fmt
        then Some (name @ lit '' must match format '' @ scalar_str fr fmt)
        else None)
   | _ \<Rightarrow> None)"

definition argument_errors :: "py_repr \<Rightarrow> json \<Rightarrow> dict \<Rightarrow> ustr list res" where
  "argument_errors fr properties arguments = (case properties of
     JObj ps \<Rightarrow> Inr (concat (map (\<lambda>(name, value).
        case argument_error fr (dget ps name) name value of None \<Rightarrow> [] | Some e \<Rightarrow> [e]) arguments))
   | _ \<Rightarrow> if arguments = [] then Inr []
          else Inl (OtherError (lit ''properties has no attribute get'')))"

definition dget_or :: "dict \<Rightarrow> ustr \<Rightarrow> json \<Rightarrow> json" where
  "dget_or d k dflt = (case map_of d k of None \<Rightarrow> dflt | Some v \<Rightarrow> v)"

definition unknown_arguments :: "dict \<Rightarrow> json \<Rightarrow> dict \<Rightarrow> ustr list res" where
  "unknown_arguments schema properties arguments =
     (if dget schema (lit ''additionalProperties'') = JBool False
      then (case map_res (\<lambda>(name, _). map_sum id (\<lambda>b. (name, b)) (name_in name properties)) arguments of
              Inl e \<Rightarrow> Inl e
            | Inr rs \<Rightarrow> Inr (sort (map fst (filter (\<lambda>(_, b). \<not> b) rs))))
      else Inr [])"

definition validate_arguments ::
  "py_repr \<Rightarrow> schema_checker \<Rightarrow> registered_tool \<Rightarrow> json \<Rightarrow> unit res" where
  "validate_arguments fr check tool args =
     (let schema = pm_parameters (rt_manifest tool) in
      if dget_or schema (lit ''type'') (JStr (lit ''object'')) \<noteq> JStr (lit ''object'')
      then Inl (HttpError 500 (lit ''Tool parameter schema must be an object''))
      else case args of
        JObj arguments \<Rightarrow>
          (case missing_required (dget_or schema (lit ''required'') (JList [])) arguments of
             Inl e \<Rightarrow> Inl e
           | Inr missing \<Rightarrow>
               if missing \<noteq> []
               then Inl (HttpError 422 (lit ''Missing required arguments: '' @ fr (JList missing)))
               else
                 (let properties = dget_or schema (lit ''properties'') (JObj []) in
                  case unknown_arguments schema properties arguments of
                    Inl e \<Rightarrow> Inl e
                  | Inr unknown \<Rightarrow>
                      if unknown \<noteq> []
                      then Inl (HttpError 422 (lit ''Unknown arguments: '' @ fr (JList (map JStr unknown))))
                      else (case argument_errors fr properties arguments of
                              Inl e \<Rightarrow> Inl e
                            | Inr errors \<Rightarrow>
                                if errors \<noteq> [] then Inl (HttpError 422 (join (lit ''; '') errors))
                                else validate_tool_schema check schema args (lit ''Tool arguments''))))
      | _ \<Rightarrow> Inl (HttpError 422 (lit ''Tool arguments must be an object'')))"

section \<open>Properties\<close>

text \<open>
  Arguments that pass validation fit the declared schema: they are an object, every required
  name is present, with closed schemas every name is declared, every declared type and format
  holds, and the JSON Schema validator accepted them.
\<close>

theorem validated_arguments_fit:
  assumes "validate_arguments fr check tool args = Inr ()"
    and "schema = pm_parameters (rt_manifest tool)"
    and "dget_or schema (lit ''properties'') (JObj []) = JObj props"
    and "dget_or schema (lit ''required'') (JList []) = JList required"
  shows "\<exists>arguments. args = JObj arguments \<and> check schema args = SchemaOk
    \<and> (\<forall>r. JStr r \<in> set required \<longrightarrow> dhas arguments r)
    \<and> (dget schema (lit ''additionalProperties'') = JBool False \<longrightarrow> (\<forall>(n, v) \<in> set arguments. dhas props n))
    \<and> (\<forall>(n, v) \<in> set arguments. \<forall>ps. dget props n = JObj ps \<longrightarrow>
         (dget ps (lit ''type'') \<noteq> JNull \<longrightarrow> matches_schema_type v (dget ps (lit ''type'')))
         \<and> (dget ps (lit ''format'') \<noteq> JNull \<longrightarrow> matches_format v (dget ps (lit ''format''))))"
proof -
  from assms(1,2) obtain arguments where a: "args = JObj arguments"
    by (auto simp: validate_arguments_def Let_def split: if_splits json.splits)
  from assms a have miss: "missing_required (JList required) arguments = Inr []"
    and unk: "unknown_arguments schema (JObj props) arguments = Inr []"
    and err: "argument_errors fr (JObj props) arguments = Inr []"
    and chk: "validate_tool_schema check schema args (lit ''Tool arguments'') = Inr ()"
    by (auto simp: validate_arguments_def Let_def split: if_splits sum.splits)
  have req: "\<forall>r. JStr r \<in> set required \<longrightarrow> dhas arguments r"
    using miss by (auto simp: missing_required_def filter_empty_conv split: if_splits json.splits)
  have unknown: "\<forall>(n, v) \<in> set arguments. dhas props n"
    if "dget schema (lit ''additionalProperties'') = JBool False"
  proof -
    have "map_res (\<lambda>(name, _). map_sum id (\<lambda>b. (name, b)) (name_in name (JObj props))) arguments =
        Inr (map (\<lambda>(n, _). (n, dhas props n)) arguments)"
      by (induction arguments) (auto simp: name_in_def)
    with unk that have "sort (map fst (filter (\<lambda>(_, b). \<not> b) (map (\<lambda>(n, _). (n, dhas props n)) arguments))) = []"
      by (simp only: unknown_arguments_def if_True simp_thms sum.case sum.inject)
    then have "filter (\<lambda>(_, b). \<not> b) (map (\<lambda>(n, _). (n, dhas props n)) arguments) = []"
      by (simp only: sort_key_empty map_is_Nil_conv)
    then show ?thesis by (auto simp: filter_empty_conv)
  qed
  have "argument_error fr (dget props n) n v = None" if "(n, v) \<in> set arguments" for n v
    using err that by (auto simp: argument_errors_def split: option.splits)
  then have one: "(dget ps (lit ''type'') \<noteq> JNull \<longrightarrow> matches_schema_type v (dget ps (lit ''type'')))
         \<and> (dget ps (lit ''format'') \<noteq> JNull \<longrightarrow> matches_format v (dget ps (lit ''format'')))"
    if "(n, v) \<in> set arguments" "dget props n = JObj ps" for n v ps
    using that by (fastforce simp: argument_error_def Let_def split: if_splits)
  then have types: "\<forall>(n, v) \<in> set arguments. \<forall>ps. dget props n = JObj ps \<longrightarrow>
         (dget ps (lit ''type'') \<noteq> JNull \<longrightarrow> matches_schema_type v (dget ps (lit ''type'')))
         \<and> (dget ps (lit ''format'') \<noteq> JNull \<longrightarrow> matches_format v (dget ps (lit ''format'')))"
    by blast
  from chk have "check schema args = SchemaOk"
    by (auto simp: validate_tool_schema_def split: schema_outcome.splits)
  with a req unknown types show ?thesis by blast
qed

definition demo_tool :: registered_tool where
  "demo_tool = \<lparr>rt_manifest = \<lparr>pm_name = lit ''read_file'', pm_description = [], pm_permission = lit ''safe'',
       pm_requires_confirmation = True,
       pm_parameters = [(lit ''type'', JStr (lit ''object'')),
         (lit ''required'', JList [JStr (lit ''path'')]),
         (lit ''properties'', JObj [(lit ''path'', JObj [(lit ''type'', JStr (lit ''string''))])]),
         (lit ''additionalProperties'', JBool False)],
       pm_output_schema = None, pm_timeout_seconds = 30, pm_output_strategy = [],
       pm_entrypoint = lit ''tool.py:run'', pm_enabled = True\<rparr>,
     rt_has_handler = True, rt_provider = local_plugin, rt_provider_tool_id = None,
     rt_transport = lit ''python'', rt_server_name = None, rt_has_client = False\<rparr>"

definition demo_args :: json where
  "demo_args = JObj [(lit ''path'', JStr (lit ''a.txt''))]"

lemma demo_args_valid: "validate_arguments (\<lambda>_. []) (\<lambda>_ _. SchemaOk) demo_tool demo_args = Inr ()"
  by (simp add: validate_arguments_def demo_tool_def demo_args_def dget_or_def missing_required_def
      is_list_def is_obj_def dhas_def unknown_arguments_def dget_def name_in_def argument_errors_def
      argument_error_def is_str_def validate_tool_schema_def Let_def)

theorem validated_arguments_fit_witness:
  "validate_arguments (\<lambda>_. []) (\<lambda>_ _. SchemaOk) demo_tool demo_args = Inr ()
   \<and> (\<exists>arguments. demo_args = JObj arguments \<and> dhas arguments (lit ''path''))"
proof -
  have "dget_or (pm_parameters (rt_manifest demo_tool)) (lit ''properties'') (JObj []) =
      JObj [(lit ''path'', JObj [(lit ''type'', JStr (lit ''string''))])]"
    "dget_or (pm_parameters (rt_manifest demo_tool)) (lit ''required'') (JList []) = JList [JStr (lit ''path'')]"
    by (simp_all add: demo_tool_def dget_or_def)
  from validated_arguments_fit [OF demo_args_valid refl this] demo_args_valid show ?thesis by auto
qed

end
