(* ===== verification/Tool_Output.thy ===== *)
theory Tool_Output
  imports Tool_Schema Config
begin

text \<open>
  What a tool returns, before it reaches the model or the database: the normalisation of MCP
  results (\<open>mcp/tools.py\<close>), and the bounding, summary and error detection of
  \<open>services/tool_executor.py\<close>. The traversal of \<open>_limit_output\<close> threads the remaining budget and the
  truncation flag exactly as its \<open>nonlocal\<close> variables do.
\<close>

section \<open>Normalising MCP results\<close>

definition safe_content :: "dict \<Rightarrow> dict" where
  "safe_content item =
     (let ty = dget item (lit ''type'') in
      if ty = JStr (lit ''image'') \<or> ty = JStr (lit ''audio'')
      then [(lit ''type'', ty), (lit ''mimeType'', dget item (lit ''mimeType'')),
            (lit ''omitted'', JStr (lit ''binary media''))]
      else if ty = JStr (lit ''resource'')
      then (case dget item (lit ''resource'') of
              JObj r \<Rightarrow> dset (lit ''resource'') (JObj (filter (\<lambda>(k, _). k \<noteq> lit ''blob'') r)) item
            | _ \<Rightarrow> item)
      else item)"

text \<open>The text parts one content item contributes.\<close>

definition item_text :: "py_repr \<Rightarrow> json \<Rightarrow> ustr list" where
  "item_text fr item = (case item of
     JObj d \<Rightarrow>
       (let ty = dget d (lit ''type''); text = dget d (lit ''text'') in
        if ty = JStr (lit ''text'') \<and> truthy text then [scalar_str fr text]
        else if ty = JStr (lit ''resource'')
        then (case dget d (lit ''resource'') of
                JObj r \<Rightarrow>
                  (case dget r (lit ''text'') of
                     JStr t \<Rightarrow>
                       if t = [] then []
                       else (let uri = dget r (lit ''uri'') in
                             [(if truthy uri then lit ''Resource: '' @ scalar_str fr uri @ [10] else []) @ t])
                   | _ \<Rightarrow> [])
              | _ \<Rightarrow> [])
        else [])
   | _ \<Rightarrow> [])"

definition keep_keys :: "ustr list \<Rightarrow> dict \<Rightarrow> dict" where
  "keep_keys ks d = concat (map (\<lambda>k. case map_of d k of None \<Rightarrow> [] | Some v \<Rightarrow> [(k, v)]) ks)"

definition normalize_mcp_tool_result :: "py_repr \<Rightarrow> json \<Rightarrow> json" where
  "normalize_mcp_tool_result fr result = (case result of
     JObj d \<Rightarrow>
       (case dget d (lit ''content'') of
          JList content \<Rightarrow>
            (let parts = concat (map (item_text fr) content);
                 objs = concat (map (\<lambda>i. case i of JObj x \<Rightarrow> [x] | _ \<Rightarrow> []) content) in
             if parts \<noteq> []
             then (let attachments = map (\<lambda>x. JObj (safe_content x))
                         (filter (\<lambda>x. dget x (lit ''type'') \<noteq> JStr (lit ''text'')) objs) in
                   JObj ([(lit ''content'', JStr (join [10] parts))]
                     @ keep_keys [lit ''isError'', lit ''url'', lit ''structuredContent''] d
                     @ (if attachments = [] then [] else [(lit ''attachments'', JList attachments)])))
             else JObj (dset (lit ''content'') (JList (map (\<lambda>x. JObj (safe_content x)) objs)) d))
        | _ \<Rightarrow> result)
   | _ \<Rightarrow> result)"

section \<open>Bounding the output\<close>

definition output_limit :: "tool_settings \<Rightarrow> registered_tool \<Rightarrow> int" where
  "output_limit cfg tool = (case dget (pm_output_strategy (rt_manifest tool)) (lit ''max_chars'') of
     JInt n \<Rightarrow> if n > 0 then min n (max_tool_output_chars cfg) else max_tool_output_chars cfg
   | JBool b \<Rightarrow> if b then min 1 (max_tool_output_chars cfg) else max_tool_output_chars cfg
   | _ \<Rightarrow> max_tool_output_chars cfg)"

text \<open>\<open>bounded(value, depth)\<close>: the value, the budget left, and whether anything was cut.\<close>

fun bounded :: "py_repr \<Rightarrow> nat \<Rightarrow> json \<Rightarrow> int \<times> bool \<Rightarrow> json \<times> int \<times> bool"
  and bounded_items :: "py_repr \<Rightarrow> nat \<Rightarrow> dict \<Rightarrow> int \<times> bool \<Rightarrow> dict \<times> int \<times> bool"
  and bounded_list :: "py_repr \<Rightarrow> nat \<Rightarrow> json list \<Rightarrow> int \<times> bool \<Rightarrow> json list \<times> int \<times> bool"
where
  "bounded fr depth (JStr s) (remaining, truncated) =
     (if remaining < 16 \<or> depth > 16 then (JNull, remaining, True)
      else (let result = take (nat (max 0 (remaining - 4))) s in
            (JStr result, remaining - 4 - int (length result),
             truncated \<or> length result < length s)))"
| "bounded fr depth (JObj d) (remaining, truncated) =
     (if remaining < 16 \<or> depth > 16 then (JNull, remaining, True)
      else (case bounded_items fr depth d (remaining - 4, truncated) of (r, st) \<Rightarrow> (JObj r, st)))"
| "bounded fr depth (JList xs) (remaining, truncated) =
     (if remaining < 16 \<or> depth > 16 then (JNull, remaining, True)
      else (case bounded_list fr depth xs (remaining - 4, truncated) of (r, st) \<Rightarrow> (JList r, st)))"
| "bounded fr depth v (remaining, truncated) =
     (if remaining < 16 \<or> depth > 16 then (JNull, remaining, True)
      else (v, remaining - 4 - int (length (scalar_str fr v)), truncated))"
| "bounded_items fr depth [] st = ([], st)"
| "bounded_items fr depth ((k, v) # d) (remaining, truncated) =
     (if remaining < int (length k) + 16 then ([], remaining, True)
      else (case bounded fr (depth + 1) v (remaining - int (length k) - 4, truncated) of
              (v', st) \<Rightarrow> (case bounded_items fr depth d st of (d', st') \<Rightarrow> ((k, v') # d', st'))))"
| "bounded_list fr depth [] st = ([], st)"
| "bounded_list fr depth (x # xs) (remaining, truncated) =
     (if remaining < 16 then ([], remaining, True)
      else (case bounded fr (depth + 1) x (remaining, truncated) of
              (x', st) \<Rightarrow> (case bounded_list fr depth xs st of (xs', st') \<Rightarrow> (x' # xs', st'))))"

definition is_mcp_error_output :: "json \<Rightarrow> bool" where
  "is_mcp_error_output output = (case output of
     JObj d \<Rightarrow> jget (dget d (lit ''raw'')) (lit ''isError'') = JBool True
        \<or> dget d (lit ''isError'') = JBool True
   | _ \<Rightarrow> False)"

definition mark_truncated :: "json \<Rightarrow> json \<Rightarrow> json" where
  "mark_truncated output result =
     (let d = dset (lit ''_truncated'') (JBool True)
                (case result of JObj d \<Rightarrow> d | r \<Rightarrow> [(lit ''content'', r)]) in
      JObj (if is_mcp_error_output output then dset (lit ''isError'') (JBool True) d else d))"

definition limit_output :: "py_repr \<Rightarrow> tool_settings \<Rightarrow> registered_tool \<Rightarrow> json \<Rightarrow> json" where
  "limit_output fr cfg tool output = (case output of
     JStr s \<Rightarrow> JStr (py_take (output_limit cfg tool) s)
   | _ \<Rightarrow> (case bounded fr 0 output (output_limit cfg tool, False) of
             (result, _, truncated) \<Rightarrow> if truncated then mark_truncated output result else result))"

section \<open>Summary and error text\<close>

definition summarize :: "py_repr \<Rightarrow> tool_settings \<Rightarrow> json \<Rightarrow> ustr option" where
  "summarize fr cfg output = (case output of
     JNull \<Rightarrow> None
   | _ \<Rightarrow>
     (let text = (case output of
          JStr s \<Rightarrow> s
        | JObj d \<Rightarrow> (case dget d (lit ''content'') of JStr c \<Rightarrow> c | _ \<Rightarrow> dumps fr output)
        | _ \<Rightarrow> dumps fr output)
      in Some (py_take (min (max_tool_output_chars cfg) 500) text)))"

definition mcp_error_text :: "py_repr \<Rightarrow> json \<Rightarrow> ustr" where
  "mcp_error_text fr output =
     (let fallback = lit ''MCP tool returned an error result'';
          from_raw = (\<lambda>d. case jget (dget d (lit ''raw'')) (lit ''content'') of
             JList items \<Rightarrow>
               (let parts = concat (map (\<lambda>i. case i of
                      JObj x \<Rightarrow> if truthy (dget x (lit ''text'')) then [scalar_str fr (dget x (lit ''text''))] else []
                    | _ \<Rightarrow> []) items)
                in if parts = [] then fallback else join [10] parts)
           | _ \<Rightarrow> fallback)
      in case output of
           JObj d \<Rightarrow> (case dget d (lit ''content'') of
                        JStr c \<Rightarrow> if c = [] then from_raw d else c
                      | _ \<Rightarrow> from_raw d)
         | _ \<Rightarrow> fallback)"

section \<open>The budget\<close>

text \<open>The characters of all strings and keys of a value.\<close>

fun text_size :: "json \<Rightarrow> nat"
  and items_size :: "dict \<Rightarrow> nat"
  and list_size :: "json list \<Rightarrow> nat"
where
  "text_size (JStr s) = length s"
| "text_size (JObj d) = items_size d"
| "text_size (JList xs) = list_size xs"
| "text_size _ = 0"
| "items_size [] = 0"
| "items_size ((k, v) # d) = length k + text_size v + items_size d"
| "list_size [] = 0"
| "list_size (x # xs) = text_size x + list_size xs"

text \<open>
  What the traversal keeps is paid for: size and remaining budget together never exceed the
  budget it started with, and nothing is kept once the budget is gone.
\<close>

definition paid :: "nat \<Rightarrow> int \<Rightarrow> int \<Rightarrow> bool" where
  "paid n before after \<longleftrightarrow> int n + after \<le> before \<and> int n \<le> max 0 before"

lemma bounded_paid:
  "bounded fr depth v (rem, tr) = (v', rem', tr') \<Longrightarrow> paid (text_size v') rem rem'"
  "bounded_items fr depth d (rem, tr) = (d', rem', tr') \<Longrightarrow> paid (items_size d') rem rem'"
  "bounded_list fr depth xs (rem, tr) = (xs', rem', tr') \<Longrightarrow> paid (list_size xs') rem rem'"
proof (induction fr depth v "(rem, tr)" and fr depth d "(rem, tr)" and fr depth xs "(rem, tr)"
    arbitrary: rem tr v' rem' tr' and rem tr d' rem' tr' and rem tr xs' rem' tr'
    rule: bounded_bounded_items_bounded_list.induct)
  case (6 fr depth k v d rem tr)
  show ?case
  proof (cases "rem < int (length k) + 16")
    case True
    with 6(3) show ?thesis by (auto simp: paid_def)
  next
    case False
    obtain v1 r1 t1 where v1: "bounded fr (depth + 1) v (rem - int (length k) - 4, tr) = (v1, r1, t1)"
      by (metis prod_cases3)
    obtain d1 r2 t2 where d1: "bounded_items fr depth d (r1, t1) = (d1, r2, t2)" by (metis prod_cases3)
    from False 6(3) v1 d1 have eq: "d' = (k, v1) # d1" "rem' = r2" by auto
    from 6(1) [OF False v1] 6(2) [OF False v1 [symmetric] d1] False show ?thesis
      by (auto simp: paid_def eq)
  qed
next
  case (8 fr depth x xs rem tr)
  show ?case
  proof (cases "rem < 16")
    case True
    with 8(3) show ?thesis by (auto simp: paid_def)
  next
    case False
    obtain v1 r1 t1 where v1: "bounded fr (depth + 1) x (rem, tr) = (v1, r1, t1)"
      by (metis prod_cases3)
    obtain d1 r2 t2 where d1: "bounded_list fr depth xs (r1, t1) = (d1, r2, t2)" by (metis prod_cases3)
    from False 8(3) v1 d1 have eq: "xs' = v1 # d1" "rem' = r2" by auto
    from 8(1) [OF False v1] 8(2) [OF False v1 [symmetric] d1] False show ?thesis
      by (auto simp: paid_def eq)
  qed
qed (auto simp: paid_def Let_def split: if_splits prod.splits)

text \<open>An unset flag means nothing was cut.\<close>

lemma bounded_complete:
  "bounded fr depth v (rem, tr) = (v', rem', tr') \<Longrightarrow> (tr \<longrightarrow> tr') \<and> (\<not> tr' \<longrightarrow> v' = v)"
  "bounded_items fr depth d (rem, tr) = (d', rem', tr') \<Longrightarrow> (tr \<longrightarrow> tr') \<and> (\<not> tr' \<longrightarrow> d' = d)"
  "bounded_list fr depth xs (rem, tr) = (xs', rem', tr') \<Longrightarrow> (tr \<longrightarrow> tr') \<and> (\<not> tr' \<longrightarrow> xs' = xs)"
proof (induction fr depth v "(rem, tr)" and fr depth d "(rem, tr)" and fr depth xs "(rem, tr)"
    arbitrary: rem tr v' rem' tr' and rem tr d' rem' tr' and rem tr xs' rem' tr'
    rule: bounded_bounded_items_bounded_list.induct)
  case (6 fr depth k v d rem tr)
  show ?case
  proof (cases "rem < int (length k) + 16")
    case True
    with 6(3) show ?thesis by auto
  next
    case False
    obtain v1 r1 t1 where v1: "bounded fr (depth + 1) v (rem - int (length k) - 4, tr) = (v1, r1, t1)"
      by (metis prod_cases3)
    obtain d1 r2 t2 where d1: "bounded_items fr depth d (r1, t1) = (d1, r2, t2)" by (metis prod_cases3)
    from False 6(3) v1 d1 have eq: "d' = (k, v1) # d1" "tr' = t2" by auto
    from 6(1) [OF False v1] 6(2) [OF False v1 [symmetric] d1] show ?thesis by (auto simp: eq)
  qed
next
  case (8 fr depth x xs rem tr)
  show ?case
  proof (cases "rem < 16")
    case True
    with 8(3) show ?thesis by auto
  next
    case False
    obtain v1 r1 t1 where v1: "bounded fr (depth + 1) x (rem, tr) = (v1, r1, t1)"
      by (metis prod_cases3)
    obtain d1 r2 t2 where d1: "bounded_list fr depth xs (r1, t1) = (d1, r2, t2)" by (metis prod_cases3)
    from False 8(3) v1 d1 have eq: "xs' = v1 # d1" "tr' = t2" by auto
    from 8(1) [OF False v1] 8(2) [OF False v1 [symmetric] d1] show ?thesis by (auto simp: eq)
  qed
qed (auto simp: Let_def split: if_splits prod.splits)

lemma items_size_dset: "items_size (dset k v d) \<le> items_size d + length k + text_size v"
  by (induction k v d rule: dset.induct) auto

lemma mark_truncated_size: "text_size (mark_truncated output result) \<le> text_size result + 24"
proof -
  let ?base = "case result of JObj d \<Rightarrow> d | r \<Rightarrow> [(lit ''content'', r)]"
  have b: "items_size ?base \<le> text_size result + 7"
    by (cases result) auto
  have t: "items_size (dset (lit ''_truncated'') (JBool True) ?base) \<le> text_size result + 17"
    using b items_size_dset [of "lit ''_truncated''" "JBool True" ?base] by simp
  have "items_size (dset (lit ''isError'') (JBool True) (dset (lit ''_truncated'') (JBool True) ?base))
      \<le> text_size result + 24"
    using t items_size_dset [of "lit ''isError''" "JBool True" "dset (lit ''_truncated'') (JBool True) ?base"]
    by simp
  with t show ?thesis by (simp add: mark_truncated_def Let_def)
qed

lemma jget_mark_truncated:
  "jget (mark_truncated output result) (lit ''_truncated'') = JBool True"
  "is_mcp_error_output output \<Longrightarrow> is_mcp_error_output (mark_truncated output result)"
  by (simp_all add: mark_truncated_def Let_def jget_def dget_dset is_mcp_error_output_def)

section \<open>Properties\<close>

text \<open>
  Tool output is bounded: whatever a tool returns, the characters of all strings and keys
  that are stored and shown to the model stay within the tool's limit, up to the 24 characters of
  the marker keys.
\<close>

theorem limit_output_bounded:
  assumes "0 \<le> max_tool_output_chars cfg"
  shows "int (text_size (limit_output fr cfg tool output)) \<le> max_tool_output_chars cfg + 24"
proof -
  have lim: "0 \<le> output_limit cfg tool" "output_limit cfg tool \<le> max_tool_output_chars cfg"
    using assms by (auto simp: output_limit_def split: json.split)
  show ?thesis
  proof (cases "\<exists>s. output = JStr s")
    case True
    with lim show ?thesis by (auto simp: limit_output_def length_py_take)
  next
    case False
    obtain r m tr where b: "bounded fr 0 output (output_limit cfg tool, False) = (r, m, tr)"
      by (metis prod_cases3)
    from bounded_paid(1) [OF b] lim have "int (text_size r) \<le> max_tool_output_chars cfg"
      by (simp add: paid_def)
    moreover have "limit_output fr cfg tool output = (if tr then mark_truncated output r else r)"
      using False b by (auto simp: limit_output_def split: json.split)
    ultimately show ?thesis using mark_truncated_size [of "output" r] by auto
  qed
qed

theorem limit_output_bounded_witness:
  "int (text_size (limit_output (\<lambda>_. []) default_tool_settings demo_tool
      (JList [JStr (replicate 9000 65)]))) \<le> 8024"
  using limit_output_bounded [of default_tool_settings "\<lambda>_. []" demo_tool "JList [JStr (replicate 9000 65)]"]
  by (simp add: default_tool_settings_def)

text \<open>
  Bounding is honest: a text is cut to a prefix; any other output either comes back
  unchanged or carries \<open>_truncated\<close>; and an error result stays recognisable as an error after it
  was bounded.
\<close>

theorem limit_output_honest:
  "(\<forall>s. output = JStr s \<longrightarrow> (\<exists>n. limit_output fr cfg tool output = JStr (take n s)))
    \<and> ((\<forall>s. output \<noteq> JStr s) \<longrightarrow> limit_output fr cfg tool output = output
         \<or> jget (limit_output fr cfg tool output) (lit ''_truncated'') = JBool True)
    \<and> (is_mcp_error_output output \<longrightarrow> is_mcp_error_output (limit_output fr cfg tool output))"
proof (cases "\<exists>s. output = JStr s")
  case True
  then show ?thesis
    by (auto simp: limit_output_def py_take_def is_mcp_error_output_def)
next
  case False
  obtain r m tr where b: "bounded fr 0 output (output_limit cfg tool, False) = (r, m, tr)"
    by (metis prod_cases3)
  have "limit_output fr cfg tool output = (if tr then mark_truncated output r else r)"
    using False b by (auto simp: limit_output_def split: json.split)
  with bounded_complete(1) [OF b] jget_mark_truncated show ?thesis using False by auto
qed

theorem limit_output_honest_witness:
  "is_mcp_error_output (limit_output (\<lambda>_. []) default_tool_settings demo_tool
     (JObj [(lit ''isError'', JBool True), (lit ''content'', JStr (replicate 9000 65))]))"
  by (rule limit_output_honest [THEN conjunct2, THEN conjunct2, THEN mp])
    (simp add: is_mcp_error_output_def dget_def)

end
