(* ===== verification/Mcp_Security.thy ===== *)
theory Mcp_Security
  imports Config
begin

text \<open>
  The MCP access and confirmation policy (\<open>core/mcp_security.py\<close>): who may reach MCP, which tool
  permissions need a confirmation, which fetch targets are blocked, and the redaction and
  detection of secrets in configuration. URL parsing (\<open>urlparse\<close>), IP classification
  (\<open>ip_address\<close>) and path resolution are arguments.
\<close>

record mcp_identity =
  mi_user_id :: "uuid option"
  mi_service_id :: "ustr option"
  mi_is_admin :: bool

definition anonymous_identity :: mcp_identity where
  "anonymous_identity = \<lparr>mi_user_id = None, mi_service_id = None, mi_is_admin = False\<rparr>"

definition is_bound :: "mcp_identity \<Rightarrow> bool" where
  "is_bound i \<longleftrightarrow> mi_user_id i \<noteq> None \<or> (case mi_service_id i of None \<Rightarrow> False | Some s \<Rightarrow> s \<noteq> [])"

definition mcp_access_policies :: "ustr list" where
  "mcp_access_policies = [lit ''local-only'', lit ''authenticated'', lit ''disabled'', lit ''admin-only'']"

definition mcp_permissions :: "ustr list" where
  "mcp_permissions = [lit ''read'', lit ''write'', lit ''execute'', lit ''network'', lit ''destructive'']"

definition risky_mcp_permissions :: "ustr list" where
  "risky_mcp_permissions = [lit ''write'', lit ''execute'', lit ''network'', lit ''destructive'']"

section \<open>Settings and access\<close>

definition require_local_bind_host :: "ustr \<Rightarrow> unit res" where
  "require_local_bind_host host =
     (if host \<in> {lit ''127.0.0.1'', lit ''localhost'', lit ''::1''} then Inr ()
      else Inl (RuntimeError (lit ''MCP server must bind locally unless MCP remote access is enabled'')))"

definition validate_mcp_settings :: "mcp_settings \<Rightarrow> unit res" where
  "validate_mcp_settings s =
     (if mcp_access_policy s \<notin> set mcp_access_policies
      then Inl (RuntimeError (lit ''Invalid MCP access policy: '' @ mcp_access_policy s))
      else if \<not> list_all (\<lambda>t. t \<in> {lit ''stdio'', lit ''http'', lit ''sse'', lit ''streamable-http''})
                (mcp_allowed_transports s)
      then Inl (RuntimeError (lit ''Unsupported MCP transport(s)''))
      else if mcp_server_enabled s \<and> \<not> mcp_remote_enabled s
      then require_local_bind_host (mcp_server_bind_host s)
      else Inr ())"

definition require_mcp_server_enabled :: "mcp_settings \<Rightarrow> unit res" where
  "require_mcp_server_enabled s =
     (if \<not> mcp_enabled s \<or> \<not> mcp_server_enabled s then Inl (HttpError 404 (lit ''MCP server is disabled''))
      else Inr ())"

definition require_mcp_client_enabled :: "mcp_settings \<Rightarrow> unit res" where
  "require_mcp_client_enabled s =
     (if \<not> mcp_enabled s \<or> \<not> mcp_client_enabled s then Inl (HttpError 404 (lit ''MCP client is disabled''))
      else Inr ())"

definition authorize_mcp_access :: "mcp_identity \<Rightarrow> mcp_settings \<Rightarrow> bool \<Rightarrow> unit res" where
  "authorize_mcp_access i s remote =
     (let policy = mcp_access_policy s in
      if policy = lit ''disabled'' then Inl (HttpError 403 (lit ''MCP access is disabled''))
      else if remote \<and> \<not> mcp_remote_enabled s
      then Inl (HttpError 403 (lit ''Remote MCP access is disabled''))
      else if policy = lit ''local-only''
      then (if remote then Inl (HttpError 403 (lit ''MCP access is local-only'')) else Inr ())
      else if policy = lit ''authenticated'' \<and> \<not> is_bound i
      then Inl (HttpError 401 (lit ''MCP identity is required''))
      else if policy = lit ''admin-only'' \<and> \<not> mi_is_admin i
      then Inl (HttpError 403 (lit ''MCP admin access is required''))
      else Inr ())"

section \<open>Permissions\<close>

definition normalize_mcp_permission :: "ustr option \<Rightarrow> ustr" where
  "normalize_mcp_permission permission =
     (case permission of
        None \<Rightarrow> lit ''read''
      | Some p \<Rightarrow>
          if p = [] then lit ''read''
          else (let normalized = lower (strip p) in
                if normalized = lit ''safe'' then lit ''read''
                else if normalized \<notin> set mcp_permissions then lit ''execute''
                else normalized))"

definition requires_mcp_confirmation :: "mcp_settings \<Rightarrow> ustr option \<Rightarrow> bool \<Rightarrow> bool" where
  "requires_mcp_confirmation s permission explicit =
     (let normalized = normalize_mcp_permission permission in
      if explicit then True
      else if normalized \<in> set risky_mcp_permissions then True
      else mcp_require_confirmation_by_default s \<and> normalized \<noteq> lit ''read'')"

definition enforce_mcp_tool_policy ::
  "mcp_settings \<Rightarrow> ustr option \<Rightarrow> bool \<Rightarrow> bool \<Rightarrow> mcp_identity \<Rightarrow> bool \<Rightarrow> unit res" where
  "enforce_mcp_tool_policy s permission requires_confirmation confirmed i remote =
     (case authorize_mcp_access i s remote of
        Inl e \<Rightarrow> Inl e
      | Inr _ \<Rightarrow>
          if requires_mcp_confirmation s permission requires_confirmation \<and> \<not> confirmed
          then Inl (HttpError 409 (lit ''MCP tool requires confirmation before execution''))
          else Inr ())"

section \<open>Fetch targets and workspace paths\<close>

text \<open>
  What \<open>urlparse\<close> and \<open>ip_address\<close> return: the scheme, the host name, and for a host that is an
  IP literal whether it is loopback, private, link-local, unspecified, multicast or reserved.
\<close>

record net_lib =
  url_scheme :: "ustr \<Rightarrow> ustr"
  url_hostname :: "ustr \<Rightarrow> ustr option"
  ip_blocked :: "ustr \<Rightarrow> bool option"

definition blocked_fetch_hosts :: "ustr list" where
  "blocked_fetch_hosts = [lit ''localhost'', lit ''metadata.google.internal'']"

definition validate_mcp_fetch_url :: "net_lib \<Rightarrow> ustr \<Rightarrow> unit res" where
  "validate_mcp_fetch_url net url =
     (if lower (url_scheme net url) \<notin> {lit ''http'', lit ''https''}
      then Inl (HttpError 422 (lit ''Fetch URL must use http or https''))
      else case url_hostname net url of
        None \<Rightarrow> Inl (HttpError 422 (lit ''Fetch URL must include a host''))
      | Some h \<Rightarrow>
          if h = [] then Inl (HttpError 422 (lit ''Fetch URL must include a host''))
          else (let hostname = lower (rstrip_by (\<lambda>c. c = 46) h) in
                if hostname \<in> set blocked_fetch_hosts \<or> suffix (lit ''.localhost'') hostname
                then Inl (HttpError 403 (lit ''Fetch URL targets a blocked local host''))
                else case ip_blocked net hostname of
                  None \<Rightarrow> Inr ()
                | Some b \<Rightarrow>
                    if b then Inl (HttpError 403 (lit ''Fetch URL targets a blocked local or private address''))
                    else Inr ()))"

text \<open>A resolved path is the list of its components; \<open>resolve\<close> stands for \<open>Path.resolve\<close>.\<close>

definition assert_workspace_relative_path ::
  "(ustr list \<Rightarrow> ustr \<Rightarrow> ustr list) \<Rightarrow> ustr \<Rightarrow> ustr list \<Rightarrow> ustr list res" where
  "assert_workspace_relative_path resolve path ws =
     (if 0 \<in> set path then Inl (HttpError 422 (lit ''Path contains invalid characters''))
      else (let resolved = resolve ws path in
            if \<not> prefix ws resolved
            then Inl (HttpError 403 (lit ''MCP path is outside the workspace''))
            else Inr resolved))"

section \<open>Secrets in configuration\<close>

definition secret_field_markers :: "ustr list" where
  "secret_field_markers = [lit ''key'', lit ''secret'', lit ''token'', lit ''password'',
     lit ''credential'', lit ''authorization'']"

definition looks_secret_key :: "ustr \<Rightarrow> bool" where
  "looks_secret_key k = any_in secret_field_markers (lower k)"

definition redacted :: ustr where
  "redacted = lit ''***REDACTED***''"

text \<open>
  The pattern \<open>(?:Bearer\s+)?\$\{[A-Za-z_][A-Za-z0-9_]*\}\<close>, case-insensitive: Python folds the
  dotted and dotless i, the long s and the Kelvin sign into the letter ranges.
\<close>

definition word_start :: "nat \<Rightarrow> bool" where
  "word_start c \<longleftrightarrow> (65 \<le> c \<and> c \<le> 90) \<or> (97 \<le> c \<and> c \<le> 122) \<or> c = 95
     \<or> c \<in> {304, 305, 383, 8490}"

definition word_char :: "nat \<Rightarrow> bool" where
  "word_char c \<longleftrightarrow> word_start c \<or> (48 \<le> c \<and> c \<le> 57)"

definition env_reference :: "ustr \<Rightarrow> bool" where
  "env_reference s = (case s of
     a # b # rest \<Rightarrow> a = 36 \<and> b = 123 \<and> rest \<noteq> [] \<and> last rest = 125 \<and> length rest \<ge> 2
        \<and> word_start (hd rest) \<and> list_all word_char (butlast (tl rest))
   | _ \<Rightarrow> False)"

definition reference_pattern :: "ustr \<Rightarrow> bool" where
  "reference_pattern s \<longleftrightarrow> env_reference s
     \<or> (lower (take 6 s) = lit ''bearer'' \<and> drop 6 s \<noteq> [] \<and> py_space (hd (drop 6 s))
        \<and> env_reference (lstrip_by py_space (drop 6 s)))"

definition is_safe_secret_reference :: "json \<Rightarrow> bool" where
  "is_safe_secret_reference v = (case v of
     JNull \<Rightarrow> True
   | JStr s \<Rightarrow> s = [] \<or> s = redacted \<or> reference_pattern (strip s)
   | _ \<Rightarrow> False)"

fun scrub_mcp_config :: "json \<Rightarrow> json"
  and scrub_items :: "dict \<Rightarrow> dict"
  and scrub_list :: "json list \<Rightarrow> json list"
where
  "scrub_mcp_config (JObj d) = JObj (scrub_items d)"
| "scrub_mcp_config (JList xs) = JList (scrub_list xs)"
| "scrub_mcp_config v = v"
| "scrub_items [] = []"
| "scrub_items ((k, v) # d) =
     (k, if looks_secret_key k then JStr redacted else scrub_mcp_config v) # scrub_items d"
| "scrub_list [] = []"
| "scrub_list (x # xs) = scrub_mcp_config x # scrub_list xs"

fun contains_plaintext_mcp_secret :: "json \<Rightarrow> bool"
  and items_contain_secret :: "dict \<Rightarrow> bool"
  and list_contains_secret :: "json list \<Rightarrow> bool"
where
  "contains_plaintext_mcp_secret (JObj d) = items_contain_secret d"
| "contains_plaintext_mcp_secret (JList xs) = list_contains_secret xs"
| "contains_plaintext_mcp_secret v = False"
| "items_contain_secret [] = False"
| "items_contain_secret ((k, v) # d) =
     ((looks_secret_key k \<and> \<not> is_safe_secret_reference v) \<or> contains_plaintext_mcp_secret v
      \<or> items_contain_secret d)"
| "list_contains_secret [] = False"
| "list_contains_secret (x # xs) = (contains_plaintext_mcp_secret x \<or> list_contains_secret xs)"

section \<open>Facts\<close>

lemma redacted_safe [simp]: "is_safe_secret_reference (JStr redacted)"
  by (simp add: is_safe_secret_reference_def)

lemma scrub_has_no_secret:
  "\<not> contains_plaintext_mcp_secret (scrub_mcp_config v)"
  "\<not> items_contain_secret (scrub_items d)"
  "\<not> list_contains_secret (scrub_list xs)"
  by (induction v and d and xs rule: scrub_mcp_config_scrub_items_scrub_list.induct) auto

lemma scrub_twice:
  "scrub_mcp_config (scrub_mcp_config v) = scrub_mcp_config v"
  "scrub_items (scrub_items d) = scrub_items d"
  "scrub_list (scrub_list xs) = scrub_list xs"
  by (induction v and d and xs rule: scrub_mcp_config_scrub_items_scrub_list.induct) auto

lemma normalized_permission_known: "normalize_mcp_permission p \<in> set mcp_permissions"
  by (auto simp: normalize_mcp_permission_def mcp_permissions_def Let_def split: option.split)

section \<open>Properties\<close>

text \<open>
  Every call that the MCP policy lets through was authorised by the access policy, and was
  confirmed unless its permission normalises to plain reading and nothing asked for a
  confirmation; a permission the code does not know counts as execution.
\<close>

theorem mcp_policy_needs_confirmation:
  "enforce_mcp_tool_policy s permission requires_confirmation confirmed i remote = Inr () \<longleftrightarrow>
     authorize_mcp_access i s remote = Inr ()
     \<and> (confirmed \<or> (\<not> requires_confirmation \<and> normalize_mcp_permission permission = lit ''read''))"
  using normalized_permission_known [of permission]
  by (auto simp: enforce_mcp_tool_policy_def requires_mcp_confirmation_def risky_mcp_permissions_def
      mcp_permissions_def Let_def split: sum.split)

text \<open>
  C37. Redaction is complete: a scrubbed configuration, however nested, passes the detector of
  plaintext secrets, and scrubbing it again changes nothing.
\<close>

theorem scrub_removes_every_secret:
  "\<not> contains_plaintext_mcp_secret (scrub_mcp_config v)
    \<and> scrub_mcp_config (scrub_mcp_config v) = scrub_mcp_config v"
  by (simp add: scrub_has_no_secret scrub_twice)

end
