(* ===== verification/Tool_Executor.thy ===== *)
theory Tool_Executor
  imports Tool_Output Mcp_Security Task_Invariant
begin

text \<open>
  One tool run (\<open>services/tool_executor.py\<close>): the checks before dispatch, the durable replay block
  written before any effect, the dispatch to a local handler or an MCP client, the bounding of the
  result, and the audit row with its task event. The outside world is an argument: what a handler
  or a client returns for its arguments, a timeout or a cancellation of the call included.
  \<open>duration_ms\<close> is not modelled; one clock reading serves a run.
\<close>

record tool_world =
  tw_handler :: "ustr \<Rightarrow> dict \<Rightarrow> json res"
  tw_client :: "ustr \<Rightarrow> ustr \<Rightarrow> dict \<Rightarrow> json res"

record tool_env =
  te_repr :: py_repr
  te_check :: schema_checker
  te_net :: net_lib
  te_tools :: tool_settings
  te_mcp :: mcp_settings

record tool_call =
  tq_confirmed :: bool
  tq_session :: bool
  tq_user_id :: "uuid option"
  tq_conversation_id :: "uuid option"
  tq_task_id :: "uuid option"
  tq_identity :: "mcp_identity option"

section \<open>Responses\<close>

definition make_response ::
  "tool_env \<Rightarrow> registered_tool \<Rightarrow> ustr \<Rightarrow> ustr \<Rightarrow> json \<Rightarrow> ustr option \<Rightarrow> tool_response" where
  "make_response env tool status trace_id out error = \<lparr>
     tr_tool_name = tool_name tool, tr_provider = rt_provider tool,
     tr_provider_tool_id = (case rt_provider_tool_id tool of
        Some i \<Rightarrow> if i = [] then Some (tool_name tool) else Some i | None \<Rightarrow> Some (tool_name tool)),
     tr_server_name = rt_server_name tool, tr_status = status, tr_output = out,
     tr_output_summary = summarize (te_repr env) (te_tools env) out, tr_error = error,
     tr_trace_id = trace_id\<rparr>"

section \<open>Task events of MCP tools\<close>

definition opt_json :: "ustr option \<Rightarrow> json" where
  "opt_json x = (case x of None \<Rightarrow> JNull | Some s \<Rightarrow> JStr s)"

text \<open>An agent task takes the event only from the worker that holds its live lease.\<close>

definition event_allowed :: "lease option \<Rightarrow> time \<Rightarrow> task \<Rightarrow> bool" where
  "event_allowed current now t \<longleftrightarrow>
     t_kind t \<noteq> Agent
     \<or> (case current of None \<Rightarrow> False
        | Some l \<Rightarrow> l_task_id l = t_id t \<and> Some (l_token l) = t_run_token t \<and> t_status t = Running
            \<and> (case t_lease_expires_at t of None \<Rightarrow> False | Some e \<Rightarrow> now < e))"

definition push_mcp_event :: "json \<Rightarrow> json \<Rightarrow> json res" where
  "push_mcp_event metadata event =
     (case list_or_empty (jget metadata (lit ''events'')) of
        Inl e \<Rightarrow> Inl e
      | Inr events \<Rightarrow> Inr (JObj (dset (lit ''events'') (JList (last_n 100 (events @ [event])))
                                 (obj_items metadata))))"

definition record_mcp_task_event ::
  "lease option \<Rightarrow> time \<Rightarrow> bool \<Rightarrow> uuid option \<Rightarrow> ustr \<Rightarrow> registered_tool \<Rightarrow> dict \<Rightarrow> int option
   \<Rightarrow> db \<Rightarrow> db \<times> unit res" where
  "record_mcp_task_event current now session task_id event_type tool payload progress d =
     (if \<not> session \<or> task_id = None \<or> rt_provider tool \<noteq> mcp_server then (d, Inr ())
      else case get_task (the task_id) d of
        None \<Rightarrow> (d, Inr ())
      | Some t \<Rightarrow>
          if \<not> event_allowed current now t then (d, Inr ())
          else
            (let event = JObj (dupdate [(lit ''type'', JStr event_type),
                     (lit ''tool_name'', JStr (tool_name tool)), (lit ''provider'', JStr (rt_provider tool)),
                     (lit ''server_name'', opt_json (rt_server_name tool)),
                     (lit ''provider_tool_id'', opt_json (rt_provider_tool_id tool))] payload) in
             case push_mcp_event (t_metadata t) event of
               Inl e \<Rightarrow> (d, Inl e)
             | Inr m \<Rightarrow> (put_task (t\<lparr>t_metadata := m,
                  t_progress := (case progress of None \<Rightarrow> t_progress t
                    | Some p \<Rightarrow> max (t_progress t) (if t_kind t = Agent then min p 95 else p))\<rparr>) d, Inr ())))"

section \<open>Audit\<close>

definition audit_row ::
  "tool_env \<Rightarrow> uuid \<Rightarrow> tool_call \<Rightarrow> registered_tool \<Rightarrow> dict \<Rightarrow> tool_response \<Rightarrow> tool_call_row" where
  "audit_row env new_id q tool arguments r = \<lparr>
     tl_id = new_id, tl_user_id = tq_user_id q, tl_conversation_id = tq_conversation_id q,
     tl_task_id = tq_task_id q, tl_tool_name = tool_name tool, tl_provider = rt_provider tool,
     tl_status = tr_status r, tl_input = arguments,
     tl_input_summary = summarize (te_repr env) (te_tools env) (JObj arguments),
     tl_output_summary = tr_output_summary r, tl_error = tr_error r, tl_trace_id = tr_trace_id r\<rparr>"

text \<open>The row and the event are one transaction; an exception before the commit loses both.\<close>

definition record_audit ::
  "tool_env \<Rightarrow> lease option \<Rightarrow> time \<Rightarrow> uuid \<Rightarrow> tool_call \<Rightarrow> registered_tool \<Rightarrow> dict \<Rightarrow> tool_response
   \<Rightarrow> db \<Rightarrow> db \<times> unit res" where
  "record_audit env current now new_id q tool arguments r d =
     (if \<not> tq_session q then (d, Inr ())
      else
        (let ok = (tr_status r = lit ''success'');
             d1 = d\<lparr>db_tool_calls := db_tool_calls d @ [audit_row env new_id q tool arguments r]\<rparr> in
         case record_mcp_task_event current now True (tq_task_id q)
                (if ok then lit ''mcp_tool_call_finished'' else lit ''mcp_tool_call_failed'') tool
                [(lit ''trace_id'', JStr (tr_trace_id r)), (lit ''status'', JStr (tr_status r)),
                 (lit ''error'', opt_json (tr_error r))]
                (if ok then Some 100 else None) d1 of
           (d2, Inr _) \<Rightarrow> (d2, Inr ())
         | (_, Inl e) \<Rightarrow> (d, Inl e)))"

section \<open>Before dispatch\<close>

text \<open>
  Inside the \<open>try\<close>: argument validation, then the fence. Under a lease the row is marked
  replay-blocked and committed before the tool starts; without one an agent task is refused.
\<close>

definition replay_reason :: "registered_tool \<Rightarrow> ustr" where
  "replay_reason tool = take 200 (lit ''Tool dispatched: '' @ tool_name tool)"

definition prepare_dispatch ::
  "tool_env \<Rightarrow> lease option \<Rightarrow> time \<Rightarrow> tool_call \<Rightarrow> registered_tool \<Rightarrow> json \<Rightarrow> db \<Rightarrow> db \<times> unit res" where
  "prepare_dispatch env current now q tool args d =
     (case validate_arguments (te_repr env) (te_check env) tool args of
        Inl e \<Rightarrow> (d, Inl e)
      | Inr _ \<Rightarrow>
          (case tq_task_id q of
             None \<Rightarrow> (d, Inr ())
           | Some i \<Rightarrow>
               if \<not> tq_session q then (d, Inr ())
               else case lock_task_lease current True now d of
                 Inl e \<Rightarrow> (d, Inl e)
               | Inr (Some t) \<Rightarrow>
                   if t_id t \<noteq> i then (d, Inl TaskLeaseLost)
                   else (put_task (block_replay now (replay_reason tool) t) d, Inr ())
               | Inr None \<Rightarrow>
                   (case get_task i d of
                      Some t \<Rightarrow> if t_kind t = Agent then (d, Inl TaskLeaseLost) else (d, Inr ())
                    | None \<Rightarrow> (d, Inr ()))))"

definition dispatch_tool ::
  "tool_world \<Rightarrow> tool_env \<Rightarrow> tool_call \<Rightarrow> registered_tool \<Rightarrow> dict \<Rightarrow> json res" where
  "dispatch_tool w env q tool arguments =
     (if rt_provider tool = mcp_server
      then (case (rt_server_name tool, rt_provider_tool_id tool) of
        (Some server, Some tool_id) \<Rightarrow>
          if \<not> rt_has_client tool then Inl (RuntimeError (lit ''MCP tool is missing client metadata''))
          else (case (if server = lit ''fetch'' \<and> tool_id = lit ''fetch''
                      then validate_mcp_fetch_url (te_net env)
                             (str_or (te_repr env) (dget arguments (lit ''url'')) [])
                      else Inr ()) of
            Inl e \<Rightarrow> Inl e
          | Inr _ \<Rightarrow>
              (case enforce_mcp_tool_policy (te_mcp env) (Some (pm_permission (rt_manifest tool)))
                      (pm_requires_confirmation (rt_manifest tool)) (tq_confirmed q)
                      (case tq_identity q of None \<Rightarrow> anonymous_identity | Some i \<Rightarrow> i) False of
                 Inl e \<Rightarrow> Inl e
               | Inr _ \<Rightarrow>
                   (case tw_client w server tool_id arguments of
                      Inl e \<Rightarrow> Inl e
                    | Inr result \<Rightarrow>
                        (case (case pm_output_schema (rt_manifest tool) of
                                 None \<Rightarrow> Inr ()
                               | Some schema \<Rightarrow>
                                   if is_mcp_error_output result then Inr ()
                                   else validate_tool_schema (te_check env) schema
                                          (jget result (lit ''structuredContent''))
                                          (lit ''MCP structured output'')) of
                           Inl e \<Rightarrow> Inl e
                         | Inr _ \<Rightarrow> Inr (normalize_mcp_tool_result (te_repr env) result)))))
      | _ \<Rightarrow> Inl (RuntimeError (lit ''MCP tool is missing client metadata'')))
      else if \<not> rt_has_handler tool then Inl (RuntimeError (lit ''Local tool is missing a handler''))
      else tw_handler w (tool_name tool) arguments)"

section \<open>The run\<close>

definition confirmation_error :: ustr where
  "confirmation_error = lit ''Tool requires confirmation before execution''"

definition interrupted_outcome :: ustr where
  "interrupted_outcome = lit ''Tool execution interrupted; outcome may be unknown''"

text \<open>The response for an output or for the exception that \<open>run\<close> turns into one.\<close>

definition output_response :: "tool_env \<Rightarrow> registered_tool \<Rightarrow> ustr \<Rightarrow> json \<Rightarrow> tool_response" where
  "output_response env tool trace_id out =
     (let limited = limit_output (te_repr env) (te_tools env) tool out in
      if is_mcp_error_output out
      then make_response env tool (lit ''failed'') trace_id limited (Some (mcp_error_text (te_repr env) limited))
      else make_response env tool (lit ''success'') trace_id limited None)"

definition error_response :: "tool_env \<Rightarrow> registered_tool \<Rightarrow> ustr \<Rightarrow> exn \<Rightarrow> tool_response" where
  "error_response env tool trace_id e = (case e of
     TimeoutError _ \<Rightarrow> make_response env tool (lit ''timeout'') trace_id JNull (Some (lit ''Tool execution timed out''))
   | HttpError _ detail \<Rightarrow> make_response env tool (lit ''failed'') trace_id JNull (Some detail)
   | _ \<Rightarrow> make_response env tool (lit ''failed'') trace_id JNull (Some (exn_str e)))"

definition audited ::
  "tool_env \<Rightarrow> lease option \<Rightarrow> time \<Rightarrow> uuid \<Rightarrow> tool_call \<Rightarrow> registered_tool \<Rightarrow> dict \<Rightarrow> tool_response
   \<Rightarrow> db \<Rightarrow> db \<times> tool_response res" where
  "audited env current now new_id q tool arguments r d =
     (case record_audit env current now new_id q tool arguments r d of
        (d', Inl e) \<Rightarrow> (d', Inl e) | (d', Inr _) \<Rightarrow> (d', Inr r))"

text \<open>The first transaction of an enabled and confirmed run: an MCP call is announced to its task.\<close>

definition announce ::
  "lease option \<Rightarrow> time \<Rightarrow> tool_call \<Rightarrow> registered_tool \<Rightarrow> ustr \<Rightarrow> db \<Rightarrow> db \<times> unit res" where
  "announce current now q tool trace_id d =
     (if rt_provider tool = mcp_server
      then record_mcp_task_event current now (tq_session q) (tq_task_id q)
             (lit ''mcp_tool_call_started'') tool [(lit ''trace_id'', JStr trace_id)] (Some 25) d
      else (d, Inr ()))"

text \<open>
  A cancellation (a lost lease is one) is audited as interrupted and raised again; a failure of
  that audit is only logged.
\<close>

definition run_tool ::
  "tool_world \<Rightarrow> tool_env \<Rightarrow> lease option \<Rightarrow> time \<Rightarrow> uuid \<Rightarrow> ustr \<Rightarrow> tool_call \<Rightarrow> registered_tool \<Rightarrow> dict
   \<Rightarrow> db \<Rightarrow> db \<times> tool_response res" where
  "run_tool w env current now audit_id trace_id q tool arguments d =
     (let audit = audited env current now audit_id q tool arguments in
      if \<not> pm_enabled (rt_manifest tool)
      then audit (make_response env tool (lit ''failed'') trace_id JNull (Some (lit ''Tool is disabled''))) d
      else if pm_requires_confirmation (rt_manifest tool) \<and> \<not> tq_confirmed q
      then audit (make_response env tool (lit ''failed'') trace_id JNull (Some confirmation_error)) d
      else
        (case announce current now q tool trace_id d of
           (d1, Inl e) \<Rightarrow> (d1, Inl e)
         | (d1, Inr _) \<Rightarrow>
             (case prepare_dispatch env current now q tool (JObj arguments) d1 of
                (d2, prep) \<Rightarrow>
                  (case (case prep of Inl e \<Rightarrow> Inl e | Inr _ \<Rightarrow> dispatch_tool w env q tool arguments) of
                     Inr out \<Rightarrow> audit (output_response env tool trace_id out) d2
                   | Inl e \<Rightarrow>
                       if is_exception e then audit (error_response env tool trace_id e) d2
                       else (fst (audit (make_response env tool (lit ''interrupted'') trace_id JNull
                                            (Some interrupted_outcome)) d2), Inl e)))))"

section \<open>Facts\<close>

definition may_dispatch ::
  "tool_env \<Rightarrow> lease option \<Rightarrow> time \<Rightarrow> tool_call \<Rightarrow> registered_tool \<Rightarrow> ustr \<Rightarrow> dict \<Rightarrow> db \<Rightarrow> bool" where
  "may_dispatch env current now q tool trace_id arguments d \<longleftrightarrow>
     pm_enabled (rt_manifest tool) \<and> (pm_requires_confirmation (rt_manifest tool) \<longrightarrow> tq_confirmed q)
     \<and> (case announce current now q tool trace_id d of
          (_, Inl _) \<Rightarrow> False
        | (d1, Inr _) \<Rightarrow> snd (prepare_dispatch env current now q tool (JObj arguments) d1) = Inr ())"

lemma run_tool_blocked:
  assumes "\<not> may_dispatch env current now q tool trace_id arguments d"
  shows "run_tool w env current now audit_id trace_id q tool arguments d =
    run_tool w' env current now audit_id trace_id q tool arguments d"
proof -
  obtain d1 a where a: "announce current now q tool trace_id d = (d1, a)" by fastforce
  obtain d2 p where p: "prepare_dispatch env current now q tool (JObj arguments) d1 = (d2, p)" by fastforce
  show ?thesis
  proof (cases p)
    case (Inl e)
    with a p show ?thesis by (simp add: run_tool_def Let_def split: sum.split)
  next
    case (Inr u)
    with assms a p show ?thesis
      by (cases a) (auto simp: run_tool_def may_dispatch_def Let_def)
  qed
qed

lemma prepare_dispatch_blocks:
  assumes "prepare_dispatch env (Some l) now q tool args d = (d', Inr ())"
    and "tq_session q" and "tq_task_id q = Some i"
  shows "\<exists>t t'. get_task i d = Some t \<and> lock_task_lease (Some l) True now d = Inr (Some t)
    \<and> l_task_id l = i \<and> d' = put_task t' d \<and> get_task i d' = Some t' \<and> t' = block_replay now (replay_reason tool) t
    \<and> t_replay_blocked_at t' \<noteq> None"
proof (cases "lock_task_lease (Some l) True now d")
  case (Inl e)
  with assms show ?thesis by (auto simp: prepare_dispatch_def split: sum.splits)
next
  case (Inr o')
  then obtain t where t: "lock_task_lease (Some l) True now d = Inr (Some t)"
    by (cases o') (auto simp: lock_never_anonymous)
  with assms have i: "t_id t = i" and d': "d' = put_task (block_replay now (replay_reason tool) t) d"
    by (auto simp: prepare_dispatch_def split: sum.splits if_splits)
  from t have g: "get_task (l_task_id l) d = Some t" by (simp add: guard_simps)
  with i have l: "l_task_id l = i" by (auto dest: get_task_id)
  have "t_replay_blocked_at (block_replay now (replay_reason tool) t) \<noteq> None"
    by (simp add: block_replay_def split: option.split)
  moreover have "get_task i d' = Some (block_replay now (replay_reason tool) t)"
    using g l i by (simp add: d' get_put_task block_replay_def)
  ultimately show ?thesis using t g l d' by auto
qed

lemma event_keeps_tool_calls:
  "record_mcp_task_event current now s i ty tool p pr d = (d', r) \<Longrightarrow> db_tool_calls d' = db_tool_calls d"
  by (auto simp: record_mcp_task_event_def put_task_def Let_def split: option.splits sum.splits if_splits)

lemma prepare_keeps_tool_calls:
  "db_tool_calls (fst (prepare_dispatch env current now q tool args d)) = db_tool_calls d"
  by (auto simp: prepare_dispatch_def put_task_def split: option.split sum.split)

lemma audited_rows:
  assumes "audited env current now i q tool arguments r d = (d', res)" and "tq_session q"
  shows "(res = Inr r \<and> db_tool_calls d' = db_tool_calls d @ [audit_row env i q tool arguments r])
    \<or> (\<exists>e. res = Inl e \<and> d' = d)"
  using assms
  by (auto simp: audited_def record_audit_def Let_def dest!: event_keeps_tool_calls
      split: prod.splits sum.splits if_splits)

lemma announce_keeps_tool_calls:
  "announce current now q tool trace_id d = (d', r) \<Longrightarrow> db_tool_calls d' = db_tool_calls d"
  by (auto simp: announce_def dest: event_keeps_tool_calls split: if_splits)

text \<open>A run is one audited response over a database with the same audit table, or it never got there.\<close>

lemma run_tool_cases:
  assumes "run_tool w env current now audit_id trace_id q tool arguments d = (d', r)"
  obtains (early) e where "r = Inl e" "db_tool_calls d' = db_tool_calls d"
  | (answered) x d0 where "db_tool_calls d0 = db_tool_calls d"
      "audited env current now audit_id q tool arguments x d0 = (d', r)"
  | (interrupted) e d0 r0 where "r = Inl e" "\<not> is_exception e" "db_tool_calls d0 = db_tool_calls d"
      "audited env current now audit_id q tool arguments
         (make_response env tool (lit ''interrupted'') trace_id JNull (Some interrupted_outcome)) d0 = (d', r0)"
proof (cases "\<not> pm_enabled (rt_manifest tool) \<or> (pm_requires_confirmation (rt_manifest tool) \<and> \<not> tq_confirmed q)")
  case True
  with assms answered show ?thesis by (auto simp: run_tool_def Let_def split: if_splits)
next
  case False
  obtain d1 a where a: "announce current now q tool trace_id d = (d1, a)" by fastforce
  note k1 = announce_keeps_tool_calls [OF a]
  show ?thesis
  proof (cases a)
    case (Inl e)
    with assms False a k1 early show ?thesis by (auto simp: run_tool_def Let_def split: if_splits)
  next
    case (Inr u)
    obtain d2 p where p: "prepare_dispatch env current now q tool (JObj arguments) d1 = (d2, p)" by fastforce
    then have k2: "db_tool_calls d2 = db_tool_calls d"
      using k1 prepare_keeps_tool_calls by (metis fst_conv)
    let ?out = "case p of Inl e \<Rightarrow> Inl e | Inr _ \<Rightarrow> dispatch_tool w env q tool arguments"
    have run: "(d', r) = (case ?out of
        Inr out \<Rightarrow> audited env current now audit_id q tool arguments (output_response env tool trace_id out) d2
      | Inl e \<Rightarrow> if is_exception e then audited env current now audit_id q tool arguments (error_response env tool trace_id e) d2
          else (fst (audited env current now audit_id q tool arguments
            (make_response env tool (lit ''interrupted'') trace_id JNull (Some interrupted_outcome)) d2), Inl e))"
      using assms False a Inr p by (auto simp: run_tool_def Let_def split: if_splits)
    show ?thesis
    proof (cases ?out)
      case (Inr out)
      with run answered [OF k2] show ?thesis by simp
    next
      case (Inl e)
      show ?thesis
      proof (cases "is_exception e")
        case True
        with Inl run answered [OF k2] show ?thesis by simp
      next
        case False
        obtain d3 r0 where "audited env current now audit_id q tool arguments
            (make_response env tool (lit ''interrupted'') trace_id JNull (Some interrupted_outcome)) d2 = (d3, r0)"
          by fastforce
        with Inl False run interrupted [of e d2 r0] k2 show ?thesis by simp
      qed
    qed
  qed
qed

section \<open>Properties\<close>

text \<open>
  C12. Nothing runs unchecked: if the outcome of a run depends at all on what the tool does, then
  the tool is enabled, confirmed where it needs a confirmation, and its arguments passed
  validation; and a background worker had, before the tool started, committed the replay block of
  its own task under its live lease.
\<close>

theorem tool_runs_only_when_allowed:
  assumes "run_tool w env current now audit_id trace_id q tool arguments d \<noteq>
    run_tool w' env current now audit_id trace_id q tool arguments d"
  shows "pm_enabled (rt_manifest tool) \<and> (pm_requires_confirmation (rt_manifest tool) \<longrightarrow> tq_confirmed q)
    \<and> validate_arguments (te_repr env) (te_check env) tool (JObj arguments) = Inr ()
    \<and> (\<forall>l i. current = Some l \<longrightarrow> tq_session q \<longrightarrow> tq_task_id q = Some i \<longrightarrow>
         (let d2 = fst (prepare_dispatch env current now q tool (JObj arguments)
                          (fst (announce current now q tool trace_id d))) in
          l_task_id l = i \<and> owns l d2 \<and>
          (\<exists>t. get_task i d2 = Some t \<and> t_replay_blocked_at t \<noteq> None)))"
proof -
  from assms run_tool_blocked have may: "may_dispatch env current now q tool trace_id arguments d" by blast
  obtain d1 a where a: "announce current now q tool trace_id d = (d1, a)" by fastforce
  obtain d2 p where p: "prepare_dispatch env current now q tool (JObj arguments) d1 = (d2, p)" by fastforce
  from may a p have ok: "p = Inr ()" by (auto simp: may_dispatch_def split: sum.splits)
  have block: "l_task_id l = i \<and> owns l d2 \<and> (\<exists>t. get_task i d2 = Some t \<and> t_replay_blocked_at t \<noteq> None)"
    if c: "current = Some l" "tq_session q" "tq_task_id q = Some i" for l i
  proof -
    from prepare_dispatch_blocks [OF p [unfolded ok c(1)] c(2,3)] obtain t t' where
      t: "lock_task_lease (Some l) True now d1 = Inr (Some t)" "l_task_id l = i"
      "get_task i d2 = Some t'" "t' = block_replay now (replay_reason tool) t" "t_replay_blocked_at t' \<noteq> None"
      by blast
    then have "owns l d2" by (auto simp: guard_simps owns_def lease_lost_def block_replay_def)
    with t show ?thesis by blast
  qed
  have "validate_arguments (te_repr env) (te_check env) tool (JObj arguments) = Inr ()"
    using p ok by (auto simp: prepare_dispatch_def split: sum.splits)
  moreover have "pm_enabled (rt_manifest tool) \<and> (pm_requires_confirmation (rt_manifest tool) \<longrightarrow> tq_confirmed q)"
    using may by (simp add: may_dispatch_def)
  moreover have d2: "fst (prepare_dispatch env current now q tool (JObj arguments)
      (fst (announce current now q tool trace_id d))) = d2"
    by (simp add: a p)
  ultimately show ?thesis using block unfolding Let_def d2 by blast
qed

definition demo_env :: tool_env where
  "demo_env = \<lparr>te_repr = (\<lambda>_. []), te_check = (\<lambda>_ _. SchemaOk),
     te_net = \<lparr>url_scheme = (\<lambda>_. []), url_hostname = (\<lambda>_. None), ip_blocked = (\<lambda>_. None)\<rparr>,
     te_tools = default_tool_settings, te_mcp = default_mcp_settings\<rparr>"

definition demo_call :: tool_call where
  "demo_call = \<lparr>tq_confirmed = True, tq_session = True, tq_user_id = None, tq_conversation_id = None,
     tq_task_id = None, tq_identity = None\<rparr>"

definition demo_world :: "json \<Rightarrow> tool_world" where
  "demo_world out = \<lparr>tw_handler = (\<lambda>_ _. Inr out), tw_client = (\<lambda>_ _ _. Inr out)\<rparr>"

lemma demo_run:
  "snd (run_tool (demo_world (JStr s)) demo_env None 0 (UUID 60) [] demo_call demo_tool
      [(lit ''path'', JStr (lit ''a.txt''))] empty_db) =
    Inr (make_response demo_env demo_tool (lit ''success'') [] (JStr (take 8000 s)) None)"
  using demo_args_valid
  by (simp add: run_tool_def announce_def prepare_dispatch_def demo_call_def demo_tool_def local_plugin_def
      mcp_server_def demo_args_def dispatch_tool_def demo_world_def output_response_def limit_output_def
      is_mcp_error_output_def audited_def record_audit_def record_mcp_task_event_def make_response_def
      py_take_def output_limit_def dget_def demo_env_def default_tool_settings_def Let_def)

theorem tool_runs_only_when_allowed_witness:
  "pm_enabled (rt_manifest demo_tool) \<and> tq_confirmed demo_call
   \<and> run_tool (demo_world (JStr [65])) demo_env None 0 (UUID 60) [] demo_call demo_tool
      [(lit ''path'', JStr (lit ''a.txt''))] empty_db \<noteq>
     run_tool (demo_world (JStr [66])) demo_env None 0 (UUID 60) [] demo_call demo_tool
      [(lit ''path'', JStr (lit ''a.txt''))] empty_db"
proof -
  let ?run = "\<lambda>s. run_tool (demo_world (JStr s)) demo_env None 0 (UUID 60) [] demo_call demo_tool
      [(lit ''path'', JStr (lit ''a.txt''))] empty_db"
  have "snd (?run [65]) \<noteq> snd (?run [66])" unfolding demo_run by (simp add: make_response_def)
  then have ne: "?run [65] \<noteq> ?run [66]" by metis
  from tool_runs_only_when_allowed [OF ne] ne show ?thesis by (simp add: demo_tool_def)
qed



end
