(* ===== verification/Task_System.thy ===== *)
theory Task_System
  imports Task_Routes Tool_Executor
begin

text \<open>
  Background execution as one transition system: any number of workers, the maintenance loop and
  the HTTP API act on one database in any interleaving, each step being one transaction of the
  component theories. The state also records the run tokens drawn so far, because \<open>uuid4()\<close> never
  repeats one. What one transaction may do to one task row is a relation of its own
  (\<open>row_evolves\<close>); every step satisfies it, and the properties of whole executions follow from it
  through the \<open>step_system\<close> interface.
\<close>

record sys =
  s_db :: db
  s_tokens :: "uuid list"

section \<open>The steps\<close>

text \<open>
  A write under a lease, with the row change of the code that makes it; \<open>ON DELETE SET NULL\<close> when
  a conversation is deleted; and the commits of the components that do not own tasks.
\<close>

definition mark_replay_blocked :: "lease \<Rightarrow> bool \<Rightarrow> time \<Rightarrow> ustr \<Rightarrow> db \<Rightarrow> db \<times> unit res" where
  "mark_replay_blocked l live now reason d =
     with_task_lease l live now (\<lambda>t. Inr (block_replay now reason t)) d"

definition unlink_conversation :: "uuid \<Rightarrow> db \<Rightarrow> db" where
  "unlink_conversation c d = d\<lparr>
     db_tasks := update_where (\<lambda>t. t_conversation_id t = Some c)
        (\<lambda>t. t\<lparr>t_conversation_id := None\<rparr>) (db_tasks d),
     db_schedules := update_where (\<lambda>s. sc_conversation_id s = Some c)
        (\<lambda>s. s\<lparr>sc_conversation_id := None\<rparr>) (db_schedules d)\<rparr>"

inductive task_step :: "sys \<Rightarrow> sys \<Rightarrow> bool" where
  claim: "task_step s (s\<lparr>s_db := fst (claim cfg locked now token nc i (s_db s)), s_tokens := token # s_tokens s\<rparr>)"
    if "token \<notin> set (s_tokens s)"
| record_event: "task_step s (s\<lparr>s_db := fst (record_event fr l now ty data (s_db s))\<rparr>)"
| heartbeat: "task_step s (s\<lparr>s_db := fst (heartbeat cfg l now (s_db s))\<rparr>)"
| complete: "task_step s (s\<lparr>s_db := fst (complete_task fr l now parts conv payload (s_db s))\<rparr>)"
| finish: "task_step s (s\<lparr>s_db := fst (finish_or_retry l error retryable now jitter (s_db s))\<rparr>)"
| block: "task_step s (s\<lparr>s_db := fst (mark_replay_blocked l live now reason (s_db s))\<rparr>)"
| prepare: "task_step s (s\<lparr>s_db := fst (prepare_dispatch env cur now q tool args (s_db s))\<rparr>)"
| tool_event: "task_step s (s\<lparr>s_db := fst (record_mcp_task_event cur now session ti ty tool payload pr (s_db s))\<rparr>)"
| recover: "task_step s (s\<lparr>s_db := fst (recover_stale_running_tasks locked now (s_db s))\<rparr>)"
| dispatch: "task_step s (s\<lparr>s_db := fst (dispatch_due_schedules zones locked now fresh (s_db s))\<rparr>)"
| create_manual: "task_step s (s\<lparr>s_db := fst (create_task usr mp new_id now (s_db s))\<rparr>)"
| create_agent: "task_step s (s\<lparr>s_db := d'\<rparr>)"
    if "validate_agent_task_create raw = Inr p" "1 \<le> agent_task_default_max_attempts acfg"
      "insert_task (build_agent_task digest acfg usr p new_id now) (s_db s) = Inr d'"
| update: "task_step s (s\<lparr>s_db := fst (update_task usr i u now (s_db s))\<rparr>)"
| cancel: "task_step s (s\<lparr>s_db := fst (cancel_task usr i now (s_db s) so)\<rparr>)"
| run_now: "task_step s (s\<lparr>s_db := fst (run_task_schedule_now usr i new_id nonce now (s_db s) so)\<rparr>)"
| create_schedule: "task_step s (s\<lparr>s_db := fst (create_task_schedule zones acfg usr sp new_id now (s_db s))\<rparr>)"
    if "validate_schedule_create sraw = Inr sp" "1 \<le> agent_task_default_max_attempts acfg"
| update_schedule: "task_step s (s\<lparr>s_db := fst (update_task_schedule zones usr i enabled now (s_db s))\<rparr>)"
| unlink: "task_step s (s\<lparr>s_db := unlink_conversation c (s_db s)\<rparr>)"
| other: "task_step s (s\<lparr>s_db := d'\<rparr>)"
    if "db_tasks d' = db_tasks (s_db s)" "db_schedules d' = db_schedules (s_db s)"

inductive_cases task_stepE [consumes 1, case_names claim record_event heartbeat complete finish block
    prepare tool_event recover dispatch create_manual create_agent update cancel run_now create_schedule update_schedule
    unlink other]: "task_step s t"

text \<open>A new deployment: no task, no schedule.\<close>

definition sys_initial :: "sys \<Rightarrow> bool" where
  "sys_initial s \<longleftrightarrow> db_tasks (s_db s) = [] \<and> db_schedules (s_db s) = []"

section \<open>What one step may do to a row\<close>

text \<open>
  The phases of a background task: a claim starts an attempt from the queue, a live lease is never
  exchanged, a task goes back to the queue only unblocked, and blocks are set on running tasks.
\<close>

definition agent_moves :: "task \<Rightarrow> task \<Rightarrow> bool" where
  "agent_moves t t' \<longleftrightarrow>
     (t_status t = Running \<and> t_status t' = Running \<longrightarrow> t_run_token t' = t_run_token t)
     \<and> (t_status t = Queued \<and> t_status t' = Running \<longrightarrow> t_attempt_count t' = t_attempt_count t + 1)
     \<and> (t_attempt_count t' \<noteq> t_attempt_count t \<longrightarrow> t_status t' = Running)
     \<and> (t_status t = Running \<and> t_status t' = Queued \<longrightarrow> t_replay_blocked_at t = None)
     \<and> (t_replay_blocked_at t' \<noteq> t_replay_blocked_at t \<longrightarrow> t_status t = Running \<and> t_status t' = Running)
     \<and> (t_status t = Queued \<longrightarrow> t_status t' \<notin> {Succeeded, Stale})"

definition row_evolves :: "uuid list \<Rightarrow> task \<Rightarrow> task \<Rightarrow> bool" where
  "row_evolves used t t' \<longleftrightarrow>
     t_id t' = t_id t \<and> t_kind t' = t_kind t \<and> t_schedule_id t' = t_schedule_id t
     \<and> (is_terminal (t_status t) \<longrightarrow> t_status t' = t_status t)
     \<and> (t_replay_blocked_at t \<noteq> None \<longrightarrow> t_replay_blocked_at t' = t_replay_blocked_at t)
     \<and> (t_run_token t' = t_run_token t \<or> t_run_token t' = None
        \<or> (\<exists>k. t_run_token t' = Some k \<and> k \<notin> set used))
     \<and> (t_attempt_count t' = t_attempt_count t
        \<or> (t_attempt_count t' = t_attempt_count t + 1 \<and> t_status t = Queued))
     \<and> (t_kind t = Agent \<longrightarrow> agent_moves t t')"

definition db_evolves :: "uuid list \<Rightarrow> db \<Rightarrow> db \<Rightarrow> bool" where
  "db_evolves used d d' \<longleftrightarrow>
     (\<forall>i t. get_task i d = Some t \<longrightarrow> (\<exists>t'. get_task i d' = Some t' \<and> row_evolves used t t'))"

lemma row_evolves_refl [simp]: "row_evolves used t t"
  by (auto simp: row_evolves_def agent_moves_def)

lemma db_evolves_refl [simp]: "db_evolves used d d"
  by (simp add: db_evolves_def)

lemma db_evolves_frame: "db_tasks d' = db_tasks d \<Longrightarrow> db_evolves used d d'"
  by (simp add: db_evolves_def get_task_def)

lemma db_evolves_put:
  assumes g: "get_task i d = Some t" and r: "row_evolves used t t'"
  shows "db_evolves used d (put_task t' d)"
proof -
  have id: "t_id t' = i" using get_task_id [OF g] r by (simp add: row_evolves_def agent_moves_def)
  have "\<exists>x'. get_task j (put_task t' d) = Some x' \<and> row_evolves used x x'" if "get_task j d = Some x" for j x
    using that g r by (cases "j = i") (simp_all add: get_put_task id)
  then show ?thesis by (simp add: db_evolves_def)
qed

lemma insert_task_get:
  assumes "insert_task t d = Inr d'" and "get_task i d = Some x"
  shows "get_task i d' = Some x"
  using assms(2) insert_task_Inr [OF assms(1)] by (simp add: get_task_def find_row_append)

lemma db_evolves_insert: "insert_task t d = Inr d' \<Longrightarrow> db_evolves used d d'"
  by (auto simp: db_evolves_def dest: insert_task_get intro: row_evolves_refl)

lemma db_evolves_put_schedule [simp]: "db_evolves used d (put_schedule s d') = db_evolves used d d'"
  by (simp add: db_evolves_def)

lemma db_evolves_with_lease:
  assumes w: "with_task_lease l live now f d = (d', r)"
    and f: "\<And>t t'. \<not> lease_lost l live now t \<Longrightarrow> f t = Inr t' \<Longrightarrow> row_evolves used t t'"
  shows "db_evolves used d d'"
  using w by (cases rule: with_task_lease_cases) (auto intro: db_evolves_put f)

text \<open>Growing past a used-token list keeps the relation, so runs of row writes compose.\<close>

lemma row_evolves_start:
  "t_status t = Queued \<Longrightarrow> token \<notin> set used \<Longrightarrow>
   row_evolves used t (start_attempt cfg now token (t\<lparr>t_conversation_id := c\<rparr>))"
  by (auto simp: row_evolves_def agent_moves_def start_attempt_def Let_def)

lemma claim_evolves:
  assumes "token \<notin> set used"
  shows "db_evolves used d (fst (claim cfg locked now token nc i d))"
proof (cases "if i \<in> set locked then None else get_task i d")
  case None
  then show ?thesis by (simp add: claim_def)
next
  case (Some t)
  then have t: "get_task i d = Some t" by (simp split: if_splits)
  have start: "db_evolves used d (fst (start_task cfg now token nc t d))" if "t_status t = Queued"
  proof -
    have "db_evolves used d (put_task (start_attempt cfg now token
        (t\<lparr>t_conversation_id := Some (fst (ensure_task_conversation now nc t d))\<rparr>)) d)"
      using t by (rule db_evolves_put) (rule row_evolves_start [OF that assms])
    moreover note start_task_tasks [of cfg now token nc t d]
    ultimately show ?thesis by (simp add: db_evolves_def get_task_def)
  qed
  have "row_evolves used t (finish_failed e now t)" if "t_status t = Queued" for e
    using that by (auto simp: row_evolves_def agent_moves_def finish_failed_def)
  with t Some start show ?thesis
    by (auto simp: claim_def intro: db_evolves_put split: option.splits)
qed

lemma record_event_evolves: "db_evolves used d (fst (record_event fr l now ty data d))"
proof -
  obtain d' r where w: "record_event fr l now ty data d = (d', r)" by fastforce
  then have "db_evolves used d d'"
    unfolding record_event_def
    by (rule db_evolves_with_lease) (auto simp: row_evolves_def agent_moves_def lease_lost_def split: sum.splits)
  with w show ?thesis by simp
qed

lemma heartbeat_evolves: "db_evolves used d (fst (heartbeat cfg l now d))"
proof -
  obtain d' r where w: "heartbeat cfg l now d = (d', r)" by fastforce
  then have "db_evolves used d d'"
    unfolding heartbeat_def
    by (rule db_evolves_with_lease) (auto simp: row_evolves_def agent_moves_def lease_lost_def split: option.splits)
  with w show ?thesis by simp
qed

lemma complete_evolves: "db_evolves used d (fst (complete_task fr l now parts conv payload d))"
proof -
  obtain d' r where w: "complete_task fr l now parts conv payload d = (d', r)" by fastforce
  then have "db_evolves used d d'"
    unfolding complete_task_def
    by (rule db_evolves_with_lease) (auto simp: row_evolves_def agent_moves_def lease_lost_def)
  with w show ?thesis by simp
qed

lemma block_evolves: "db_evolves used d (fst (mark_replay_blocked l live now reason d))"
proof -
  obtain d' r where w: "mark_replay_blocked l live now reason d = (d', r)" by fastforce
  then have "db_evolves used d d'"
    unfolding mark_replay_blocked_def
    by (rule db_evolves_with_lease)
      (auto simp: row_evolves_def agent_moves_def block_replay_def lease_lost_def split: option.split)
  with w show ?thesis by simp
qed

text \<open>The fence of the tool executor is the same write; its task event changes the log and progress.\<close>

lemma prepare_dispatch_effect:
  "fst (prepare_dispatch env cur now q tool args d) = d
   \<or> (\<exists>l. fst (prepare_dispatch env cur now q tool args d) =
        fst (mark_replay_blocked l True now (replay_reason tool) d))"
proof (cases "\<exists>l. cur = Some l")
  case True
  then obtain l where l: "cur = Some l" by blast
  have "fst (prepare_dispatch env cur now q tool args d) = d
    \<or> fst (prepare_dispatch env cur now q tool args d) =
         fst (mark_replay_blocked l True now (replay_reason tool) d)"
  proof (cases "lock_task_lease (Some l) True now d")
    case (Inl e)
    then show ?thesis by (simp add: prepare_dispatch_def l split: sum.split option.split)
  next
    case (Inr r)
    then show ?thesis
      by (cases r) (auto simp: prepare_dispatch_def mark_replay_blocked_def with_task_lease_def l
          split: sum.split option.split)
  qed
  then show ?thesis by blast
next
  case False
  then have "cur = None" by (cases cur) auto
  then show ?thesis
    by (auto simp: prepare_dispatch_def lock_task_lease_def split: sum.split option.split)
qed

lemma prepare_evolves: "db_evolves used d (fst (prepare_dispatch env cur now q tool args d))"
  using prepare_dispatch_effect [of env cur now q tool args d] block_evolves by (auto simp: block_evolves)

lemma tool_event_effect:
  "fst (record_mcp_task_event cur now session ti ty tool payload pr d) = d
   \<or> (\<exists>i t m p. get_task i d = Some t \<and> event_allowed cur now t \<and> t_progress t \<le> p
        \<and> (t_kind t = Agent \<longrightarrow> p \<le> max (t_progress t) 95)
        \<and> fst (record_mcp_task_event cur now session ti ty tool payload pr d) =
            put_task (t\<lparr>t_metadata := m, t_progress := p\<rparr>) d)"
proof (cases "session \<and> (\<exists>i t. ti = Some i \<and> get_task i d = Some t \<and> event_allowed cur now t)")
  case False
  then show ?thesis by (auto simp: record_mcp_task_event_def split: option.split)
next
  case True
  then obtain i t where t: "ti = Some i" "get_task i d = Some t" "event_allowed cur now t" by blast
  show ?thesis
  proof (cases "fst (record_mcp_task_event cur now session ti ty tool payload pr d) = d")
    case no: False
    with t obtain m where "fst (record_mcp_task_event cur now session ti ty tool payload pr d) =
        put_task (t\<lparr>t_metadata := m, t_progress := (case pr of None \<Rightarrow> t_progress t
          | Some p \<Rightarrow> max (t_progress t) (if t_kind t = Agent then min p 95 else p))\<rparr>) d"
      by (auto simp: record_mcp_task_event_def Let_def split: if_splits sum.splits)
    with t show ?thesis
      by (intro disjI2 exI [of _ i] exI [of _ t] exI [of _ m]
          exI [of _ "case pr of None \<Rightarrow> t_progress t
            | Some p \<Rightarrow> max (t_progress t) (if t_kind t = Agent then min p 95 else p)"])
        (auto split: option.split)
  qed simp
qed

lemma tool_event_evolves:
  "db_evolves used d (fst (record_mcp_task_event cur now session ti ty tool payload pr d))"
proof (rule disjE [OF tool_event_effect [of cur now session ti ty tool payload pr d]])
  assume "\<exists>i t m p. get_task i d = Some t \<and> event_allowed cur now t \<and> t_progress t \<le> p
        \<and> (t_kind t = Agent \<longrightarrow> p \<le> max (t_progress t) 95)
        \<and> fst (record_mcp_task_event cur now session ti ty tool payload pr d) =
            put_task (t\<lparr>t_metadata := m, t_progress := p\<rparr>) d"
  then obtain i t m p where t: "get_task i d = Some t"
    "fst (record_mcp_task_event cur now session ti ty tool payload pr d) =
       put_task (t\<lparr>t_metadata := m, t_progress := p\<rparr>) d" by blast
  have "row_evolves used t (t\<lparr>t_metadata := m, t_progress := p\<rparr>)" by (auto simp: row_evolves_def agent_moves_def)
  with t show ?thesis by (auto intro: db_evolves_put)
qed simp

lemma finish_evolves: "db_evolves used d (fst (finish_or_retry l error retryable now jitter d))"
proof -
  obtain d' r where w: "finish_or_retry l error retryable now jitter d = (d', r)" by fastforce
  then have "db_evolves used d d'"
  proof (cases rule: finish_or_retry_cases)
    case (failed t msg)
    then show ?thesis
      by (auto intro!: db_evolves_put simp: row_evolves_def agent_moves_def lease_lost_def)
  next
    case (retried t m)
    then show ?thesis by (auto intro!: db_evolves_put simp: row_evolves_def agent_moves_def lease_lost_def)
  qed simp
  with w show ?thesis by simp
qed

lemma recover_task_evolves:
  assumes "t_status t = Running" shows "row_evolves used t (recover_task now t)"
proof -
  have "t_status (recover_task now t) = Stale
    \<or> t_status (recover_task now t) = Queued \<and> t_replay_blocked_at t = None"
    by (auto simp: recover_task_def Let_def)
  with assms show ?thesis by (auto simp: row_evolves_def agent_moves_def)
qed

lemma recover_evolves:
  assumes "tasks_ok d"
  shows "db_evolves used d (fst (recover_stale_running_tasks locked now d))"
proof -
  obtain d' n where r: "recover_stale_running_tasks locked now d = (d', n)" by fastforce
  note rows = recover_rows [OF assms r]
  have "\<exists>t'. get_task i d' = Some t' \<and> row_evolves used t t'" if g: "get_task i d = Some t" for i t
  proof (cases "i \<in> t_id ` set (stale_tasks locked now d)")
    case True
    then obtain x where x: "x \<in> set (stale_tasks locked now d)" "t_id x = i" by auto
    with get_task_in_distinct [OF assms stale_tasks_props(1) [OF x(1)]] g have "x = t" by simp
    with rows(2) [OF x(1)] x recover_task_evolves [OF stale_tasks_props(2) [OF x(1)]] show ?thesis by simp
  next
    case False
    with rows(3) g show ?thesis by simp
  qed
  with r show ?thesis by (simp add: db_evolves_def)
qed

lemma db_evolves_trans_insert:
  assumes "db_evolves used d e" and "insert_task t e = Inr d'"
  shows "db_evolves used d d'"
  using assms(1) insert_task_get [OF assms(2)] unfolding db_evolves_def by blast

lemma dispatch_evolves: "db_evolves used d (fst (dispatch_due_schedules zones locked now fresh d))"
proof -
  obtain d' r where w: "dispatch_due_schedules zones locked now fresh d = (d', r)" by fastforce
  then have "db_evolves used d d'"
  proof (cases rule: dispatch_due_schedules_cases)
    case (committed ids)
    show ?thesis
      by (rule dispatch_loop_invariant [where P = "db_evolves used d",
            OF committed(2) due_schedules_due subset_refl])
        (auto intro: db_evolves_trans_insert)
  qed simp
  with w show ?thesis by simp
qed

lemma create_task_evolves: "db_evolves used d (fst (create_task usr p i now d))"
  by (auto simp: create_task_def Let_def intro: db_evolves_insert split: sum.split)

lemma transition_from_terminal:
  "is_valid_task_status_transition st st' \<Longrightarrow> is_terminal st \<Longrightarrow> st' = st"
  using terminal_iff_absorbing by blast

lemma apply_update_token [simp]:
  "t_run_token (apply_update now u t) = t_run_token t"
  by (simp add: apply_update_def apply_task_status_timestamps_def Let_def split: option.split)

lemma update_evolves:
  assumes "tasks_ok d" shows "db_evolves used d (fst (update_task usr i u now d))"
proof -
  obtain d' r where w: "update_task usr i u now d = (d', r)" by fastforce
  then have "db_evolves used d d'"
  proof (cases rule: update_task_cases)
    case (written t)
    have "row_evolves used t (apply_update now u t)"
      using written(2,3) transition_from_terminal by (auto simp: row_evolves_def split: option.splits)
    with get_owned_task_get [OF assms written(1)] written(4) show ?thesis
      by (auto intro: db_evolves_put)
  qed simp
  with w show ?thesis by simp
qed

lemma cancel_evolves:
  assumes "tasks_ok d" shows "db_evolves used d (fst (cancel_task usr i now d so))"
proof -
  obtain d' so' r where w: "cancel_task usr i now d so = (d', so', r)" by (metis prod_cases3)
  then have "db_evolves used d d'"
  proof (cases rule: cancel_task_cases)
    case (written t)
    have "row_evolves used t (cancelled_row now t)"
      using transition_from_terminal [OF written(2)] by (auto simp: row_evolves_def agent_moves_def)
    with get_owned_task_get [OF assms written(1)] written(3) show ?thesis
      by (auto intro: db_evolves_put)
  qed simp
  with w show ?thesis by simp
qed

lemma run_now_evolves: "db_evolves used d (fst (run_task_schedule_now usr i new_id nonce now d so))"
  by (auto simp: run_task_schedule_now_def Let_def intro: db_evolves_insert
      split: option.split sum.split)

lemma create_schedule_tasks:
  "db_tasks (fst (create_task_schedule zones cfg usr p i now d)) = db_tasks d"
  by (auto simp: create_task_schedule_def Let_def split: sum.split exn.split)

lemma update_schedule_tasks:
  "db_tasks (fst (update_task_schedule zones usr i b now d)) = db_tasks d"
  by (auto simp: update_task_schedule_def Let_def split: option.split sum.split exn.split)

lemma get_task_unlink:
  "get_task i (unlink_conversation c d) = map_option
     (\<lambda>t. if t_conversation_id t = Some c then t\<lparr>t_conversation_id := None\<rparr> else t) (get_task i d)"
  by (simp add: unlink_conversation_def get_task_def find_update_where)

lemma unlink_evolves: "db_evolves used d (unlink_conversation c d)"
  by (auto simp: db_evolves_def get_task_unlink row_evolves_def agent_moves_def)

section \<open>The invariant\<close>

definition tokens_recorded :: "uuid list \<Rightarrow> db \<Rightarrow> bool" where
  "tokens_recorded used d \<longleftrightarrow>
     list_all (\<lambda>t. case t_run_token t of None \<Rightarrow> True | Some k \<Rightarrow> k \<in> set used) (db_tasks d)"

definition db_inv :: "uuid list \<Rightarrow> db \<Rightarrow> bool" where
  "db_inv used d \<longleftrightarrow> tasks_ok d \<and> no_overlap d \<and> tokens_recorded used d"

definition sys_inv :: "sys \<Rightarrow> bool" where
  "sys_inv s \<longleftrightarrow> db_inv (s_tokens s) (s_db s) \<and> schedules_ok (s_db s)"

lemma db_inv_frame: "db_tasks d' = db_tasks d \<Longrightarrow> db_inv used d' = db_inv used d"
  using tasks_ok_frame [of d' d] no_overlap_frame [of d' d] by (auto simp: db_inv_def tokens_recorded_def)

lemma db_inv_put_schedule [simp]: "db_inv used (put_schedule s d) = db_inv used d"
  by (rule db_inv_frame) simp

text \<open>Both lists of rows side by side, when no row was added.\<close>

lemma evolves_all2:
  assumes ids: "map t_id (db_tasks d') = map t_id (db_tasks d)" and ok: "tasks_ok d"
    and ev: "db_evolves used d d'"
  shows "list_all2 (row_evolves used) (db_tasks d) (db_tasks d')"
proof (rule list_all2_all_nthI)
  show "length (db_tasks d) = length (db_tasks d')" using ids by (metis length_map)
next
  fix n assume n: "n < length (db_tasks d)"
  then have n': "n < length (db_tasks d')" using ids by (metis length_map)
  have id: "t_id (db_tasks d' ! n) = t_id (db_tasks d ! n)"
    using ids n n' by (metis nth_map)
  have g: "get_task (t_id (db_tasks d ! n)) d = Some (db_tasks d ! n)"
    using get_task_in_distinct [OF ok] n by simp
  have kd: "keys_distinct t_id (db_tasks d')" using ids ok by (simp add: tasks_ok_def keys_distinct_def)
  have "get_task (t_id (db_tasks d' ! n)) d' = Some (db_tasks d' ! n)"
    unfolding get_task_def using kd n' by (intro find_row_in_distinct) simp_all
  with ev g id show "row_evolves used (db_tasks d ! n) (db_tasks d' ! n)"
    unfolding db_evolves_def by fastforce
qed

lemma filter_length_all2:
  assumes "list_all2 R xs ys" and "\<And>x y. R x y \<Longrightarrow> p y \<Longrightarrow> p x"
  shows "length (filter p ys) \<le> length (filter p xs)"
  using assms(1) by (induction rule: list_all2_induct) (auto dest: assms(2))

lemma row_evolves_active: "row_evolves used t t' \<Longrightarrow> schedule_active k t' \<Longrightarrow> schedule_active k t"
  by (cases "t_status t") (auto simp: row_evolves_def schedule_active_def)

lemma no_overlap_evolve:
  assumes "list_all2 (row_evolves used) (db_tasks d) (db_tasks d')" and "no_overlap d"
  shows "no_overlap d'"
  unfolding no_overlap_iff
proof
  fix k
  have "length (filter (schedule_active k) (db_tasks d')) \<le> length (filter (schedule_active k) (db_tasks d))"
    using assms(1) by (rule filter_length_all2) (rule row_evolves_active)
  also have "\<dots> \<le> 1" using assms(2) by (simp add: no_overlap_iff)
  finally show "length (filter (schedule_active k) (db_tasks d')) \<le> 1" .
qed

lemma tokens_recorded_evolve:
  assumes "list_all2 (row_evolves (used @ map (the \<circ> t_run_token) (db_tasks d'))) (db_tasks d) (db_tasks d')"
    and "tokens_recorded used d"
  shows "tokens_recorded used d'"
proof -
  let ?u = "used @ map (the \<circ> t_run_token) (db_tasks d')"
  have "k \<in> set used" if t': "t' \<in> set (db_tasks d')" "t_run_token t' = Some k" for t' k
  proof -
    from assms(1) t'(1) obtain t where t: "t \<in> set (db_tasks d)" "row_evolves ?u t t'"
      by (metis list_all2_conv_all_nth in_set_conv_nth)
    have "k = (the \<circ> t_run_token) t'" using t'(2) by simp
    with t'(1) have "k \<in> set ?u" by (metis UnI2 image_eqI set_append set_map)
    with t t'(2) have "t_run_token t = Some k" by (auto simp: row_evolves_def)
    with assms(2) t(1) show ?thesis by (auto simp: tokens_recorded_def list_all_iff split: option.splits)
  qed
  then show ?thesis by (auto simp: tokens_recorded_def list_all_iff split: option.split)
qed

text \<open>The two ways a transaction keeps the invariant: changing rows, or adding a new one.\<close>

lemma db_inv_change:
  assumes inv: "db_inv used d" and ok: "tasks_ok d'"
    and ids: "map t_id (db_tasks d') = map t_id (db_tasks d)" and ev: "\<And>u. db_evolves u d d'"
  shows "db_inv used d'"
proof -
  from inv have "tasks_ok d" by (simp add: db_inv_def)
  note all2 = evolves_all2 [OF ids this ev]
  from inv ok no_overlap_evolve [OF all2] tokens_recorded_evolve [OF all2] show ?thesis
    by (simp add: db_inv_def)
qed

lemma db_inv_insert:
  assumes inv: "db_inv used d" and ins: "insert_task t d = Inr d'" and t: "task_ok t"
    and tok: "t_run_token t = None"
    and free: "\<And>k. schedule_active k t \<Longrightarrow> filter (schedule_active k) (db_tasks d) = []"
  shows "db_inv used d'"
proof -
  note d' = insert_task_Inr [OF ins]
  from inv have "no_overlap d" by (simp add: db_inv_def)
  then have "no_overlap d'" by (rule no_overlap_append) (use d' in \<open>simp_all add: free\<close>)
  moreover have "tasks_ok d'" using inv d' t by (simp add: db_inv_def tasks_ok_append)
  moreover have "tokens_recorded used d'" using inv d' tok by (simp add: db_inv_def tokens_recorded_def)
  ultimately show ?thesis by (simp add: db_inv_def)
qed

lemma put_task_ids [simp]: "map t_id (db_tasks (put_task t d)) = map t_id (db_tasks d)"
  by (simp add: put_task_def map_key_put_row)

lemma with_lease_ids:
  "with_task_lease l live now f d = (d', r) \<Longrightarrow> map t_id (db_tasks d') = map t_id (db_tasks d)"
  by (cases rule: with_task_lease_cases) auto

lemma writer_ids:
  "map t_id (db_tasks (fst (record_event fr l now ty data d))) = map t_id (db_tasks d)"
  "map t_id (db_tasks (fst (heartbeat cfg l now d))) = map t_id (db_tasks d)"
  "map t_id (db_tasks (fst (complete_task fr l now parts conv payload d))) = map t_id (db_tasks d)"
  "map t_id (db_tasks (fst (mark_replay_blocked l live now reason d))) = map t_id (db_tasks d)"
  unfolding record_event_def heartbeat_def complete_task_def mark_replay_blocked_def
  by (rule with_lease_ids [OF surjective_pairing])+

lemma finish_ids: "map t_id (db_tasks (fst (finish_or_retry l e b now j d))) = map t_id (db_tasks d)"
  by (auto simp: finish_or_retry_def Let_def split: sum.split option.split)

lemma recover_ids:
  "map t_id (db_tasks (fst (recover_stale_running_tasks locked now d))) = map t_id (db_tasks d)"
  unfolding recover_stale_running_tasks_def
  by (rule recover_loop_invariant [where P = "\<lambda>e. map t_id (db_tasks e) = map t_id (db_tasks d)"]) simp_all

lemma update_ids: "map t_id (db_tasks (fst (update_task usr i u now d))) = map t_id (db_tasks d)"
  by (auto simp: update_task_def split: option.split sum.split)

lemma cancel_ids: "map t_id (db_tasks (fst (cancel_task usr i now d so))) = map t_id (db_tasks d)"
  by (auto simp: cancel_task_def split: option.split sum.split)

lemma unlink_ids: "map t_id (db_tasks (unlink_conversation c d)) = map t_id (db_tasks d)"
  by (simp add: unlink_conversation_def map_key_update_where)

lemma unlink_schedule_ids: "map sc_id (db_schedules (unlink_conversation c d)) = map sc_id (db_schedules d)"
  by (simp add: unlink_conversation_def map_key_update_where)

lemma block_replay_ok: "agent_task_ok t \<Longrightarrow> t_status t = Running \<Longrightarrow> agent_task_ok (block_replay now reason t)"
  by (simp add: agent_task_ok_def block_replay_def)

lemma block_replay_simps [simp]:
  "t_kind (block_replay now reason t) = t_kind t" "t_run_token (block_replay now reason t) = t_run_token t"
  by (simp_all add: block_replay_def)

lemma block_tasks_ok: "tasks_ok d \<Longrightarrow> tasks_ok (fst (mark_replay_blocked l live now reason d))"
proof -
  assume ok: "tasks_ok d"
  obtain d' r where w: "mark_replay_blocked l live now reason d = (d', r)" by fastforce
  with ok have "tasks_ok d'"
    unfolding mark_replay_blocked_def
    by (rule tasks_ok_with_lease) (auto simp: task_ok_def block_replay_ok lease_lost_def)
  with w show ?thesis by simp
qed

lemma prepare_tasks_ok: "tasks_ok d \<Longrightarrow> tasks_ok (fst (prepare_dispatch env cur now q tool args d))"
  using prepare_dispatch_effect [of env cur now q tool args d] block_tasks_ok by auto

lemma prepare_ids: "map t_id (db_tasks (fst (prepare_dispatch env cur now q tool args d))) = map t_id (db_tasks d)"
  using prepare_dispatch_effect [of env cur now q tool args d] writer_ids(4) by auto

lemma event_row_ok:
  assumes "task_ok t" "event_allowed cur now t" "t_progress t \<le> p" "t_kind t = Agent \<longrightarrow> p \<le> max (t_progress t) 95"
  shows "task_ok (t\<lparr>t_metadata := m, t_progress := p\<rparr>)"
  using assms by (auto simp: task_ok_def agent_task_ok_def event_allowed_def split: option.splits if_splits)

lemma tool_event_tasks_ok:
  assumes ok: "tasks_ok d"
  shows "tasks_ok (fst (record_mcp_task_event cur now session ti ty tool payload pr d))"
proof (rule disjE [OF tool_event_effect [of cur now session ti ty tool payload pr d]])
  assume "\<exists>i t m p. get_task i d = Some t \<and> event_allowed cur now t \<and> t_progress t \<le> p
        \<and> (t_kind t = Agent \<longrightarrow> p \<le> max (t_progress t) 95)
        \<and> fst (record_mcp_task_event cur now session ti ty tool payload pr d) =
            put_task (t\<lparr>t_metadata := m, t_progress := p\<rparr>) d"
  then obtain i t m p where t: "get_task i d = Some t" "event_allowed cur now t" "t_progress t \<le> p"
    "t_kind t = Agent \<longrightarrow> p \<le> max (t_progress t) 95"
    "fst (record_mcp_task_event cur now session ti ty tool payload pr d) =
       put_task (t\<lparr>t_metadata := m, t_progress := p\<rparr>) d" by blast
  from event_row_ok [OF tasks_ok_get [OF ok t(1)] t(2,3,4)] ok t(5) show ?thesis
    by (simp add: tasks_ok_put)
qed (use ok in simp)

lemma tool_event_ids:
  "map t_id (db_tasks (fst (record_mcp_task_event cur now session ti ty tool payload pr d))) = map t_id (db_tasks d)"
  using tool_event_effect [of cur now session ti ty tool payload pr d] by auto

lemma update_tasks_ok: "tasks_ok d \<Longrightarrow> tasks_ok (fst (update_task usr i u now d))"
proof -
  assume ok: "tasks_ok d"
  obtain d' r where w: "update_task usr i u now d = (d', r)" by fastforce
  then have "tasks_ok d'"
  proof (cases rule: update_task_cases)
    case (written t)
    with tasks_ok_get [OF ok get_owned_task_get [OF ok written(1)]] ok show ?thesis
      by (auto intro!: tasks_ok_put simp: task_ok_def)
  qed (use ok in simp)
  with w show ?thesis by simp
qed

lemma cancel_tasks_ok: "tasks_ok d \<Longrightarrow> tasks_ok (fst (cancel_task usr i now d so))"
proof -
  assume ok: "tasks_ok d"
  obtain d' so' r where w: "cancel_task usr i now d so = (d', so', r)" by (metis prod_cases3)
  then have "tasks_ok d'"
  proof (cases rule: cancel_task_cases)
    case (written t)
    with tasks_ok_get [OF ok get_owned_task_get [OF ok written(1)]] ok show ?thesis
      by (auto intro!: tasks_ok_put simp: task_ok_def cancelled_row_ok)
  qed (use ok in simp)
  with w show ?thesis by simp
qed

lemma unlink_tasks_ok: "tasks_ok d \<Longrightarrow> tasks_ok (unlink_conversation c d)"
proof -
  assume ok: "tasks_ok d"
  have row: "task_ok (t\<lparr>t_conversation_id := None\<rparr>) = task_ok t" for t
    by (simp add: task_ok_def agent_task_ok_def)
  from ok have "list_all task_ok (db_tasks (unlink_conversation c d))"
    by (auto simp: tasks_ok_def unlink_conversation_def update_where_def list_all_iff row)
  moreover have "keys_distinct t_id (db_tasks (unlink_conversation c d))"
    using ok unlink_ids [of c d] by (simp add: tasks_ok_def keys_distinct_def)
  ultimately show ?thesis by (simp add: tasks_ok_def)
qed

section \<open>Every step keeps the invariant\<close>

lemma schedules_ok_frame: "db_schedules d' = db_schedules d \<Longrightarrow> schedules_ok d' = schedules_ok d"
  by (simp add: schedules_ok_def)

lemma schedules_ok_put:
  "schedules_ok d \<Longrightarrow> 1 \<le> sc_max_attempts s \<Longrightarrow> schedules_ok (put_schedule s d)"
  by (auto simp: schedules_ok_def put_schedule_def keys_distinct_put_row list_all_iff dest: set_put_row)

lemma schedules_ok_get: "schedules_ok d \<Longrightarrow> s \<in> set (db_schedules d) \<Longrightarrow> 1 \<le> sc_max_attempts s"
  by (auto simp: schedules_ok_def list_all_iff)

lemma insert_task_schedules: "insert_task t d = Inr d' \<Longrightarrow> db_schedules d' = db_schedules d"
  by (auto dest: insert_task_Inr)

lemma with_lease_schedules: "with_task_lease l live now f d = (d', r) \<Longrightarrow> db_schedules d' = db_schedules d"
  by (cases rule: with_task_lease_cases) (auto simp: put_task_def)

lemma writer_schedules:
  "db_schedules (fst (record_event fr l now ty data d)) = db_schedules d"
  "db_schedules (fst (heartbeat cfg l now d)) = db_schedules d"
  "db_schedules (fst (complete_task fr l now parts conv payload d)) = db_schedules d"
  "db_schedules (fst (mark_replay_blocked l live now reason d)) = db_schedules d"
  unfolding record_event_def heartbeat_def complete_task_def mark_replay_blocked_def
  by (rule with_lease_schedules [OF surjective_pairing])+

lemma put_task_schedules [simp]: "db_schedules (put_task t d) = db_schedules d"
  by (simp add: put_task_def)

lemma claim_schedules: "db_schedules (fst (claim cfg locked now token nc i d)) = db_schedules d"
  by (auto simp: claim_def start_task_def ensure_task_conversation_def Let_def split: option.split)

lemma finish_schedules: "db_schedules (fst (finish_or_retry l e b now j d)) = db_schedules d"
  by (auto simp: finish_or_retry_def Let_def split: sum.split option.split)

lemma recover_schedules:
  "db_schedules (fst (recover_stale_running_tasks locked now d)) = db_schedules d"
  unfolding recover_stale_running_tasks_def
  by (rule recover_loop_invariant [where P = "\<lambda>e. db_schedules e = db_schedules d"]) simp_all

lemma api_task_schedules:
  "db_schedules (fst (create_task usr p i now d)) = db_schedules d"
  "db_schedules (fst (update_task usr i u now d)) = db_schedules d"
  "db_schedules (fst (cancel_task usr i now d so)) = db_schedules d"
  by (auto simp: create_task_def update_task_def cancel_task_def Let_def dest: insert_task_schedules
      split: option.split sum.split)

lemma tool_schedules:
  "db_schedules (fst (prepare_dispatch env cur now q tool args d)) = db_schedules d"
  "db_schedules (fst (record_mcp_task_event cur now session ti ty tool payload pr d)) = db_schedules d"
  using prepare_dispatch_effect [of env cur now q tool args d] writer_schedules(4)
    tool_event_effect [of cur now session ti ty tool payload pr d] by auto

lemma dispatch_loop_schedules_ok:
  assumes "dispatch_loop zones now fresh ss d = Inr (d', ids)" and "list_all (schedule_due now) ss"
    and "\<forall>s \<in> set ss. 1 \<le> sc_max_attempts s" and "schedules_ok d"
  shows "schedules_ok d'"
  using assms
proof (induction ss arbitrary: d ids)
  case (Cons s ss)
  from Cons(2) obtain d1 q ids1 where
      one: "dispatch_schedule zones now (fresh (sc_id s)) s d = Inr (d1, q)"
    and rest: "dispatch_loop zones now fresh ss d1 = Inr (d', ids1)"
    by (rule dispatch_loop_ConsE)
  from Cons(3) have due: "schedule_due now s" by simp
  from one due have "schedules_ok d1"
  proof (cases rule: dispatch_schedule_cases)
    case (skipped s')
    with Cons(4,5) show ?thesis by (simp add: schedules_ok_put)
  next
    case (queued s' occ d0)
    have "schedules_ok d0" using schedules_ok_frame [OF insert_task_schedules [OF queued(1)]] Cons(5) by simp
    with queued Cons(4) show ?thesis by (simp add: schedules_ok_put)
  qed
  with Cons(1) [OF rest] Cons(3,4) show ?case by simp
qed simp

lemma dispatch_schedules_ok:
  assumes "schedules_ok d" shows "schedules_ok (fst (dispatch_due_schedules zones locked now fresh d))"
proof -
  obtain d' r where w: "dispatch_due_schedules zones locked now fresh d = (d', r)" by fastforce
  then have "schedules_ok d'"
  proof (cases rule: dispatch_due_schedules_cases)
    case (committed ids)
    have "\<forall>s \<in> set (due_schedules locked now d). 1 \<le> sc_max_attempts s"
      using due_schedules_props(1) schedules_ok_get [OF assms] by blast
    with dispatch_loop_schedules_ok [OF committed(2) due_schedules_due _ assms] show ?thesis by simp
  qed (use assms in simp)
  with w show ?thesis by simp
qed

lemma dispatch_db_inv:
  assumes inv: "db_inv used d" and sc: "schedules_ok d"
  shows "db_inv used (fst (dispatch_due_schedules zones locked now fresh d))"
proof -
  obtain d' r where w: "dispatch_due_schedules zones locked now fresh d = (d', r)" by fastforce
  then have "db_inv used d'"
  proof (cases rule: dispatch_due_schedules_cases)
    case (committed ids)
    show ?thesis
    proof (rule dispatch_loop_invariant [where P = "db_inv used",
          OF committed(2) due_schedules_due subset_refl inv])
      show "db_inv used (put_schedule s e)" if "db_inv used e" for e s using that by simp
      fix s occ e e1
      assume s: "s \<in> set (due_schedules locked now d)" and e: "db_inv used e"
        and free: "filter (schedule_active (sc_id s)) (db_tasks e) = []"
        and ins: "insert_task (build_scheduled_task (fresh (sc_id s)) now s occ None) e = Inr e1"
      have "1 \<le> sc_max_attempts s" using s due_schedules_props(1) schedules_ok_get [OF sc] by blast
      then have "task_ok (build_scheduled_task (fresh (sc_id s)) now s occ None)"
        by (simp add: build_scheduled_task_ok)
      with e ins show "db_inv used e1"
        by (rule db_inv_insert) (use free in \<open>auto simp: schedule_active_def build_scheduled_task_def\<close>)
    qed
  qed (use inv in simp)
  with w show ?thesis by simp
qed

lemma create_task_db_inv:
  assumes "db_inv used d" shows "db_inv used (fst (create_task usr p i now d))"
  using assms
  by (auto simp: create_task_def Let_def task_ok_def schedule_active_def
      elim!: db_inv_insert split: sum.split)

lemma validate_agent_max_attempts:
  "validate_agent_task_create raw = Inr p \<Longrightarrow> opt_all (\<lambda>n. 1 \<le> n \<and> n \<le> 10) (ac_max_attempts p)"
  by (auto simp: validate_agent_task_create_def agent_task_create_fields_def split: if_splits sum.splits)

lemma validate_schedule_max_attempts:
  "validate_schedule_create raw = Inr p \<Longrightarrow> opt_all (\<lambda>n. 1 \<le> n \<and> n \<le> 10) (scr_max_attempts p)"
  by (auto simp: validate_schedule_create_def schedule_create_fields_def split: if_splits sum.splits)

lemma or_setting_pos: "opt_all (\<lambda>n. 1 \<le> n \<and> n \<le> 10) x \<Longrightarrow> 1 \<le> dflt \<Longrightarrow> 1 \<le> or_setting x dflt"
  by (auto simp: opt_all_def or_setting_def split: option.splits)

lemma create_schedule_schedules_ok:
  assumes "schedules_ok d" and "1 \<le> or_setting (scr_max_attempts p) (agent_task_default_max_attempts cfg)"
  shows "schedules_ok (fst (create_task_schedule zones cfg usr p i now d))"
  using assms
  by (auto simp: create_task_schedule_def Let_def schedules_ok_def keys_distinct_append get_schedule_def
      find_row_None_iff split: sum.split exn.split)

lemma update_schedule_schedules_ok:
  assumes "schedules_ok d" shows "schedules_ok (fst (update_task_schedule zones usr i b now d))"
proof (cases "get_owned_schedule d i usr")
  case None
  with assms show ?thesis by (simp add: update_task_schedule_def)
next
  case (Some s)
  with get_owned_schedule_Some schedules_ok_get [OF assms] have "1 \<le> sc_max_attempts s" by blast
  with assms Some show ?thesis
    by (auto simp: update_task_schedule_def Let_def intro!: schedules_ok_put split: sum.split exn.split)
qed

lemma run_now_inv:
  assumes inv: "db_inv used d" and sc: "schedules_ok d"
  shows "db_inv used (fst (run_task_schedule_now usr i new_id nonce now d so))
    \<and> schedules_ok (fst (run_task_schedule_now usr i new_id nonce now d so))"
proof (cases "get_owned_schedule d i usr")
  case None
  with assms show ?thesis by (simp add: run_task_schedule_now_def)
next
  case (Some s)
  with get_owned_schedule_Some schedules_ok_get [OF sc] have m: "1 \<le> sc_max_attempts s" by blast
  show ?thesis
  proof (cases "active_schedule_task d (sc_id s)")
    case (Some t)
    with \<open>get_owned_schedule d i usr = Some s\<close> assms show ?thesis by (simp add: run_task_schedule_now_def)
  next
    case None
    then have free: "filter (schedule_active (sc_id s)) (db_tasks d) = []"
      by (simp only: active_schedule_task_None)
    let ?t = "build_scheduled_task new_id now s now (Some nonce)"
    show ?thesis
    proof (cases "insert_task ?t d")
      case (Inl e)
      with \<open>get_owned_schedule d i usr = Some s\<close> None assms show ?thesis
        by (simp add: run_task_schedule_now_def)
    next
      case (Inr d1)
      have "task_ok ?t" using m by (simp add: build_scheduled_task_ok)
      with inv Inr have "db_inv used d1"
        by (rule db_inv_insert) (use free in \<open>auto simp: schedule_active_def build_scheduled_task_def\<close>)
      moreover have "schedules_ok d1"
        using schedules_ok_frame [OF insert_task_schedules [OF Inr]] sc by simp
      ultimately show ?thesis
        using \<open>get_owned_schedule d i usr = Some s\<close> None Inr m
        by (simp add: run_task_schedule_now_def schedules_ok_put)
    qed
  qed
qed

lemma db_inv_tasks_ok: "db_inv used d \<Longrightarrow> tasks_ok d"
  by (simp add: db_inv_def)

lemma db_inv_more_tokens: "db_inv used d \<Longrightarrow> db_inv (k # used) d"
  by (auto simp: db_inv_def tokens_recorded_def list_all_iff split: option.splits)

text \<open>Claiming adds the one new token it drew.\<close>

lemma claim_db_inv:
  assumes inv: "db_inv used d" and fresh: "token \<notin> set used"
  shows "db_inv (token # used) (fst (claim cfg locked now token nc i d))"
proof -
  let ?d = "fst (claim cfg locked now token nc i d)"
  note ok = db_inv_tasks_ok [OF inv]
  have rest: "db_inv (token # used) ?d" if "tokens_recorded (token # used) ?d"
    using that claim_tasks_ok [OF ok] inv
      no_overlap_evolve [OF evolves_all2 [OF claim_task_ids ok claim_evolves [OF fresh]]]
    by (simp add: db_inv_def)
  have put: "tokens_recorded (token # used) (put_task t d)"
    if "t_run_token t = None \<or> t_run_token t = Some token" for t
    using that inv
    by (auto simp: db_inv_def tokens_recorded_def put_task_def list_all_iff dest!: set_put_row
        split: option.splits)
  have start: "tokens_recorded (token # used) (fst (start_task cfg now token nc t d))" for t
  proof -
    have "tokens_recorded (token # used) (put_task (start_attempt cfg now token
        (t\<lparr>t_conversation_id := Some (fst (ensure_task_conversation now nc t d))\<rparr>)) d)"
      by (rule put) simp
    then show ?thesis by (simp add: tokens_recorded_def start_task_tasks)
  qed
  have "tokens_recorded (token # used) d"
    using inv db_inv_more_tokens by (simp add: db_inv_def)
  with put start show ?thesis
    by (intro rest) (auto simp: claim_def split: option.split)
qed

lemma task_step_keeps:
  assumes inv: "sys_inv s" and step: "task_step s t"
  shows "sys_inv t"
proof -
  from inv have db: "db_inv (s_tokens s) (s_db s)" and sc: "schedules_ok (s_db s)"
    by (simp_all add: sys_inv_def)
  note ok = db_inv_tasks_ok [OF db]
  note change = db_inv_change [OF db]
  from step show ?thesis
  proof (cases rule: task_stepE)
    case claim
    with claim_db_inv [OF db] sc schedules_ok_frame [OF claim_schedules] show ?thesis
      by (simp add: sys_inv_def)
  next
    case record_event
    with change [OF record_event_tasks_ok [OF ok] writer_ids(1) record_event_evolves]
      sc schedules_ok_frame [OF writer_schedules(1)] show ?thesis by (simp add: sys_inv_def)
  next
    case heartbeat
    with change [OF heartbeat_tasks_ok [OF ok] writer_ids(2) heartbeat_evolves]
      sc schedules_ok_frame [OF writer_schedules(2)] show ?thesis by (simp add: sys_inv_def)
  next
    case complete
    with change [OF complete_task_tasks_ok [OF ok] writer_ids(3) complete_evolves]
      sc schedules_ok_frame [OF writer_schedules(3)] show ?thesis by (simp add: sys_inv_def)
  next
    case finish
    with change [OF finish_or_retry_tasks_ok [OF ok] finish_ids finish_evolves]
      sc schedules_ok_frame [OF finish_schedules] show ?thesis by (simp add: sys_inv_def)
  next
    case block
    with change [OF block_tasks_ok [OF ok] writer_ids(4) block_evolves]
      sc schedules_ok_frame [OF writer_schedules(4)] show ?thesis by (simp add: sys_inv_def)
  next
    case prepare
    with change [OF prepare_tasks_ok [OF ok] prepare_ids prepare_evolves]
      sc schedules_ok_frame [OF tool_schedules(1)] show ?thesis by (simp add: sys_inv_def)
  next
    case tool_event
    with change [OF tool_event_tasks_ok [OF ok] tool_event_ids tool_event_evolves]
      sc schedules_ok_frame [OF tool_schedules(2)] show ?thesis by (simp add: sys_inv_def)
  next
    case recover
    with change [OF recover_tasks_ok [OF ok] recover_ids recover_evolves [OF ok]]
      sc schedules_ok_frame [OF recover_schedules] show ?thesis by (simp add: sys_inv_def)
  next
    case dispatch
    with dispatch_db_inv [OF db sc] dispatch_schedules_ok [OF sc] show ?thesis by (simp add: sys_inv_def)
  next
    case create_manual
    with create_task_db_inv [OF db] sc schedules_ok_frame [OF api_task_schedules(1)] show ?thesis
      by (simp add: sys_inv_def)
  next
    case (create_agent raw p acfg digest usr new_id now d')
    have "1 \<le> or_setting (ac_max_attempts p) (agent_task_default_max_attempts acfg)"
      using or_setting_pos [OF validate_agent_max_attempts [OF create_agent(2)] create_agent(3)] .
    then have "task_ok (build_agent_task digest acfg usr p new_id now)" by (simp add: build_agent_task_ok)
    with db create_agent(4) have "db_inv (s_tokens s) d'"
      by (rule db_inv_insert) (simp_all add: schedule_active_def build_agent_task_def)
    with create_agent(1) sc schedules_ok_frame [OF insert_task_schedules [OF create_agent(4)]]
    show ?thesis by (simp add: sys_inv_def)
  next
    case update
    with change [OF update_tasks_ok [OF ok] update_ids update_evolves [OF ok]]
      sc schedules_ok_frame [OF api_task_schedules(2)] show ?thesis by (simp add: sys_inv_def)
  next
    case cancel
    with change [OF cancel_tasks_ok [OF ok] cancel_ids cancel_evolves [OF ok]]
      sc schedules_ok_frame [OF api_task_schedules(3)] show ?thesis by (simp add: sys_inv_def)
  next
    case run_now
    with run_now_inv [OF db sc] show ?thesis by (simp add: sys_inv_def)
  next
    case (create_schedule sraw sp acfg zones usr new_id now)
    with or_setting_pos [OF validate_schedule_max_attempts [OF create_schedule(2)] create_schedule(3)]
      create_schedule_schedules_ok [OF sc] db_inv_frame [OF create_schedule_tasks] db
    show ?thesis by (simp add: sys_inv_def)
  next
    case update_schedule
    with update_schedule_schedules_ok [OF sc] db_inv_frame [OF update_schedule_tasks] db
    show ?thesis by (simp add: sys_inv_def)
  next
    case (unlink c)
    have "schedules_ok (unlink_conversation c (s_db s))"
      using sc by (auto simp: schedules_ok_def keys_distinct_def unlink_schedule_ids)
        (auto simp: unlink_conversation_def update_where_def list_all_iff)
    with unlink change [OF unlink_tasks_ok [OF ok] unlink_ids unlink_evolves] show ?thesis
      by (simp add: sys_inv_def)
  next
    case (other d')
    with db_inv_frame [OF other(2)] schedules_ok_frame [OF other(3)] db sc show ?thesis
      by (simp add: sys_inv_def)
  qed
qed

interpretation background: step_system sys_initial task_step sys_inv
proof unfold_locales
  show "sys_inv s" if "sys_initial s" for s
    using that by (simp add: sys_initial_def sys_inv_def db_inv_def tasks_ok_def no_overlap_def
        tokens_recorded_def schedules_ok_def keys_distinct_def)
qed (rule task_step_keeps)

lemma task_step_evolves:
  assumes inv: "sys_inv s" and step: "task_step s t"
  shows "db_evolves (s_tokens s) (s_db s) (s_db t) \<and> set (s_tokens s) \<subseteq> set (s_tokens t)"
proof -
  from inv have ok: "tasks_ok (s_db s)" by (simp add: sys_inv_def db_inv_def)
  from step show ?thesis
    by (cases rule: task_stepE)
      (auto simp: claim_evolves record_event_evolves heartbeat_evolves complete_evolves finish_evolves
        block_evolves prepare_evolves tool_event_evolves recover_evolves [OF ok] dispatch_evolves create_task_evolves update_evolves [OF ok]
        cancel_evolves [OF ok] run_now_evolves unlink_evolves
        db_evolves_frame [OF create_schedule_tasks] db_evolves_frame [OF update_schedule_tasks]
        intro: db_evolves_insert db_evolves_frame)
qed

lemma step_row:
  assumes "sys_inv s" and "task_step s t" and "get_task i (s_db s) = Some r"
  shows "\<exists>r'. get_task i (s_db t) = Some r' \<and> row_evolves (s_tokens s) r r'"
  using task_step_evolves [OF assms(1,2)] assms(3) by (auto simp: db_evolves_def)

section \<open>Witness run\<close>

definition sys_step_claim :: "sys \<Rightarrow> sys" where
  "sys_step_claim s = s\<lparr>s_db := fst (claim demo_cfg [] 5 (UUID 99) (UUID 50) (UUID 11) (s_db s)),
     s_tokens := UUID 99 # s_tokens s\<rparr>"

text \<open>A deployment in which one task was created through the API and then claimed.\<close>

definition demo_request :: agent_task_create where
  "demo_request = \<lparr>ac_prompt = lit ''hello'', ac_name = Some (lit ''demo''),
     ac_conversation_id = Some (UUID 8), ac_idempotency_key = None, ac_max_attempts = Some 3,
     ac_timeout_seconds = 180, ac_deadline_seconds = 900\<rparr>"

definition demo_row :: task where
  "demo_row = build_agent_task (\<lambda>_. lit ''f'') default_agent_settings (UUID 7) demo_request (UUID 11) 0"

definition demo_start :: sys where
  "demo_start = \<lparr>s_db = empty_db, s_tokens = []\<rparr>"

definition demo_created :: sys where
  "demo_created = \<lparr>s_db = demo_db [demo_row], s_tokens = []\<rparr>"

lemma hello_strip: "strip (lit ''hello'') = lit ''hello''"
  by (simp add: str_eval)

lemma demo_start_initial: "sys_initial demo_start"
  by (simp add: sys_initial_def demo_start_def empty_db_def)

lemma demo_create_step: "task_step demo_start demo_created"
proof -
  have v: "validate_agent_task_create demo_request = Inr demo_request"
    by (simp add: validate_agent_task_create_def agent_task_create_fields_def demo_request_def opt_all_def
        validate_prompt_def validate_idempotency_key_def hello_strip)
  have i: "insert_task demo_row (s_db demo_start) = Inr (demo_db [demo_row])"
    by (simp add: demo_start_def empty_db_def insert_task_def get_task_def find_row_def demo_db_def)
  have "task_step demo_start (demo_start\<lparr>s_db := demo_db [demo_row]\<rparr>)"
    by (rule task_step.create_agent [OF v _ i [unfolded demo_row_def], unfolded demo_row_def [symmetric]])
      (simp add: default_agent_settings_def)
  then show ?thesis by (simp add: demo_start_def demo_created_def)
qed

lemma demo_claim_step: "task_step demo_created (sys_step_claim demo_created)"
  unfolding sys_step_claim_def by (rule task_step.claim) (simp add: demo_created_def)

lemma demo_created_inv: "sys_inv demo_created"
  by (rule task_step_keeps [OF background.inv_init [OF demo_start_initial] demo_create_step])

lemma demo_claimed_inv: "sys_inv (sys_step_claim demo_created)"
  by (rule task_step_keeps [OF demo_created_inv demo_claim_step])

lemma demo_row_simps:
  "t_id demo_row = UUID 11" "t_kind demo_row = Agent" "t_status demo_row = Queued"
  "t_prompt demo_row = Some (lit ''hello'')" "t_deadline_at demo_row = Some (seconds 900)"
  "t_attempt_count demo_row = 0" "t_max_attempts demo_row = 3" "t_replay_blocked_at demo_row = None"
  "t_next_attempt_at demo_row = Some 0" "t_conversation_id demo_row = Some (UUID 8)"
  "t_started_at demo_row = None"
  by (simp_all add: demo_row_def build_agent_task_def demo_request_def or_setting_def hello_strip)

lemma demo_claimed_row:
  "get_task (UUID 11) (s_db (sys_step_claim demo_created)) =
     Some (start_attempt demo_cfg 5 (UUID 99) (demo_row\<lparr>t_conversation_id := Some (UUID 8)\<rparr>))"
  by (simp add: sys_step_claim_def demo_created_def claim_def demo_row_simps claim_error_def task_prompt_def
      hello_strip start_task_def ensure_task_conversation_def get_put_task seconds_def Let_def)

section \<open>Properties of executions\<close>

text \<open>
  C3. In every state a deployment can reach, by any interleaving of workers, maintenance and API
  calls: each background task has a lease exactly while it is running, its lease ends by its
  deadline, its attempts stay within the budget, its progress within bounds, a queued task has
  dispatched nothing, and no schedule has two active tasks.
\<close>

theorem reachable_tasks_ok:
  assumes "sys_initial s" and "task_step\<^sup>*\<^sup>* s t"
  shows "tasks_ok (s_db t) \<and> no_overlap (s_db t)"
  using background.inv_reachable [OF assms] by (simp add: sys_inv_def db_inv_def)

theorem reachable_tasks_ok_witness:
  "tasks_ok (s_db (sys_step_claim demo_created)) \<and> no_overlap (s_db (sys_step_claim demo_created))"
proof -
  have "task_step\<^sup>*\<^sup>* demo_start (sys_step_claim demo_created)"
    using demo_create_step demo_claim_step by (meson converse_rtranclp_into_rtranclp r_into_rtranclp)
  from reachable_tasks_ok [OF demo_start_initial this] show ?thesis .
qed

text \<open>
  C1. Fencing: a worker that has lost its lease never gets it back. From a state in which the
  token was drawn but no longer owns its task, in every later state the token still owns nothing
  and each write of the worker is refused and changes nothing, however long the worker lingers.
\<close>

theorem lost_lease_is_final:
  assumes "sys_inv s" and "l_token l \<in> set (s_tokens s)" and "\<not> owns l (s_db s)"
    and "get_task (l_task_id l) (s_db s) \<noteq> None" and "task_step\<^sup>*\<^sup>* s t"
  shows "\<not> owns l (s_db t) \<and> lease_write l c (s_db t) = (s_db t, Inl TaskLeaseLost)
    \<and> lock_task_lease (Some l) live now (s_db t) = Inl TaskLeaseLost"
proof -
  have "\<not> owns l (s_db t) \<and> l_token l \<in> set (s_tokens t) \<and> get_task (l_task_id l) (s_db t) \<noteq> None"
  proof (rule background.stable_steps [where P = "\<lambda>x. \<not> owns l (s_db x) \<and> l_token l \<in> set (s_tokens x)
        \<and> get_task (l_task_id l) (s_db x) \<noteq> None", OF assms(5,1)])
    fix a b
    assume a: "sys_inv a" and st: "task_step a b"
      and P: "\<not> owns l (s_db a) \<and> l_token l \<in> set (s_tokens a) \<and> get_task (l_task_id l) (s_db a) \<noteq> None"
    from P obtain r where r: "get_task (l_task_id l) (s_db a) = Some r" by blast
    from step_row [OF a st r] obtain r' where r': "get_task (l_task_id l) (s_db b) = Some r'"
      "row_evolves (s_tokens a) r r'" by blast
    have "t_run_token r' \<noteq> Some (l_token l) \<or> t_status r' \<noteq> Running"
    proof (rule ccontr)
      assume "\<not> ?thesis"
      with r'(2) P have "t_run_token r = Some (l_token l)" by (auto simp: row_evolves_def)
      moreover have "t_status r = Running"
        using calculation a r tasks_ok_get [of "s_db a" "l_task_id l" r]
        by (cases "t_kind r") (auto simp: sys_inv_def db_inv_def task_ok_def agent_task_ok_def)
      ultimately show False using P r by (simp add: owns_def)
    qed
    moreover have "l_token l \<in> set (s_tokens b)" using task_step_evolves [OF a st] P by blast
    ultimately show "\<not> owns l (s_db b) \<and> l_token l \<in> set (s_tokens b)
        \<and> get_task (l_task_id l) (s_db b) \<noteq> None"
      using r' by (auto simp: owns_def)
  qed (use assms in blast)
  then show ?thesis using lease_fence.denied lock_not_owner by blast
qed

theorem lost_lease_is_final_witness:
  "lease_write \<lparr>l_task_id = UUID 11, l_token = UUID 99\<rparr> (True, 700, Inr)
      (fst (recover_stale_running_tasks [] (seconds 200)
        (fst (cancel_task (UUID 7) (UUID 11) 6 (s_db (sys_step_claim demo_created)) None)))) =
    (fst (recover_stale_running_tasks [] (seconds 200)
        (fst (cancel_task (UUID 7) (UUID 11) 6 (s_db (sys_step_claim demo_created)) None))), Inl TaskLeaseLost)"
proof -
  let ?l = "\<lparr>l_task_id = UUID 11, l_token = UUID 99\<rparr>"
  let ?s = "sys_step_claim demo_created"
  let ?c = "?s\<lparr>s_db := fst (cancel_task (UUID 7) (UUID 11) 6 (s_db ?s) None)\<rparr>"
  have step: "task_step ?s ?c" by (rule task_step.cancel)
  have ok: "tasks_ok (s_db ?s)" using demo_claimed_inv by (simp add: sys_inv_def db_inv_def)
  have "get_owned_task (s_db ?s) (UUID 11) (UUID 7) =
      Some (start_attempt demo_cfg 5 (UUID 99) (demo_row\<lparr>t_conversation_id := Some (UUID 8)\<rparr>))"
    by (simp add: get_owned_task_iff [OF ok] demo_claimed_row start_attempt_def demo_row_def
        build_agent_task_def Let_def)
  then have row: "\<exists>r. get_task (UUID 11) (s_db ?c) = Some r \<and> t_status r = Cancelled_st"
    by (simp add: cancel_task_def validate_task_transition_def is_valid_task_status_transition_def
        get_put_task demo_claimed_row demo_row_simps)
  then have lost: "\<not> owns ?l (s_db ?c)" "get_task (l_task_id ?l) (s_db ?c) \<noteq> None"
    by (auto simp: owns_def)
  have tok: "l_token ?l \<in> set (s_tokens ?c)" by (simp add: sys_step_claim_def)
  have "task_step\<^sup>*\<^sup>* ?c (?c\<lparr>s_db := fst (recover_stale_running_tasks [] (seconds 200) (s_db ?c))\<rparr>)"
    by (rule r_into_rtranclp) (rule task_step.recover)
  from lost_lease_is_final [OF task_step_keeps [OF demo_claimed_inv step] tok lost this] show ?thesis
    by simp
qed

text \<open>
  C10. At most one execution dispatches: once a task's replay block is set (a tool was dispatched
  or an answer saved), the task is never queued or attempted again. In every later state it
  carries the same block and the same attempt count, and is either still running or finished.
\<close>

theorem replay_blocked_never_retried:
  assumes "sys_inv s" and "get_task i (s_db s) = Some r" and "t_kind r = Agent"
    and "t_replay_blocked_at r \<noteq> None" and "task_step\<^sup>*\<^sup>* s t"
  shows "\<exists>r'. get_task i (s_db t) = Some r' \<and> t_replay_blocked_at r' = t_replay_blocked_at r
    \<and> t_attempt_count r' = t_attempt_count r \<and> (t_status r' = Running \<or> is_terminal (t_status r'))"
proof -
  have finished: "t_status x \<noteq> Queued" if "sys_inv a" "get_task i (s_db a) = Some x" "t_kind x = Agent"
      "t_replay_blocked_at x \<noteq> None" for a x
    using that tasks_ok_get [of "s_db a" i x]
    by (auto simp: sys_inv_def db_inv_def task_ok_def agent_task_ok_def)
  let ?P = "\<lambda>x. \<exists>r'. get_task i (s_db x) = Some r' \<and> t_kind r' = Agent
      \<and> t_replay_blocked_at r' = t_replay_blocked_at r \<and> t_attempt_count r' = t_attempt_count r"
  have "?P t"
  proof (rule background.stable_steps [where P = ?P, OF assms(5,1)])
    fix a b
    assume a: "sys_inv a" and st: "task_step a b" and "?P a"
    then obtain x where x: "get_task i (s_db a) = Some x" "t_kind x = Agent"
      "t_replay_blocked_at x = t_replay_blocked_at r" "t_attempt_count x = t_attempt_count r" by blast
    from step_row [OF a st x(1)] obtain x' where x': "get_task i (s_db b) = Some x'"
      "row_evolves (s_tokens a) x x'" by blast
    from finished [OF a x(1,2)] x(3) assms(4) have "t_status x \<noteq> Queued" by simp
    with x x' assms(4) show "?P b" by (auto simp: row_evolves_def)
  qed (use assms in blast)
  then obtain r' where r': "get_task i (s_db t) = Some r'" "t_kind r' = Agent"
      "t_replay_blocked_at r' = t_replay_blocked_at r" "t_attempt_count r' = t_attempt_count r" by blast
  from finished [OF background.inv_steps [OF assms(5,1)] r'(1,2)] r'(3) assms(4)
  have "t_status r' = Running \<or> is_terminal (t_status r')" by (cases "t_status r'") auto
  with r' show ?thesis by blast
qed

theorem replay_blocked_never_retried_witness:
  "\<exists>(s :: sys) r r'. get_task (UUID 11) (s_db s) = Some r \<and> t_replay_blocked_at r \<noteq> None
    \<and> get_task (UUID 11) (fst (finish_or_retry \<lparr>l_task_id = UUID 11, l_token = UUID 99\<rparr> (lit ''timeout'')
        True 10 (seconds 4) (s_db s))) = Some r' \<and> t_status r' \<noteq> Queued"
proof -
  let ?l = "\<lparr>l_task_id = UUID 11, l_token = UUID 99\<rparr>"
  let ?a = "sys_step_claim demo_created"
  let ?s = "?a\<lparr>s_db := fst (mark_replay_blocked ?l True 6 (lit ''tool'') (s_db ?a))\<rparr>"
  have step: "task_step ?a ?s" by (rule task_step.block)
  have "\<exists>r. get_task (UUID 11) (s_db ?s) = Some r \<and> t_kind r = Agent \<and> t_replay_blocked_at r \<noteq> None"
    by (simp add: mark_replay_blocked_def with_task_lease_def lock_task_lease_def demo_claimed_row
        lease_lost_def get_put_task block_replay_def start_attempt_def demo_row_simps Let_def
        demo_cfg_def runner_init_def or_setting_def default_agent_settings_def seconds_def)
  then obtain r where r: "get_task (UUID 11) (s_db ?s) = Some r" "t_kind r = Agent"
      "t_replay_blocked_at r \<noteq> None" by blast
  have "task_step\<^sup>*\<^sup>* ?s (?s\<lparr>s_db := fst (finish_or_retry ?l (lit ''timeout'') True 10 (seconds 4) (s_db ?s))\<rparr>)"
    by (rule r_into_rtranclp) (rule task_step.finish)
  from replay_blocked_never_retried [OF task_step_keeps [OF demo_claimed_inv step] r this]
  obtain r' where r': "get_task (UUID 11) (fst (finish_or_retry ?l (lit ''timeout'') True 10 (seconds 4) (s_db ?s)))
      = Some r'" "t_status r' = Running \<or> is_terminal (t_status r')" by auto
  then have q: "t_status r' \<noteq> Queued" by auto
  show ?thesis
    by (rule exI [of _ ?s], rule exI [of _ r], rule exI [of _ r'], intro conjI) (fact r(1) r(3) r'(1) q)+
qed

text \<open>
  Finished is finished: a task that has succeeded, failed, been cancelled or gone stale keeps
  that status and its attempt count in every later state, and its row is never lost.
\<close>

theorem terminal_tasks_stay:
  assumes "sys_inv s" and "get_task i (s_db s) = Some r" and "is_terminal (t_status r)"
    and "task_step\<^sup>*\<^sup>* s t"
  shows "\<exists>r'. get_task i (s_db t) = Some r' \<and> t_status r' = t_status r
    \<and> t_attempt_count r' = t_attempt_count r"
proof (rule background.stable_steps [OF assms(4,1)])
  fix a b
  assume a: "sys_inv a" and st: "task_step a b"
    and "\<exists>x. get_task i (s_db a) = Some x \<and> t_status x = t_status r \<and> t_attempt_count x = t_attempt_count r"
  then obtain x where x: "get_task i (s_db a) = Some x" "t_status x = t_status r"
    "t_attempt_count x = t_attempt_count r" by blast
  from step_row [OF a st x(1)] x assms(3)
  show "\<exists>r'. get_task i (s_db b) = Some r' \<and> t_status r' = t_status r
    \<and> t_attempt_count r' = t_attempt_count r"
    by (auto simp: row_evolves_def)
qed (use assms(2) in blast)

theorem terminal_tasks_stay_witness:
  "\<exists>(s :: sys) r. get_task (UUID 11) (s_db s) = Some r \<and> t_status r = Cancelled_st
    \<and> (\<exists>r'. get_task (UUID 11) (fst (claim demo_cfg [] 5 (UUID 98) (UUID 50) (UUID 11) (s_db s))) = Some r'
          \<and> t_status r' = Cancelled_st)"
proof -
  let ?s = "demo_created\<lparr>s_db := fst (cancel_task (UUID 7) (UUID 11) 6 (s_db demo_created) None)\<rparr>"
  have step: "task_step demo_created ?s" by (rule task_step.cancel)
  have "get_owned_task (s_db demo_created) (UUID 11) (UUID 7) = Some demo_row"
    by (simp add: get_owned_task_def demo_created_def demo_db_def demo_row_def)
  then have "\<exists>r. get_task (UUID 11) (s_db ?s) = Some r \<and> t_status r = Cancelled_st"
    by (simp add: cancel_task_def validate_task_transition_def is_valid_task_status_transition_def
        demo_row_simps get_put_task demo_created_def)
  then obtain r where r: "get_task (UUID 11) (s_db ?s) = Some r" "t_status r = Cancelled_st" by blast
  then have fin: "is_terminal (t_status r)" by simp
  have "task_step\<^sup>*\<^sup>* ?s (?s\<lparr>s_db := fst (claim demo_cfg [] 5 (UUID 98) (UUID 50) (UUID 11) (s_db ?s)),
      s_tokens := UUID 98 # s_tokens ?s\<rparr>)"
    by (rule r_into_rtranclp) (rule task_step.claim, simp add: demo_created_def)
  from terminal_tasks_stay [OF task_step_keeps [OF demo_created_inv step] r(1) fin this] r(2)
  have c: "\<exists>r'. get_task (UUID 11) (fst (claim demo_cfg [] 5 (UUID 98) (UUID 50) (UUID 11) (s_db ?s))) = Some r'
      \<and> t_status r' = Cancelled_st"
    by auto
  show ?thesis by (rule exI [of _ ?s], rule exI [of _ r], intro conjI) (fact r c)+
qed

end
