(* ===== verification/Task_Lifecycle.thy ===== *)
theory Task_Lifecycle
  imports Task_System
begin

text \<open>
  The abstract lifecycle of a background task, and that the whole system of workers, maintenance loop and
  API implements it. The specification knows three phases: a task waits with the attempts it has used up,
  one worker works on it under a lease of its own, possibly after an effect that must not be replayed, or
  it has ended for good. It has no clock, no database and no error texts.
\<close>

section \<open>The specification\<close>

datatype life =
    Waiting (life_attempts: int)
  | Working (life_attempts: int) (life_lease: uuid) (life_blocked: bool)
  | Ended (life_attempts: int) task_status (life_blocked: bool)

text \<open>\<open>used\<close> are the lease tokens that were ever drawn.\<close>

inductive life_step :: "uuid list \<Rightarrow> life \<Rightarrow> life \<Rightarrow> bool" for used where
  stay: "life_step used x x"
| start: "life_step used (Waiting n) (Working (n + 1) k False)" if "k \<notin> set used"
| block: "life_step used (Working n k b) (Working n k True)"
| retry: "life_step used (Working n k False) (Waiting n)"
| finish: "life_step used (Working n k b) (Ended n st b)" if "is_terminal st"
| give_up: "life_step used (Waiting n) (Ended n st False)" if "st \<in> {Failed, Cancelled_st}"

inductive_cases life_step_EndedE: "life_step used (Ended n st b) x"

inductive life_reached :: "int \<Rightarrow> life \<Rightarrow> bool" where
  born: "life_reached n (Waiting n)"
| step: "life_reached n x \<Longrightarrow> life_step used x y \<Longrightarrow> life_reached n y"

text \<open>The phase of a row.\<close>

definition life_of :: "task \<Rightarrow> life" where
  "life_of t = (let blocked = (t_replay_blocked_at t \<noteq> None) in
     case t_status t of
       Queued \<Rightarrow> Waiting (t_attempt_count t)
     | Running \<Rightarrow> Working (t_attempt_count t) (case t_run_token t of Some k \<Rightarrow> k | None \<Rightarrow> UUID 0) blocked
     | st \<Rightarrow> Ended (t_attempt_count t) st blocked)"

section \<open>Rows that change\<close>

lemma life_of_terminal:
  "is_terminal (t_status t) \<Longrightarrow> life_of t = Ended (t_attempt_count t) (t_status t) (t_replay_blocked_at t \<noteq> None)"
  by (cases "t_status t") (simp_all add: life_of_def Let_def)

lemma life_of_queued: "t_status t = Queued \<Longrightarrow> life_of t = Waiting (t_attempt_count t)"
  by (simp add: life_of_def Let_def)

lemma life_of_running:
  "t_status t = Running \<Longrightarrow> t_run_token t = Some k \<Longrightarrow>
   life_of t = Working (t_attempt_count t) k (t_replay_blocked_at t \<noteq> None)"
  by (simp add: life_of_def Let_def)

lemma queued_life_step:
  assumes r: "row_evolves used t t'" and m: "agent_moves t t'" and a: "agent_task_ok t" "agent_task_ok t'"
    and queued: "t_status t = Queued"
  shows "life_step used (life_of t) (life_of t')"
proof -
  have b: "t_replay_blocked_at t = None" using queued_not_blocked [OF a(1) queued] .
  have st: "t_status t' \<notin> {Succeeded, Stale}" using m queued by (simp add: agent_moves_def)
  have x: "t_replay_blocked_at t' = None" using m queued b by (auto simp: agent_moves_def)
  show ?thesis
  proof (cases "t_status t' = Running")
    case False
    then have n: "t_attempt_count t' = t_attempt_count t" using m unfolding agent_moves_def by blast
    show ?thesis
    proof (cases "t_status t' = Queued")
      case True
      with n queued show ?thesis by (simp add: life_of_queued life_step.stay)
    next
      case no: False
      with False st have "t_status t' \<in> {Failed, Cancelled_st}" by (cases "t_status t'") simp_all
      moreover from this have "is_terminal (t_status t')" by auto
      ultimately show ?thesis using n x queued by (simp add: life_of_queued life_of_terminal life_step.give_up)
    qed
  next
    case True
    with a(2) obtain k where k: "t_run_token t' = Some k" by (auto simp: agent_task_ok_def)
    have "t_run_token t = None" using a(1) queued by (simp add: agent_task_ok_def)
    with r k have "k \<notin> set used" by (simp add: row_evolves_def)
    moreover have "t_attempt_count t' = t_attempt_count t + 1" using m True queued by (simp add: agent_moves_def)
    ultimately show ?thesis using queued True k x by (simp add: life_of_queued life_of_running life_step.start)
  qed
qed

lemma running_life_step:
  assumes r: "row_evolves used t t'" and m: "agent_moves t t'" and a: "agent_task_ok t"
    and running: "t_status t = Running"
  shows "life_step used (life_of t) (life_of t')"
proof -
  obtain k where k: "t_run_token t = Some k" using a running by (auto simp: agent_task_ok_def)
  have l: "life_of t = Working (t_attempt_count t) k (t_replay_blocked_at t \<noteq> None)"
    using running k by (rule life_of_running)
  have n: "t_attempt_count t' = t_attempt_count t" using r running by (auto simp: row_evolves_def)
  consider (requeued) "t_status t' = Queued" | (on) "t_status t' = Running" | (over) "is_terminal (t_status t')"
    by (cases "t_status t'") auto
  then show ?thesis
  proof cases
    case requeued
    then have "t_replay_blocked_at t = None" using m running by (simp add: agent_moves_def)
    with requeued l n show ?thesis by (simp add: life_of_queued life_step.retry)
  next
    case on
    have "t_run_token t' = Some k" using m on running k by (simp add: agent_moves_def)
    note l' = life_of_running [OF on this]
    show ?thesis
    proof (cases "t_replay_blocked_at t = None")
      case True
      then show ?thesis unfolding l l' n by (cases "t_replay_blocked_at t'") (simp_all add: life_step.stay life_step.block)
    next
      case False
      then have "t_replay_blocked_at t' = t_replay_blocked_at t" using r by (simp add: row_evolves_def)
      then show ?thesis unfolding l l' n by (simp add: life_step.stay)
    qed
  next
    case over
    then have "t_status t' \<noteq> Running" by auto
    then have "t_replay_blocked_at t' = t_replay_blocked_at t" using m unfolding agent_moves_def by blast
    with over l n show ?thesis by (simp add: life_of_terminal life_step.finish)
  qed
qed

lemma ended_life_step:
  assumes r: "row_evolves used t t'" and m: "agent_moves t t'" and ended: "is_terminal (t_status t)"
  shows "life_step used (life_of t) (life_of t')"
proof -
  have st: "t_status t' = t_status t" using r ended by (simp add: row_evolves_def)
  moreover have run: "t_status t' \<noteq> Running" using ended st by auto
  then have "t_attempt_count t' = t_attempt_count t" using m unfolding agent_moves_def by blast
  moreover have "t_replay_blocked_at t' = t_replay_blocked_at t" using m run unfolding agent_moves_def by blast
  ultimately have "life_of t' = life_of t" using ended by (simp add: life_of_terminal)
  then show ?thesis by (simp add: life_step.stay)
qed

lemma row_life_step:
  assumes r: "row_evolves used t t'" and k: "t_kind t = Agent" and ok: "task_ok t" "task_ok t'"
  shows "life_step used (life_of t) (life_of t')"
proof -
  have m: "agent_moves t t'" and "t_kind t' = Agent" using r k by (simp_all add: row_evolves_def)
  with ok k have a: "agent_task_ok t" "agent_task_ok t'" by (simp_all add: task_ok_def)
  consider "t_status t = Queued" | "t_status t = Running" | "is_terminal (t_status t)"
    by (cases "t_status t") auto
  then show ?thesis
    using queued_life_step [OF r m a] running_life_step [OF r m a(1)] ended_life_step [OF r m] by cases
qed

section \<open>Rows that are born\<close>

text \<open>Every row is an old one, or a background task that waits for its first attempt, or a manual task.\<close>

definition newborn :: "task \<Rightarrow> bool" where
  "newborn t \<longleftrightarrow> t_kind t = Agent \<longrightarrow> life_of t = Waiting 0"

definition births :: "db \<Rightarrow> db \<Rightarrow> bool" where
  "births d d' \<longleftrightarrow> list_all (\<lambda>t. t_id t \<in> t_id ` set (db_tasks d) \<or> newborn t) (db_tasks d')"

lemma births_ids: "map t_id (db_tasks d') = map t_id (db_tasks d) \<Longrightarrow> births d d'"
proof -
  assume "map t_id (db_tasks d') = map t_id (db_tasks d)"
  then have "t_id ` set (db_tasks d') = t_id ` set (db_tasks d)" by (metis list.set_map)
  then show ?thesis by (auto simp: births_def list_all_iff)
qed

lemma births_frame: "db_tasks d' = db_tasks d \<Longrightarrow> births d d'"
  by (rule births_ids) simp

lemma births_refl [simp]: "births d d"
  by (rule births_frame) simp

lemma births_insert: "insert_task t e = Inr d' \<Longrightarrow> births d e \<Longrightarrow> newborn t \<Longrightarrow> births d d'"
  by (drule insert_task_Inr) (simp add: births_def)

lemma births_put_schedule [simp]: "births d (put_schedule s d') = births d d'"
  by (simp add: births_def)

lemma scheduled_newborn: "newborn (build_scheduled_task i now s occ n)"
  by (simp add: newborn_def life_of_queued build_scheduled_task_def)

lemma agent_newborn: "newborn (build_agent_task digest cfg usr p i now)"
  by (simp add: newborn_def life_of_queued build_agent_task_def)

lemma manual_newborn: "t_kind t = Manual \<Longrightarrow> newborn t"
  by (simp add: newborn_def)

lemma dispatch_births: "births d (fst (dispatch_due_schedules zones locked now fresh d))"
proof -
  obtain d' r where w: "dispatch_due_schedules zones locked now fresh d = (d', r)" by fastforce
  then have "births d d'"
  proof (cases rule: dispatch_due_schedules_cases)
    case (committed ids)
    show ?thesis
      by (rule dispatch_loop_invariant [where P = "births d",
            OF committed(2) due_schedules_due subset_refl])
        (auto intro: births_insert scheduled_newborn)
  qed simp
  with w show ?thesis by simp
qed

lemma run_now_births: "births d (fst (run_task_schedule_now usr i new_id nonce now d so))"
  by (auto simp: run_task_schedule_now_def Let_def intro: births_insert scheduled_newborn
      split: option.split sum.split)

lemma create_task_births: "births d (fst (create_task usr p i now d))"
  by (auto simp: create_task_def Let_def newborn_def intro: births_insert [OF _ births_refl] split: sum.split)

lemma step_births:
  assumes "task_step s s'" shows "births (s_db s) (s_db s')"
  using assms
proof (cases rule: task_stepE)
  case claim
  then show ?thesis using births_ids [OF claim_task_ids] by simp
next
  case record_event
  then show ?thesis using births_ids [OF writer_ids(1)] by simp
next
  case heartbeat
  then show ?thesis using births_ids [OF writer_ids(2)] by simp
next
  case complete
  then show ?thesis using births_ids [OF writer_ids(3)] by simp
next
  case finish
  then show ?thesis using births_ids [OF finish_ids] by simp
next
  case block
  then show ?thesis using births_ids [OF writer_ids(4)] by simp
next
  case prepare
  then show ?thesis using births_ids [OF prepare_ids] by simp
next
  case tool_event
  then show ?thesis using births_ids [OF tool_event_ids] by simp
next
  case recover
  then show ?thesis using births_ids [OF recover_ids] by simp
next
  case update
  then show ?thesis using births_ids [OF update_ids] by simp
next
  case cancel
  then show ?thesis using births_ids [OF cancel_ids] by simp
next
  case unlink
  then show ?thesis using births_ids [OF unlink_ids] by simp
next
  case dispatch
  then show ?thesis using dispatch_births by simp
next
  case create_manual
  then show ?thesis using create_task_births by simp
next
  case run_now
  then show ?thesis using run_now_births by simp
next
  case create_schedule
  then show ?thesis using births_frame [OF create_schedule_tasks] by simp
next
  case update_schedule
  then show ?thesis using births_frame [OF update_schedule_tasks] by simp
next
  case (create_agent raw p acfg digest usr new_id now d')
  then show ?thesis using births_insert [OF create_agent(4) births_refl agent_newborn] by simp
next
  case (other d')
  then show ?thesis using births_frame [OF other(2)] by simp
qed

section \<open>The simulation\<close>

lemma step_life:
  assumes "sys_inv s" and "task_step s s'" and "get_task i (s_db s) = Some t" and "t_kind t = Agent"
  shows "\<exists>t'. get_task i (s_db s') = Some t' \<and> t_kind t' = Agent \<and> life_step (s_tokens s) (life_of t) (life_of t')"
proof -
  obtain t' where t': "get_task i (s_db s') = Some t'" "row_evolves (s_tokens s) t t'"
    using step_row [OF assms(1-3)] by blast
  have "tasks_ok (s_db s)" "tasks_ok (s_db s')"
    using assms(1) task_step_keeps [OF assms(1,2)] by (simp_all add: sys_inv_def db_inv_def)
  then have "task_ok t" "task_ok t'" using assms(3) t'(1) tasks_ok_get by blast+
  with row_life_step [OF t'(2) assms(4)] have "life_step (s_tokens s) (life_of t) (life_of t')" by blast
  moreover have "t_kind t' = Agent" using t'(2) assms(4) by (simp add: row_evolves_def)
  ultimately show ?thesis using t'(1) by blast
qed

definition lives_ok :: "sys \<Rightarrow> bool" where
  "lives_ok s \<longleftrightarrow> (\<forall>i t. get_task i (s_db s) = Some t \<longrightarrow> t_kind t = Agent \<longrightarrow> life_reached 0 (life_of t))"

lemma step_lives_ok:
  assumes "sys_inv s" and "lives_ok s" and "task_step s s'"
  shows "lives_ok s'"
  unfolding lives_ok_def
proof (intro allI impI)
  fix i t' assume t': "get_task i (s_db s') = Some t'" "t_kind t' = Agent"
  show "life_reached 0 (life_of t')"
  proof (cases "get_task i (s_db s)")
    case None
    have "t' \<in> set (db_tasks (s_db s'))" "t_id t' = i" using t'(1) get_task_mem get_task_id by blast+
    moreover have "i \<notin> t_id ` set (db_tasks (s_db s))" using None by (simp add: get_task_def find_row_None_iff)
    ultimately have "newborn t'" using step_births [OF assms(3)] by (auto simp: births_def list_all_iff)
    with t'(2) show ?thesis by (simp add: newborn_def life_reached.born)
  next
    case (Some t)
    have "t_kind t = Agent" using step_row [OF assms(1,3) Some] t' by (auto simp: row_evolves_def)
    with assms(2) Some have "life_reached 0 (life_of t)" by (simp add: lives_ok_def)
    moreover have "life_step (s_tokens s) (life_of t) (life_of t')"
      using step_life [OF assms(1,3) Some \<open>t_kind t = Agent\<close>] t'(1) by simp
    ultimately show ?thesis by (rule life_reached.step)
  qed
qed

lemma reachable_lives_ok:
  assumes "sys_initial s0" and "task_step\<^sup>*\<^sup>* s0 s"
  shows "sys_inv s \<and> lives_ok s"
  using assms(2)
proof (induction rule: rtranclp_induct)
  case base
  have "lives_ok s0" using assms(1) by (simp add: lives_ok_def sys_initial_def get_task_def find_row_def)
  with background.inv_init [OF assms(1)] show ?case by blast
next
  case (step s s')
  then show ?case using step_lives_ok task_step_keeps by blast
qed

text \<open>
  C5. The system implements the lifecycle specification: in every reachable state the phase of each background
  task can be reached by the abstract machine from a first waiting phase, and every further step of any worker,
  the maintenance loop or the API is one step of that machine (or none) for every background task.
\<close>

theorem task_lifecycle_refines:
  assumes "sys_initial s0" and "task_step\<^sup>*\<^sup>* s0 s" and "task_step s s'"
    and "get_task i (s_db s) = Some t" and "t_kind t = Agent"
  shows "life_reached 0 (life_of t)
    \<and> (\<exists>t'. get_task i (s_db s') = Some t' \<and> t_kind t' = Agent \<and> life_step (s_tokens s) (life_of t) (life_of t'))"
  using reachable_lives_ok [OF assms(1,2)] step_life [OF _ assms(3-5)] assms(4,5) by (simp add: lives_ok_def)

theorem task_lifecycle_refines_witness:
  "life_reached 0 (life_of demo_row)
   \<and> (\<exists>t'. get_task (UUID 11) (s_db (sys_step_claim demo_created)) = Some t' \<and> t_kind t' = Agent
        \<and> life_step (s_tokens demo_created) (life_of demo_row) (life_of t'))"
  by (rule task_lifecycle_refines [OF demo_start_initial r_into_rtranclp [of task_step, OF demo_create_step] demo_claim_step])
    (simp_all add: demo_row_simps demo_created_def)

end
