(* ===== verification/Agent_State.thy ===== *)
theory Agent_State
  imports Db_Model
begin

text \<open>
  The state of one agent turn (\<open>AgentExecutionState\<close>, \<open>AgentToolPlan\<close> of \<open>schemas.py\<close>), the
  confirmation request and the model route: the values that the graph nodes, the approval store
  and the runtime pass around.
\<close>

record agent_plan =
  pl_no_tool :: bool
  pl_tool_name :: "ustr option"
  pl_provider :: ustr
  pl_provider_tool_id :: "ustr option"
  pl_server_name :: "ustr option"
  pl_arguments :: dict
  pl_reason :: ustr
  pl_requires_confirmation :: bool

definition default_plan :: agent_plan where
  "default_plan = \<lparr>pl_no_tool = True, pl_tool_name = None, pl_provider = lit ''local_plugin'',
     pl_provider_tool_id = None, pl_server_name = None, pl_arguments = [], pl_reason = [],
     pl_requires_confirmation = False\<rparr>"

text \<open>A chat message of the history is its role and content.\<close>

type_synonym chat_message = "ustr \<times> ustr"

record agent_state =
  as_user_id :: "uuid option"
  as_task_id :: "uuid option"
  as_conversation_id :: "uuid option"
  as_message :: ustr
  as_history :: "chat_message list"
  as_memory_summaries :: "ustr list"
  as_citations :: "json list"
  as_mcp_resources :: "json list"
  as_mcp_prompts :: "json list"
  as_plan :: agent_plan
  as_tool_calls :: "tool_call_entry list"
  as_observations :: "ustr list"
  as_search_fetch_targets :: "search_target list"
  as_confirmed_search_target :: "search_target option"
  as_final_answer :: ustr
  as_context_budget :: "(ustr \<times> int) list"
  as_approval_id :: "uuid option"
  as_trace_id :: ustr

record model_route =
  mr_provider :: ustr
  mr_model_name :: ustr
  mr_reason :: ustr

record confirmation_request =
  cr_conversation_id :: uuid
  cr_approval_id :: "uuid option"
  cr_message :: ustr
  cr_tool_name :: ustr
  cr_arguments :: dict
  cr_reason :: ustr
  cr_task_type :: ustr

text \<open>
  \<open>jsonb = jsonb\<close> of PostgreSQL: numbers compare by value, a boolean only with a boolean.
\<close>

fun jsonb_eq :: "json \<Rightarrow> json \<Rightarrow> bool"
  and jsonb_eq_list :: "json list \<Rightarrow> json list \<Rightarrow> bool"
  and jsonb_eq_items :: "dict \<Rightarrow> dict \<Rightarrow> bool"
where
  "jsonb_eq (JBool b) j = (j = JBool b)"
| "jsonb_eq (JList xs) j = (case j of JList ys \<Rightarrow> jsonb_eq_list xs ys | _ \<Rightarrow> False)"
| "jsonb_eq (JObj xs) j = (case j of JObj ys \<Rightarrow> length xs = length ys \<and> jsonb_eq_items xs ys | _ \<Rightarrow> False)"
| "jsonb_eq JNull j = (j = JNull)"
| "jsonb_eq (JStr s) j = (j = JStr s)"
| "jsonb_eq (JInt i) j = (case j of JInt k \<Rightarrow> i = k | JFloat x \<Rightarrow> x = Fin (of_int i) | _ \<Rightarrow> False)"
| "jsonb_eq (JFloat x) j = (case j of JInt k \<Rightarrow> x = Fin (of_int k) | JFloat y \<Rightarrow> x = y | _ \<Rightarrow> False)"
| "jsonb_eq_list [] ys = (ys = [])"
| "jsonb_eq_list (x # xs) ys = (case ys of [] \<Rightarrow> False | y # ys' \<Rightarrow> jsonb_eq x y \<and> jsonb_eq_list xs ys')"
| "jsonb_eq_items [] ys = True"
| "jsonb_eq_items ((k, v) # xs) ys =
     (case map_of ys k of None \<Rightarrow> False | Some w \<Rightarrow> jsonb_eq v w \<and> jsonb_eq_items xs ys)"

end
