(* ===== verification/Tool_Approvals.thy ===== *)
theory Tool_Approvals
  imports Agent_State
begin

text \<open>
  Durable tool approvals (\<open>services/tool_approvals.py\<close>): an approval is a message of its
  conversation; it is pending, then resolved once by approval, cancellation or expiry, and an
  approved one ends as completed or interrupted. Each operation is a transaction; where the code
  commits a state change and then raises (expiry), the result is the changed database with the
  exception. Timestamps are compared as times; their ISO texts round-trip.
\<close>

section \<open>Operations\<close>

definition put_message :: "message \<Rightarrow> db \<Rightarrow> db" where
  "put_message m d = d\<lparr>db_messages := put_row m_id m (db_messages d)\<rparr>"

definition get_message :: "uuid \<Rightarrow> db \<Rightarrow> message option" where
  "get_message i d = find_row m_id i (db_messages d)"

definition approval_call :: "uuid \<Rightarrow> time \<Rightarrow> tool_call_entry \<Rightarrow> tool_call_entry" where
  "approval_call i expires call = call\<lparr>tc_approval_id := Some i, tc_approval_status := Some Pending,
     tc_approval_expires_at := Some expires\<rparr>"

text \<open>\<open>create\<close>: \<open>state.tool_calls[-1]\<close> of an empty list raises.\<close>

definition create_approval ::
  "uuid \<Rightarrow> time \<Rightarrow> agent_state \<Rightarrow> model_route \<Rightarrow> ustr \<Rightarrow> int \<Rightarrow> db \<Rightarrow> db \<times> agent_state res" where
  "create_approval approval_id now st route task_type ttl d =
     (case (rev (as_tool_calls st), as_conversation_id st) of
        ([], _) \<Rightarrow> (d, Inl (OtherError (lit ''list index out of range'')))
      | (_, None) \<Rightarrow> (d, Inl IntegrityError)
      | (call # earlier, Some conv) \<Rightarrow>
          (let expires = now + seconds ttl;
               call' = approval_call approval_id expires call;
               st' = st\<lparr>as_tool_calls := rev earlier @ [call']\<rparr>;
               msg = \<lparr>m_id = approval_id, m_conversation_id = conv, m_role = AssistantRole,
                 m_content = [], m_model_name = Some (mr_model_name route), m_created_at = now,
                 m_agent_task_id = None, m_tool_calls = as_tool_calls st',
                 m_continuation = Some \<lparr>cn_citations = as_citations st,
                   cn_mcp_resources = as_mcp_resources st, cn_mcp_prompts = as_mcp_prompts st,
                   cn_observations = butlast (as_observations st),
                   cn_tool_calls = rev earlier,
                   cn_search_fetch_targets = as_search_fetch_targets st\<rparr>,
                 m_approval = Some \<lparr>ap_status = Pending, ap_expires_at = expires,
                   ap_tool_name = tc_tool_name call', ap_arguments = tc_arguments call',
                   ap_message = as_message st, ap_reason = tc_reason call',
                   ap_task_type = task_type, ap_updated_at = None, ap_error = None\<rparr>,
                 m_metadata = JObj [(lit ''trace_id'', JStr (as_trace_id st)),
                   (lit ''model_route'', JObj [(lit ''model_name'', JStr (mr_model_name route)),
                      (lit ''provider'', JStr (mr_provider route)),
                      (lit ''reason'', JStr (mr_reason route))]),
                   (lit ''citations'', JList (as_citations st))]\<rparr>
           in if get_message approval_id d \<noteq> None then (d, Inl IntegrityError)
              else (d\<lparr>db_messages := db_messages d @ [msg]\<rparr>, Inr st')))"

definition owned_by :: "db \<Rightarrow> message \<Rightarrow> uuid option \<Rightarrow> bool" where
  "owned_by d m usr \<longleftrightarrow>
     list_ex (\<lambda>c. c_id c = m_conversation_id m \<and> c_user_id c = usr) (db_conversations d)"

text \<open>The rows the base query of \<open>_locked\<close> admits, and the exact match for old clients.\<close>

definition approval_row :: "db \<Rightarrow> uuid \<Rightarrow> uuid option \<Rightarrow> message \<Rightarrow> bool" where
  "approval_row d conv usr m \<longleftrightarrow>
     m_conversation_id m = conv \<and> owned_by d m usr \<and> m_role m = AssistantRole \<and> m_approval m \<noteq> None"

definition matches_plan :: "confirmation_request \<Rightarrow> message \<Rightarrow> bool" where
  "matches_plan p m \<longleftrightarrow> (case m_approval m of None \<Rightarrow> False
     | Some a \<Rightarrow> ap_status a = Pending \<and> ap_tool_name a = cr_tool_name p \<and> ap_message a = cr_message p
         \<and> jsonb_eq (JObj (ap_arguments a)) (JObj (cr_arguments p)))"

definition newest_first :: "message list \<Rightarrow> message list" where
  "newest_first ms = rev (sort_key (\<lambda>m. (m_created_at m, m_id m)) ms)"

definition locked_approval ::
  "uuid \<Rightarrow> uuid option \<Rightarrow> uuid option \<Rightarrow> confirmation_request option \<Rightarrow> db \<Rightarrow> message res" where
  "locked_approval conv usr approval_id payload d =
     (let missing = Inl (HttpError 409 (lit ''Tool approval was not found or already resolved''));
          rows = filter (approval_row d conv usr) (db_messages d) in
      case approval_id of
        Some i \<Rightarrow> (case find (\<lambda>m. m_id m = i) rows of None \<Rightarrow> missing | Some m \<Rightarrow> Inr m)
      | None \<Rightarrow>
          (case payload of
             None \<Rightarrow> Inl (HttpError 409 (lit ''A persisted tool approval is required''))
           | Some p \<Rightarrow>
               (case newest_first (filter (matches_plan p) rows) of
                  [] \<Rightarrow> missing | m # _ \<Rightarrow> Inr m)))"

text \<open>\<open>finish\<close> reloads the message; a row deleted meanwhile cannot be refreshed.\<close>

definition finish_row :: "approval_status \<Rightarrow> ustr option \<Rightarrow> time \<Rightarrow> message \<Rightarrow> message" where
  "finish_row status error now m = m\<lparr>
     m_approval := map_option (\<lambda>a. a\<lparr>ap_status := status, ap_updated_at := Some now, ap_error := error\<rparr>)
        (m_approval m),
     m_tool_calls := map (\<lambda>c. if tc_approval_id c = Some (m_id m)
        then c\<lparr>tc_approval_status := Some status, tc_approval_error := error\<rparr> else c) (m_tool_calls m)\<rparr>"

definition finish_approval ::
  "uuid \<Rightarrow> approval_status \<Rightarrow> ustr option \<Rightarrow> time \<Rightarrow> db \<Rightarrow> db \<times> unit res" where
  "finish_approval i status error now d =
     (case get_message i d of
        None \<Rightarrow> (d, Inl (OtherError (lit ''Could not refresh instance'')))
      | Some m \<Rightarrow>
          (case m_approval m of
             None \<Rightarrow> (d, Inl (KeyError (lit ''approval'')))
           | Some _ \<Rightarrow> (put_message (finish_row status error now m) d, Inr ())))"

definition require_pending :: "message \<Rightarrow> time \<Rightarrow> db \<Rightarrow> db \<times> unit res" where
  "require_pending m now d =
     (case m_approval m of
        None \<Rightarrow> (d, Inl (KeyError (lit ''approval'')))
      | Some a \<Rightarrow>
          if ap_status a \<noteq> Pending
          then (d, Inl (HttpError 409 (lit ''Tool approval has already been resolved'')))
          else if ap_expires_at a \<le> now
          then (case finish_approval (m_id m) Expired None now d of
                  (d', Inl e) \<Rightarrow> (d', Inl e)
                | (d', Inr _) \<Rightarrow> (d', Inl (HttpError 409 (lit ''Tool approval expired; send a new request''))))
          else (d, Inr ()))"

definition claim_approval ::
  "uuid option \<Rightarrow> confirmation_request \<Rightarrow> time \<Rightarrow> db \<Rightarrow> db \<times> message res" where
  "claim_approval usr p now d =
     (case locked_approval (cr_conversation_id p) usr (cr_approval_id p) (Some p) d of
        Inl e \<Rightarrow> (d, Inl e)
      | Inr m \<Rightarrow>
          (case m_approval m of
             None \<Rightarrow> (d, Inl (KeyError (lit ''approval'')))
           | Some a \<Rightarrow>
               if ap_tool_name a \<noteq> cr_tool_name p
                  \<or> \<not> py_eq (JObj (ap_arguments a)) (JObj (cr_arguments p))
                  \<or> ap_message a \<noteq> cr_message p \<or> ap_task_type a \<noteq> cr_task_type p
               then (d, Inl (HttpError 409 (lit ''Confirmation does not match the stored tool plan'')))
               else (case require_pending m now d of
                       (d1, Inl e) \<Rightarrow> (d1, Inl e)
                     | (d1, Inr _) \<Rightarrow>
                         (case finish_approval (m_id m) Approved None now d1 of
                            (d2, Inl e) \<Rightarrow> (d2, Inl e)
                          | (d2, Inr _) \<Rightarrow>
                              (case get_message (m_id m) d2 of
                                 None \<Rightarrow> (d2, Inl (OtherError (lit ''Could not refresh instance'')))
                               | Some m' \<Rightarrow> (d2, Inr m'))))))"

definition cancel_approval :: "uuid option \<Rightarrow> uuid \<Rightarrow> uuid \<Rightarrow> time \<Rightarrow> db \<Rightarrow> db \<times> unit res" where
  "cancel_approval usr conv i now d =
     (case locked_approval conv usr (Some i) None d of
        Inl e \<Rightarrow> (d, Inl e)
      | Inr m \<Rightarrow>
          if map_option ap_status (m_approval m) = Some ACancelled then (d, Inr ())
          else (case require_pending m now d of
                  (d1, Inl e) \<Rightarrow> (d1, Inl e)
                | (d1, Inr _) \<Rightarrow> finish_approval (m_id m) ACancelled None now d1))"

definition interrupted_error :: ustr where
  "interrupted_error = lit ''Approved execution was interrupted. Check tool history before requesting it again; the tool may already have completed.''"

definition interrupt_approval :: "uuid \<Rightarrow> time \<Rightarrow> db \<Rightarrow> db \<times> unit res" where
  "interrupt_approval i now d =
     (case get_message i d of
        None \<Rightarrow> (d, Inl (OtherError (lit ''Could not refresh instance'')))
      | Some m \<Rightarrow>
          (case m_approval m of
             None \<Rightarrow> (d, Inl (KeyError (lit ''approval'')))
           | Some a \<Rightarrow>
               if ap_status a = Approved
               then finish_approval i Interrupted (Some interrupted_error) now d
               else (d, Inr ())))"

section \<open>The status of one approval\<close>

definition status_of :: "uuid \<Rightarrow> db \<Rightarrow> approval_status option" where
  "status_of i d = (case get_message i d of None \<Rightarrow> None | Some m \<Rightarrow> map_option ap_status (m_approval m))"

text \<open>The operations that resolve approvals, in any order and by anyone.\<close>

datatype approval_op =
    ClaimOp "uuid option" confirmation_request time
  | CancelOp "uuid option" uuid uuid time
  | CompleteOp uuid time
  | InterruptOp uuid time

text \<open>
  The runtime completes only the approval it claimed: the operation is enabled on an approved one.
\<close>

definition run_op :: "approval_op \<Rightarrow> db \<Rightarrow> db \<times> uuid option" where
  "run_op op d = (case op of
     ClaimOp usr p now \<Rightarrow> (case claim_approval usr p now d of
        (d', Inr m) \<Rightarrow> (d', Some (m_id m)) | (d', Inl _) \<Rightarrow> (d', None))
   | CancelOp usr conv i now \<Rightarrow> (fst (cancel_approval usr conv i now d), None)
   | CompleteOp i now \<Rightarrow> (if status_of i d = Some Approved
        then (fst (finish_approval i Completed None now d), None) else (d, None))
   | InterruptOp i now \<Rightarrow> (fst (interrupt_approval i now d), None))"

text \<open>The approvals granted along a sequence of operations.\<close>

fun granted :: "approval_op list \<Rightarrow> db \<Rightarrow> uuid list" where
  "granted [] d = []"
| "granted (op # ops) d = (case run_op op d of
     (d', None) \<Rightarrow> granted ops d' | (d', Some i) \<Rightarrow> i # granted ops d')"

section \<open>Facts\<close>

lemma get_put_message [row_simps]:
  "get_message i (put_message m d) =
     (if i = m_id m then map_option (\<lambda>_. m) (get_message i d) else get_message i d)"
  by (simp add: get_message_def put_message_def find_put_row)

lemma get_message_id: "get_message i d = Some m \<Longrightarrow> m_id m = i"
  unfolding get_message_def by (rule find_row_Some(2))

interpretation messages: keyed_store get_message put_message m_id
  by unfold_locales (auto simp: get_put_message dest: get_message_id)

definition messages_ok :: "db \<Rightarrow> bool" where
  "messages_ok d \<longleftrightarrow> keys_distinct m_id (db_messages d)"

lemma messages_ok_put [simp]: "messages_ok (put_message m d) = messages_ok d"
  by (simp add: messages_ok_def put_message_def keys_distinct_put_row)

lemma get_message_in: "messages_ok d \<Longrightarrow> m \<in> set (db_messages d) \<Longrightarrow> get_message (m_id m) d = Some m"
  by (simp add: messages_ok_def get_message_def find_row_in_distinct)

lemma finish_row_simps [simp]:
  "m_id (finish_row st e now m) = m_id m"
  "m_approval (finish_row st e now m) =
     map_option (\<lambda>a. a\<lparr>ap_status := st, ap_updated_at := Some now, ap_error := e\<rparr>) (m_approval m)"
  by (simp_all add: finish_row_def)

lemma status_of_put:
  "get_message (m_id m) d \<noteq> None \<Longrightarrow>
   status_of i (put_message m d) = (if i = m_id m then map_option ap_status (m_approval m) else status_of i d)"
  by (auto simp: status_of_def get_put_message split: option.split)

lemma status_of_Some: "get_message i d = Some m \<Longrightarrow> status_of i d = map_option ap_status (m_approval m)"
  by (simp add: status_of_def)

lemma newest_first_set [simp]: "set (newest_first ms) = set ms"
  by (simp add: newest_first_def)

lemma locked_approval_Inr:
  assumes "locked_approval conv usr ai p d = Inr m"
  shows "m \<in> set (db_messages d) \<and> approval_row d conv usr m
    \<and> (\<forall>i. ai = Some i \<longrightarrow> m_id m = i) \<and> (ai = None \<longrightarrow> (\<exists>q. p = Some q \<and> matches_plan q m))"
proof (cases ai)
  case (Some i)
  with assms show ?thesis
    by (auto simp: locked_approval_def Let_def dest!: find_SomeD split: option.splits)
next
  case None
  with assms obtain q ms where q: "p = Some q"
      "newest_first (filter (matches_plan q) (filter (approval_row d conv usr) (db_messages d))) = m # ms"
    by (auto simp: locked_approval_def Let_def split: option.splits list.splits)
  then have "m \<in> set (newest_first (filter (matches_plan q) (filter (approval_row d conv usr) (db_messages d))))"
    by simp
  then have "m \<in> set (filter (matches_plan q) (filter (approval_row d conv usr) (db_messages d)))"
    by (simp only: newest_first_set)
  with None q show ?thesis by simp
qed

text \<open>Inversion of the four resolving operations: what they wrote and when.\<close>

lemma finish_approval_Inr:
  assumes "finish_approval i st e now d = (d', Inr u)"
  shows "\<exists>m a. get_message i d = Some m \<and> m_approval m = Some a \<and> d' = put_message (finish_row st e now m) d"
  using assms by (auto simp: finish_approval_def split: option.splits)

lemma finish_approval_status:
  assumes "finish_approval i st e now d = (d', r)"
  shows "status_of j d' = (if r = Inr () \<and> j = i then Some st else status_of j d)
    \<and> messages_ok d' = messages_ok d"
proof (cases "get_message i d")
  case None
  with assms show ?thesis by (auto simp: finish_approval_def)
next
  case (Some m)
  with get_message_id [OF Some] assms status_of_put [of "finish_row st e now m" d j] show ?thesis
    by (auto simp: finish_approval_def split: option.splits)
qed

lemma require_pending_cases:
  assumes "require_pending m now d = (d', r)" and "get_message (m_id m) d = Some m"
  obtains (pending) a where "m_approval m = Some a" "ap_status a = Pending" "now < ap_expires_at a"
      "d' = d" "r = Inr ()"
  | (expired) a e where "m_approval m = Some a" "ap_status a = Pending" "ap_expires_at a \<le> now"
      "r = Inl e" "d' = put_message (finish_row Expired None now m) d"
  | (refused) e where "status_of (m_id m) d \<noteq> Some Pending" "d' = d" "r = Inl e"
  using assms
  by (auto simp: require_pending_def status_of_def finish_approval_def split: option.splits if_splits)

lemma claim_approval_cases:
  assumes "claim_approval usr p now d = (d', r)" and ok: "messages_ok d"
  obtains (unchanged) e where "d' = d" "r = Inl e"
  | (expired) m a e where "get_message (m_id m) d = Some m" "m_approval m = Some a"
      "ap_status a = Pending" "ap_expires_at a \<le> now" "r = Inl e"
      "d' = put_message (finish_row Expired None now m) d"
  | (granted) m a where "get_message (m_id m) d = Some m" "m_approval m = Some a"
      "ap_status a = Pending" "now < ap_expires_at a" "approval_row d (cr_conversation_id p) usr m"
      "ap_tool_name a = cr_tool_name p" "py_eq (JObj (ap_arguments a)) (JObj (cr_arguments p))"
      "ap_message a = cr_message p" "ap_task_type a = cr_task_type p"
      "r = Inr (finish_row Approved None now m)" "d' = put_message (finish_row Approved None now m) d"
proof (cases "locked_approval (cr_conversation_id p) usr (cr_approval_id p) (Some p) d")
  case (Inl e)
  with assms have "d' = d" "r = Inl e" by (simp_all add: claim_approval_def)
  then show ?thesis by (rule unchanged)
next
  case (Inr m)
  from locked_approval_Inr [OF Inr] get_message_in [OF ok] have
    m: "get_message (m_id m) d = Some m" "approval_row d (cr_conversation_id p) usr m" by simp_all
  then obtain a where a: "m_approval m = Some a" by (auto simp: approval_row_def)
  show ?thesis
  proof (cases "ap_tool_name a \<noteq> cr_tool_name p \<or> \<not> py_eq (JObj (ap_arguments a)) (JObj (cr_arguments p))
      \<or> ap_message a \<noteq> cr_message p \<or> ap_task_type a \<noteq> cr_task_type p")
    case True
    with assms Inr a have "d' = d \<and> (\<exists>e. r = Inl e)" by (auto simp: claim_approval_def)
    then show ?thesis using unchanged by blast
  next
    case False
    obtain d1 q where rp: "require_pending m now d = (d1, q)" by fastforce
    then show ?thesis
    proof (cases rule: require_pending_cases [OF rp m(1)])
      case (1 a')
      with False Inr a m assms rp granted [of m a] show ?thesis
        by (simp add: claim_approval_def finish_approval_def get_put_message)
    next
      case (2 a' e)
      with False Inr a m assms rp expired [of m a e] show ?thesis by (simp add: claim_approval_def)
    next
      case (3 e)
      with False Inr a m assms rp have "d' = d \<and> (\<exists>e. r = Inl e)" by (auto simp: claim_approval_def)
      then show ?thesis using unchanged by blast
    qed
  qed
qed

text \<open>One operation: the grant it makes consumed a pending approval, and no approval becomes pending.\<close>

lemma run_op_status:
  assumes "run_op op d = (d', g)" and ok: "messages_ok d"
  shows "messages_ok d' \<and> (status_of i d \<noteq> None \<longrightarrow> status_of i d \<noteq> Some Pending \<longrightarrow> status_of i d' \<noteq> None \<and> status_of i d' \<noteq> Some Pending)
    \<and> (g = Some i \<longrightarrow> status_of i d = Some Pending \<and> status_of i d' = Some Approved)"
proof (cases op)
  case (ClaimOp usr p now)
  obtain d1 r where c: "claim_approval usr p now d = (d1, r)" by fastforce
  with ClaimOp assms(1) have g: "d' = d1" "g = (case r of Inr m \<Rightarrow> Some (m_id m) | Inl _ \<Rightarrow> None)"
    by (auto simp: run_op_def split: sum.splits)
  from c ok show ?thesis
  proof (cases rule: claim_approval_cases)
    case (unchanged e)
    with g ok show ?thesis by simp
  next
    case (expired m a e)
    with g ok show ?thesis by (auto simp: status_of_put)
  next
    case (granted m a)
    with g ok status_of_Some [OF granted(1)] show ?thesis by (auto simp: status_of_put)
  qed
next
  case (CancelOp usr conv j now)
  obtain d1 r where c: "cancel_approval usr conv j now d = (d1, r)" by fastforce
  with CancelOp assms(1) have g: "d' = d1" "g = None" by (auto simp: run_op_def)
  have "messages_ok d1 \<and> (status_of i d \<noteq> None \<longrightarrow> status_of i d \<noteq> Some Pending \<longrightarrow> status_of i d1 \<noteq> None \<and> status_of i d1 \<noteq> Some Pending)"
  proof (cases "locked_approval conv usr (Some j) None d")
    case (Inl e)
    with c ok show ?thesis by (auto simp: cancel_approval_def)
  next
    case (Inr m)
    from locked_approval_Inr [OF Inr] get_message_in [OF ok] have m: "get_message (m_id m) d = Some m" by blast
    obtain d2 q where rp: "require_pending m now d = (d2, q)" by fastforce
    show ?thesis
    proof (cases "map_option ap_status (m_approval m) = Some ACancelled")
      case True
      with c Inr ok show ?thesis by (auto simp: cancel_approval_def)
    next
      case False
      from rp m show ?thesis
      proof (cases rule: require_pending_cases)
        case (pending a)
        with False c Inr rp m ok show ?thesis
          by (auto simp: cancel_approval_def finish_approval_def status_of_put split: if_splits)
      next
        case (expired a e)
        with False c Inr rp m ok show ?thesis
          by (auto simp: cancel_approval_def status_of_put split: if_splits)
      next
        case (refused e)
        with False c Inr rp have "d1 = d" by (auto simp: cancel_approval_def split: if_splits)
        with ok show ?thesis by simp
      qed
    qed
  qed
  with g show ?thesis by simp
next
  case (CompleteOp j now)
  obtain d1 r where f: "finish_approval j Completed None now d = (d1, r)" by fastforce
  from finish_approval_status [OF f] CompleteOp assms f show ?thesis
    by (auto simp: run_op_def split: if_splits)
next
  case (InterruptOp j now)
  obtain d1 r where f: "finish_approval j Interrupted (Some interrupted_error) now d = (d1, r)" by fastforce
  from finish_approval_status [OF f] InterruptOp assms f show ?thesis
    by (auto simp: run_op_def interrupt_approval_def split: option.splits if_splits)
qed

interpretation approvals: op_system "\<lambda>op d. fst (run_op op d)" messages_ok
proof
  fix d op
  assume "messages_ok d"
  then show "messages_ok (fst (run_op op d))" using run_op_status [of op d "fst (run_op op d)" "snd (run_op op d)"] by simp
qed

text \<open>A resolved approval stays resolved, whatever operations follow.\<close>

lemma resolved_stays_resolved:
  assumes "messages_ok d" "status_of i d \<noteq> None \<and> status_of i d \<noteq> Some Pending"
  shows "status_of i (fold (\<lambda>op d. fst (run_op op d)) ops d) \<noteq> None
    \<and> status_of i (fold (\<lambda>op d. fst (run_op op d)) ops d) \<noteq> Some Pending"
  using assms
proof (rule approvals.history_stable)
  fix op a
  assume "messages_ok a" "status_of i a \<noteq> None \<and> status_of i a \<noteq> Some Pending"
  then show "status_of i (fst (run_op op a)) \<noteq> None \<and> status_of i (fst (run_op op a)) \<noteq> Some Pending"
    using run_op_status [of op a "fst (run_op op a)" "snd (run_op op a)" i] by simp
qed

lemma granted_run:
  assumes "messages_ok d"
  shows "count_list (granted ops d) i \<le> (if status_of i d = Some Pending \<or> status_of i d = None then 1 else 0)
    \<and> (status_of i d \<noteq> None \<longrightarrow> status_of i d \<noteq> Some Pending \<longrightarrow> i \<notin> set (granted ops d))"
  using assms
proof (induction ops arbitrary: d)
  case Nil
  then show ?case by simp
next
  case (Cons op ops)
  obtain d' g where r: "run_op op d = (d', g)" by fastforce
  from run_op_status [OF r Cons(2), of i] have ok: "messages_ok d'"
    and st: "status_of i d \<noteq> None \<Longrightarrow> status_of i d \<noteq> Some Pending \<Longrightarrow> status_of i d' \<noteq> None \<and> status_of i d' \<noteq> Some Pending"
    and gr: "g = Some i \<Longrightarrow> status_of i d = Some Pending \<and> status_of i d' = Some Approved" by auto
  note ih = Cons(1) [OF ok]
  show ?case
  proof (cases g)
    case None
    with r have "granted (op # ops) d = granted ops d'" by simp
    with ih st show ?thesis by (auto split: if_splits)
  next
    case (Some j)
    with r have g': "granted (op # ops) d = j # granted ops d'" by simp
    with Some ih st gr show ?thesis by (cases "j = i") (auto split: if_splits)
  qed
qed

section \<open>Properties\<close>

text \<open>
  A confirmation runs exactly what was shown, once: a claim that succeeds belongs to the
  user's own conversation, matches the stored tool, arguments, message and task type, found the
  approval pending and unexpired, and leaves it approved in the row and in its tool call.
\<close>

theorem claim_requires_live_matching_approval:
  assumes "messages_ok d" and "claim_approval usr p now d = (d', Inr m)"
  shows "\<exists>a. status_of (m_id m) d = Some Pending \<and> status_of (m_id m) d' = Some Approved
    \<and> get_message (m_id m) d' = Some m \<and> m_approval m = Some a
    \<and> m_conversation_id m = cr_conversation_id p \<and> owned_by d m usr
    \<and> now < ap_expires_at a \<and> ap_tool_name a = cr_tool_name p
    \<and> py_eq (JObj (ap_arguments a)) (JObj (cr_arguments p))
    \<and> ap_message a = cr_message p \<and> ap_task_type a = cr_task_type p
    \<and> (\<forall>c \<in> set (m_tool_calls m). tc_approval_id c = Some (m_id m) \<longrightarrow> tc_approval_status c = Some Approved)"
  using assms(2,1)
proof (cases rule: claim_approval_cases)
  case (granted m0 a)
  then have m: "m = finish_row Approved None now m0" by simp
  from granted have "m_conversation_id m0 = cr_conversation_id p" "owned_by d m0 usr"
    by (simp_all add: approval_row_def)
  moreover have "m_conversation_id m = m_conversation_id m0" by (simp add: m finish_row_def)
  moreover have "\<forall>c \<in> set (m_tool_calls m). tc_approval_id c = Some (m_id m) \<longrightarrow> tc_approval_status c = Some Approved"
    by (auto simp: m finish_row_def)
  ultimately show ?thesis
    using granted status_of_Some [OF granted(1)]
    by (simp add: status_of_put get_put_message owned_by_def del: py_eq.simps)
qed simp_all

definition demo_approval_message :: message where
  "demo_approval_message = \<lparr>m_id = UUID 40, m_conversation_id = UUID 8, m_role = AssistantRole,
     m_content = [], m_model_name = None, m_created_at = 0, m_agent_task_id = None,
     m_tool_calls = [], m_continuation = None,
     m_approval = Some \<lparr>ap_status = Pending, ap_expires_at = seconds 600, ap_tool_name = lit ''web_search'',
       ap_arguments = [(lit ''query'', JStr (lit ''x''))], ap_message = lit ''find x'', ap_reason = [],
       ap_task_type = lit ''conversation'', ap_updated_at = None, ap_error = None\<rparr>,
     m_metadata = JObj []\<rparr>"

definition demo_approval_db :: db where
  "demo_approval_db = empty_db\<lparr>db_messages := [demo_approval_message],
     db_conversations := [\<lparr>c_id = UUID 8, c_user_id = Some (UUID 7), c_title = [],
        c_memory_cursor = NoCursor, c_updated_at = 0\<rparr>]\<rparr>"

definition demo_confirmation :: confirmation_request where
  "demo_confirmation = \<lparr>cr_conversation_id = UUID 8, cr_approval_id = Some (UUID 40),
     cr_message = lit ''find x'', cr_tool_name = lit ''web_search'',
     cr_arguments = [(lit ''query'', JStr (lit ''x''))], cr_reason = [], cr_task_type = lit ''conversation''\<rparr>"

lemma demo_approval_ok: "messages_ok demo_approval_db"
  by (simp add: messages_ok_def demo_approval_db_def keys_distinct_def)

lemma demo_claim_approval:
  "\<exists>d' m. claim_approval (Some (UUID 7)) demo_confirmation (seconds 5) demo_approval_db = (d', Inr m)
     \<and> m_id m = UUID 40"
  by (simp add: claim_approval_def locked_approval_def approval_row_def owned_by_def demo_confirmation_def
      demo_approval_db_def demo_approval_message_def require_pending_def finish_approval_def get_message_def
      find_row_def put_message_def put_row_def finish_row_def seconds_def Let_def)

theorem claim_requires_live_matching_approval_witness:
  "\<exists>d' m. claim_approval (Some (UUID 7)) demo_confirmation (seconds 5) demo_approval_db = (d', Inr m)
     \<and> status_of (UUID 40) d' = Some Approved"
  using demo_claim_approval claim_requires_live_matching_approval [OF demo_approval_ok] by metis

text \<open>
  C9. One-shot consumption: in every sequence of claims, cancellations, completions and
  interruptions, by whatever users and at whatever times, one approval is granted at most once,
  and never after it was resolved in another way.
\<close>

theorem approval_granted_at_most_once:
  assumes "messages_ok d" and "status_of i d \<noteq> None"
  shows "count_list (granted ops d) i \<le> 1
    \<and> (status_of i d \<noteq> Some Pending \<longrightarrow> i \<notin> set (granted ops d))"
  using granted_run [OF assms(1), of ops i] assms(2) by (auto split: if_splits)

theorem approval_granted_at_most_once_witness:
  "count_list (granted [ClaimOp (Some (UUID 7)) demo_confirmation (seconds 5),
      InterruptOp (UUID 40) (seconds 6), ClaimOp (Some (UUID 7)) demo_confirmation (seconds 7)]
      demo_approval_db) (UUID 40) \<le> 1
   \<and> (\<exists>d' m. claim_approval (Some (UUID 7)) demo_confirmation (seconds 5) demo_approval_db = (d', Inr m))"
proof -
  have "status_of (UUID 40) demo_approval_db \<noteq> None"
    by (simp add: status_of_def get_message_def find_row_def demo_approval_db_def demo_approval_message_def)
  from approval_granted_at_most_once [OF demo_approval_ok this] demo_claim_approval show ?thesis by blast
qed

end
