(* ===== verification/Security.thy ===== *)
theory Security
  imports Config
begin

text \<open>
  Credentials (\<open>core/security.py\<close>) and the access-token gate of the application (\<open>main.py\<close>). The
  digests and the Argon2 library are an argument (\<open>crypto\<close>); the parsing of stored hashes, the
  bounds on their parameters and the base64 decoding are modelled. \<open>hmac.compare_digest\<close> is
  equality of its arguments.
\<close>

record argon_params =
  ag_type_id :: bool
  ag_version :: int
  ag_time_cost :: int
  ag_memory_cost :: int
  ag_parallelism :: int
  ag_salt_len :: int
  ag_hash_len :: int

text \<open>
  \<open>cy_params\<close> is \<open>extract_parameters\<close> (\<open>None\<close>: it raised), \<open>cy_verify hash password\<close> is whether
  \<open>PASSWORD_HASHER.verify\<close> returns, \<open>cy_hash\<close> one call of \<open>PASSWORD_HASHER.hash\<close>.
\<close>

record crypto =
  cy_params :: "ustr \<Rightarrow> argon_params option"
  cy_verify :: "ustr \<Rightarrow> ustr \<Rightarrow> bool"
  cy_hash :: "ustr \<Rightarrow> ustr"
  cy_needs_rehash :: "ustr \<Rightarrow> bool"
  cy_pbkdf2 :: "ustr \<Rightarrow> nat list \<Rightarrow> int \<Rightarrow> nat list"
  cy_sha256 :: "ustr \<Rightarrow> ustr"

section \<open>Base64\<close>

text \<open>\<open>b64decode(text, altchars=b"-_", validate=True)\<close>; the standard alphabet stays accepted.\<close>

definition b64_val :: "nat \<Rightarrow> nat option" where
  "b64_val c =
     (if 65 \<le> c \<and> c \<le> 90 then Some (c - 65)
      else if 97 \<le> c \<and> c \<le> 122 then Some (c - 71)
      else if 48 \<le> c \<and> c \<le> 57 then Some (c + 4)
      else if c = 43 \<or> c = 45 then Some 62
      else if c = 47 \<or> c = 95 then Some 63
      else None)"

fun b64_decode :: "ustr \<Rightarrow> nat list option" where
  "b64_decode [] = Some []"
| "b64_decode (a # b # c # d # rest) =
     (case (b64_val a, b64_val b) of
        (Some w, Some x) \<Rightarrow>
          (if rest = [] \<and> c = 61 \<and> d = 61 then Some [w * 4 + x div 16]
           else (case b64_val c of
             None \<Rightarrow> None
           | Some y \<Rightarrow>
               (if rest = [] \<and> d = 61 then Some [w * 4 + x div 16, x mod 16 * 16 + y div 4]
                else (case (b64_val d, b64_decode rest) of
                  (Some z, Some bytes) \<Rightarrow>
                    Some ([w * 4 + x div 16, x mod 16 * 16 + y div 4, y mod 4 * 64 + z] @ bytes)
                | _ \<Rightarrow> None))))
      | _ \<Rightarrow> None)"
| "b64_decode _ = None"

section \<open>Passwords\<close>

definition argon_prefix :: ustr where
  "argon_prefix = lit ''$argon2''"

definition params_bounded :: "argon_params \<Rightarrow> bool" where
  "params_bounded p \<longleftrightarrow>
     ag_type_id p \<and> ag_version p = 19
     \<and> 1 \<le> ag_time_cost p \<and> ag_time_cost p \<le> 10
     \<and> 8 \<le> ag_memory_cost p \<and> ag_memory_cost p \<le> 262144
     \<and> 1 \<le> ag_parallelism p \<and> ag_parallelism p \<le> 16
     \<and> 8 \<le> ag_salt_len p \<and> ag_salt_len p \<le> 64
     \<and> 16 \<le> ag_hash_len p \<and> ag_hash_len p \<le> 64"

text \<open>\<open>password_hash.split("$", 3)\<close> into exactly four parts.\<close>

definition split_hash :: "ustr \<Rightarrow> (ustr \<times> ustr \<times> ustr \<times> ustr) option" where
  "split_hash h =
     (case split_once 36 h of None \<Rightarrow> None | Some (a, r) \<Rightarrow>
       (case split_once 36 r of None \<Rightarrow> None | Some (b, r') \<Rightarrow>
         (case split_once 36 r' of None \<Rightarrow> None | Some (c, e) \<Rightarrow> Some (a, b, c, e))))"

text \<open>The parameters of a PBKDF2 hash: iterations, salt and expected digest.\<close>

definition pbkdf2_parts :: "ustr \<Rightarrow> (int \<times> nat list \<times> nat list) option" where
  "pbkdf2_parts h =
     (case split_hash h of
        None \<Rightarrow> None
      | Some (algorithm, iterations_text, salt_text, digest_text) \<Rightarrow>
          if algorithm \<noteq> lit ''pbkdf2_sha256'' then None
          else (case py_int iterations_text of
            None \<Rightarrow> None
          | Some iterations \<Rightarrow>
              if \<not> (1 \<le> iterations \<and> iterations \<le> 2000000) then None
              else (case (b64_decode salt_text, b64_decode digest_text) of
                (Some salt, Some expected) \<Rightarrow>
                  if \<not> (8 \<le> length salt \<and> length salt \<le> 64) \<or> length expected \<noteq> 32 then None
                  else Some (iterations, salt, expected)
              | _ \<Rightarrow> None)))"

definition verify_password :: "crypto \<Rightarrow> ustr \<Rightarrow> ustr \<Rightarrow> bool" where
  "verify_password cy password password_hash =
     (if length password_hash > 512 then False
      else if prefix argon_prefix password_hash
      then (case cy_params cy password_hash of
              None \<Rightarrow> False
            | Some p \<Rightarrow> if \<not> params_bounded p then False else cy_verify cy password_hash password)
      else (case pbkdf2_parts password_hash of
              None \<Rightarrow> False
            | Some (iterations, salt, expected) \<Rightarrow> cy_pbkdf2 cy password salt iterations = expected))"

text \<open>An unknown user costs one verification of a dummy hash, whose result is discarded.\<close>

definition verify_and_rehash :: "crypto \<Rightarrow> ustr \<Rightarrow> ustr option \<Rightarrow> bool \<times> ustr option" where
  "verify_and_rehash cy password stored =
     (case stored of
        None \<Rightarrow> (False, None)
      | Some h \<Rightarrow>
          if \<not> verify_password cy password h then (False, None)
          else if prefix (lit ''pbkdf2_sha256$'') h \<or> cy_needs_rehash cy h
          then (True, Some (cy_hash cy password))
          else (True, None))"

text \<open>\<open>secrets_equal\<close>: both texts are compared through their UTF-8 encodings.\<close>

definition secrets_equal :: "ustr option \<Rightarrow> ustr \<Rightarrow> bool" where
  "secrets_equal supplied expected \<longleftrightarrow> (case supplied of None \<Rightarrow> [] | Some s \<Rightarrow> s) = expected"

lemma verify_and_rehash_valid [simp]:
  "fst (verify_and_rehash cy p h) = (case h of None \<Rightarrow> False | Some x \<Rightarrow> verify_password cy p x)"
  by (simp add: verify_and_rehash_def split: option.split)

text \<open>
  Only bounded work is ever started: whatever text is stored, the parameters handed to a hash
  function are within the limits.
\<close>

lemma pbkdf2_parts_bounded:
  assumes "pbkdf2_parts h = Some (iterations, salt, expected)"
  shows "1 \<le> iterations \<and> iterations \<le> 2000000 \<and> 8 \<le> length salt \<and> length salt \<le> 64
    \<and> length expected = 32"
  using assms by (auto simp: pbkdf2_parts_def split: option.splits if_splits)

lemma b64_val_less: "b64_val c = Some v \<Longrightarrow> v < 64"
  by (auto simp: b64_val_def split: if_splits)

lemma b64_decode_bytes: "b64_decode s = Some bytes \<Longrightarrow> \<forall>x \<in> set bytes. x < 256"
proof (induction s arbitrary: bytes rule: b64_decode.induct)
  case (2 a b c d rest)
  have "v div 16 < 4" "v div 4 < 16" "v mod 16 < 16" "v mod 4 < 4" if "v < 64" for v :: nat
    using that by auto
  with 2 show ?case
    by (fastforce split: option.splits if_splits dest: b64_val_less)
qed auto

section \<open>The access-token gate\<close>

datatype gate = Pass | Refuse

definition health_path :: "ustr \<Rightarrow> bool" where
  "health_path path \<longleftrightarrow> path = lit ''/api/health'' \<or> prefix (lit ''/api/health/'') path"

definition access_gate :: "auth_settings \<Rightarrow> ustr \<Rightarrow> ustr \<Rightarrow> ustr option \<Rightarrow> gate" where
  "access_gate s method path token =
     (if agent_access_token s = [] then Pass
      else if method = lit ''OPTIONS'' then Pass
      else if \<not> prefix (lit ''/api'') path then Pass
      else if health_path path \<or> path = lit ''/api/auth/status'' \<or> path = lit ''/api/auth/check'' then Pass
      else if \<not> secrets_equal token (agent_access_token s) then Refuse
      else Pass)"

definition auth_status :: "auth_settings \<Rightarrow> bool" where
  "auth_status s = (agent_access_token s \<noteq> [])"

definition auth_check :: "auth_settings \<Rightarrow> ustr option \<Rightarrow> bool" where
  "auth_check s token = (if agent_access_token s = [] then True else secrets_equal token (agent_access_token s))"

text \<open>What \<open>/auth/check\<close> answers is what the gate will do with the token.\<close>

lemma auth_check_gate:
  assumes "method \<noteq> lit ''OPTIONS''" and "prefix (lit ''/api'') path" and "\<not> health_path path"
    and "path \<noteq> lit ''/api/auth/status''" and "path \<noteq> lit ''/api/auth/check''"
  shows "access_gate s method path token = Pass \<longleftrightarrow> auth_check s token"
  using assms by (simp add: access_gate_def auth_check_def)

end
