(* ===== verification/Auth.thy ===== *)
theory Auth
  imports Security Db_Model "HOL-Library.Multiset"
begin

text \<open>
  Sign-in (\<open>services/auth_limits.py\<close>, \<open>api/routes/auth.py\<close>): the shared admission limits, the
  registration and login handlers, the capped sessions and the bearer-token check. A handler is a
  function of the database; each commit of the code is a database it returns. What other
  requests write while a password is verified off-thread is the argument \<open>env\<close>.
\<close>

section \<open>Request payloads\<close>

definition username_first :: "nat \<Rightarrow> bool" where
  "username_first c \<longleftrightarrow> (65 \<le> c \<and> c \<le> 90) \<or> (97 \<le> c \<and> c \<le> 122) \<or> (48 \<le> c \<and> c \<le> 57) \<or> c = 95"

definition valid_username :: "ustr \<Rightarrow> bool" where
  "valid_username u \<longleftrightarrow> (case u of
     [] \<Rightarrow> False
   | c # cs \<Rightarrow> username_first c \<and> 2 \<le> length cs \<and> length cs \<le> 39
       \<and> list_all (\<lambda>x. username_first x \<or> x = 46 \<or> x = 45) cs)
     \<and> 3 \<le> length u \<and> length u \<le> 40"

definition valid_credentials :: "ustr \<Rightarrow> ustr \<Rightarrow> bool" where
  "valid_credentials username password \<longleftrightarrow>
     valid_username username \<and> 4 \<le> length password \<and> length password \<le> 128"

definition valid_registration :: "ustr \<Rightarrow> ustr \<Rightarrow> bool" where
  "valid_registration username password \<longleftrightarrow>
     valid_username username \<and> 15 \<le> length password \<and> length password \<le> 128 \<and> strip password \<noteq> []"

section \<open>Admission limits\<close>

text \<open>The upsert of one bucket: a fresh or expired bucket restarts, a live one counts.\<close>

definition bump_row :: "auth_settings \<Rightarrow> ustr \<Rightarrow> time \<Rightarrow> auth_rate_limit option \<Rightarrow> auth_rate_limit" where
  "bump_row s key now old =
     (case old of
        None \<Rightarrow> \<lparr>rl_key = key, rl_count = 1, rl_reset_at = now + seconds (auth_rate_window_seconds s)\<rparr>
      | Some r \<Rightarrow>
          if rl_reset_at r \<le> now
          then r\<lparr>rl_count := 1, rl_reset_at := now + seconds (auth_rate_window_seconds s)\<rparr>
          else r\<lparr>rl_count := rl_count r + 1\<rparr>)"

definition bump ::
  "auth_settings \<Rightarrow> ustr \<Rightarrow> time \<Rightarrow> auth_rate_limit list \<Rightarrow> auth_rate_limit list \<times> auth_rate_limit" where
  "bump s key now rows =
     (let old = find_row rl_key key rows; r = bump_row s key now old in
      ((case old of None \<Rightarrow> rows @ [r] | Some _ \<Rightarrow> put_row rl_key r rows), r))"

text \<open>\<open>ceil\<close> of a time difference in seconds.\<close>

definition ceil_seconds :: "time \<Rightarrow> int" where
  "ceil_seconds t = - ((- t) div seconds 1)"

text \<open>The buckets in order; the first one over its limit ends the loop with the time to wait.\<close>

fun admit_buckets ::
  "auth_settings \<Rightarrow> time \<Rightarrow> (ustr \<times> int) list \<Rightarrow> auth_rate_limit list \<Rightarrow> auth_rate_limit list \<times> int" where
  "admit_buckets s now [] rows = (rows, 0)"
| "admit_buckets s now ((key, limit) # bs) rows =
     (case bump s key now rows of (rows', r) \<Rightarrow>
        if rl_count r > limit
        then (rows', max 1 (min (auth_rate_window_seconds s) (ceil_seconds (rl_reset_at r - now))))
        else admit_buckets s now bs rows')"

text \<open>At most a hundred rows that expired an hour ago, the oldest first, without waiting for locks.\<close>

definition cleanup_limits :: "ustr list \<Rightarrow> time \<Rightarrow> auth_rate_limit list \<Rightarrow> auth_rate_limit list" where
  "cleanup_limits locked now rows =
     (let old = filter (\<lambda>r. rl_reset_at r < now - seconds 3600 \<and> rl_key r \<notin> set locked) rows;
          victims = map rl_key (take 100 (sort_key rl_reset_at old)) in
      filter (\<lambda>r. rl_key r \<notin> set victims) rows)"

definition client_ip :: "ustr option \<Rightarrow> ustr" where
  "client_ip host = (case host of None \<Rightarrow> lit ''unknown'' | Some h \<Rightarrow> h)"

definition ip_key :: "crypto \<Rightarrow> ustr option \<Rightarrow> ustr" where
  "ip_key cy host = cy_sha256 cy (lit ''ip:'' @ client_ip host)"

definition account_key :: "crypto \<Rightarrow> ustr option \<Rightarrow> ustr \<Rightarrow> ustr" where
  "account_key cy host username =
     cy_sha256 cy (lit ''account:'' @ client_ip host @ lit '':'' @ casefold username)"

text \<open>The counters are committed before the refusal is raised.\<close>

definition admit_auth_request ::
  "auth_settings \<Rightarrow> crypto \<Rightarrow> ustr list \<Rightarrow> ustr option \<Rightarrow> ustr \<Rightarrow> time \<Rightarrow> db \<Rightarrow> db \<times> unit res" where
  "admit_auth_request s cy locked host username now d =
     (case admit_buckets s now [(ip_key cy host, auth_rate_ip_limit s),
             (account_key cy host username, auth_rate_account_limit s)] (db_rate_limits d) of
        (rows, retry_after) \<Rightarrow>
          (d\<lparr>db_rate_limits := cleanup_limits locked now rows\<rparr>,
           if retry_after \<noteq> 0
           then Inl (HttpError 429 (lit ''Too many sign-in attempts. Try again shortly.''))
           else Inr ()))"

section \<open>Sessions\<close>

definition session_active :: "uuid \<Rightarrow> time \<Rightarrow> user_session \<Rightarrow> bool" where
  "session_active u now s \<longleftrightarrow> ss_user_id s = u \<and> ss_revoked_at s = None \<and> now < ss_expires_at s"

definition newest_sessions :: "user_session list \<Rightarrow> user_session list" where
  "newest_sessions ss = rev (sort_key (\<lambda>s. (ss_created_at s, ss_id s)) ss)"

text \<open>The ids revoked to make room: all but the newest \<open>auth_max_sessions - 1\<close> active ones.\<close>

definition surplus_sessions :: "auth_settings \<Rightarrow> uuid \<Rightarrow> time \<Rightarrow> user_session list \<Rightarrow> uuid list" where
  "surplus_sessions s u now ss =
     (let active_ids = map ss_id (newest_sessions (filter (session_active u now) ss)) in
      if int (length active_ids) \<ge> auth_max_sessions s
      then drop (nat (auth_max_sessions s - 1)) active_ids else [])"

definition prune_sessions :: "auth_settings \<Rightarrow> uuid \<Rightarrow> time \<Rightarrow> user_session list \<Rightarrow> user_session list" where
  "prune_sessions s u now ss =
     (let ids = surplus_sessions s u now ss in
      filter (\<lambda>x. \<not> (ss_user_id x = u \<and> ss_expires_at x < now - seconds (30 * 86400)))
        (update_where (\<lambda>x. ss_id x \<in> set ids) (\<lambda>x. x\<lparr>ss_revoked_at := Some now\<rparr>) ss))"

definition new_session :: "auth_settings \<Rightarrow> crypto \<Rightarrow> ustr \<Rightarrow> uuid \<Rightarrow> uuid \<Rightarrow> time \<Rightarrow> user_session" where
  "new_session s cy token new_id u now = \<lparr>
     ss_id = new_id, ss_user_id = u, ss_token_hash = cy_sha256 cy token,
     ss_expires_at = now + seconds (auth_session_ttl_seconds s), ss_last_seen_at = now,
     ss_revoked_at = None, ss_created_at = now\<rparr>"

text \<open>The insert fails on the primary key or on the unique token hash.\<close>

definition create_user_session ::
  "auth_settings \<Rightarrow> crypto \<Rightarrow> ustr \<Rightarrow> uuid \<Rightarrow> uuid \<Rightarrow> time \<Rightarrow> db \<Rightarrow> (db \<times> time) res" where
  "create_user_session s cy token new_id u now d =
     (let ss = prune_sessions s u now (db_sessions d); n = new_session s cy token new_id u now in
      if \<exists>x \<in> set ss. ss_id x = new_id \<or> ss_token_hash x = ss_token_hash n then Inl IntegrityError
      else Inr (d\<lparr>db_sessions := ss @ [n]\<rparr>, ss_expires_at n))"

section \<open>Registration and login\<close>

record auth_response =
  au_token :: ustr
  au_user_id :: uuid
  au_username :: ustr
  au_expires_at :: time

text \<open>What a request draws: the ids of the rows it may insert and the session token.\<close>

record draws =
  dr_user_id :: uuid
  dr_session_id :: uuid
  dr_token :: ustr

definition insert_user :: "user \<Rightarrow> db \<Rightarrow> db res" where
  "insert_user u d =
     (if \<exists>x \<in> set (db_users d). us_id x = us_id u \<or> us_username x = us_username u
           \<or> us_username_normalized x = us_username_normalized u
      then Inl IntegrityError else Inr (d\<lparr>db_users := db_users d @ [u]\<rparr>))"

definition open_session ::
  "auth_settings \<Rightarrow> crypto \<Rightarrow> draws \<Rightarrow> user \<Rightarrow> time \<Rightarrow> db \<Rightarrow> (db \<times> auth_response) res" where
  "open_session s cy dr u now d =
     (case create_user_session s cy (dr_token dr) (dr_session_id dr) (us_id u) now d of
        Inl e \<Rightarrow> Inl e
      | Inr (d', expires) \<Rightarrow> Inr (d', \<lparr>au_token = dr_token dr, au_user_id = us_id u,
          au_username = us_username u, au_expires_at = expires\<rparr>))"

definition register_user ::
  "auth_settings \<Rightarrow> crypto \<Rightarrow> ustr list \<Rightarrow> ustr option \<Rightarrow> draws \<Rightarrow> ustr \<Rightarrow> ustr \<Rightarrow> time \<Rightarrow> db
   \<Rightarrow> db \<times> auth_response res" where
  "register_user s cy locked host dr username password now d =
     (let username = strip username in
      case admit_auth_request s cy locked host username now d of
        (d1, Inl e) \<Rightarrow> (d1, Inl e)
      | (d1, Inr _) \<Rightarrow>
          (let u = \<lparr>us_id = dr_user_id dr, us_username = username,
                    us_username_normalized = casefold username,
                    us_password_hash = cy_hash cy password\<rparr> in
           case insert_user u d1 of
             Inl _ \<Rightarrow> (d1, Inl (HttpError 409 (lit ''Username is already taken'')))
           | Inr d2 \<Rightarrow>
               (case open_session s cy dr u now d2 of
                  Inl e \<Rightarrow> (d1, Inl e)
                | Inr (d3, r) \<Rightarrow> (d3, Inr r))))"

definition bad_login :: exn where
  "bad_login = HttpError 401 (lit ''Invalid username or password'')"

definition changed_login :: exn where
  "changed_login = HttpError 401 (lit ''Credentials changed; please sign in again'')"

definition find_user :: "ustr \<Rightarrow> db \<Rightarrow> user option" where
  "find_user normalized d = find (\<lambda>u. us_username_normalized u = normalized) (db_users d)"

text \<open>
  After the verification: the row is read again under its lock, and only the very credential that
  was verified opens a session.
\<close>

definition finish_login ::
  "auth_settings \<Rightarrow> crypto \<Rightarrow> draws \<Rightarrow> uuid \<Rightarrow> ustr \<Rightarrow> ustr option \<Rightarrow> time \<Rightarrow> db \<Rightarrow> db \<times> auth_response res" where
  "finish_login s cy dr i stored replacement now d =
     (case find_row us_id i (db_users d) of
        None \<Rightarrow> (d, Inl changed_login)
      | Some u \<Rightarrow>
          if us_password_hash u \<noteq> stored then (d, Inl changed_login)
          else
            (let u' = (case replacement of None \<Rightarrow> u | Some h \<Rightarrow> u\<lparr>us_password_hash := h\<rparr>);
                 d1 = d\<lparr>db_users := put_row us_id u' (db_users d)\<rparr> in
             case open_session s cy dr u' now d1 of
               Inl e \<Rightarrow> (d, Inl e)
             | Inr (d2, r) \<Rightarrow> (d2, Inr r)))"

definition login ::
  "auth_settings \<Rightarrow> crypto \<Rightarrow> ustr list \<Rightarrow> ustr option \<Rightarrow> draws \<Rightarrow> ustr \<Rightarrow> ustr \<Rightarrow> time \<Rightarrow> (db \<Rightarrow> db) \<Rightarrow> db
   \<Rightarrow> db \<times> auth_response res" where
  "login s cy locked host dr username password now env d =
     (let normalized = casefold (strip username) in
      case admit_auth_request s cy locked host normalized now d of
        (d1, Inl e) \<Rightarrow> (d1, Inl e)
      | (d1, Inr _) \<Rightarrow>
          (case find_user normalized d1 of
             None \<Rightarrow> (env d1, Inl bad_login)
           | Some u \<Rightarrow>
               (case verify_and_rehash cy password (Some (us_password_hash u)) of
                  (valid, replacement) \<Rightarrow>
                    if \<not> valid then (env d1, Inl bad_login)
                    else finish_login s cy dr (us_id u) (us_password_hash u) replacement now (env d1))))"

section \<open>Bearer tokens\<close>

definition unauthenticated :: exn where
  "unauthenticated = HttpError 401 (lit ''Authentication required'')"

definition bearer :: ustr where
  "bearer = lit ''Bearer ''"

definition token_length_ok :: "ustr \<Rightarrow> bool" where
  "token_length_ok t \<longleftrightarrow> 32 \<le> length t \<and> length t \<le> 128"

definition require_session_token :: "ustr option \<Rightarrow> ustr res" where
  "require_session_token authorization =
     (case authorization of
        None \<Rightarrow> Inl unauthenticated
      | Some a \<Rightarrow>
          if a = [] \<or> \<not> prefix bearer a then Inl unauthenticated
          else (let token = strip (drop (length bearer) a) in
                if \<not> token_length_ok token then Inl unauthenticated else Inr token))"

text \<open>The token hash is unique, so the join has at most one row.\<close>

definition session_valid :: "auth_settings \<Rightarrow> ustr \<Rightarrow> time \<Rightarrow> user_session \<Rightarrow> bool" where
  "session_valid s h now x \<longleftrightarrow>
     ss_token_hash x = h \<and> ss_revoked_at x = None \<and> now < ss_expires_at x
     \<and> now - seconds (auth_session_idle_seconds s) < ss_last_seen_at x"

definition touch_session :: "uuid \<Rightarrow> time \<Rightarrow> user_session list \<Rightarrow> user_session list" where
  "touch_session i now ss =
     update_where (\<lambda>x. ss_id x = i \<and> ss_revoked_at x = None) (\<lambda>x. x\<lparr>ss_last_seen_at := now\<rparr>) ss"

definition get_current_user ::
  "auth_settings \<Rightarrow> crypto \<Rightarrow> ustr option \<Rightarrow> time \<Rightarrow> db \<Rightarrow> db \<times> user res" where
  "get_current_user s cy authorization now d =
     (case require_session_token authorization of
        Inl e \<Rightarrow> (d, Inl e)
      | Inr token \<Rightarrow>
          (case find (\<lambda>x. session_valid s (cy_sha256 cy token) now x
                          \<and> find_row us_id (ss_user_id x) (db_users d) \<noteq> None) (db_sessions d) of
             None \<Rightarrow> (d, Inl unauthenticated)
           | Some x \<Rightarrow>
               (if ss_last_seen_at x < now - seconds 60
                then d\<lparr>db_sessions := touch_session (ss_id x) now (db_sessions d)\<rparr> else d,
                Inr (the (find_row us_id (ss_user_id x) (db_users d))))))"

definition logout :: "crypto \<Rightarrow> ustr option \<Rightarrow> time \<Rightarrow> db \<Rightarrow> db" where
  "logout cy authorization now d =
     (case require_session_token authorization of
        Inl _ \<Rightarrow> d
      | Inr token \<Rightarrow>
          d\<lparr>db_sessions := update_where
              (\<lambda>x. ss_token_hash x = cy_sha256 cy token \<and> ss_revoked_at x = None)
              (\<lambda>x. x\<lparr>ss_revoked_at := Some now\<rparr>) (db_sessions d)\<rparr>)"

definition logout_all :: "uuid \<Rightarrow> time \<Rightarrow> db \<Rightarrow> db" where
  "logout_all u now d =
     d\<lparr>db_sessions := update_where (\<lambda>x. ss_user_id x = u \<and> ss_revoked_at x = None)
         (\<lambda>x. x\<lparr>ss_revoked_at := Some now\<rparr>) (db_sessions d)\<rparr>"

section \<open>Facts: the admission limits\<close>

lemma bump_row_key [simp]:
  "rl_key (bump_row s key now None) = key" "rl_key (bump_row s key now (Some r)) = rl_key r"
  by (auto simp: bump_row_def)

text \<open>
  What a bucket may still admit before the window that begins now has passed: a bucket that will
  expire inside it admits its rest and one more full limit.
\<close>

definition budget :: "int \<Rightarrow> time \<Rightarrow> auth_rate_limit option \<Rightarrow> int" where
  "budget limit T old =
     (case old of
        None \<Rightarrow> limit
      | Some r \<Rightarrow> max 0 (limit - rl_count r) + (if rl_reset_at r < T then limit else 0))"

definition bucket :: "ustr \<Rightarrow> auth_rate_limit list \<Rightarrow> auth_rate_limit option" where
  "bucket key rows = find_row rl_key key rows"

lemma bucket_bump:
  assumes "bump s key now rows = (rows', r)"
  shows "bucket k rows' = (if k = key then Some r else bucket k rows)"
    and "r = bump_row s key now (bucket key rows)"
proof -
  have "bucket k rows' = (if k = key then Some r else bucket k rows) \<and> r = bump_row s key now (bucket key rows)"
  proof (cases "find_row rl_key key rows")
    case None
    with assms show ?thesis
      by (auto simp: bump_def Let_def bucket_def find_row_append split: option.split)
  next
    case (Some x)
    then have "rl_key x = key" by (rule find_row_Some(2))
    with assms Some show ?thesis by (auto simp: bump_def Let_def bucket_def find_put_row)
  qed
  then show "bucket k rows' = (if k = key then Some r else bucket k rows)"
    and "r = bump_row s key now (bucket key rows)" by simp_all
qed

lemma budget_bump:
  assumes "now < T" and "T \<le> now + seconds (auth_rate_window_seconds s)" and "1 \<le> limit"
  shows "budget limit T (Some (bump_row s key now old)) \<le> budget limit T old"
    and "rl_count (bump_row s key now old) \<le> limit \<Longrightarrow>
      budget limit T (Some (bump_row s key now old)) \<le> budget limit T old - 1"
  using assms by (auto simp: budget_def bump_row_def max_def split: option.split)

lemma budget_nonneg: "0 \<le> limit \<Longrightarrow> 0 \<le> budget limit T old"
  by (auto simp: budget_def split: option.split)

definition rows_ok :: "auth_rate_limit list \<Rightarrow> bool" where
  "rows_ok rows \<longleftrightarrow> keys_distinct rl_key rows \<and> (\<forall>r \<in> set rows. 1 \<le> rl_count r)"

lemma rows_ok_bump:
  assumes "bump s key now rows = (rows', r)" and "rows_ok rows"
  shows "rows_ok rows'"
proof (cases "find_row rl_key key rows")
  case None
  with assms show ?thesis
    by (auto simp: rows_ok_def bump_def Let_def keys_distinct_append find_row_None_iff bump_row_def)
next
  case (Some x)
  then have "x \<in> set rows" by (rule find_row_Some(1))
  with assms(2) have "1 \<le> rl_count (bump_row s key now (Some x))"
    by (auto simp: rows_ok_def bump_row_def)
  with Some assms show ?thesis
    by (auto simp: rows_ok_def bump_def Let_def keys_distinct_put_row dest: set_put_row)
qed

lemma rows_ok_filter: "rows_ok rows \<Longrightarrow> rows_ok (filter p rows)"
  by (simp add: rows_ok_def keys_distinct_def distinct_map_filter)

lemma budget_cleanup:
  assumes "now < T" and "1 \<le> limit" and "rows_ok rows"
  shows "budget limit T (bucket k (cleanup_limits locked now rows)) \<le> budget limit T (bucket k rows)"
proof -
  let ?old = "filter (\<lambda>r. rl_reset_at r < now - seconds 3600 \<and> rl_key r \<notin> set locked) rows"
  let ?victims = "set (map rl_key (take 100 (sort_key rl_reset_at ?old)))"
  have cut: "bucket k (cleanup_limits locked now rows) = (if k \<in> ?victims then None else bucket k rows)"
    by (simp add: bucket_def cleanup_limits_def Let_def find_row_filter_key)
  show ?thesis
  proof (cases "k \<in> ?victims")
    case True
    then obtain x where "x \<in> set ?old" "rl_key x = k"
      by (auto dest!: in_set_takeD)
    then have "bucket k rows = Some x" and "rl_reset_at x < T"
      using find_row_in_distinct [of rl_key rows x] assms(1,3) by (auto simp: bucket_def seconds_def rows_ok_def)
    with True cut assms(2) show ?thesis by (simp add: budget_def)
  qed (simp add: cut)
qed

text \<open>One admission: the buckets stay keyed, no budget grows, and an admitted request pays.\<close>

lemma admit_buckets_budget:
  assumes "admit_buckets s now bs rows = (rows', w)" and "rows_ok rows"
    and "now < T" "T \<le> now + seconds (auth_rate_window_seconds s)" "1 \<le> limit"
  shows "rows_ok rows' \<and> budget limit T (bucket k rows') \<le> budget limit T (bucket k rows)
    \<and> (w = 0 \<and> (k, limit) \<in> set bs \<longrightarrow>
        budget limit T (bucket k rows') \<le> budget limit T (bucket k rows) - 1)"
  using assms
proof (induction s now bs rows arbitrary: rows' w rule: admit_buckets.induct)
  case (1 s now rows)
  then show ?case by simp
next
  case (2 s now key lim bs rows)
  obtain mid r where b: "bump s key now rows = (mid, r)" by fastforce
  note props = bucket_bump(1) [OF b, of k] bucket_bump(2) [OF b] rows_ok_bump [OF b "2.prems"(2)]
  note pay = budget_bump [OF "2.prems"(3-5), where old = "bucket key rows" and key = key]
  have one: "budget limit T (bucket k mid) \<le> budget limit T (bucket k rows)"
    using props(1,2) pay(1) by simp
  have two: "budget limit T (bucket k mid) \<le> budget limit T (bucket k rows) - 1"
    if "k = key" "rl_count r \<le> limit"
    using props(1,2) pay(2) that by simp
  show ?case
  proof (cases "rl_count r > lim")
    case True
    with "2.prems"(1) b one props(3) show ?thesis by auto
  next
    case False
    with "2.prems"(1) b have rest: "admit_buckets s now bs mid = (rows', w)" by simp
    from "2.IH" [OF b [symmetric] False rest props(3) "2.prems"(3-5)] one two False
    show ?thesis by fastforce
  qed
qed

text \<open>A run of sign-in requests, each with its client, username, time and locks.\<close>

record auth_request =
  rq_host :: "ustr option"
  rq_username :: ustr
  rq_time :: time
  rq_locked :: "ustr list"

definition admit_request :: "auth_settings \<Rightarrow> crypto \<Rightarrow> auth_request \<Rightarrow> db \<Rightarrow> db \<times> unit res" where
  "admit_request s cy q = admit_auth_request s cy (rq_locked q) (rq_host q) (rq_username q) (rq_time q)"

fun admitted :: "auth_settings \<Rightarrow> crypto \<Rightarrow> auth_request list \<Rightarrow> db \<Rightarrow> auth_request list" where
  "admitted s cy [] d = []"
| "admitted s cy (q # qs) d =
     (case admit_request s cy q d of (d', r) \<Rightarrow>
        (if r = Inr () then [q] else []) @ admitted s cy qs d')"

definition limits_ok :: "db \<Rightarrow> bool" where
  "limits_ok d \<longleftrightarrow> rows_ok (db_rate_limits d)"

lemma admit_request_budget:
  assumes "admit_request s cy q d = (d', r)" and "limits_ok d"
    and "rq_time q < T" "T \<le> rq_time q + seconds (auth_rate_window_seconds s)" "1 \<le> limit"
    and "1 \<le> auth_rate_window_seconds s"
  shows "limits_ok d' \<and> budget limit T (bucket k (db_rate_limits d')) \<le> budget limit T (bucket k (db_rate_limits d))
    \<and> (r = Inr () \<and> (k, limit) \<in> {(ip_key cy (rq_host q), auth_rate_ip_limit s),
          (account_key cy (rq_host q) (rq_username q), auth_rate_account_limit s)} \<longrightarrow>
        budget limit T (bucket k (db_rate_limits d')) \<le> budget limit T (bucket k (db_rate_limits d)) - 1)"
proof -
  let ?bs = "[(ip_key cy (rq_host q), auth_rate_ip_limit s),
     (account_key cy (rq_host q) (rq_username q), auth_rate_account_limit s)]"
  obtain rows w where a: "admit_buckets s (rq_time q) ?bs (db_rate_limits d) = (rows, w)" by fastforce
  with assms(1) have d': "db_rate_limits d' = cleanup_limits (rq_locked q) (rq_time q) rows"
    and r: "r = Inr () \<longleftrightarrow> w = 0"
    by (auto simp: admit_request_def admit_auth_request_def split: if_splits)
  from admit_buckets_budget [OF a _ assms(3-5), of k] assms(2)
  have b: "rows_ok rows" "budget limit T (bucket k rows) \<le> budget limit T (bucket k (db_rate_limits d))"
    "w = 0 \<Longrightarrow> (k, limit) \<in> set ?bs \<Longrightarrow>
       budget limit T (bucket k rows) \<le> budget limit T (bucket k (db_rate_limits d)) - 1"
    by (auto simp: limits_ok_def)
  have "rows_ok (db_rate_limits d')"
    unfolding d' cleanup_limits_def Let_def using b(1) by (rule rows_ok_filter)
  with budget_cleanup [OF assms(3,5) b(1), of k "rq_locked q"] b r show ?thesis
    by (auto simp: limits_ok_def d')
qed

lemma admitted_budget:
  assumes "limits_ok d" and "\<forall>q \<in> set qs. T - seconds (auth_rate_window_seconds s) \<le> rq_time q \<and> rq_time q < T"
    and "1 \<le> limit" "1 \<le> auth_rate_window_seconds s"
    and "\<And>q. p q \<Longrightarrow> (k, limit) \<in> {(ip_key cy (rq_host q), auth_rate_ip_limit s),
          (account_key cy (rq_host q) (rq_username q), auth_rate_account_limit s)}"
  shows "int (length (filter p (admitted s cy qs d))) \<le> budget limit T (bucket k (db_rate_limits d))"
  using assms(1,2)
proof (induction qs arbitrary: d)
  case Nil
  show ?case using budget_nonneg [of limit] assms(3) by simp
next
  case (Cons q qs)
  obtain d' r where q: "admit_request s cy q d = (d', r)" by fastforce
  from Cons.prems have t: "rq_time q < T" "T \<le> rq_time q + seconds (auth_rate_window_seconds s)" by auto
  from admit_request_budget [OF q Cons.prems(1) t assms(3,4), of k]
  have one: "limits_ok d'" "budget limit T (bucket k (db_rate_limits d')) \<le> budget limit T (bucket k (db_rate_limits d))"
    "r = Inr () \<Longrightarrow> p q \<Longrightarrow>
      budget limit T (bucket k (db_rate_limits d')) \<le> budget limit T (bucket k (db_rate_limits d)) - 1"
    using assms(5) by blast+
  from Cons.IH [OF one(1)] Cons.prems(2)
  have "int (length (filter p (admitted s cy qs d'))) \<le> budget limit T (bucket k (db_rate_limits d'))" by simp
  with one(2,3) q show ?case by auto
qed

lemma budget_twice: "rows_ok rows \<Longrightarrow> 1 \<le> limit \<Longrightarrow> budget limit T (bucket k rows) \<le> 2 * limit"
  by (auto simp: budget_def bucket_def rows_ok_def split: option.split dest!: find_row_Some(1))

section \<open>Facts: sessions\<close>

definition active_sessions :: "uuid \<Rightarrow> time \<Rightarrow> db \<Rightarrow> user_session list" where
  "active_sessions u now d = filter (session_active u now) (db_sessions d)"

lemma length_filter_newest: "length (filter p (newest_sessions xs)) = length (filter p xs)"
proof -
  have "mset (filter p (newest_sessions xs)) = mset (filter p xs)"
    by (simp add: newest_sessions_def mset_filter)
  then show ?thesis by (rule mset_eq_length)
qed

text \<open>Pruning leaves fewer active sessions than the cap.\<close>

lemma length_filter_take:
  "length (filter (\<lambda>x. f x \<notin> f ` set (drop n xs)) xs) \<le> n"
proof -
  have "filter (\<lambda>x. f x \<notin> f ` set (drop n xs)) (drop n xs) = []" by simp
  then have "filter (\<lambda>x. f x \<notin> f ` set (drop n xs)) xs = filter (\<lambda>x. f x \<notin> f ` set (drop n xs)) (take n xs)"
    by (metis append_Nil2 append_take_drop_id filter_append)
  then show ?thesis
    by (metis length_filter_le length_take min.cobounded2 order_trans)
qed

lemma prune_filter_le:
  "length (filter (session_active u now) (filter p
      (update_where (\<lambda>x. ss_id x \<in> ids) (\<lambda>x. x\<lparr>ss_revoked_at := Some now\<rparr>) ss)))
   \<le> length (filter (\<lambda>x. ss_id x \<notin> ids) (filter (session_active u now) ss))"
  by (induction ss) (auto simp: session_active_def update_where_def)

lemma prune_active:
  assumes "1 \<le> auth_max_sessions s"
  shows "int (length (filter (session_active u now) (prune_sessions s u now ss))) < auth_max_sessions s"
proof -
  let ?act = "filter (session_active u now) ss"
  let ?new = "newest_sessions ?act"
  let ?ids = "set (surplus_sessions s u now ss)"
  have le: "length (filter (session_active u now) (prune_sessions s u now ss)) \<le>
      length (filter (\<lambda>x. ss_id x \<notin> ?ids) ?new)"
    unfolding length_filter_newest prune_sessions_def Let_def by (rule prune_filter_le)
  have "int (length (filter (\<lambda>x. ss_id x \<notin> ?ids) ?new)) < auth_max_sessions s"
  proof (cases "int (length ?new) \<ge> auth_max_sessions s")
    case True
    then have ids: "?ids = ss_id ` set (drop (nat (auth_max_sessions s - 1)) ?new)"
      by (simp add: surplus_sessions_def Let_def drop_map)
    show ?thesis
      using length_filter_take [of ss_id "nat (auth_max_sessions s - 1)" ?new] assms
      unfolding ids by linarith
  next
    case False
    have "length (filter (\<lambda>x. ss_id x \<notin> ?ids) ?new) \<le> length ?new" by simp
    with False show ?thesis by linarith
  qed
  with le show ?thesis by linarith
qed

lemma create_user_session_cases:
  assumes "create_user_session s cy token new_id u now d = Inr (d', e)"
  shows "db_sessions d' = prune_sessions s u now (db_sessions d) @ [new_session s cy token new_id u now]"
    and "e = now + seconds (auth_session_ttl_seconds s)" and "d' = d\<lparr>db_sessions := db_sessions d'\<rparr>"
    and "\<forall>x \<in> set (prune_sessions s u now (db_sessions d)). ss_id x \<noteq> new_id \<and> ss_token_hash x \<noteq> cy_sha256 cy token"
  using assms by (auto simp: create_user_session_def Let_def new_session_def split: if_splits)

lemma create_user_session_capped:
  assumes "create_user_session s cy token new_id u now d = Inr (d', e)" and "1 \<le> auth_max_sessions s"
  shows "int (length (active_sessions u now d')) \<le> auth_max_sessions s"
  using prune_active [OF assms(2), of u now "db_sessions d"]
  by (simp add: active_sessions_def create_user_session_cases(1) [OF assms(1)])

text \<open>No rewrite of the table that cannot revive a session raises a count.\<close>

lemma active_rewrite_le:
  assumes "\<And>x. session_active u n (f x) \<Longrightarrow> session_active u n x"
  shows "length (filter (session_active u n) (filter p (update_where q f ss)))
    \<le> length (filter (session_active u n) ss)"
  using assms by (induction ss) (auto simp: update_where_def)

lemma active_update_le:
  assumes "\<And>x. session_active u n (f x) \<Longrightarrow> session_active u n x"
  shows "length (filter (session_active u n) (update_where q f ss)) \<le> length (filter (session_active u n) ss)"
  using active_rewrite_le [OF assms, where p = "\<lambda>x. True"] by simp

lemma session_active_revoked [simp]: "\<not> session_active u n (x\<lparr>ss_revoked_at := Some t\<rparr>)"
  by (simp add: session_active_def)

lemma session_active_touched [simp]: "session_active u n (x\<lparr>ss_last_seen_at := t\<rparr>) = session_active u n x"
  by (simp add: session_active_def)

lemma length_filter_mono: "(\<And>x. p x \<Longrightarrow> q x) \<Longrightarrow> length (filter p xs) \<le> length (filter q xs)"
  by (induction xs) auto

definition capped :: "auth_settings \<Rightarrow> time \<Rightarrow> db \<Rightarrow> bool" where
  "capped s clock d \<longleftrightarrow> (\<forall>u n. clock \<le> n \<longrightarrow> int (length (active_sessions u n d)) \<le> auth_max_sessions s)"

lemma capped_mono:
  assumes "capped s clock d" and "clock \<le> now"
    and "\<And>u n. length (filter (session_active u n) (db_sessions d')) \<le> length (filter (session_active u n) (db_sessions d))"
  shows "capped s now d'"
proof -
  have "int (length (active_sessions u n d')) \<le> auth_max_sessions s" if "now \<le> n" for u n
  proof -
    have "int (length (active_sessions u n d)) \<le> auth_max_sessions s"
      using assms(1,2) that by (simp add: capped_def)
    with assms(3) [of u n] show ?thesis unfolding active_sessions_def by linarith
  qed
  then show ?thesis by (simp add: capped_def)
qed

lemma prune_active_le:
  "length (filter (session_active v n) (prune_sessions s u now ss)) \<le> length (filter (session_active v n) ss)"
  unfolding prune_sessions_def Let_def by (rule active_rewrite_le) simp

lemma session_active_new [simp]:
  "session_active v n (new_session s cy token new_id u now) \<longleftrightarrow>
     v = u \<and> n < now + seconds (auth_session_ttl_seconds s)"
  by (auto simp: session_active_def new_session_def)

lemma create_keeps_cap:
  assumes "create_user_session s cy token new_id u now d = Inr (d', e)" and "1 \<le> auth_max_sessions s"
    and "capped s clock d" and "clock \<le> now"
  shows "capped s now d'"
proof -
  have "int (length (active_sessions v n d')) \<le> auth_max_sessions s" if n: "now \<le> n" for v n
  proof (cases "v = u")
    case True
    have "length (active_sessions u n d') \<le> length (active_sessions u now d')"
      unfolding active_sessions_def using n by (intro length_filter_mono) (simp add: session_active_def)
    with create_user_session_capped [OF assms(1,2)] True show ?thesis by simp
  next
    case False
    have "length (active_sessions v n d') \<le> length (active_sessions v n d)"
      using False prune_active_le [of v n s u now "db_sessions d"]
      unfolding active_sessions_def create_user_session_cases(1) [OF assms(1)] by simp
    moreover have "int (length (active_sessions v n d)) \<le> auth_max_sessions s"
      using assms(3,4) n by (simp add: capped_def)
    ultimately show ?thesis by linarith
  qed
  then show ?thesis by (simp add: capped_def)
qed

section \<open>Properties\<close>

text \<open>
  C34. Sign-in attempts are limited: in any stretch of time as long as the window, whatever requests
  of whatever clients come in between and however clocks and locks fall, at most twice the
  account limit of the attempts of one client on one account are admitted, and at most twice the
  address limit of the attempts of one client.
\<close>

theorem sign_in_attempts_limited:
  assumes "valid_auth_settings s" and "limits_ok d"
    and "\<forall>q \<in> set qs. T - seconds (auth_rate_window_seconds s) \<le> rq_time q \<and> rq_time q < T"
  shows "int (length (filter (\<lambda>q. rq_host q = host \<and> casefold (rq_username q) = casefold username)
            (admitted s cy qs d))) \<le> 2 * auth_rate_account_limit s
    \<and> int (length (filter (\<lambda>q. rq_host q = host) (admitted s cy qs d))) \<le> 2 * auth_rate_ip_limit s"
proof -
  from assms(1) have l: "1 \<le> auth_rate_account_limit s" "1 \<le> auth_rate_ip_limit s" "1 \<le> auth_rate_window_seconds s"
    by (simp_all add: valid_auth_settings_def)
  note twice = budget_twice [OF assms(2) [unfolded limits_ok_def]]
  have "int (length (filter (\<lambda>q. rq_host q = host \<and> casefold (rq_username q) = casefold username)
      (admitted s cy qs d))) \<le> budget (auth_rate_account_limit s) T (bucket (account_key cy host username) (db_rate_limits d))"
    by (rule admitted_budget [OF assms(2,3) l(1,3)]) (simp add: account_key_def)
  moreover have "int (length (filter (\<lambda>q. rq_host q = host) (admitted s cy qs d)))
      \<le> budget (auth_rate_ip_limit s) T (bucket (ip_key cy host) (db_rate_limits d))"
    by (rule admitted_budget [OF assms(2,3) l(2,3)]) simp
  ultimately show ?thesis
    using twice [OF l(1), of T "account_key cy host username"] twice [OF l(2), of T "ip_key cy host"] by linarith
qed

definition demo_crypto :: crypto where
  "demo_crypto = \<lparr>
     cy_params = (\<lambda>h. if prefix argon_prefix h then Some \<lparr>ag_type_id = True, ag_version = 19, ag_time_cost = 3,
       ag_memory_cost = 65536, ag_parallelism = 4, ag_salt_len = 16, ag_hash_len = 32\<rparr> else None),
     cy_verify = (\<lambda>h p. h = argon_prefix @ p), cy_hash = (\<lambda>p. argon_prefix @ p),
     cy_needs_rehash = (\<lambda>h. False), cy_pbkdf2 = (\<lambda>p salt n. []), cy_sha256 = id\<rparr>"

definition demo_requests :: "auth_request list" where
  "demo_requests = replicate 25 \<lparr>rq_host = None, rq_username = lit ''alice'', rq_time = 5, rq_locked = []\<rparr>"

theorem sign_in_attempts_limited_witness:
  "int (length (filter (\<lambda>q. rq_host q = None) (admitted default_auth_settings demo_crypto demo_requests empty_db))) \<le> 60"
proof -
  have "int (length (filter (\<lambda>q. rq_host q = None) (admitted default_auth_settings demo_crypto demo_requests empty_db)))
      \<le> 2 * auth_rate_ip_limit default_auth_settings"
    by (rule conjunct2 [OF sign_in_attempts_limited [of default_auth_settings empty_db demo_requests "seconds 60"]])
      (simp_all add: valid_auth_settings_def limits_ok_def rows_ok_def keys_distinct_def empty_db_def
        demo_requests_def default_auth_settings_def seconds_def)
  then show ?thesis by (simp add: default_auth_settings_def)
qed

end
