(* ===== verification/Auth_System.thy ===== *)
theory Auth_System
  imports Auth
begin

text \<open>
  The sign-in handlers of \<open>Auth\<close> as one system: every interleaving of registrations, logins,
  authenticated requests and sign-outs is a run of \<open>auth_step\<close>. The session cap and the finality
  of a sign-out are proved over all runs.
\<close>

section \<open>The sign-in system\<close>

text \<open>
  The state of a run: the database, the digests of every token drawn so far and the clock. A
  login is its admission, then what others do, then \<open>finish_login\<close>; the steps are these parts, so
  that every interleaving is a run. Tokens are drawn fresh (256 random bits).
\<close>

record auth_state =
  at_db :: db
  at_tokens :: "ustr list"
  at_clock :: time

definition at_next :: "auth_state \<Rightarrow> db \<Rightarrow> time \<Rightarrow> auth_state" where
  "at_next x d now = x\<lparr>at_db := d, at_clock := now\<rparr>"

definition at_draw :: "auth_state \<Rightarrow> ustr \<Rightarrow> auth_state" where
  "at_draw x h = x\<lparr>at_tokens := h # at_tokens x\<rparr>"

inductive auth_step :: "auth_settings \<Rightarrow> crypto \<Rightarrow> auth_state \<Rightarrow> auth_state \<Rightarrow> bool" for s cy where
  admission: "at_clock x \<le> now \<Longrightarrow>
    auth_step s cy x (at_next x (fst (admit_auth_request s cy locked host username now (at_db x))) now)"
| registration: "at_clock x \<le> now \<Longrightarrow> cy_sha256 cy (dr_token dr) \<notin> set (at_tokens x) \<Longrightarrow>
    auth_step s cy x (at_draw (at_next x
      (fst (register_user s cy locked host dr username password now (at_db x))) now) (cy_sha256 cy (dr_token dr)))"
| login_end: "at_clock x \<le> now \<Longrightarrow> cy_sha256 cy (dr_token dr) \<notin> set (at_tokens x) \<Longrightarrow>
    auth_step s cy x (at_draw (at_next x
      (fst (finish_login s cy dr i stored replacement now (at_db x))) now) (cy_sha256 cy (dr_token dr)))"
| authentication: "at_clock x \<le> now \<Longrightarrow>
    auth_step s cy x (at_next x (fst (get_current_user s cy authorization now (at_db x))) now)"
| sign_out: "at_clock x \<le> now \<Longrightarrow>
    auth_step s cy x (at_next x (logout cy authorization now (at_db x)) now)"
| sign_out_all: "at_clock x \<le> now \<Longrightarrow>
    auth_step s cy x (at_next x (logout_all u now (at_db x)) now)"

text \<open>What a step does to the session table: rewrite it without reviving, or open one session.\<close>

definition sessions_shrink :: "db \<Rightarrow> db \<Rightarrow> bool" where
  "sessions_shrink d d' \<longleftrightarrow>
     (\<exists>q f. db_sessions d' = update_where q f (db_sessions d)
        \<and> (\<forall>x. ss_token_hash (f x) = ss_token_hash x)
        \<and> (\<forall>x. ss_revoked_at x \<noteq> None \<longrightarrow> ss_revoked_at (f x) \<noteq> None)
        \<and> (\<forall>u n x. session_active u n (f x) \<longrightarrow> session_active u n x))"

lemma sessions_shrink_same: "db_sessions d' = db_sessions d \<Longrightarrow> sessions_shrink d d'"
  unfolding sessions_shrink_def
  by (rule exI [of _ "\<lambda>_. False"], rule exI [of _ id]) (simp add: update_where_def)

lemma sessions_shrink_revoke:
  "sessions_shrink d (d\<lparr>db_sessions := update_where q (\<lambda>x. x\<lparr>ss_revoked_at := Some t\<rparr>) (db_sessions d)\<rparr>)"
  unfolding sessions_shrink_def by (rule exI [of _ q], rule exI) (auto simp: session_active_def)

lemma sessions_shrink_touch:
  "sessions_shrink d (d\<lparr>db_sessions := touch_session i t (db_sessions d)\<rparr>)"
  unfolding sessions_shrink_def touch_session_def
  by (rule exI [of _ "\<lambda>x. ss_id x = i \<and> ss_revoked_at x = None"],
      rule exI [of _ "\<lambda>x. x\<lparr>ss_last_seen_at := t\<rparr>"]) simp

lemma admit_keeps [simp]:
  "db_sessions (fst (admit_auth_request s cy locked host username now d)) = db_sessions d"
  "db_users (fst (admit_auth_request s cy locked host username now d)) = db_users d"
  by (simp_all add: admit_auth_request_def split: prod.split)

lemma open_session_Inr:
  assumes "open_session s cy dr u now d = Inr (d', a)"
  shows "create_user_session s cy (dr_token dr) (dr_session_id dr) (us_id u) now d = Inr (d', au_expires_at a)"
    and "au_token a = dr_token dr" and "au_user_id a = us_id u" and "db_users d' = db_users d"
proof -
  obtain d1 e where c: "create_user_session s cy (dr_token dr) (dr_session_id dr) (us_id u) now d = Inr (d1, e)"
    and a: "d' = d1" "a = \<lparr>au_token = dr_token dr, au_user_id = us_id u, au_username = us_username u,
      au_expires_at = e\<rparr>"
    using assms by (auto simp: open_session_def split: sum.splits)
  from a show "au_token a = dr_token dr" and "au_user_id a = us_id u" by simp_all
  from c a show "create_user_session s cy (dr_token dr) (dr_session_id dr) (us_id u) now d = Inr (d', au_expires_at a)"
    by simp
  have "d1 = d\<lparr>db_sessions := db_sessions d1\<rparr>" using c by (rule create_user_session_cases(3))
  then have "db_users d1 = db_users (d\<lparr>db_sessions := db_sessions d1\<rparr>)" by simp
  with a show "db_users d' = db_users d" by simp
qed

lemma insert_user_Inr:
  assumes "insert_user u d = Inr d'"
  shows "db_sessions d' = db_sessions d" and "find_row us_id (us_id u) (db_users d') = Some u"
proof -
  from assms have d': "d' = d\<lparr>db_users := db_users d @ [u]\<rparr>" "us_id u \<notin> us_id ` set (db_users d)"
    by (auto simp: insert_user_def split: if_splits)
  then have "find_row us_id (us_id u) (db_users d) = None" by (simp add: find_row_None_iff)
  with d' show "db_sessions d' = db_sessions d" and "find_row us_id (us_id u) (db_users d') = Some u"
    by (simp_all add: find_row_append)
qed

lemma register_user_cases:
  assumes "register_user s cy locked host dr username password now d = (d', r)"
  obtains (refused) e where "r = Inl e" "db_sessions d' = db_sessions d"
  | (opened) a d2 where "r = Inr a" "db_sessions d2 = db_sessions d"
      "create_user_session s cy (dr_token dr) (dr_session_id dr) (dr_user_id dr) now d2 = Inr (d', au_expires_at a)"
      "au_token a = dr_token dr" "au_user_id a = dr_user_id dr"
      "find_row us_id (dr_user_id dr) (db_users d') = Some \<lparr>us_id = dr_user_id dr, us_username = strip username,
          us_username_normalized = casefold (strip username), us_password_hash = cy_hash cy password\<rparr>"
proof -
  obtain d1 q where ad: "admit_auth_request s cy locked host (strip username) now d = (d1, q)" by fastforce
  then have d1: "db_sessions d1 = db_sessions d" using admit_keeps(1) [of s cy locked host "strip username" now d] by simp
  let ?u = "\<lparr>us_id = dr_user_id dr, us_username = strip username,
     us_username_normalized = casefold (strip username), us_password_hash = cy_hash cy password\<rparr>"
  show thesis
  proof (cases "\<exists>d2 d3 a. q = Inr () \<and> insert_user ?u d1 = Inr d2 \<and> open_session s cy dr ?u now d2 = Inr (d3, a)")
    case False
    with assms ad d1 show ?thesis
      by (intro refused [of "projl r"]) (auto simp: register_user_def Let_def split: sum.splits)
  next
    case True
    then obtain d2 d3 a where ok: "q = Inr ()" "insert_user ?u d1 = Inr d2" "open_session s cy dr ?u now d2 = Inr (d3, a)"
      by blast
    note op = open_session_Inr [OF ok(3)] and ins = insert_user_Inr [OF ok(2)]
    show ?thesis
    proof (rule opened [of a d2])
      show "r = Inr a" using assms ad ok by (simp add: register_user_def Let_def)
      have "d' = d3" using assms ad ok by (simp add: register_user_def Let_def)
      with op ins d1 show "db_sessions d2 = db_sessions d"
        "create_user_session s cy (dr_token dr) (dr_session_id dr) (dr_user_id dr) now d2 = Inr (d', au_expires_at a)"
        "au_token a = dr_token dr" "au_user_id a = dr_user_id dr"
        "find_row us_id (dr_user_id dr) (db_users d') = Some ?u" by simp_all
    qed
  qed
qed

lemma finish_login_cases:
  assumes "finish_login s cy dr i stored replacement now d = (d', r)"
  obtains (refused) e where "r = Inl e" "d' = d"
  | (opened) a u d2 where "r = Inr a" "find_row us_id i (db_users d) = Some u" "us_password_hash u = stored"
      "db_sessions d2 = db_sessions d"
      "create_user_session s cy (dr_token dr) (dr_session_id dr) i now d2 = Inr (d', au_expires_at a)"
      "au_token a = dr_token dr" "au_user_id a = i"
      "find_row us_id i (db_users d') = Some (case replacement of None \<Rightarrow> u | Some h \<Rightarrow> u\<lparr>us_password_hash := h\<rparr>)"
proof (cases "\<exists>u. find_row us_id i (db_users d) = Some u \<and> us_password_hash u = stored")
  case False
  with assms show thesis
    by (intro refused [of "projl r"]) (auto simp: finish_login_def split: option.splits)
next
  case True
  then obtain u where u: "find_row us_id i (db_users d) = Some u" "us_password_hash u = stored" by blast
  then have id: "us_id u = i" by (auto dest: find_row_Some)
  let ?u = "case replacement of None \<Rightarrow> u | Some h \<Rightarrow> u\<lparr>us_password_hash := h\<rparr>"
  let ?d1 = "d\<lparr>db_users := put_row us_id ?u (db_users d)\<rparr>"
  have uid: "us_id ?u = i" using id by (simp split: option.split)
  show thesis
  proof (cases "open_session s cy dr ?u now ?d1")
    case (Inl e)
    with assms u show ?thesis by (intro refused [of e]) (simp_all add: finish_login_def Let_def)
  next
    case (Inr p)
    obtain d2 a where p: "p = (d2, a)" by fastforce
    note op = open_session_Inr [OF Inr [unfolded p]]
    have r: "r = Inr a" "d' = d2" using assms u Inr p by (simp_all add: finish_login_def Let_def)
    have "find_row us_id i (put_row us_id ?u (db_users d)) = Some ?u"
      using u(1) uid by (simp add: find_put_row)
    with op r u uid show ?thesis by (intro opened [of a u ?d1]) simp_all
  qed
qed

text \<open>Every step rewrites the sessions or opens one under a fresh token.\<close>

lemma shrink_cases:
  "sessions_shrink d (fst (get_current_user s cy authorization now d))"
  "sessions_shrink d (logout cy authorization now d)"
  "sessions_shrink d (logout_all u now d)"
proof -
  show "sessions_shrink d (fst (get_current_user s cy authorization now d))"
    by (auto simp: get_current_user_def sessions_shrink_touch sessions_shrink_same split: sum.split option.split)
  show "sessions_shrink d (logout cy authorization now d)"
    by (auto simp: logout_def sessions_shrink_revoke sessions_shrink_same split: sum.split)
  show "sessions_shrink d (logout_all u now d)"
    by (simp add: logout_all_def sessions_shrink_revoke)
qed

lemma auth_step_sessions:
  assumes "auth_step s cy x y"
  obtains (shrunk) "sessions_shrink (at_db x) (at_db y)" "set (at_tokens x) \<subseteq> set (at_tokens y)"
      "at_clock x \<le> at_clock y"
  | (opened) d and dr :: draws and u e where "db_sessions d = db_sessions (at_db x)"
      "create_user_session s cy (dr_token dr) (dr_session_id dr) u (at_clock y) d = Inr (at_db y, e)"
      "cy_sha256 cy (dr_token dr) \<notin> set (at_tokens x)"
      "at_tokens y = cy_sha256 cy (dr_token dr) # at_tokens x" "at_clock x \<le> at_clock y"
  using assms
proof cases
  case (registration now dr locked host username password)
  obtain d' r where w: "register_user s cy locked host dr username password now (at_db x) = (d', r)" by fastforce
  then show ?thesis
  proof (cases rule: register_user_cases)
    case (refused e)
    with registration w show ?thesis
      by (intro that(1)) (auto simp: at_next_def at_draw_def intro: sessions_shrink_same)
  next
    case op: (opened a d2)
    with registration w show ?thesis
      by (intro that(2) [of d2 dr "dr_user_id dr" "au_expires_at a"]) (auto simp: at_next_def at_draw_def)
  qed
next
  case (login_end now dr i stored replacement)
  obtain d' r where w: "finish_login s cy dr i stored replacement now (at_db x) = (d', r)" by fastforce
  then show ?thesis
  proof (cases rule: finish_login_cases)
    case (refused e)
    with login_end w show ?thesis
      by (intro that(1)) (auto simp: at_next_def at_draw_def intro: sessions_shrink_same)
  next
    case op: (opened a u d2)
    with login_end w show ?thesis
      by (intro that(2) [of d2 dr i "au_expires_at a"]) (auto simp: at_next_def at_draw_def)
  qed
qed (auto intro!: shrunk simp: at_next_def shrink_cases sessions_shrink_same)

section \<open>The invariant\<close>

definition auth_initial :: "auth_settings \<Rightarrow> auth_state \<Rightarrow> bool" where
  "auth_initial s x \<longleftrightarrow> valid_auth_settings s \<and> db_sessions (at_db x) = []"

definition auth_inv :: "auth_settings \<Rightarrow> auth_state \<Rightarrow> bool" where
  "auth_inv s x \<longleftrightarrow> valid_auth_settings s \<and> capped s (at_clock x) (at_db x)
     \<and> (\<forall>y \<in> set (db_sessions (at_db x)). ss_token_hash y \<in> set (at_tokens x))"

lemma shrink_hashes:
  "sessions_shrink d d' \<Longrightarrow> ss_token_hash ` set (db_sessions d') = ss_token_hash ` set (db_sessions d)"
  by (auto simp: sessions_shrink_def map_key_update_where simp flip: set_map)

lemma shrink_capped:
  assumes "sessions_shrink d d'" and "capped s c d" and "c \<le> c'"
  shows "capped s c' d'"
proof (rule capped_mono [OF assms(2,3)])
  fix u n
  from assms(1) obtain q f where f: "db_sessions d' = update_where q f (db_sessions d)"
    "\<And>x. session_active u n (f x) \<Longrightarrow> session_active u n x"
    by (auto simp: sessions_shrink_def)
  show "length (filter (session_active u n) (db_sessions d')) \<le> length (filter (session_active u n) (db_sessions d))"
    unfolding f(1) by (rule active_update_le) (rule f(2))
qed

lemma prune_hashes: "ss_token_hash ` set (prune_sessions s u now ss) \<subseteq> ss_token_hash ` set ss"
  by (force simp: prune_sessions_def Let_def update_where_def)

lemma prune_revoked:
  assumes "x \<in> set (prune_sessions s u now ss)" and "ss_revoked_at x = None"
  shows "x \<in> set ss"
  using assms by (auto simp: prune_sessions_def Let_def update_where_def)

lemma new_session_hash [simp]: "ss_token_hash (new_session s cy token i u now) = cy_sha256 cy token"
  by (simp add: new_session_def)

lemma auth_inv_step:
  assumes "auth_inv s x" and "auth_step s cy x y"
  shows "auth_inv s y"
  using assms(2)
proof (cases rule: auth_step_sessions)
  case shrunk
  have "ss_token_hash ` set (db_sessions (at_db x)) \<subseteq> set (at_tokens x)"
    using assms(1) by (auto simp: auth_inv_def)
  then have "ss_token_hash ` set (db_sessions (at_db y)) \<subseteq> set (at_tokens y)"
    using shrink_hashes [OF shrunk(1)] shrunk(2) by simp
  moreover have "capped s (at_clock y) (at_db y)"
    using assms(1) by (intro shrink_capped [OF shrunk(1) _ shrunk(3)]) (simp add: auth_inv_def)
  ultimately show ?thesis using assms(1) by (auto simp: auth_inv_def)
next
  case (opened d dr u e)
  have v: "1 \<le> auth_max_sessions s" using assms(1) by (simp add: auth_inv_def valid_auth_settings_def)
  have "capped s (at_clock x) d"
    using assms(1) opened(1) by (simp add: auth_inv_def capped_def active_sessions_def)
  from create_keeps_cap [OF opened(2) v this opened(5)] have "capped s (at_clock y) (at_db y)" .
  moreover have "ss_token_hash ` set (db_sessions (at_db y)) \<subseteq> set (at_tokens y)"
    using assms(1) prune_hashes [of s u "at_clock y" "db_sessions (at_db x)"] opened(1,4)
    by (auto simp: create_user_session_cases(1) [OF opened(2)] auth_inv_def)
  ultimately show ?thesis using assms(1) by (auto simp: auth_inv_def)
qed

interpretation sessions: step_system "auth_initial s" "auth_step s cy" "auth_inv s" for s cy
proof unfold_locales
  show "auth_initial s x \<Longrightarrow> auth_inv s x" for x
    by (auto simp: auth_initial_def auth_inv_def capped_def active_sessions_def valid_auth_settings_def)
qed (rule auth_inv_step)

text \<open>A token is dead when it was drawn and every session under it is revoked; it stays so.\<close>

definition token_dead :: "ustr \<Rightarrow> auth_state \<Rightarrow> bool" where
  "token_dead h x \<longleftrightarrow> h \<in> set (at_tokens x)
     \<and> (\<forall>y \<in> set (db_sessions (at_db x)). ss_token_hash y = h \<longrightarrow> ss_revoked_at y \<noteq> None)"

lemma token_dead_step:
  assumes "auth_step s cy x y" and "token_dead h x"
  shows "token_dead h y"
  using assms(1)
proof (cases rule: auth_step_sessions)
  case shrunk
  then obtain q f where f: "db_sessions (at_db y) = update_where q f (db_sessions (at_db x))"
    "\<And>z. ss_token_hash (f z) = ss_token_hash z" "\<And>z. ss_revoked_at z \<noteq> None \<Longrightarrow> ss_revoked_at (f z) \<noteq> None"
    by (auto simp: sessions_shrink_def)
  have "ss_revoked_at z \<noteq> None" if z: "z \<in> set (db_sessions (at_db y))" "ss_token_hash z = h" for z
  proof -
    from z(1) f(1) obtain w where w: "w \<in> set (db_sessions (at_db x))" "z = w \<or> z = f w"
      by (auto simp: update_where_def split: if_splits)
    with z(2) f(2) have "ss_token_hash w = h" by auto
    with w assms(2) f(3) show ?thesis by (auto simp: token_dead_def)
  qed
  with shrunk(2) assms(2) show ?thesis by (auto simp: token_dead_def)
next
  case (opened d dr u e)
  have "ss_revoked_at z \<noteq> None" if z: "z \<in> set (db_sessions (at_db y))" "ss_token_hash z = h" for z
  proof
    assume n: "ss_revoked_at z = None"
    have "z \<noteq> new_session s cy (dr_token dr) (dr_session_id dr) u (at_clock y)"
      using z(2) opened(3) assms(2) by (auto simp: token_dead_def)
    with z(1) have "z \<in> set (prune_sessions s u (at_clock y) (db_sessions d))"
      by (simp add: create_user_session_cases(1) [OF opened(2)])
    from prune_revoked [OF this n] assms(2) n z(2) opened(1) show False by (auto simp: token_dead_def)
  qed
  with opened(4) assms(2) show ?thesis by (auto simp: token_dead_def)
qed

lemma token_dead_steps:
  assumes "(auth_step s cy)\<^sup>*\<^sup>* x y" and "token_dead h x"
  shows "token_dead h y"
  using assms by (induction rule: rtranclp_induct) (auto intro: token_dead_step)

lemma require_bearer:
  "token_length_ok tok \<Longrightarrow> strip tok = tok \<Longrightarrow> require_session_token (Some (bearer @ tok)) = Inr tok"
  by (simp add: require_session_token_def bearer_def)

lemma token_dead_refused:
  assumes "token_dead (cy_sha256 cy tok) x" and "token_length_ok tok" "strip tok = tok"
  shows "get_current_user s cy (Some (bearer @ tok)) now (at_db x) = (at_db x, Inl unauthenticated)"
proof -
  have "find (\<lambda>y. session_valid s (cy_sha256 cy tok) now y
      \<and> find_row us_id (ss_user_id y) (db_users (at_db x)) \<noteq> None) (db_sessions (at_db x)) = None"
    using assms(1) by (auto simp: find_None_iff token_dead_def session_valid_def)
  then show ?thesis using require_bearer [OF assms(2,3)] by (simp add: get_current_user_def)
qed

section \<open>Properties\<close>

text \<open>
  C33. The session cap holds in every state that any interleaving of registrations, logins,
  authenticated requests and sign-outs can reach: no user ever has more active sessions than
  \<open>auth_max_sessions\<close>.
\<close>

theorem sessions_capped:
  assumes "auth_initial s x" and "(auth_step s cy)\<^sup>*\<^sup>* x y" and "at_clock y \<le> now"
  shows "int (length (active_sessions u now (at_db y))) \<le> auth_max_sessions s"
  using sessions.inv_reachable [OF assms(1,2)] assms(3) by (simp add: auth_inv_def capped_def)

definition demo_auth :: auth_state where
  "demo_auth = \<lparr>at_db = empty_db, at_tokens = [], at_clock = 0\<rparr>"

definition demo_token :: ustr where
  "demo_token = replicate 43 97"

definition demo_draws :: draws where
  "demo_draws = \<lparr>dr_user_id = UUID 3, dr_session_id = UUID 4, dr_token = demo_token\<rparr>"

definition demo_password :: ustr where
  "demo_password = lit ''correct horse battery''"

lemma demo_initial: "auth_initial default_auth_settings demo_auth"
  by (simp add: auth_initial_def default_auth_settings_def valid_auth_settings_def demo_auth_def empty_db_def)

theorem sessions_capped_witness:
  "int (length (active_sessions (UUID 3) 9
     (fst (register_user default_auth_settings demo_crypto [] None demo_draws (lit ''alice'') demo_password 9 empty_db)))) \<le> 5"
proof -
  let ?y = "at_draw (at_next demo_auth (fst (register_user default_auth_settings demo_crypto [] None demo_draws
      (lit ''alice'') demo_password 9 (at_db demo_auth))) 9) (cy_sha256 demo_crypto (dr_token demo_draws))"
  have "auth_step default_auth_settings demo_crypto demo_auth ?y"
    by (rule registration) (simp_all add: demo_auth_def)
  then have "(auth_step default_auth_settings demo_crypto)\<^sup>*\<^sup>* demo_auth ?y" by (rule r_into_rtranclp)
  from sessions_capped [OF demo_initial this, of 9 "UUID 3"] show ?thesis
    by (simp add: at_next_def at_draw_def demo_auth_def default_auth_settings_def)
qed

text \<open>
  C21. Signing out is final: once a drawn token was signed out, no later request with that token is
  ever authenticated again, whatever logins, touches and sign-outs happen in between.
\<close>

theorem signed_out_token_is_dead:
  assumes "cy_sha256 cy tok \<in> set (at_tokens x)" and "token_length_ok tok" "strip tok = tok"
    and "(auth_step s cy)\<^sup>*\<^sup>* (at_next x (logout cy (Some (bearer @ tok)) now (at_db x)) now) y"
  shows "get_current_user s cy (Some (bearer @ tok)) now' (at_db y) = (at_db y, Inl unauthenticated)"
proof -
  have "token_dead (cy_sha256 cy tok) (at_next x (logout cy (Some (bearer @ tok)) now (at_db x)) now)"
    using assms(1) require_bearer [OF assms(2,3)]
    by (auto simp: token_dead_def at_next_def logout_def update_where_def)
  from token_dead_refused [OF token_dead_steps [OF assms(4) this] assms(2,3)] show ?thesis .
qed

theorem signed_out_token_is_dead_witness:
  "get_current_user default_auth_settings demo_crypto (Some (bearer @ demo_token)) 20
     (logout demo_crypto (Some (bearer @ demo_token)) 15 empty_db) =
   (logout demo_crypto (Some (bearer @ demo_token)) 15 empty_db, Inl unauthenticated)"
proof -
  have t: "token_length_ok demo_token" "strip demo_token = demo_token"
    by (simp_all add: token_length_ok_def demo_token_def numeral_eq_Suc str_eval)
  have "get_current_user default_auth_settings demo_crypto (Some (bearer @ demo_token)) 20
      (at_db (at_next \<lparr>at_db = empty_db, at_tokens = [demo_token], at_clock = 0\<rparr>
        (logout demo_crypto (Some (bearer @ demo_token)) 15 empty_db) 15)) =
    (at_db (at_next \<lparr>at_db = empty_db, at_tokens = [demo_token], at_clock = 0\<rparr>
        (logout demo_crypto (Some (bearer @ demo_token)) 15 empty_db) 15), Inl unauthenticated)"
    by (rule signed_out_token_is_dead [where x = "\<lparr>at_db = empty_db, at_tokens = [demo_token], at_clock = 0\<rparr>"
          and now = 15]) (simp_all add: t demo_crypto_def)
  then show ?thesis by (simp add: at_next_def)
qed

text \<open>
  C22. A login opens a session exactly for a verified credential: if it succeeds, the account
  existed, the password verified against its stored hash, and that hash was still the stored one
  when the session was created, whatever happened during the verification; and the token it
  returns authenticates that user until it expires or idles out.
\<close>

theorem login_opens_session_for_verified_user:
  assumes "login s cy locked host dr username password now env d = (d', Inr a)"
    and "token_length_ok (dr_token dr)" "strip (dr_token dr) = dr_token dr"
    and "now' < now + seconds (auth_session_ttl_seconds s)" "now' < now + seconds (auth_session_idle_seconds s)"
  shows "\<exists>u u' d1. find_user (casefold (strip username)) d = Some u
    \<and> verify_password cy password (us_password_hash u)
    \<and> find_row us_id (us_id u) (db_users (env d1)) = Some u' \<and> us_password_hash u' = us_password_hash u
    \<and> au_user_id a = us_id u
    \<and> (\<exists>v. us_id v = us_id u \<and> snd (get_current_user s cy (Some (bearer @ au_token a)) now' d') = Inr v)"
proof -
  let ?ad = "admit_auth_request s cy locked host (casefold (strip username)) now d"
  obtain d1 q where ad: "?ad = (d1, q)" by fastforce
  then have users: "db_users d1 = db_users d" using admit_keeps(2) by (metis fst_conv)
  from assms(1) ad obtain u where q: "q = Inr ()" and u: "find_user (casefold (strip username)) d1 = Some u"
    by (auto simp: login_def Let_def split: sum.splits option.splits)
  obtain valid repl where v: "verify_and_rehash cy password (Some (us_password_hash u)) = (valid, repl)" by fastforce
  with assms(1) ad q u have valid: valid
    and fin: "finish_login s cy dr (us_id u) (us_password_hash u) repl now (env d1) = (d', Inr a)"
    by (auto simp: login_def Let_def split: if_splits)
  have verified: "verify_password cy password (us_password_hash u)"
    using v valid verify_and_rehash_valid [of cy password "Some (us_password_hash u)"] by simp
  from fin show ?thesis
  proof (cases rule: finish_login_cases)
    case (opened b u' d2)
    let ?n = "new_session s cy (dr_token dr) (dr_session_id dr) (us_id u) now"
    let ?p = "\<lambda>x. session_valid s (cy_sha256 cy (dr_token dr)) now' x
        \<and> find_row us_id (ss_user_id x) (db_users d') \<noteq> None"
    have "find ?p (db_sessions d') = Some ?n"
    proof -
      have "find ?p (prune_sessions s (us_id u) now (db_sessions d2)) = None"
        using create_user_session_cases(4) [OF opened(5)] by (auto simp: find_None_iff session_valid_def)
      moreover have "?p ?n" using opened(8) assms(4,5) by (simp add: session_valid_def new_session_def)
      ultimately show ?thesis
        by (simp add: create_user_session_cases(1) [OF opened(5)] find_append)
    qed
    then have "snd (get_current_user s cy (Some (bearer @ dr_token dr)) now' d') =
        Inr (the (find_row us_id (us_id u) (db_users d')))"
      using require_bearer [OF assms(2,3)] by (simp add: get_current_user_def new_session_def)
    moreover have "us_id (the (find_row us_id (us_id u) (db_users d'))) = us_id u"
      using opened(8) find_row_Some(2) [OF opened(8)] by simp
    ultimately show ?thesis
      using u users verified opened(1,2,3,6,7) by (fastforce simp: find_user_def)
  qed simp
qed

definition demo_users :: db where
  "demo_users = empty_db\<lparr>db_users := [\<lparr>us_id = UUID 3, us_username = lit ''alice'',
     us_username_normalized = lit ''alice'', us_password_hash = argon_prefix @ demo_password\<rparr>]\<rparr>"

lemma demo_login:
  "\<exists>d' a. login default_auth_settings demo_crypto [] None demo_draws (lit ''alice'') demo_password 9 id demo_users
     = (d', Inr a)"
proof -
  have name: "casefold (strip (lit ''alice'')) = lit ''alice''"
    by (simp add: str_eval casefold_def casefold_cp_def lower_cp_def)
  have find: "find_user (lit ''alice'') (fst (admit_auth_request default_auth_settings demo_crypto [] None
      (lit ''alice'') 9 demo_users)) = Some (hd (db_users demo_users))"
    by (simp add: find_user_def demo_users_def)
  have admit: "snd (admit_auth_request default_auth_settings demo_crypto [] None (lit ''alice'') 9 demo_users) = Inr ()"
    by (simp add: admit_auth_request_def bump_def bump_row_def demo_users_def empty_db_def find_row_def
        default_auth_settings_def Let_def split: prod.split)
  have pw: "verify_and_rehash demo_crypto demo_password (Some (argon_prefix @ demo_password)) = (True, None)"
    by (simp add: verify_and_rehash_def verify_password_def demo_crypto_def params_bounded_def argon_prefix_def
        demo_password_def lit_def)
  obtain d1 where ad: "admit_auth_request default_auth_settings demo_crypto [] None (lit ''alice'') 9 demo_users
      = (d1, Inr ())"
    using admit by (metis prod.collapse)
  then have keep: "db_users d1 = db_users demo_users" "db_sessions d1 = []"
    using admit_keeps [of default_auth_settings demo_crypto "[]" None "lit ''alice''" 9 demo_users]
    by (simp_all add: demo_users_def empty_db_def)
  then have fin: "\<exists>d' a. finish_login default_auth_settings demo_crypto demo_draws (UUID 3)
      (argon_prefix @ demo_password) None 9 d1 = (d', Inr a)"
    by (simp add: finish_login_def open_session_def create_user_session_def prune_sessions_def update_where_def
        find_row_def demo_users_def Let_def)
  from ad find keep have "find_user (lit ''alice'') d1 = Some (hd (db_users demo_users))" by simp
  with ad name pw fin show ?thesis by (simp add: login_def Let_def demo_users_def)
qed

theorem login_opens_session_for_verified_user_witness:
  "\<exists>d' a v. login default_auth_settings demo_crypto [] None demo_draws (lit ''alice'') demo_password 9 id demo_users
     = (d', Inr a) \<and> snd (get_current_user default_auth_settings demo_crypto (Some (bearer @ au_token a)) 20 d') = Inr v"
proof -
  have t: "token_length_ok (dr_token demo_draws)" "strip (dr_token demo_draws) = dr_token demo_draws"
    by (simp_all add: demo_draws_def token_length_ok_def demo_token_def numeral_eq_Suc str_eval)
  obtain d' a where l: "login default_auth_settings demo_crypto [] None demo_draws (lit ''alice'') demo_password 9 id
      demo_users = (d', Inr a)" using demo_login by blast
  from login_opens_session_for_verified_user [OF l t, of 20] obtain v where
    "snd (get_current_user default_auth_settings demo_crypto (Some (bearer @ au_token a)) 20 d') = Inr v"
    by (auto simp: default_auth_settings_def seconds_def)
  with l show ?thesis by blast
qed

end
