(* ===== verification/Context_Budget.thy ===== *)
theory Context_Budget
  imports Agent_State
begin

text \<open>
  The bound on the model's input (\<open>agent/context_budget.py\<close>): the current message is kept whole, a
  contiguous window of the newest history comes next, then the supplemental texts, the newest
  first; the text that does not fit is cut and marked.
\<close>

definition truncated_mark :: ustr where
  "truncated_mark = 10 # lit ''[Context truncated to fit the runtime budget.]''"

abbreviation ilen :: "'a list \<Rightarrow> int" where
  "ilen xs \<equiv> int (length xs)"

definition total_chars :: "ustr list \<Rightarrow> int" where
  "total_chars texts = sum_list (map ilen texts)"

text \<open>The loops run over the reversed lists: the newest item comes first.\<close>

fun keep_history :: "int \<Rightarrow> chat_message list \<Rightarrow> chat_message list" where
  "keep_history budget [] = []"
| "keep_history budget (m # ms) =
     (if ilen (snd m) > budget then [] else m # keep_history (budget - ilen (snd m)) ms)"

text \<open>Kept texts and the source characters shown in them; an exhausted budget ends the loop.\<close>

fun keep_context :: "int \<Rightarrow> ustr list \<Rightarrow> ustr list \<times> int" where
  "keep_context remaining [] = ([], 0)"
| "keep_context remaining (t # ts) =
     (if ilen t \<le> remaining
      then (case (if remaining - ilen t = 0 then ([], 0) else keep_context (remaining - ilen t) ts) of
              (kept, chars) \<Rightarrow> (t # kept, ilen t + chars))
      else if remaining > ilen truncated_mark
      then ([take (nat (remaining - ilen truncated_mark)) t @ truncated_mark], remaining - ilen truncated_mark)
      else if remaining = 0 then ([], 0)
      else keep_context remaining ts)"

record budget_report =
  bg_max_chars :: int
  bg_input_chars :: int
  bg_dropped_history_messages :: int
  bg_omitted_context_chars :: int

definition fit_context ::
  "ustr \<Rightarrow> chat_message list \<Rightarrow> ustr list \<Rightarrow> int \<Rightarrow> (chat_message list \<times> ustr list \<times> budget_report) res" where
  "fit_context prompt history context max_chars =
     (if ilen prompt > max_chars then Inl (ValueError (lit ''Current message exceeds the runtime context budget''))
      else
        (let remaining = max_chars - ilen prompt;
             history_budget = (if context \<noteq> [] then remaining div 2 else remaining);
             kept_history = rev (keep_history history_budget (rev history));
             history_chars = total_chars (map snd kept_history) in
         case keep_context (remaining - history_chars) (rev context) of
           (kept, source_chars) \<Rightarrow>
             Inr (kept_history, rev kept,
               \<lparr>bg_max_chars = max_chars,
                bg_input_chars = ilen prompt + history_chars + total_chars (rev kept),
                bg_dropped_history_messages = ilen history - ilen kept_history,
                bg_omitted_context_chars = total_chars context - source_chars\<rparr>)))"

section \<open>Facts\<close>

lemma total_chars_simps [simp]:
  "total_chars [] = 0" "total_chars (t # ts) = ilen t + total_chars ts"
  "total_chars (a @ b) = total_chars a + total_chars b" "total_chars (rev a) = total_chars a"
  by (simp_all add: total_chars_def sum_list_rev flip: rev_map)

lemma total_chars_nonneg: "0 \<le> total_chars ts"
  by (induction ts) auto

lemma keep_history_prefix: "prefix (keep_history b ms) ms"
  by (induction b ms rule: keep_history.induct) auto

lemma keep_history_fits: "0 \<le> b \<Longrightarrow> total_chars (map snd (keep_history b ms)) \<le> b"
  by (induction b ms rule: keep_history.induct) auto

text \<open>The window is maximal: the next older message would not have fitted.\<close>

lemma keep_history_maximal:
  assumes "ms = keep_history b ms @ m # rest"
  shows "b < total_chars (map snd (keep_history b ms)) + ilen (snd m)"
  using assms by (induction b ms rule: keep_history.induct) (auto split: if_splits)

text \<open>A text is shown whole or as a marked prefix.\<close>

definition shown_as :: "ustr \<Rightarrow> ustr \<Rightarrow> bool" where
  "shown_as t u \<longleftrightarrow> u = t \<or> (\<exists>n < length t. u = take n t @ truncated_mark)"

lemma shown_as_refl [simp]: "shown_as t t"
  by (simp add: shown_as_def)

lemma subseq_of_rev: "subseq xs ys \<Longrightarrow> subseq (rev xs) (rev ys)"
proof (induction rule: list_emb.induct)
  case (list_emb_Cons xs ys y)
  then show ?case by (simp add: subseq_rev_drop_many)
next
  case (list_emb_Cons2 x y xs ys)
  then show ?case by (simp add: list_emb_append_mono)
qed simp

lemma keep_context_props:
  assumes "0 \<le> r" and "keep_context r ts = (kept, chars)"
  shows "total_chars kept \<le> r \<and> 0 \<le> chars \<and> chars \<le> total_chars ts
    \<and> (\<exists>xs. subseq xs ts \<and> list_all2 shown_as xs kept)"
  using assms
proof (induction r ts arbitrary: kept chars rule: keep_context.induct)
  case (1 r)
  then show ?case by (auto intro!: exI [of _ "[]"])
next
  case (2 r t ts)
  let ?m = "ilen truncated_mark"
  show ?case
  proof (cases "ilen t \<le> r")
    case fits: True
    show ?thesis
    proof (cases "r - ilen t = 0")
      case True
      with fits "2.prems" show ?thesis
        using total_chars_nonneg [of ts] by (auto intro!: exI [of _ "[t]"])
    next
      case False
      obtain k c where kc: "keep_context (r - ilen t) ts = (k, c)" by fastforce
      from "2.IH"(1) [OF fits False _ kc] fits obtain xs where
        "total_chars k \<le> r - ilen t" "0 \<le> c" "c \<le> total_chars ts" "subseq xs ts" "list_all2 shown_as xs k"
        by auto
      with fits False kc "2.prems" show ?thesis
        by (auto intro!: exI [of _ "t # xs"])
    qed
  next
    case no: False
    show ?thesis
    proof (cases "r > ?m")
      case True
      let ?n = "nat (r - ?m)"
      have n: "int ?n = r - ?m" "?n < length t" using True no by linarith+
      have "shown_as t (take ?n t @ truncated_mark)"
        unfolding shown_as_def using n(2) by blast
      moreover have "total_chars [take ?n t @ truncated_mark] \<le> r" using n by simp
      ultimately show ?thesis
        using no True n "2.prems" total_chars_nonneg [of ts] by (auto intro!: exI [of _ "[t]"])
    next
      case small: False
      show ?thesis
      proof (cases "r = 0")
        case True
        with no small "2.prems" show ?thesis
          using total_chars_nonneg [of ts] by (auto intro!: exI [of _ "[]"])
      next
        case False
        with no small "2.prems" have "keep_context r ts = (kept, chars)" by simp
        from "2.IH"(2) [OF no small False "2.prems"(1) this] show ?thesis
          by (auto intro: subseq_Cons')
      qed
    qed
  qed
qed


end
