(* ===== verification/Chunking.thy ===== *)
theory Chunking
  imports Config Db_Model
begin

text \<open>
  Indexing of documents (\<open>services/rag.py\<close>): the chunker with its character offsets, the heading
  context of each chunk, the bounded embedding call, and the two operations that write the index.
  Embeddings, digests and fresh ids are arguments; numbers of vectors are rationals.
\<close>

section \<open>Chunking\<close>

definition normalize_text :: "ustr \<Rightarrow> ustr" where
  "normalize_text text = strip (replace_all [13] [10] (replace_all [13, 10] [10] text))"

text \<open>\<open>text.rfind(sep, first, stop)\<close>.\<close>

definition rfind :: "ustr \<Rightarrow> ustr \<Rightarrow> nat \<Rightarrow> nat \<Rightarrow> nat option" where
  "rfind text sep first stop =
     find (\<lambda>i. take (length sep) (drop i text) = sep) (rev [first..<Suc stop - length sep])"

definition separators :: "ustr list" where
  "separators = [[10, 10], [10], [12290], lit ''. '', lit '' '']"

text \<open>The first separator with an occurrence in the window decides where the chunk ends.\<close>

fun boundary_end :: "ustr \<Rightarrow> nat \<Rightarrow> nat \<Rightarrow> ustr list \<Rightarrow> nat" where
  "boundary_end clean first stop [] = stop"
| "boundary_end clean first stop (sep # seps) =
     (case rfind clean sep first stop of
        Some b \<Rightarrow> b + length sep
      | None \<Rightarrow> boundary_end clean first stop seps)"

definition chunk_end :: "ustr \<Rightarrow> nat \<Rightarrow> nat \<Rightarrow> nat \<Rightarrow> nat" where
  "chunk_end clean chunk_size overlap start =
     (let stop = min (start + chunk_size) (length clean) in
      if stop < length clean
      then boundary_end clean (start + max (chunk_size div 2) (overlap + 1)) stop separators
      else stop)"

lemma rfind_bounds: "rfind text sep first stop = Some b \<Longrightarrow> first \<le> b \<and> b + length sep \<le> stop"
  by (auto simp: rfind_def dest!: find_SomeD)

lemma boundary_end_bounds:
  "boundary_end clean first stop seps = e \<Longrightarrow> e \<noteq> stop \<Longrightarrow> first \<le> e \<and> e \<le> stop"
  by (induction seps) (auto split: option.splits dest: rfind_bounds)

lemma chunk_end_bounds:
  assumes "start < length clean" and "overlap < chunk_size"
  shows "start < chunk_end clean chunk_size overlap start"
    and "chunk_end clean chunk_size overlap start \<le> start + chunk_size"
    and "chunk_end clean chunk_size overlap start \<le> length clean"
    and "chunk_end clean chunk_size overlap start \<noteq> length clean \<Longrightarrow>
      start + overlap < chunk_end clean chunk_size overlap start"
proof -
  let ?e = "chunk_end clean chunk_size overlap start"
  let ?stop = "min (start + chunk_size) (length clean)"
  have "(start < ?e \<and> ?e \<le> start + chunk_size \<and> ?e \<le> length clean) \<and> (?e \<noteq> length clean \<longrightarrow> start + overlap < ?e)"
  proof (cases "?stop < length clean")
    case False
    with assms show ?thesis by (simp add: chunk_end_def Let_def)
  next
    case True
    then have e: "?e = boundary_end clean (start + max (chunk_size div 2) (overlap + 1)) ?stop separators"
      unfolding chunk_end_def Let_def by (simp only: if_True)
    show ?thesis
    proof (cases "?e = ?stop")
      case True
      moreover have "?stop = start + chunk_size" using \<open>?stop < length clean\<close> by linarith
      ultimately have "?e = start + chunk_size" by (rule trans)
      with assms \<open>?stop < length clean\<close> \<open>?stop = start + chunk_size\<close> show ?thesis by linarith
    next
      case False
      from boundary_end_bounds [OF e [symmetric] False] have
        "start + max (chunk_size div 2) (overlap + 1) \<le> ?e" "?e \<le> ?stop" by auto
      moreover have "overlap + 1 \<le> max (chunk_size div 2) (overlap + 1)" by simp
      ultimately have "start + overlap < ?e \<and> ?e \<le> start + chunk_size \<and> ?e \<le> length clean" by linarith
      then show ?thesis by linarith
    qed
  qed
  then show "start < ?e" "?e \<le> start + chunk_size" "?e \<le> length clean"
    "?e \<noteq> length clean \<Longrightarrow> start + overlap < ?e" by blast+
qed

type_synonym span = "ustr \<times> nat \<times> nat"

definition slice :: "ustr \<Rightarrow> nat \<Rightarrow> nat \<Rightarrow> ustr" where
  "slice text i j = take (j - i) (drop i text)"

function spans_from :: "ustr \<Rightarrow> nat \<Rightarrow> nat \<Rightarrow> nat \<Rightarrow> span list" where
  "spans_from clean chunk_size overlap start =
     (if start < length clean \<and> overlap < chunk_size
      then (let stop = chunk_end clean chunk_size overlap start in
            (slice clean start stop, start, stop) #
              (if stop = length clean then [] else spans_from clean chunk_size overlap (stop - overlap)))
      else [])"
  by pat_completeness auto
termination
proof (relation "measure (\<lambda>(clean, chunk_size, overlap, start). length clean - start)")
  fix clean chunk_size overlap start stop
  assume a: "start < length (clean :: ustr) \<and> overlap < chunk_size"
    "stop = chunk_end clean chunk_size overlap start" "stop \<noteq> length clean"
  then have "start + overlap < stop" "stop \<le> length clean"
    using chunk_end_bounds(3,4) [of start clean overlap chunk_size] by auto
  then show "((clean, chunk_size, overlap, stop - overlap), clean, chunk_size, overlap, start)
      \<in> measure (\<lambda>(clean, chunk_size, overlap, start). length clean - start)" by auto
qed simp

declare spans_from.simps [simp del]

definition split_spans :: "ustr \<Rightarrow> nat \<Rightarrow> nat \<Rightarrow> span list res" where
  "split_spans text chunk_size overlap =
     (if chunk_size = 0 \<or> \<not> overlap < chunk_size
      then Inl (ValueError (lit ''Chunk size must be positive and overlap smaller than chunk size''))
      else Inr (spans_from (normalize_text text) chunk_size overlap 0))"

definition split_text :: "ustr \<Rightarrow> nat \<Rightarrow> nat \<Rightarrow> ustr list res" where
  "split_text text chunk_size overlap =
     (case split_spans text chunk_size overlap of Inl e \<Rightarrow> Inl e | Inr ss \<Rightarrow> Inr (map fst ss))"

text \<open>The chunks with their default sizes, 900 characters with an overlap of 120.\<close>

definition default_spans :: "ustr \<Rightarrow> span list" where
  "default_spans text = spans_from (normalize_text text) 900 120 0"

section \<open>Headings\<close>

text \<open>
  \<open>^(#{1,6})[ \t]+([^\n]+)$\<close> of one line. When only blanks follow the hashes, the match gives the last
  blank to the label, so that two of them are needed.
\<close>

definition heading_of :: "ustr \<Rightarrow> (nat \<times> ustr) option" where
  "heading_of line =
     (let hashes = takeWhile (\<lambda>c. c = 35) line; rest = dropWhile (\<lambda>c. c = 35) line;
          blank = (\<lambda>c. c = 32 \<or> c = 9);
          ws = takeWhile blank rest; label = dropWhile blank rest in
      if 1 \<le> length hashes \<and> length hashes \<le> 6 \<and> ws \<noteq> []
      then (if label \<noteq> [] then Some (length hashes, take 120 (strip label))
            else if 2 \<le> length ws then Some (length hashes, []) else None)
      else None)"

fun lines_at :: "nat \<Rightarrow> ustr \<Rightarrow> ustr \<Rightarrow> (nat \<times> ustr) list" where
  "lines_at start acc [] = [(start, rev acc)]"
| "lines_at start acc (c # cs) =
     (if c = 10 then (start, rev acc) # lines_at (start + length acc + 1) [] cs
      else lines_at start (c # acc) cs)"

definition headings :: "ustr \<Rightarrow> (nat \<times> nat \<times> ustr) list" where
  "headings clean = concat (map (\<lambda>(start, line). case heading_of line of
     None \<Rightarrow> [] | Some (level, label) \<Rightarrow> [(start, level, label)]) (lines_at 0 [] clean))"

text \<open>\<open>list(dict.fromkeys(xs))\<close>: the first occurrence of each.\<close>

fun first_occurrences :: "'a list \<Rightarrow> 'a list" where
  "first_occurrences [] = []"
| "first_occurrences (x # xs) = x # filter (\<lambda>y. y \<noteq> x) (first_occurrences xs)"

fun push_headings ::
  "nat \<Rightarrow> (nat \<times> ustr) list \<Rightarrow> (nat \<times> nat \<times> ustr) list \<Rightarrow> (nat \<times> ustr) list \<times> (nat \<times> nat \<times> ustr) list" where
  "push_headings start stack [] = (stack, [])"
| "push_headings start stack ((pos, level, label) # hs) =
     (if pos \<le> start then push_headings start (filter (\<lambda>(d, _). d < level) stack @ [(level, label)]) hs
      else (stack, (pos, level, label) # hs))"

fun contexts_from ::
  "ustr \<Rightarrow> (nat \<times> ustr) list \<Rightarrow> (nat \<times> nat \<times> ustr) list \<Rightarrow> span list \<Rightarrow> ustr list" where
  "contexts_from title stack hs [] = []"
| "contexts_from title stack hs ((_, start, stop) # ss) =
     (case push_headings start stack hs of (stack', hs') \<Rightarrow>
        (let labels = take 260 title # map snd stack'
               @ map (\<lambda>(_, _, label). label) (takeWhile (\<lambda>(pos, _). pos < stop) hs') in
         take 700 (join (lit '' > '') (first_occurrences labels)) # contexts_from title stack' hs' ss))"

definition chunk_contexts :: "ustr \<Rightarrow> ustr \<Rightarrow> span list \<Rightarrow> ustr list" where
  "chunk_contexts title text spans = contexts_from title [] (headings (normalize_text text)) spans"

section \<open>Facts: the chunker\<close>

lemma length_contexts_from: "length (contexts_from title stack hs spans) = length spans"
  by (induction title stack hs spans rule: contexts_from.induct) (auto simp: Let_def split: prod.splits)

lemma length_slice: "j \<le> length text \<Longrightarrow> length (slice text i j) = j - i"
  by (simp add: slice_def)

text \<open>The document from its chunks: every chunk but the first without the overlap.\<close>

definition rejoin :: "nat \<Rightarrow> span list \<Rightarrow> ustr" where
  "rejoin overlap ss = (case ss of [] \<Rightarrow> [] | (c, _) # rest \<Rightarrow> c @ concat (map (\<lambda>(c, _). drop overlap c) rest))"

lemma drop_slice: "i + n \<le> j \<Longrightarrow> drop n (slice text i j) = slice text (i + n) j"
  by (simp add: slice_def drop_take add.commute)

lemma spans_from_ne: "start < length clean \<Longrightarrow> overlap < chunk_size \<Longrightarrow> spans_from clean chunk_size overlap start \<noteq> []"
  by (simp add: spans_from.simps [of clean] Let_def)

lemma spans_from_props:
  assumes "start < length clean" and "overlap < chunk_size"
  shows "rejoin overlap (spans_from clean chunk_size overlap start) = drop start clean
    \<and> (\<forall>(c, i, j) \<in> set (spans_from clean chunk_size overlap start).
         c = slice clean i j \<and> i < j \<and> j \<le> length clean \<and> j - i \<le> chunk_size)
    \<and> (let (c, i, j) = hd (spans_from clean chunk_size overlap start) in i = start)"
  using assms
proof (induction "length clean - start" arbitrary: start rule: less_induct)
  case less
  let ?e = "chunk_end clean chunk_size overlap start"
  note b = chunk_end_bounds [OF less.prems]
  have eq: "spans_from clean chunk_size overlap start = (slice clean start ?e, start, ?e) #
      (if ?e = length clean then [] else spans_from clean chunk_size overlap (?e - overlap))"
    using less.prems by (subst spans_from.simps) (simp add: Let_def)
  show ?case
  proof (cases "?e = length clean")
    case True
    with eq b less.prems show ?thesis by (auto simp: rejoin_def slice_def)
  next
    case False
    let ?n = "?e - overlap"
    have n: "start < ?n" "?n < length clean" "overlap \<le> ?e" using b(1,3) b(4) [OF False] False by linarith+
    from less.hyps [OF _ n(2) less.prems(2)] n less.prems(1)
    have IH: "rejoin overlap (spans_from clean chunk_size overlap ?n) = drop ?n clean"
      "\<forall>(c, i, j) \<in> set (spans_from clean chunk_size overlap ?n).
         c = slice clean i j \<and> i < j \<and> j \<le> length clean \<and> j - i \<le> chunk_size"
      "let (c, i, j) = hd (spans_from clean chunk_size overlap ?n) in i = ?n" by auto
    obtain c j rest where r: "spans_from clean chunk_size overlap ?n = (c, ?n, j) # rest"
      using spans_from_ne [OF n(2) less.prems(2)] IH(3)
      by (cases "spans_from clean chunk_size overlap ?n") auto
    have "concat (map (\<lambda>(c, _). drop overlap c) ((c, ?n, j) # rest)) = drop overlap (drop ?n clean)"
    proof -
      have "overlap \<le> length c"
      proof -
        have c: "c = slice clean ?n j" "j \<le> length clean" "?n < j" using IH(2) r by auto
        have "j = chunk_end clean chunk_size overlap ?n"
          using r spans_from.simps [of clean chunk_size overlap ?n] n(2) less.prems(2) by (simp add: Let_def)
        then have "?n + overlap < j \<or> j = length clean"
          using chunk_end_bounds(4) [OF n(2) less.prems(2)] by auto
        then have "overlap \<le> j - ?n" using n(3) b(3) False by auto
        with c show ?thesis by (simp add: length_slice)
      qed
      moreover have "c @ concat (map (\<lambda>(c, _). drop overlap c) rest) = drop ?n clean"
        using IH(1) unfolding r rejoin_def by simp
      then have "drop overlap (c @ concat (map (\<lambda>(c, _). drop overlap c) rest)) = drop overlap (drop ?n clean)"
        by (rule arg_cong)
      ultimately show ?thesis by simp
    qed
    then have "rejoin overlap (spans_from clean chunk_size overlap start) = slice clean start ?e @ drop ?e clean"
      using eq False r n(3) by (simp add: rejoin_def)
    moreover have "slice clean start ?e @ drop ?e clean = drop start clean"
    proof -
      have "drop ?e clean = drop (?e - start) (drop start clean)" using b(1) by simp
      then show ?thesis unfolding slice_def by (simp only: append_take_drop_id)
    qed
    ultimately show ?thesis using eq False IH(2) b by auto
  qed
qed

text \<open>The default chunks of a text: none for a blank text, otherwise its normalised text in exact slices.\<close>

lemma default_spans_rejoin: "rejoin 120 (default_spans text) = normalize_text text"
  and default_spans_slices: "(c, i, j) \<in> set (default_spans text) \<Longrightarrow>
    c = slice (normalize_text text) i j \<and> i < j \<and> j \<le> length (normalize_text text) \<and> j - i \<le> 900"
  using spans_from_props [of 0 "normalize_text text" 120 900]
  by (cases "normalize_text text = []"; force simp: default_spans_def rejoin_def spans_from.simps [of "[]"])+

end
