(* ===== verification/Regex.thy ===== *)
theory Regex
  imports Prelude
begin

text \<open>
  The part of Python's \<open>re\<close> that the backend uses. A pattern is a value of \<open>rx\<close>; \<open>rx_ends\<close> lists
  the ways it can match from a position in the order in which the backtracking engine tries them,
  so its first element is the match that \<open>re\<close> returns, greedy or lazy. A position is the character
  before it and the text after it. Whether a non-ASCII code point is a word character is the
  argument \<open>uni\<close> (the Unicode database of the interpreter).
\<close>

type_synonym rx_pos = "nat option \<times> ustr"

datatype rx =
    Cls "nat \<Rightarrow> bool"
  | Eps
  | Cat rx rx
  | Alt rx rx
  | Star bool rx
  | Upto nat rx
  | Bound
  | Dollar
  | Guard "nat option \<Rightarrow> nat option \<Rightarrow> bool"

definition ascii_word :: "nat \<Rightarrow> bool" where
  "ascii_word c \<longleftrightarrow> (48 \<le> c \<and> c \<le> 57) \<or> (65 \<le> c \<and> c \<le> 90) \<or> (97 \<le> c \<and> c \<le> 122) \<or> c = 95"

definition re_word :: "(nat \<Rightarrow> bool) \<Rightarrow> nat \<Rightarrow> bool" where
  "re_word uni c \<longleftrightarrow> (if c < 128 then ascii_word c else uni c)"

text \<open>A literal character under \<open>IGNORECASE\<close>, for an ASCII lower-case or caseless character of the pattern.\<close>

definition icase :: "nat \<Rightarrow> nat \<Rightarrow> bool" where
  "icase x c \<longleftrightarrow> c = x \<or> (97 \<le> x \<and> x \<le> 122 \<and> c + 32 = x)
     \<or> (x = 105 \<and> (c = 304 \<or> c = 305)) \<or> (x = 115 \<and> c = 383) \<or> (x = 107 \<and> c = 8490)"

text \<open>A \<open>Guard\<close> looks at the two neighbours: \<open>^\<close> and the one-character lookarounds.\<close>

text \<open>\<open>\b\<close>: exactly one of the two neighbours is a word character. \<open>$\<close>: the end, or before a final newline.\<close>

definition at_bound :: "(nat \<Rightarrow> bool) \<Rightarrow> rx_pos \<Rightarrow> bool" where
  "at_bound uni p =
     ((case fst p of None \<Rightarrow> False | Some c \<Rightarrow> re_word uni c)
      \<noteq> (case snd p of [] \<Rightarrow> False | c # _ \<Rightarrow> re_word uni c))"

fun iter_rx :: "bool \<Rightarrow> (rx_pos \<Rightarrow> rx_pos list) \<Rightarrow> nat \<Rightarrow> rx_pos \<Rightarrow> rx_pos list" where
  "iter_rx greedy f 0 p = [p]"
| "iter_rx greedy f (Suc n) p =
     (let more = concat (map (iter_rx greedy f n) (filter (\<lambda>q. length (snd q) < length (snd p)) (f p))) in
      if greedy then more @ [p] else p # more)"

primrec rx_ends :: "(nat \<Rightarrow> bool) \<Rightarrow> rx \<Rightarrow> rx_pos \<Rightarrow> rx_pos list" where
  "rx_ends uni (Cls f) p = (case snd p of [] \<Rightarrow> [] | c # cs \<Rightarrow> if f c then [(Some c, cs)] else [])"
| "rx_ends uni Eps p = [p]"
| "rx_ends uni (Cat a b) p = concat (map (rx_ends uni b) (rx_ends uni a p))"
| "rx_ends uni (Alt a b) p = rx_ends uni a p @ rx_ends uni b p"
| "rx_ends uni (Star greedy r) p = iter_rx greedy (rx_ends uni r) (length (snd p)) p"
| "rx_ends uni (Upto n r) p = iter_rx True (rx_ends uni r) n p"
| "rx_ends uni Bound p = (if at_bound uni p then [p] else [])"
| "rx_ends uni Dollar p = (if snd p = [] \<or> snd p = [10] then [p] else [])"
| "rx_ends uni (Guard g) p = (if g (fst p) (case snd p of [] \<Rightarrow> None | c # _ \<Rightarrow> Some c) then [p] else [])"

text \<open>The match \<open>re\<close> takes at a position, and \<open>re.search\<close> as a truth value.\<close>

definition rx_at :: "(nat \<Rightarrow> bool) \<Rightarrow> rx \<Rightarrow> rx_pos \<Rightarrow> rx_pos option" where
  "rx_at uni r p = (case rx_ends uni r p of [] \<Rightarrow> None | q # _ \<Rightarrow> Some q)"

fun rx_search_from :: "(nat \<Rightarrow> bool) \<Rightarrow> rx \<Rightarrow> nat option \<Rightarrow> ustr \<Rightarrow> bool" where
  "rx_search_from uni r prev [] = (rx_ends uni r (prev, []) \<noteq> [])"
| "rx_search_from uni r prev (c # cs) =
     (rx_ends uni r (prev, c # cs) \<noteq> [] \<or> rx_search_from uni r (Some c) cs)"

definition rx_search :: "(nat \<Rightarrow> bool) \<Rightarrow> rx \<Rightarrow> ustr \<Rightarrow> bool" where
  "rx_search uni r s = rx_search_from uni r None s"

text \<open>
  \<open>re.sub(r, "", s)\<close>: the leftmost match is removed and the search goes on behind it. The patterns
  it is used with never match the empty text; an empty match would be skipped.
\<close>

function rx_remove_from :: "(nat \<Rightarrow> bool) \<Rightarrow> rx \<Rightarrow> nat option \<Rightarrow> ustr \<Rightarrow> ustr" where
  "rx_remove_from uni r prev [] = []"
| "rx_remove_from uni r prev (c # cs) =
     (case rx_at uni r (prev, c # cs) of
        None \<Rightarrow> c # rx_remove_from uni r (Some c) cs
      | Some (q, rest) \<Rightarrow>
          if length rest < length (c # cs) then rx_remove_from uni r q rest
          else c # rx_remove_from uni r (Some c) cs)"
  by pat_completeness auto
termination by (relation "measure (\<lambda>(uni, r, prev, s). length s)") auto

definition rx_remove :: "(nat \<Rightarrow> bool) \<Rightarrow> rx \<Rightarrow> ustr \<Rightarrow> ustr" where
  "rx_remove uni r s = rx_remove_from uni r None s"

text \<open>The leftmost match: the text before it, the matched text and the text behind it.\<close>

fun rx_find_from :: "(nat \<Rightarrow> bool) \<Rightarrow> rx \<Rightarrow> nat option \<Rightarrow> ustr \<Rightarrow> (ustr \<times> ustr \<times> ustr) option" where
  "rx_find_from uni r prev [] = (if rx_ends uni r (prev, []) \<noteq> [] then Some ([], [], []) else None)"
| "rx_find_from uni r prev (c # cs) =
     (case rx_at uni r (prev, c # cs) of
        Some (q, rest) \<Rightarrow> Some ([], take (length (c # cs) - length rest) (c # cs), rest)
      | None \<Rightarrow> map_option (\<lambda>(a, m, b). (c # a, m, b)) (rx_find_from uni r (Some c) cs))"

definition rx_find :: "(nat \<Rightarrow> bool) \<Rightarrow> rx \<Rightarrow> ustr \<Rightarrow> (ustr \<times> ustr \<times> ustr) option" where
  "rx_find uni r s = rx_find_from uni r None s"

text \<open>\<open>re.sub(r, repl, s)\<close> of a literal replacement, for patterns that match no empty text.\<close>

function rx_sub_from :: "(nat \<Rightarrow> bool) \<Rightarrow> rx \<Rightarrow> ustr \<Rightarrow> nat option \<Rightarrow> ustr \<Rightarrow> ustr" where
  "rx_sub_from uni r repl prev [] = []"
| "rx_sub_from uni r repl prev (c # cs) =
     (case rx_at uni r (prev, c # cs) of
        None \<Rightarrow> c # rx_sub_from uni r repl (Some c) cs
      | Some (q, rest) \<Rightarrow>
          if length rest < length (c # cs) then repl @ rx_sub_from uni r repl q rest
          else c # rx_sub_from uni r repl (Some c) cs)"
  by pat_completeness auto
termination by (relation "measure (\<lambda>(uni, r, repl, prev, s). length s)") auto

definition rx_sub :: "(nat \<Rightarrow> bool) \<Rightarrow> rx \<Rightarrow> ustr \<Rightarrow> ustr \<Rightarrow> ustr" where
  "rx_sub uni r repl s = rx_sub_from uni r repl None s"

section \<open>Building patterns\<close>

definition rx_begin :: rx where
  "rx_begin = Guard (\<lambda>prev _. prev = None)"

fun rx_seq :: "rx list \<Rightarrow> rx" where
  "rx_seq [] = Eps"
| "rx_seq [r] = r"
| "rx_seq (r # rs) = Cat r (rx_seq rs)"

fun rx_any :: "rx list \<Rightarrow> rx" where
  "rx_any [] = Cls (\<lambda>_. False)"
| "rx_any [r] = r"
| "rx_any (r # rs) = Alt r (rx_any rs)"

definition rx_lit :: "ustr \<Rightarrow> rx" where
  "rx_lit s = rx_seq (map (\<lambda>c. Cls (\<lambda>x. x = c)) s)"

definition rx_ilit :: "ustr \<Rightarrow> rx" where
  "rx_ilit s = rx_seq (map (\<lambda>c. Cls (icase c)) s)"

definition rx_opt :: "rx \<Rightarrow> rx" where
  "rx_opt r = Alt r Eps"

abbreviation rx_space :: rx where
  "rx_space \<equiv> Cls py_space"

abbreviation rx_spaces :: rx where
  "rx_spaces \<equiv> Star True (Cls py_space)"

definition rx_plus :: "rx \<Rightarrow> rx" where
  "rx_plus r = Cat r (Star True r)"

section \<open>Facts\<close>

text \<open>A match consumes a prefix of the text.\<close>

lemma iter_rx_suffix:
  assumes "\<And>p q. q \<in> set (f p) \<Longrightarrow> suffix (snd q) (snd p)" and "q \<in> set (iter_rx g f n p)"
  shows "suffix (snd q) (snd p)"
  using assms(2)
proof (induction n arbitrary: p)
  case 0
  then show ?case by simp
next
  case (Suc n)
  then have "q = p \<or> (\<exists>m \<in> set (f p). q \<in> set (iter_rx g f n m))"
    by (auto simp: Let_def split: if_splits)
  then show ?case
  proof (elim disjE bexE)
    fix m assume "m \<in> set (f p)" "q \<in> set (iter_rx g f n m)"
    then have "suffix (snd q) (snd m)" "suffix (snd m) (snd p)" using Suc.IH assms(1) by auto
    then show ?thesis by (rule suffix_order.trans)
  qed simp
qed

lemma rx_ends_suffix: "q \<in> set (rx_ends uni r p) \<Longrightarrow> suffix (snd q) (snd p)"
proof (induction r arbitrary: p q)
  case (Cls f)
  then show ?case by (cases "snd p") (auto split: if_splits simp: suffix_def)
next
  case (Cat a b)
  then obtain m where "m \<in> set (rx_ends uni a p)" "q \<in> set (rx_ends uni b m)" by auto
  with Cat.IH have "suffix (snd q) (snd m)" "suffix (snd m) (snd p)" by auto
  then show ?case by (rule suffix_order.trans)
next
  case (Star g r)
  then show ?case using iter_rx_suffix [of "rx_ends uni r"] by (metis rx_ends.simps(5))
next
  case (Upto n r)
  then show ?case using iter_rx_suffix [of "rx_ends uni r"] by (metis rx_ends.simps(6))
qed (auto split: if_splits)

lemma rx_at_suffix: "rx_at uni r p = Some q \<Longrightarrow> suffix (snd q) (snd p)"
  using rx_ends_suffix [of q uni r p] by (auto simp: rx_at_def split: list.splits)

lemma rx_ends_length: "q \<in> set (rx_ends uni r p) \<Longrightarrow> length (snd q) \<le> length (snd p)"
  by (rule suffix_length_le [OF rx_ends_suffix])

text \<open>What is left after a removal is a subsequence: nothing is invented and nothing reordered.\<close>

lemma rx_remove_from_subseq: "subseq (rx_remove_from uni r prev s) s"
proof (induction uni r prev s rule: rx_remove_from.induct)
  case (2 uni r prev c cs)
  show ?case
  proof (cases "rx_at uni r (prev, c # cs)")
    case None
    with 2 show ?thesis by simp
  next
    case (Some m)
    obtain q rest where m: "m = (q, rest)" by fastforce
    show ?thesis
    proof (cases "length rest < length (c # cs)")
      case True
      have "suffix rest (c # cs)" using rx_at_suffix [OF Some] m by simp
      then have "subseq rest (c # cs)" by (auto simp: suffix_def)
      with 2(2) [OF Some m [symmetric]] True Some m show ?thesis
        by (auto intro: subseq_order.trans)
    next
      case False
      with 2 Some m show ?thesis by auto
    qed
  qed
qed simp

lemma rx_remove_subseq: "subseq (rx_remove uni r s) s"
  by (simp add: rx_remove_def rx_remove_from_subseq)

text \<open>A search looks at every split of the text.\<close>

lemma rx_search_from_iff:
  "rx_search_from uni r prev s \<longleftrightarrow>
     (\<exists>a b. s = a @ b \<and> rx_ends uni r (if a = [] then prev else Some (last a), b) \<noteq> [])"
proof (induction s arbitrary: prev)
  case Nil
  then show ?case by auto
next
  case (Cons c cs)
  show ?case
  proof
    assume "rx_search_from uni r prev (c # cs)"
    then show "\<exists>a b. c # cs = a @ b \<and> rx_ends uni r (if a = [] then prev else Some (last a), b) \<noteq> []"
    proof (cases "rx_ends uni r (prev, c # cs) \<noteq> []")
      case True
      then show ?thesis by (intro exI [of _ "[]"] exI [of _ "c # cs"]) simp
    next
      case False
      with \<open>rx_search_from uni r prev (c # cs)\<close> Cons.IH obtain a b where
        "cs = a @ b" "rx_ends uni r (if a = [] then Some c else Some (last a), b) \<noteq> []" by auto
      then show ?thesis by (intro exI [of _ "c # a"] exI [of _ b]) (auto split: if_splits)
    qed
  next
    assume "\<exists>a b. c # cs = a @ b \<and> rx_ends uni r (if a = [] then prev else Some (last a), b) \<noteq> []"
    then obtain a b where ab: "c # cs = a @ b" "rx_ends uni r (if a = [] then prev else Some (last a), b) \<noteq> []"
      by blast
    show "rx_search_from uni r prev (c # cs)"
    proof (cases a)
      case Nil
      with ab have "rx_ends uni r (prev, c # cs) \<noteq> []" by simp
      then show ?thesis by simp
    next
      case tail: (Cons x a')
      with ab have "cs = a' @ b" "rx_ends uni r (if a' = [] then Some c else Some (last a'), b) \<noteq> []"
        by (auto split: if_splits)
      then have "rx_search_from uni r (Some c) cs" unfolding Cons.IH by blast
      then show ?thesis by simp
    qed
  qed
qed

end
