(* ===== verification/Protocol.thy ===== *)
theory Protocol
  imports Regex
begin

text \<open>
  Raw tool-call markup in model text (\<open>agent/response_policy.py\<close>): the pattern that removes it, the
  markers that detect it, and the cleaning of an answer. \<open>services/memory.py\<close> refuses summaries
  with the same pattern and markers.
\<close>

definition rx_bars :: rx where
  "rx_bars = Star True (Cls (\<lambda>c. c = 124 \<or> c = 65372))"

definition rx_dots :: rx where
  "rx_dots = Star False (Cls (\<lambda>_. True))"

text \<open>\<open>open.*?(?:close|$)\<close>\<close>

definition rx_block :: "rx \<Rightarrow> rx \<Rightarrow> rx" where
  "rx_block op cl = rx_seq [op, rx_dots, Alt cl Dollar]"

definition dsml_tag :: rx where
  "dsml_tag = rx_seq [rx_bars, rx_ilit (lit ''dsml''), rx_bars, rx_ilit (lit ''tool_calls''), rx_spaces, rx_ilit (lit ''>'')]"

definition tool_tag :: rx where
  "tool_tag = rx_seq [rx_ilit (lit ''tool_call''), rx_opt (rx_ilit (lit ''s'')), rx_spaces, rx_ilit (lit ''>'')]"

definition rx_open :: rx where
  "rx_open = rx_seq [rx_ilit (lit ''<''), rx_spaces]"

definition rx_close :: rx where
  "rx_close = rx_seq [rx_ilit (lit ''<''), rx_spaces, rx_ilit (lit ''/''), rx_spaces]"

definition raw_tool_protocol_re :: rx where
  "raw_tool_protocol_re = rx_any [
     rx_block (Cat rx_open dsml_tag) (Cat rx_close dsml_tag),
     rx_block (Cat rx_open tool_tag) (Cat rx_close tool_tag),
     rx_block
       (rx_seq [rx_open, rx_ilit (lit ''invoke''), Bound, Star True (Cls (\<lambda>c. c \<noteq> 62)), rx_ilit (lit ''>'')])
       (rx_seq [rx_close, rx_ilit (lit ''invoke''), rx_spaces, rx_ilit (lit ''>'')])]"

text \<open>\<open>RAW_TOOL_PROTOCOL_MARKERS\<close>; the first one is written with the full-width bar U+FF5C.\<close>

definition raw_tool_protocol_markers :: "ustr list" where
  "raw_tool_protocol_markers = [
     lit ''<'' @ [65372, 65372] @ lit ''dsml'' @ [65372, 65372] @ lit ''tool_calls>'',
     lit ''<||dsml||tool_calls>'', lit ''<tool_calls>'', lit ''<tool_call'', lit ''<invoke'',
     lit ''invoke name='']"

definition contains_raw_tool_protocol :: "ustr \<Rightarrow> bool" where
  "contains_raw_tool_protocol text = any_in raw_tool_protocol_markers (lower text)"

definition clean_protocol :: "(nat \<Rightarrow> bool) \<Rightarrow> ustr \<Rightarrow> ustr" where
  "clean_protocol uni answer =
     strip (join [10] (filter (\<lambda>line. \<not> contains_raw_tool_protocol line)
       (splitlines (rx_remove uni raw_tool_protocol_re answer))))"

section \<open>Facts\<close>

lemma lower_append [simp]: "lower (a @ b) = lower a @ lower b"
  by (simp add: lower_def)

lemma lower_Nil [simp]: "lower [] = []"
  by (simp add: lower_def)

lemma sublist_lower: "sublist a b \<Longrightarrow> sublist (lower a) (lower b)"
proof -
  assume "sublist a b"
  then obtain p q where "b = p @ a @ q" by (auto simp: sublist_def)
  then have "lower b = lower p @ lower a @ lower q" by simp
  then show ?thesis unfolding sublist_def by blast
qed

lemma strip_sublist: "sublist (strip s) s"
proof -
  have "suffix (dropWhile p x) x" for p and x :: ustr by (rule suffix_dropWhile)
  moreover have "prefix (rev (dropWhile p (rev x))) x" for p and x :: ustr
    using suffix_dropWhile [of p "rev x"] by (simp add: suffix_to_prefix)
  ultimately have "sublist (rev (dropWhile py_space (rev (dropWhile py_space s)))) (dropWhile py_space s)"
    "sublist (dropWhile py_space s) s"
    by (blast intro: prefix_imp_sublist suffix_imp_sublist)+
  then show ?thesis
    unfolding strip_def strip_by_def rstrip_by_def lstrip_by_def by (rule sublist_order.order_trans)
qed

lemma sublist_across:
  assumes "sublist m (a @ x # b)" and "x \<notin> set m"
  shows "sublist m a \<or> sublist m b"
proof -
  from assms(1) obtain p q where pq: "a @ x # b = p @ m @ q" by (auto simp: sublist_def)
  consider (left) "length (p @ m) \<le> length a" | (right) "length a < length p" | (mid) "length p \<le> length a"
      "length a < length (p @ m)" by linarith
  then show ?thesis
  proof cases
    case left
    from pq have "take (length (p @ m)) (a @ x # b) = p @ m" by simp
    with left have "take (length (p @ m)) a = p @ m" by simp
    then have "a = p @ m @ drop (length (p @ m)) a" by (metis append_assoc append_take_drop_id)
    then show ?thesis by (metis sublist_def)
  next
    case right
    from pq have "drop (Suc (length a)) (a @ x # b) = drop (Suc (length a)) (p @ m @ q)" by simp
    then have "b = drop (Suc (length a)) p @ m @ q" using right by simp
    then show ?thesis by (metis sublist_def)
  next
    case mid
    have "(a @ x # b) ! length a = (p @ m @ q) ! length a" using pq by simp
    moreover have "length a - length p < length m" using mid by (simp; linarith)
    ultimately have "x = m ! (length a - length p)" using mid by (simp add: nth_append)
    then have "x \<in> set m" using \<open>length a - length p < length m\<close> by simp
    with assms(2) show ?thesis by simp
  qed
qed

lemma markers_no_newline: "m \<in> set raw_tool_protocol_markers \<Longrightarrow> 10 \<notin> set m \<and> m \<noteq> []"
  by (auto simp: raw_tool_protocol_markers_def lit_def of_char_Char)

lemma contains_iff:
  "contains_raw_tool_protocol t \<longleftrightarrow> (\<exists>m \<in> set raw_tool_protocol_markers. sublist m (lower t))"
  by (simp only: contains_raw_tool_protocol_def list_ex_iff)

lemma contains_newline:
  assumes "contains_raw_tool_protocol (a @ 10 # b)"
  shows "contains_raw_tool_protocol a \<or> contains_raw_tool_protocol b"
proof -
  obtain m where m: "m \<in> set raw_tool_protocol_markers" "sublist m (lower (a @ 10 # b))"
    using assms unfolding contains_iff by blast
  have "lower (10 # b) = 10 # lower b" by (simp add: lower_def lower_cp_def)
  with m(2) have "sublist m (lower a @ 10 # lower b)" by (simp only: lower_append)
  then have "sublist m (lower a) \<or> sublist m (lower b)"
    by (rule sublist_across) (use markers_no_newline [OF m(1)] in blast)
  with m(1) show ?thesis unfolding contains_iff by blast
qed

lemma contains_empty: "\<not> contains_raw_tool_protocol []"
  unfolding contains_iff using markers_no_newline by auto

lemma contains_join:
  "\<forall>l \<in> set ls. \<not> contains_raw_tool_protocol l \<Longrightarrow> \<not> contains_raw_tool_protocol (join [10] ls)"
proof (induction ls rule: induct_list012)
  case 1
  show ?case using contains_empty by simp
next
  case (2 x)
  then show ?case by simp
next
  case (3 x y zs)
  then have "\<not> contains_raw_tool_protocol x" "\<not> contains_raw_tool_protocol (join [10] (y # zs))"
    by simp_all
  then show ?case using contains_newline [of x "join [10] (y # zs)"] by auto
qed

lemma contains_sublist:
  "sublist a b \<Longrightarrow> contains_raw_tool_protocol a \<Longrightarrow> contains_raw_tool_protocol b"
  using sublist_lower sublist_order.order_trans
  by (fastforce simp: contains_raw_tool_protocol_def list_ex_iff)

lemma clean_protocol_clean: "\<not> contains_raw_tool_protocol (clean_protocol uni answer)"
proof -
  let ?ls = "filter (\<lambda>line. \<not> contains_raw_tool_protocol line) (splitlines (rx_remove uni raw_tool_protocol_re answer))"
  have "\<not> contains_raw_tool_protocol (join [10] ?ls)" by (rule contains_join) simp
  then show ?thesis using contains_sublist [OF strip_sublist] unfolding clean_protocol_def by blast
qed

end
