(* ===== verification/Memory.thy ===== *)
theory Memory
  imports Protocol Config Db_Model
begin

text \<open>
  Conversation memory (\<open>services/memory.py\<close>, \<open>api/routes/memory.py\<close>): the incremental compaction of
  older messages into one summary, with a durable cursor over the source text, and the routes that
  list, disable and delete summaries. The summarising model call is the argument \<open>summarize\<close>; that
  the row of the conversation is locked by another transaction is the argument \<open>locked\<close>.
\<close>

fun role_str :: "role \<Rightarrow> ustr" where
  "role_str UserRole = lit ''user''"
| "role_str AssistantRole = lit ''assistant''"

type_synonym batch = "(role \<times> ustr) list"

section \<open>The source of a compaction\<close>

text \<open>The order of messages, \<open>(created_at, id)\<close>, compared as rows.\<close>

definition m_pos :: "message \<Rightarrow> time \<times> uuid" where
  "m_pos m = (m_created_at m, m_id m)"

definition memory_messages :: "uuid \<Rightarrow> db \<Rightarrow> message list" where
  "memory_messages conv d = filter (\<lambda>m. m_conversation_id m = conv \<and> m_content m \<noteq> []) (db_messages d)"

definition recent_ids :: "agent_settings \<Rightarrow> message list \<Rightarrow> uuid list" where
  "recent_ids s ms = map m_id (take (nat (max (agent_memory_message_limit s) 0)) (rev (sort_key m_pos ms)))"

text \<open>What a cursor leaves to do: after a time, or from a position, whole again when it is inside a message.\<close>

definition past_cursor :: "cursor \<Rightarrow> message \<Rightarrow> bool" where
  "past_cursor c m = (case c of
     NoCursor \<Rightarrow> True
   | AfterTime t \<Rightarrow> t < m_created_at m
   | AtMessage i t off n \<Rightarrow> if off \<noteq> 0 then (t, i) \<le> m_pos m else (t, i) < m_pos m)"

definition source_messages :: "agent_settings \<Rightarrow> uuid \<Rightarrow> cursor \<Rightarrow> db \<Rightarrow> message list" where
  "source_messages s conv c d =
     (let ms = memory_messages conv d; recent = recent_ids s ms in
      take 50 (sort_key m_pos (filter (\<lambda>m. m_id m \<notin> set recent \<and> past_cursor c m) ms)))"

section \<open>One batch\<close>

definition cursor_offset :: "cursor \<Rightarrow> message \<Rightarrow> nat" where
  "cursor_offset c m = (case c of AtMessage i t off n \<Rightarrow> if m_id m = i then off else 0 | _ \<Rightarrow> 0)"

definition cursor_count :: "cursor \<Rightarrow> nat" where
  "cursor_count c = (case c of AtMessage i t off n \<Rightarrow> n | _ \<Rightarrow> 0)"

fun batch_from :: "cursor \<Rightarrow> nat \<Rightarrow> cursor \<Rightarrow> message list \<Rightarrow> batch \<times> cursor" where
  "batch_from cur remaining nxt [] = ([], nxt)"
| "batch_from cur remaining nxt (m # ms) =
     (let offset = cursor_offset cur m;
          content = take remaining (drop offset (m_content m)) in
      if content = [] then ([], nxt)
      else
        (let stop = offset + length content;
             complete = (stop = length (m_content m));
             nxt' = AtMessage (m_id m) (m_created_at m) (if complete then 0 else stop)
                      (cursor_count nxt + (if complete then 1 else 0));
             rest = (if remaining - length content = 0 then ([], nxt')
                     else batch_from cur (remaining - length content) nxt' ms) in
         ((m_role m, content) # fst rest, snd rest)))"

definition make_batch :: "agent_settings \<Rightarrow> cursor \<Rightarrow> message list \<Rightarrow> batch \<times> cursor" where
  "make_batch s cur ms = batch_from cur (agent_memory_input_max_chars s) cur ms"

section \<open>The update\<close>

text \<open>A legacy conversation without cursor respects the latest disabled summary.\<close>

definition retired_at :: "uuid \<Rightarrow> db \<Rightarrow> time option" where
  "retired_at conv d =
     (case rev (sort (concat (map (\<lambda>x. case ms_valid_to x of
          Some t \<Rightarrow> if ms_conversation_id x = conv then [t] else [] | None \<Rightarrow> []) (db_summaries d)))) of
        [] \<Rightarrow> None | t # _ \<Rightarrow> Some t)"

definition effective_cursor :: "conversation \<Rightarrow> db \<Rightarrow> cursor" where
  "effective_cursor c d = (case c_memory_cursor c of
     NoCursor \<Rightarrow> (case retired_at (c_id c) d of None \<Rightarrow> NoCursor | Some t \<Rightarrow> AfterTime t)
   | cur \<Rightarrow> cur)"

text \<open>\<open>ORDER BY updated_at DESC, id\<close>, the first row.\<close>

definition active_summary :: "uuid \<Rightarrow> db \<Rightarrow> memory_summary option" where
  "active_summary conv d =
     (case sort_key (\<lambda>x. (- ms_updated_at x, ms_id x))
         (filter (\<lambda>x. ms_conversation_id x = conv \<and> ms_valid_to x = None) (db_summaries d)) of
        [] \<Rightarrow> None | x # _ \<Rightarrow> Some x)"

definition bad_summary :: "(nat \<Rightarrow> bool) \<Rightarrow> ustr \<Rightarrow> bool" where
  "bad_summary uni summary \<longleftrightarrow>
     strip summary = [] \<or> 8000 < length summary \<or> rx_search uni raw_tool_protocol_re summary
     \<or> contains_raw_tool_protocol summary"

definition store_summary :: "memory_summary option \<Rightarrow> uuid \<Rightarrow> uuid \<Rightarrow> time \<Rightarrow> time \<Rightarrow> ustr \<Rightarrow> db \<Rightarrow> db" where
  "store_summary existing new_id conv valid_from now summary d =
     (case existing of
        Some x \<Rightarrow> d\<lparr>db_summaries := put_row ms_id
            (x\<lparr>ms_summary := strip summary, ms_updated_at := now\<rparr>) (db_summaries d)\<rparr>
      | None \<Rightarrow> d\<lparr>db_summaries := db_summaries d @ [\<lparr>ms_id = new_id, ms_conversation_id = conv,
            ms_summary = strip summary, ms_valid_from = Some valid_from, ms_valid_to = None,
            ms_created_at = now, ms_updated_at = now\<rparr>]\<rparr>)"

definition put_conversation :: "conversation \<Rightarrow> db \<Rightarrow> db" where
  "put_conversation c d = d\<lparr>db_conversations := put_row c_id c (db_conversations d)\<rparr>"

definition owned_conversation :: "uuid \<Rightarrow> uuid option \<Rightarrow> db \<Rightarrow> conversation option" where
  "owned_conversation i usr d = find (\<lambda>c. c_id c = i \<and> c_user_id c = usr) (db_conversations d)"

type_synonym summarizer = "batch \<Rightarrow> ustr option \<Rightarrow> ustr res"

definition update_steps ::
  "(nat \<Rightarrow> bool) \<Rightarrow> agent_settings \<Rightarrow> summarizer \<Rightarrow> uuid option \<Rightarrow> bool \<Rightarrow> uuid \<Rightarrow> uuid \<Rightarrow> time \<Rightarrow> db
   \<Rightarrow> db \<times> bool res" where
  "update_steps uni s summarize usr locked new_id conv now d =
     (case (if locked then None else owned_conversation conv usr d) of
        None \<Rightarrow> (d, Inr False)
      | Some c \<Rightarrow>
          (let cur = effective_cursor c d;
               messages = source_messages s conv cur d in
           case make_batch s cur messages of (batch, next_cursor) \<Rightarrow>
             if batch = [] then (d, Inr False)
             else
               (let existing = active_summary conv d in
                case summarize batch (map_option (\<lambda>x. take 8000 (ms_summary x)) existing) of
                  Inl e \<Rightarrow> (d, Inl e)
                | Inr summary \<Rightarrow>
                    if bad_summary uni summary then (d, Inr False)
                    else (put_conversation (c\<lparr>c_memory_cursor := next_cursor, c_updated_at := now\<rparr>)
                            (store_summary existing new_id conv (m_created_at (hd messages)) now summary d),
                          Inr True))))"

text \<open>Best effort: any exception but a cancellation is swallowed; the transaction is rolled back.\<close>

definition update_memory ::
  "(nat \<Rightarrow> bool) \<Rightarrow> agent_settings \<Rightarrow> summarizer \<Rightarrow> uuid option \<Rightarrow> bool \<Rightarrow> uuid \<Rightarrow> uuid \<Rightarrow> time \<Rightarrow> db
   \<Rightarrow> db \<times> bool res" where
  "update_memory uni s summarize usr locked new_id conv now d =
     (case update_steps uni s summarize usr locked new_id conv now d of
        (d', Inr b) \<Rightarrow> (d', Inr b)
      | (_, Inl e) \<Rightarrow> (d, if is_exception e then Inr False else Inl e))"

section \<open>Routes\<close>

definition owned_summaries ::
  "uuid \<Rightarrow> uuid option \<Rightarrow> uuid option \<Rightarrow> bool \<Rightarrow> db \<Rightarrow> memory_summary list" where
  "owned_summaries usr summary_id conv include_disabled d =
     rev (sort_key (\<lambda>x. (ms_updated_at x, ms_created_at x))
       (filter (\<lambda>x. (\<exists>c \<in> set (db_conversations d). c_id c = ms_conversation_id x \<and> c_user_id c = Some usr)
            \<and> (case summary_id of None \<Rightarrow> True | Some i \<Rightarrow> ms_id x = i)
            \<and> (case conv of None \<Rightarrow> True | Some c \<Rightarrow> ms_conversation_id x = c)
            \<and> (include_disabled \<or> ms_valid_to x = None)) (db_summaries d)))"

definition list_memory_summaries :: "uuid \<Rightarrow> uuid option \<Rightarrow> bool \<Rightarrow> db \<Rightarrow> memory_summary list" where
  "list_memory_summaries usr conv include_disabled d = owned_summaries usr None conv include_disabled d"

definition summary_not_found :: exn where
  "summary_not_found = HttpError 404 (lit ''Memory summary not found'')"

text \<open>The id is the primary key, so there is at most one row.\<close>

definition get_owned_memory_summary :: "uuid \<Rightarrow> uuid \<Rightarrow> db \<Rightarrow> memory_summary option" where
  "get_owned_memory_summary usr i d =
     (case owned_summaries usr (Some i) None True d of [] \<Rightarrow> None | x # _ \<Rightarrow> Some x)"

definition get_memory_summary :: "uuid \<Rightarrow> uuid \<Rightarrow> db \<Rightarrow> memory_summary res" where
  "get_memory_summary usr i d =
     (case get_owned_memory_summary usr i d of None \<Rightarrow> Inl summary_not_found | Some x \<Rightarrow> Inr x)"

definition disable_memory_summary :: "uuid \<Rightarrow> uuid \<Rightarrow> time \<Rightarrow> db \<Rightarrow> db \<times> memory_summary res" where
  "disable_memory_summary usr i now d =
     (case get_owned_memory_summary usr i d of
        None \<Rightarrow> (d, Inl summary_not_found)
      | Some x \<Rightarrow>
          (let x' = (if ms_valid_to x = None then x\<lparr>ms_valid_to := Some now, ms_updated_at := now\<rparr> else x) in
           (d\<lparr>db_summaries := put_row ms_id x' (db_summaries d)\<rparr>, Inr x')))"

text \<open>Deleting the summary of a conversation without a cursor first stores the boundary to forget.\<close>

definition delete_memory_summary :: "uuid \<Rightarrow> uuid \<Rightarrow> time \<Rightarrow> db \<Rightarrow> db \<times> unit res" where
  "delete_memory_summary usr i now d =
     (case get_owned_memory_summary usr i d of
        None \<Rightarrow> (d, Inl summary_not_found)
      | Some x \<Rightarrow>
          (let d1 = (case owned_conversation (ms_conversation_id x) (Some usr) d of
                       Some c \<Rightarrow> if c_memory_cursor c = NoCursor
                         then put_conversation (c\<lparr>c_memory_cursor := AfterTime now, c_updated_at := now\<rparr>) d
                         else d
                     | None \<Rightarrow> d) in
           (d1\<lparr>db_summaries := filter (\<lambda>y. ms_id y \<noteq> ms_id x) (db_summaries d1)\<rparr>, Inr ())))"

section \<open>Facts: batches\<close>

text \<open>What is still to be compacted: the text from the cursor on.\<close>

definition pending :: "cursor \<Rightarrow> message list \<Rightarrow> ustr" where
  "pending c ms = concat (map (\<lambda>m. drop (cursor_offset c m) (m_content m)) ms)"

definition before :: "message \<Rightarrow> message \<Rightarrow> bool" where
  "before x y \<longleftrightarrow> m_pos x < m_pos y"

lemma pending_simps [simp]:
  "pending c [] = []" "pending c (m # ms) = drop (cursor_offset c m) (m_content m) @ pending c ms"
  "pending c (xs @ ys) = pending c xs @ pending c ys"
  by (simp_all add: pending_def)

lemma pending_offset_zero:
  "(\<And>m. m \<in> set ms \<Longrightarrow> cursor_offset c m = cursor_offset c' m) \<Longrightarrow> pending c ms = pending c' ms"
  by (induction ms) auto

lemma before_neq_id: "before x y \<Longrightarrow> m_created_at x = m_created_at y \<Longrightarrow> m_id x \<noteq> m_id y"
  by (auto simp: before_def m_pos_def)

definition cursor_at :: "cursor \<Rightarrow> message \<Rightarrow> bool" where
  "cursor_at c m \<longleftrightarrow> (\<exists>off n. c = AtMessage (m_id m) (m_created_at m) off n \<and> off < length (m_content m))"

lemma past_at:
  "c = AtMessage (m_id m) (m_created_at m) off n \<Longrightarrow> before m x \<Longrightarrow> past_cursor c x"
  by (auto simp: past_cursor_def before_def m_pos_def)

lemma not_past_at:
  "c = AtMessage (m_id m) (m_created_at m) off n \<Longrightarrow> before x m \<Longrightarrow> \<not> past_cursor c x"
  by (auto simp: past_cursor_def before_def m_pos_def)

text \<open>
  A batch takes the next stretch of the pending text, and the new cursor leaves exactly the rest.
\<close>

lemma batch_from_props:
  assumes "sorted_wrt before ms" and "distinct (map m_id ms)" and "ms \<noteq> []" and "0 < r"
    and "\<forall>m \<in> set ms. cursor_offset cur m < length (m_content m)"
    and "\<forall>m \<in> set (tl ms). cursor_offset cur m = 0"
    and "batch_from cur r nxt ms = (b, nxt')"
  shows "concat (map snd b) = take r (pending cur ms) \<and> b \<noteq> []
    \<and> (\<exists>m \<in> set ms. cursor_at nxt' m)
    \<and> pending nxt' (filter (past_cursor nxt') ms) = drop r (pending cur ms)"
  using assms
proof (induction ms arbitrary: r nxt b)
  case Nil
  then show ?case by simp
next
  case (Cons m ms)
  let ?off = "cursor_offset cur m"
  let ?text = "drop ?off (m_content m)"
  let ?content = "take r ?text"
  have off: "?off < length (m_content m)" using Cons.prems(5) by simp
  have ne: "?content \<noteq> []" using off Cons.prems(4) by simp
  have later: "before m x" if "x \<in> set ms" for x using Cons.prems(1) that by simp
  have ids: "m_id x \<noteq> m_id m" if "x \<in> set ms" for x
    using Cons.prems(2) that by simp (metis image_eqI)
  have zero: "cursor_offset cur x = 0" if "x \<in> set ms" for x using Cons.prems(6) that by simp
  show ?case
  proof (cases "r < length ?text")
    case True
    then have len: "length ?content = r" and stop: "?off + r < length (m_content m)" by auto
    let ?n = "AtMessage (m_id m) (m_created_at m) (?off + r) (cursor_count nxt)"
    have b: "b = [(m_role m, ?content)]" "nxt' = ?n"
      using Cons.prems(7) ne len stop by (auto simp: Let_def)
    have keep: "filter (past_cursor ?n) ms = ms"
      using later past_at [of ?n m] by (simp add: filter_id_conv)
    have at: "past_cursor ?n m" using Cons.prems(4) by (simp add: past_cursor_def m_pos_def)
    have "cursor_offset ?n x = cursor_offset cur x" if "x \<in> set ms" for x
      using ids [OF that] zero [OF that] by (simp add: cursor_offset_def)
    then have "pending ?n ms = pending cur ms" by (rule pending_offset_zero)
    moreover have "cursor_offset ?n m = ?off + r" by (simp add: cursor_offset_def)
    ultimately have "pending nxt' (filter (past_cursor nxt') (m # ms)) = drop r (pending cur (m # ms))"
      using True keep at b by (simp add: add.commute)
    moreover have "cursor_at nxt' m" using b stop by (simp add: cursor_at_def)
    ultimately show ?thesis using b True by simp
  next
    case False
    then have whole: "?content = ?text" by simp
    let ?k = "length ?text"
    let ?n = "AtMessage (m_id m) (m_created_at m) 0 (cursor_count nxt + 1)"
    have stop: "?off + ?k = length (m_content m)" using off by simp
    have gone: "\<not> past_cursor ?n m" by (simp add: past_cursor_def m_pos_def)
    have keep: "filter (past_cursor ?n) ms = ms"
      using later past_at [of ?n m] by (simp add: filter_id_conv)
    have "cursor_offset ?n x = cursor_offset cur x" if "x \<in> set ms" for x
      using zero [OF that] by (simp add: cursor_offset_def)
    then have rest: "pending ?n ms = pending cur ms" by (rule pending_offset_zero)
    have ne': "?text \<noteq> []" using off by simp
    have step: "(b, nxt') = (let rest = (if r - ?k = 0 then ([], ?n) else batch_from cur (r - ?k) ?n ms) in
        ((m_role m, ?text) # fst rest, snd rest))"
      unfolding Cons.prems(7) [symmetric] using off ne'
      by (simp only: batch_from.simps Let_def whole stop if_True if_False simp_thms)
    have at: "cursor_at ?n m" using off by (simp add: cursor_at_def) (cases "m_content m"; simp)
    show ?thesis
    proof (cases "r - ?k = 0 \<or> ms = []")
      case True
      then have "(if r - ?k = 0 then ([], ?n) else batch_from cur (r - ?k) ?n ms) = ([], ?n)" by auto
      then have "b = [(m_role m, ?text)]" "nxt' = ?n"
        using step by (simp_all only: Let_def fst_conv snd_conv prod.inject simp_thms)
      with True False gone keep rest at show ?thesis by auto
    next
      case more: False
      from more have "r - ?k \<noteq> 0" by simp
      then obtain b2 where b2: "batch_from cur (r - ?k) ?n ms = (b2, nxt')" and b: "b = (m_role m, ?text) # b2"
        using step by (cases "batch_from cur (r - ?k) ?n ms")
          (simp only: Let_def if_False fst_conv snd_conv prod.inject simp_thms)
      have "sorted_wrt before ms" "distinct (map m_id ms)" "ms \<noteq> []" "0 < r - ?k"
        "\<forall>x \<in> set ms. cursor_offset cur x < length (m_content x)" "\<forall>x \<in> set (tl ms). cursor_offset cur x = 0"
        using Cons.prems(1,2,5) more zero by (auto dest: list.set_sel(2))
      from Cons.IH [OF this b2] obtain x where IH:
        "concat (map snd b2) = take (r - ?k) (pending cur ms)" "x \<in> set ms" "cursor_at nxt' x"
        "pending nxt' (filter (past_cursor nxt') ms) = drop (r - ?k) (pending cur ms)" by auto
      have "\<not> past_cursor nxt' m" using IH(2,3) later not_past_at by (fastforce simp: cursor_at_def)
      with IH b False show ?thesis by auto
    qed
  qed
qed

section \<open>Facts: the cursor over the conversation\<close>

definition all_pending :: "agent_settings \<Rightarrow> uuid \<Rightarrow> cursor \<Rightarrow> db \<Rightarrow> message list" where
  "all_pending s conv c d =
     (let ms = memory_messages conv d in
      sort_key m_pos (filter (\<lambda>m. m_id m \<notin> set (recent_ids s ms) \<and> past_cursor c m) ms))"

text \<open>A cursor fits the messages: it stands at the message it names, inside its text.\<close>

definition cursor_ok :: "cursor \<Rightarrow> message list \<Rightarrow> bool" where
  "cursor_ok c ms \<longleftrightarrow> (case c of
     AtMessage i t off n \<Rightarrow> (\<forall>m \<in> set ms. m_id m = i \<longrightarrow> m_created_at m = t \<and> off < length (m_content m))
   | _ \<Rightarrow> True)"

lemma source_messages_take: "source_messages s conv c d = take 50 (all_pending s conv c d)"
  by (simp add: source_messages_def all_pending_def Let_def)

lemma set_all_pending:
  "m \<in> set (all_pending s conv c d) \<longleftrightarrow> m \<in> set (memory_messages conv d)
     \<and> m_id m \<notin> set (recent_ids s (memory_messages conv d)) \<and> past_cursor c m"
  by (auto simp: all_pending_def Let_def)

lemma distinct_memory_ids:
  "keys_distinct m_id (db_messages d) \<Longrightarrow> distinct (map m_id (memory_messages conv d))"
  by (simp add: keys_distinct_def memory_messages_def distinct_map_filter)

lemma distinct_sort_ids: "distinct (map f xs) \<Longrightarrow> distinct (map f (sort_key g xs))"
  by (simp add: distinct_map)

lemma sorted_before:
  assumes "sorted (map m_pos ms)" and "distinct (map m_id ms)"
  shows "sorted_wrt before ms"
  using assms
proof (induction ms)
  case (Cons m ms)
  have "before m x" if x: "x \<in> set ms" for x
  proof -
    have "m_pos m \<le> m_pos x" using Cons.prems(1) x by simp
    moreover have "m_id m \<noteq> m_id x" using Cons.prems(2) x by simp (metis image_eqI)
    then have "m_pos m \<noteq> m_pos x" by (simp add: m_pos_def)
    ultimately show ?thesis by (simp add: before_def)
  qed
  with Cons show ?case by simp
qed simp

lemma all_pending_sorted:
  assumes "keys_distinct m_id (db_messages d)"
  shows "sorted_wrt before (all_pending s conv c d)" and "distinct (map m_id (all_pending s conv c d))"
proof -
  show d: "distinct (map m_id (all_pending s conv c d))"
    unfolding all_pending_def Let_def
    by (intro distinct_sort_ids distinct_map_filter distinct_memory_ids assms)
  show "sorted_wrt before (all_pending s conv c d)"
    by (rule sorted_before [OF _ d]) (simp add: all_pending_def Let_def)
qed

lemma offset_ok:
  assumes "cursor_ok c (memory_messages conv d)" and "m \<in> set (memory_messages conv d)"
  shows "cursor_offset c m < length (m_content m)"
  using assms by (auto simp: cursor_ok_def cursor_offset_def memory_messages_def split: cursor.split)

text \<open>Only the first pending message can be entered in the middle.\<close>

lemma tail_offset_zero:
  assumes "sorted_wrt before ms" and "\<forall>m \<in> set ms. past_cursor c m" and "cursor_ok c ms"
    and "m \<in> set (tl ms)"
  shows "cursor_offset c m = 0"
proof (cases c)
  case (AtMessage i t off n)
  show ?thesis
  proof (rule ccontr)
    assume "cursor_offset c m \<noteq> 0"
    with AtMessage have off: "off \<noteq> 0" "m_id m = i" by (auto simp: cursor_offset_def split: if_splits)
    have m: "m \<in> set ms" using assms(4) by (metis list.sel(2) list.set_sel(2))
    with AtMessage off assms(3) have pos: "m_pos m = (t, i)" by (auto simp: cursor_ok_def m_pos_def)
    have hd: "before (hd ms) m" "hd ms \<in> set ms" using assms(1,4) by (cases ms; simp)+
    with assms(2) AtMessage off have "(t, i) \<le> m_pos (hd ms)" by (auto simp: past_cursor_def)
    with hd(1) pos show False by (simp add: before_def)
  qed
qed (simp_all add: cursor_offset_def)

lemma filter_all_pending:
  assumes "\<And>m. past_cursor c' m \<Longrightarrow> past_cursor c m"
  shows "all_pending s conv c' d = filter (past_cursor c') (all_pending s conv c d)"
proof -
  have "filter (past_cursor c') (sort_key m_pos xs) = sort_key m_pos (filter (past_cursor c') xs)" for xs
    by (simp add: filter_sort)
  then show ?thesis
    using assms by (auto simp: all_pending_def Let_def intro!: arg_cong [of _ _ "sort_key m_pos"] filter_cong)
qed

lemma make_batch_advances:
  assumes "keys_distinct m_id (db_messages d)" and "cursor_ok c (memory_messages conv d)"
    and "0 < agent_memory_input_max_chars s"
    and "make_batch s c (source_messages s conv c d) = (b, c')" and "b \<noteq> []"
  shows "\<exists>n > 0. concat (map snd b) = take n (pending c (all_pending s conv c d))
    \<and> pending c' (all_pending s conv c' d) = drop n (pending c (all_pending s conv c d))
    \<and> cursor_ok c' (memory_messages conv d) \<and> c' \<noteq> NoCursor"
proof -
  let ?all = "all_pending s conv c d"
  let ?src = "take 50 ?all"
  let ?late = "drop 50 ?all"
  let ?r = "agent_memory_input_max_chars s"
  note srt = all_pending_sorted [OF assms(1), of s conv c]
  have split: "?src @ ?late = ?all" by simp
  have srt_src: "sorted_wrt before ?src" "distinct (map m_id ?src)"
    using srt by (simp_all add: sorted_wrt_take take_map [symmetric])
  have src_all: "x \<in> set ?all" if "x \<in> set ?src" for x using that by (rule in_set_takeD)
  have ok_all: "cursor_ok c ?all"
    using assms(2) by (auto simp: cursor_ok_def set_all_pending split: cursor.splits)
  have past_all: "\<forall>m \<in> set ?all. past_cursor c m" by (simp add: set_all_pending)
  have offs: "\<forall>m \<in> set ?src. cursor_offset c m < length (m_content m)"
    using src_all offset_ok [OF assms(2)] by (simp add: set_all_pending)
  have zero: "cursor_offset c m = 0" if "m \<in> set (tl ?all)" for m
    using tail_offset_zero [OF srt(1) past_all ok_all that] .
  have tl_src: "\<forall>m \<in> set (tl ?src). cursor_offset c m = 0"
    using zero by (cases ?all) (auto dest: in_set_takeD)
  have late_zero: "cursor_offset c m = 0" if "m \<in> set ?late" for m
    using that zero by (cases ?all) (auto dest: in_set_dropD)
  have ne: "?src \<noteq> []"
    using assms(4,5) unfolding make_batch_def source_messages_take by (cases ?src) auto
  from batch_from_props [OF srt_src ne assms(3) offs tl_src, of c b c'] assms(4)
  obtain m where B: "concat (map snd b) = take ?r (pending c ?src)" "m \<in> set ?src" "cursor_at c' m"
    "pending c' (filter (past_cursor c') ?src) = drop ?r (pending c ?src)"
    unfolding make_batch_def source_messages_take by auto
  obtain off k where c': "c' = AtMessage (m_id m) (m_created_at m) off k" "off < length (m_content m)"
    using B(3) by (auto simp: cursor_at_def)
  have m: "m \<in> set ?all" using B(2) by (rule src_all)
  have late_before: "before m x" if "x \<in> set ?late" for x
    using srt(1) B(2) that split by (metis sorted_wrt_append)
  have keep: "filter (past_cursor c') ?late = ?late"
    using late_before past_at [OF c'(1)] by (simp add: filter_id_conv)
  have mem: "m_id x \<noteq> m_id m" if "x \<in> set ?late" for x
    using srt(2) B(2) that split
    by (metis (no_types, lifting) Int_iff distinct_append empty_iff image_eqI list.set_map map_append)
  have "cursor_offset c' x = cursor_offset c x" if "x \<in> set ?late" for x
    using mem [OF that] late_zero [OF that] c' by (simp add: cursor_offset_def)
  then have late: "pending c' ?late = pending c ?late" by (rule pending_offset_zero)
  have mono: "past_cursor c x" if "past_cursor c' x" for x
  proof -
    have "past_cursor c m" using m by (simp add: set_all_pending)
    moreover have "m_pos m \<le> m_pos x"
      using that c' by (auto simp: past_cursor_def m_pos_def split: if_splits)
    ultimately show ?thesis
      by (auto simp: past_cursor_def m_pos_def split: cursor.splits if_splits)
  qed
  have "pending c (?src @ ?late) = pending c ?src @ pending c ?late" by (simp only: pending_simps)
  then have pall: "pending c ?all = pending c ?src @ pending c ?late" by (simp only: split)
  have "pending c' (all_pending s conv c' d) = pending c' (filter (past_cursor c') (?src @ ?late))"
    using filter_all_pending [OF mono, where s = s and conv = conv and d = d] split by simp
  also have "\<dots> = drop ?r (pending c ?src) @ pending c ?late"
    by (simp only: filter_append pending_simps B(4) keep late)
  also have "\<dots> = drop (min ?r (length (pending c ?src))) (pending c ?all)"
    by (simp add: pall min_def)
  finally have rest: "pending c' (all_pending s conv c' d) = drop (min ?r (length (pending c ?src))) (pending c ?all)" .
  have head: "concat (map snd b) = take (min ?r (length (pending c ?src))) (pending c ?all)"
    by (simp add: pall B(1) min_def)
  have "pending c ?src \<noteq> []" using ne offs by (cases ?src) auto
  then have pos: "0 < min ?r (length (pending c ?src))" using assms(3) by simp
  have ok': "cursor_ok c' (memory_messages conv d)"
  proof -
    have "x = m" if "x \<in> set (memory_messages conv d)" "m_id x = m_id m" for x
      using distinct_memory_ids [OF assms(1), of conv] that m
      by (auto simp: distinct_map set_all_pending dest: inj_onD)
    with c' show ?thesis by (auto simp: cursor_ok_def)
  qed
  from pos head rest ok' c'(1) show ?thesis by (intro exI [of _ "min ?r (length (pending c ?src))"]) simp
qed

section \<open>Properties\<close>

lemma owned_conversation_put:
  assumes "owned_conversation i usr d = Some c" and "keys_distinct c_id (db_conversations d)"
  shows "owned_conversation i usr (put_conversation (c\<lparr>c_memory_cursor := k, c_updated_at := t\<rparr>) d) =
    Some (c\<lparr>c_memory_cursor := k, c_updated_at := t\<rparr>)"
proof -
  have id: "c_id c = i" and usr: "c_user_id c = usr" and mem: "c \<in> set (db_conversations d)"
    using find_SomeD [OF assms(1) [unfolded owned_conversation_def]] by auto
  have same: "x = c" if "x \<in> set (db_conversations d)" "c_id x = i" for x
    using assms(2) mem id that by (auto simp: keys_distinct_def distinct_map dest: inj_onD)
  have "find (\<lambda>x. c_id x = i \<and> c_user_id x = usr) (put_row c_id (c\<lparr>c_memory_cursor := k, c_updated_at := t\<rparr>) xs)
      = Some (c\<lparr>c_memory_cursor := k, c_updated_at := t\<rparr>)"
    if "c \<in> set xs" for xs
    using that id usr by (induction xs) (auto simp: put_row_def)
  then show ?thesis using mem by (simp add: owned_conversation_def put_conversation_def)
qed

lemma update_memory_cases:
  assumes "update_memory uni s summarize usr locked new_id conv now d = (d', r)"
  obtains (skipped) "d' = d" "r \<noteq> Inr True"
  | (compacted) c b nxt summary where "r = Inr True" "owned_conversation conv usr d = Some c"
      "make_batch s (effective_cursor c d) (source_messages s conv (effective_cursor c d) d) = (b, nxt)" "b \<noteq> []"
      "summarize b (map_option (\<lambda>x. take 8000 (ms_summary x)) (active_summary conv d)) = Inr summary"
      "\<not> bad_summary uni summary"
      "d' = put_conversation (c\<lparr>c_memory_cursor := nxt, c_updated_at := now\<rparr>)
         (store_summary (active_summary conv d) new_id conv
           (m_created_at (hd (source_messages s conv (effective_cursor c d) d))) now summary d)"
proof (cases "update_steps uni s summarize usr locked new_id conv now d")
  case (Pair d1 r1)
  show thesis
  proof (cases "r1 = Inr True")
    case False
    with assms Pair show ?thesis
      by (intro skipped) (auto simp: update_memory_def update_steps_def Let_def
          split: sum.splits option.splits prod.splits if_splits)
  next
    case True
    with assms Pair have "update_steps uni s summarize usr locked new_id conv now d = (d', Inr True)" "r = Inr True"
      by (auto simp: update_memory_def)
    then show ?thesis
      by (auto simp: update_steps_def Let_def intro: compacted
          split: sum.splits option.splits prod.splits if_splits)
  qed
qed

lemma store_summary_keeps [simp]:
  "db_messages (store_summary x i conv t now y d) = db_messages d"
  "db_conversations (store_summary x i conv t now y d) = db_conversations d"
  "db_messages (put_conversation c d) = db_messages d"
  by (simp_all add: store_summary_def put_conversation_def split: option.split)

lemma active_summary_Some:
  assumes "active_summary conv d = Some x"
  shows "x \<in> set (db_summaries d) \<and> ms_conversation_id x = conv \<and> ms_valid_to x = None"
proof -
  let ?ys = "filter (\<lambda>x. ms_conversation_id x = conv \<and> ms_valid_to x = None) (db_summaries d)"
  obtain xs where xs: "sort_key (\<lambda>x. (- ms_updated_at x, ms_id x)) ?ys = x # xs"
    using assms by (auto simp: active_summary_def split: list.splits)
  have "x \<in> set (x # xs)" by simp
  then show ?thesis unfolding xs [symmetric] by simp
qed

lemma all_pending_cong: "db_messages d' = db_messages d \<Longrightarrow> all_pending s conv c d' = all_pending s conv c d"
  by (simp add: all_pending_def memory_messages_def)

text \<open>
  C20. Compaction reads every character of the older messages exactly once and in order: a
  successful update hands the model precisely the next stretch of the text that was pending, and
  stores a cursor that leaves precisely the rest; messages themselves are never changed.
\<close>

theorem memory_reads_each_character_once:
  assumes "keys_distinct m_id (db_messages d)" and "keys_distinct c_id (db_conversations d)"
    and "0 < agent_memory_input_max_chars s"
    and "owned_conversation conv usr d = Some c" and "cursor_ok (effective_cursor c d) (memory_messages conv d)"
    and "update_memory uni s summarize usr locked new_id conv now d = (d', Inr True)"
  shows "\<exists>b old summary n c'. 0 < n \<and> summarize b old = Inr summary
    \<and> concat (map snd b) = take n (pending (effective_cursor c d) (all_pending s conv (effective_cursor c d) d))
    \<and> owned_conversation conv usr d' = Some c'
    \<and> pending (effective_cursor c' d') (all_pending s conv (effective_cursor c' d') d')
        = drop n (pending (effective_cursor c d) (all_pending s conv (effective_cursor c d) d))
    \<and> cursor_ok (effective_cursor c' d') (memory_messages conv d') \<and> db_messages d' = db_messages d"
  using assms(6)
proof (cases rule: update_memory_cases)
  case skipped
  then show ?thesis by simp
next
  case (compacted c0 b nxt summary)
  with assms(4) have c0: "c0 = c" by simp
  let ?c' = "c\<lparr>c_memory_cursor := nxt, c_updated_at := now\<rparr>"
  from make_batch_advances [OF assms(1,5,3) compacted(3,4) [unfolded c0]] obtain n where
    n: "n > 0" "concat (map snd b) = take n (pending (effective_cursor c d) (all_pending s conv (effective_cursor c d) d))"
    "pending nxt (all_pending s conv nxt d) = drop n (pending (effective_cursor c d) (all_pending s conv (effective_cursor c d) d))"
    "cursor_ok nxt (memory_messages conv d)" "nxt \<noteq> NoCursor" by blast
  have msgs: "db_messages d' = db_messages d" using compacted(7) by simp
  have eff: "effective_cursor ?c' d' = nxt"
    using n(5) by (simp add: effective_cursor_def split: cursor.split)
  have own: "owned_conversation conv usr d' = Some ?c'"
    unfolding compacted(7) c0
    by (rule owned_conversation_put)
      (use assms(2,4) in \<open>simp_all add: owned_conversation_def\<close>)
  show ?thesis
    using n compacted(5) own eff msgs
    by (intro exI [of _ b] exI [of _ "map_option (\<lambda>x. take 8000 (ms_summary x)) (active_summary conv d)"]
        exI [of _ summary] exI [of _ n] exI [of _ ?c'])
      (simp add: all_pending_cong [OF msgs] memory_messages_def)
qed

definition demo_memory_settings :: agent_settings where
  "demo_memory_settings = default_agent_settings\<lparr>agent_memory_message_limit := 0\<rparr>"

definition demo_message :: message where
  "demo_message = \<lparr>m_id = UUID 30, m_conversation_id = UUID 10, m_role = UserRole, m_content = lit ''hi'',
     m_model_name = None, m_created_at = 5, m_agent_task_id = None, m_tool_calls = [],
     m_continuation = None, m_approval = None, m_metadata = JObj []\<rparr>"

definition demo_conversation :: conversation where
  "demo_conversation = \<lparr>c_id = UUID 10, c_user_id = Some (UUID 7), c_title = lit ''chat'',
     c_memory_cursor = NoCursor, c_updated_at = 5\<rparr>"

definition demo_memory_db :: db where
  "demo_memory_db = empty_db\<lparr>db_conversations := [demo_conversation], db_messages := [demo_message]\<rparr>"

abbreviation demo_update :: "db \<times> bool res" where
  "demo_update \<equiv> update_memory (\<lambda>_. False) demo_memory_settings (\<lambda>_ _. Inr (lit ''x'')) (Some (UUID 7)) False
     (UUID 20) (UUID 10) 9 demo_memory_db"

lemma demo_summary_good: "\<not> bad_summary (\<lambda>_. False) (lit ''x'')"
  by (simp add: bad_summary_def str_eval rx_search_def raw_tool_protocol_re_def rx_block_def rx_open_def
      rx_ilit_def icase_def contains_raw_tool_protocol_def raw_tool_protocol_markers_def lower_def lower_cp_def sublist_Cons_right)

lemma demo_update_runs: "snd demo_update = Inr True"
proof -
  have src: "source_messages demo_memory_settings (UUID 10) NoCursor demo_memory_db = [demo_message]"
    by (simp add: source_messages_def memory_messages_def recent_ids_def demo_memory_settings_def
        default_agent_settings_def demo_memory_db_def demo_message_def past_cursor_def)
  have own: "owned_conversation (UUID 10) (Some (UUID 7)) demo_memory_db = Some demo_conversation"
    by (simp add: owned_conversation_def demo_memory_db_def demo_conversation_def)
  have cur: "effective_cursor demo_conversation demo_memory_db = NoCursor"
    by (simp add: effective_cursor_def retired_at_def demo_conversation_def demo_memory_db_def empty_db_def)
  have "\<exists>m b nxt. make_batch demo_memory_settings NoCursor [demo_message] = (m # b, nxt)"
    by (simp add: make_batch_def demo_memory_settings_def default_agent_settings_def Let_def demo_message_def
        cursor_offset_def)
  then show ?thesis
    using src own cur demo_summary_good
    by (auto simp: update_memory_def update_steps_def Let_def)
qed

theorem memory_reads_each_character_once_witness:
  "\<exists>b n. 0 < n \<and> concat (map snd (b :: batch)) =
      take n (pending NoCursor (all_pending demo_memory_settings (UUID 10) NoCursor demo_memory_db))
    \<and> db_messages (fst demo_update) = db_messages demo_memory_db"
proof -
  have eq: "demo_update = (fst demo_update, Inr True)" using demo_update_runs by (metis prod.collapse)
  have own: "owned_conversation (UUID 10) (Some (UUID 7)) demo_memory_db = Some demo_conversation"
    by (simp add: owned_conversation_def demo_memory_db_def demo_conversation_def)
  have cur: "effective_cursor demo_conversation demo_memory_db = NoCursor"
    by (simp add: effective_cursor_def retired_at_def demo_conversation_def demo_memory_db_def empty_db_def)
  have "keys_distinct m_id (db_messages demo_memory_db)" "keys_distinct c_id (db_conversations demo_memory_db)"
    "0 < agent_memory_input_max_chars demo_memory_settings"
    "cursor_ok (effective_cursor demo_conversation demo_memory_db) (memory_messages (UUID 10) demo_memory_db)"
    using cur by (simp_all add: keys_distinct_def demo_memory_db_def demo_memory_settings_def
        default_agent_settings_def cursor_ok_def)
  note once = memory_reads_each_character_once [OF this(1-3) own this(4) eq, unfolded cur]
  show ?thesis using once by (elim exE conjE) (intro exI conjI)
qed

text \<open>
  Compaction is best effort and safe: an update that does not report success leaves the whole
  database as it was, and one that does stores a summary that is not blank, has at most 8000
  characters and no tool-call markup.
\<close>

theorem failed_compaction_changes_nothing:
  assumes "update_memory uni s summarize usr locked new_id conv now d = (d', r)"
  shows "(r \<noteq> Inr True \<longrightarrow> d' = d)
    \<and> (r = Inr True \<longrightarrow> (\<exists>text x. x \<in> set (db_summaries d') \<and> ms_summary x = strip text
         \<and> ms_conversation_id x = conv \<and> strip text \<noteq> [] \<and> length text \<le> 8000
         \<and> \<not> contains_raw_tool_protocol text \<and> \<not> rx_search uni raw_tool_protocol_re text))"
  using assms
proof (cases rule: update_memory_cases)
  case skipped
  then show ?thesis by simp
next
  case (compacted c b nxt summary)
  have "\<exists>x \<in> set (db_summaries d'). ms_summary x = strip summary \<and> ms_conversation_id x = conv"
  proof (cases "active_summary conv d")
    case None
    with compacted(7) show ?thesis by (auto simp: put_conversation_def store_summary_def)
  next
    case (Some x)
    then have x: "x \<in> set (db_summaries d)" "ms_conversation_id x = conv"
      using active_summary_Some by auto
    let ?x = "x\<lparr>ms_summary := strip summary, ms_updated_at := now\<rparr>"
    have "db_summaries d' = put_row ms_id ?x (db_summaries d)"
      using compacted(7) Some by (simp add: put_conversation_def store_summary_def)
    then have "?x \<in> set (db_summaries d')" using x(1) by (force simp: put_row_def)
    with x(2) show ?thesis by (intro bexI [of _ ?x]) simp_all
  qed
  then obtain x where "x \<in> set (db_summaries d')" "ms_summary x = strip summary" "ms_conversation_id x = conv"
    by blast
  moreover have "strip summary \<noteq> []" "length summary \<le> 8000" "\<not> contains_raw_tool_protocol summary"
    "\<not> rx_search uni raw_tool_protocol_re summary"
    using compacted(6) by (auto simp: bad_summary_def)
  ultimately show ?thesis using compacted(1) by blast
qed

theorem failed_compaction_changes_nothing_witness:
  "\<exists>text x. x \<in> set (db_summaries (fst demo_update)) \<and> ms_summary x = strip text \<and> strip text \<noteq> []"
proof -
  have eq: "demo_update = (fst demo_update, Inr True)" using demo_update_runs by (metis prod.collapse)
  from failed_compaction_changes_nothing [OF eq] show ?thesis by blast
qed

lemma owned_summary_mem:
  "get_owned_memory_summary usr i d = Some x \<Longrightarrow> x \<in> set (db_summaries d) \<and> ms_id x = i"
proof -
  assume "get_owned_memory_summary usr i d = Some x"
  then obtain xs where xs: "owned_summaries usr (Some i) None True d = x # xs"
    by (auto simp: get_owned_memory_summary_def split: list.splits)
  have "x \<in> set (x # xs)" by simp
  then show ?thesis unfolding xs [symmetric] by (simp add: owned_summaries_def)
qed

lemma retired_at_ge:
  assumes "x \<in> set (db_summaries d)" and "ms_conversation_id x = conv" and "ms_valid_to x = Some t"
  shows "\<exists>r. retired_at conv d = Some r \<and> t \<le> r"
proof -
  let ?ts = "concat (map (\<lambda>x. case ms_valid_to x of
      Some t \<Rightarrow> if ms_conversation_id x = conv then [t] else [] | None \<Rightarrow> []) (db_summaries d))"
  have t: "t \<in> set ?ts" using assms by (auto intro!: bexI [of _ x])
  then have "?ts \<noteq> []" by (rule list.set_cases) simp_all
  then have "length (rev (sort ?ts)) \<noteq> 0" by (simp only: length_rev length_sort length_0_conv simp_thms)
  then obtain r rs where r: "rev (sort ?ts) = r # rs" by (cases "rev (sort ?ts)") simp_all
  have "sorted (rev (r # rs))" unfolding r [symmetric] by simp
  moreover have "t \<in> set (r # rs)" unfolding r [symmetric] using t by simp
  ultimately have "t \<le> r" by (auto simp: sorted_append)
  with r show ?thesis by (auto simp: retired_at_def)
qed

lemma forget_boundary:
  assumes "c_memory_cursor c = NoCursor \<Longrightarrow> \<exists>r. effective_cursor c' d' = AfterTime r \<and> now \<le> r"
    and "c_memory_cursor c \<noteq> NoCursor \<Longrightarrow> effective_cursor c' d' = c_memory_cursor c"
    and "m \<in> set (source_messages s conv (effective_cursor c' d') d')"
  shows "now < m_created_at m \<or> (c_memory_cursor c \<noteq> NoCursor \<and> past_cursor (c_memory_cursor c) m)"
proof -
  have "past_cursor (effective_cursor c' d') m"
    using assms(3) unfolding source_messages_take by (auto dest!: in_set_takeD simp: set_all_pending)
  then show ?thesis using assms(1,2) by (cases "c_memory_cursor c = NoCursor") (auto simp: past_cursor_def)
qed

text \<open>
  Forgetting is durable: after a user disables or deletes a summary of a conversation, no
  message from before that moment is ever a source of a compaction again, except those that an
  existing cursor had not reached yet, which were never in the summary.
\<close>

theorem forgotten_messages_stay_forgotten:
  assumes "get_owned_memory_summary usr i d = Some x" and "ms_valid_to x = None"
    and "keys_distinct ms_id (db_summaries d)" and "keys_distinct c_id (db_conversations d)"
    and "owned_conversation (ms_conversation_id x) (Some usr) d = Some c"
    and "d' = fst (disable_memory_summary usr i now d) \<or> d' = fst (delete_memory_summary usr i now d)"
    and "owned_conversation (ms_conversation_id x) (Some usr) d' = Some c'"
    and "m \<in> set (source_messages s (ms_conversation_id x) (effective_cursor c' d') d')"
  shows "now < m_created_at m \<or> (c_memory_cursor c \<noteq> NoCursor \<and> past_cursor (c_memory_cursor c) m)"
proof (rule forget_boundary [OF _ _ assms(8)])
  have mem: "x \<in> set (db_summaries d)" using owned_summary_mem [OF assms(1)] by simp
  have cid: "c_id c = ms_conversation_id x" using assms(5) by (auto simp: owned_conversation_def dest: find_SomeD)
  have "(c_memory_cursor c = NoCursor \<longrightarrow> (\<exists>r. effective_cursor c' d' = AfterTime r \<and> now \<le> r))
      \<and> (c_memory_cursor c \<noteq> NoCursor \<longrightarrow> effective_cursor c' d' = c_memory_cursor c)"
    using assms(6)
  proof
    assume dis: "d' = fst (disable_memory_summary usr i now d)"
    let ?x = "x\<lparr>ms_valid_to := Some now, ms_updated_at := now\<rparr>"
    from dis assms(1,2) have d': "d' = d\<lparr>db_summaries := put_row ms_id ?x (db_summaries d)\<rparr>"
      by (simp add: disable_memory_summary_def Let_def)
    then have c': "c' = c" using assms(5,7) by (simp add: owned_conversation_def)
    have "?x \<in> set (db_summaries d')" using mem d' by (force simp: put_row_def)
    then obtain r where "retired_at (ms_conversation_id x) d' = Some r" "now \<le> r"
      using retired_at_ge [of ?x d' "ms_conversation_id x" now] by auto
    with c' cid show ?thesis by (auto simp: effective_cursor_def split: cursor.splits)
  next
    assume del: "d' = fst (delete_memory_summary usr i now d)"
    show ?thesis
    proof (cases "c_memory_cursor c = NoCursor")
      case True
      let ?c = "c\<lparr>c_memory_cursor := AfterTime now, c_updated_at := now\<rparr>"
      have "owned_conversation (ms_conversation_id x) (Some usr) d' = Some ?c"
        using owned_conversation_put [OF assms(5,4)] del assms(1,5) True
        by (simp add: delete_memory_summary_def Let_def owned_conversation_def)
      with assms(7) have "c' = ?c" by simp
      with True show ?thesis by (simp add: effective_cursor_def)
    next
      case False
      have "c' = c"
        using del assms(1,5,7) False by (simp add: delete_memory_summary_def Let_def owned_conversation_def)
      with False show ?thesis by (auto simp: effective_cursor_def split: cursor.splits)
    qed
  qed
  then show "c_memory_cursor c = NoCursor \<Longrightarrow> \<exists>r. effective_cursor c' d' = AfterTime r \<and> now \<le> r"
    and "c_memory_cursor c \<noteq> NoCursor \<Longrightarrow> effective_cursor c' d' = c_memory_cursor c" by blast+
qed

definition demo_summary :: memory_summary where
  "demo_summary = \<lparr>ms_id = UUID 20, ms_conversation_id = UUID 10, ms_summary = lit ''facts'',
     ms_valid_from = None, ms_valid_to = None, ms_created_at = 2, ms_updated_at = 2\<rparr>"

theorem forgotten_messages_stay_forgotten_witness:
  "3 < m_created_at demo_message \<or> (c_memory_cursor demo_conversation \<noteq> NoCursor
     \<and> past_cursor (c_memory_cursor demo_conversation) demo_message)"
proof -
  let ?d = "demo_memory_db\<lparr>db_summaries := [demo_summary]\<rparr>"
  let ?d' = "fst (delete_memory_summary (UUID 7) (UUID 20) 3 ?d)"
  let ?c' = "demo_conversation\<lparr>c_memory_cursor := AfterTime 3, c_updated_at := 3\<rparr>"
  note defs = demo_memory_db_def demo_summary_def demo_conversation_def demo_message_def empty_db_def
  have own: "owned_conversation (ms_conversation_id demo_summary) (Some (UUID 7)) ?d = Some demo_conversation"
    by (simp add: owned_conversation_def defs)
  have get: "get_owned_memory_summary (UUID 7) (UUID 20) ?d = Some demo_summary"
    by (simp add: get_owned_memory_summary_def owned_summaries_def defs)
  have d': "?d' = empty_db\<lparr>db_conversations := [?c'], db_messages := [demo_message]\<rparr>"
    using get own by (simp add: delete_memory_summary_def put_conversation_def put_row_def Let_def defs)
  have own': "owned_conversation (ms_conversation_id demo_summary) (Some (UUID 7)) ?d' = Some ?c'"
    unfolding d' by (simp add: owned_conversation_def defs)
  have mem: "demo_message \<in> set (source_messages demo_memory_settings (ms_conversation_id demo_summary)
      (effective_cursor ?c' ?d') ?d')"
    unfolding d' by (simp add: source_messages_def memory_messages_def recent_ids_def effective_cursor_def
        past_cursor_def demo_memory_settings_def default_agent_settings_def defs)
  show ?thesis
    by (rule forgotten_messages_stay_forgotten [OF get _ _ _ own disjI2 [OF refl] own' mem])
      (simp_all add: keys_distinct_def defs)
qed

end
