(* ===== verification/Conversations.thy ===== *)
theory Conversations
  imports Task_System Tool_Approvals Memory
begin

text \<open>
  The conversation routes (\<open>api/routes/conversations.py\<close>): listing, creation, renaming and deletion
  with the records that hang on a conversation, the message list, and the guards of the chat and
  confirmation streams. The stream itself is the runtime's and is not part of these definitions.
\<close>

definition conversation_not_found :: exn where
  "conversation_not_found = HttpError 404 (lit ''Conversation not found'')"

definition list_conversations :: "uuid \<Rightarrow> db \<Rightarrow> conversation list" where
  "list_conversations usr d =
     rev (sort_key c_updated_at (filter (\<lambda>c. c_user_id c = Some usr) (db_conversations d)))"

definition create_conversation :: "uuid \<Rightarrow> ustr \<Rightarrow> uuid \<Rightarrow> time \<Rightarrow> db \<Rightarrow> db \<times> conversation res" where
  "create_conversation usr title new_id now d =
     (let c = \<lparr>c_id = new_id, c_user_id = Some usr, c_title = title, c_memory_cursor = NoCursor,
               c_updated_at = now\<rparr> in
      if new_id \<in> c_id ` set (db_conversations d) then (d, Inl IntegrityError)
      else (d\<lparr>db_conversations := db_conversations d @ [c]\<rparr>, Inr c))"

definition valid_title :: "ustr \<Rightarrow> bool" where
  "valid_title t \<longleftrightarrow> 1 \<le> length t \<and> length t \<le> 200"

definition update_conversation ::
  "uuid \<Rightarrow> uuid \<Rightarrow> ustr \<Rightarrow> time \<Rightarrow> db \<Rightarrow> db \<times> conversation res" where
  "update_conversation usr i title now d =
     (case get_owned_conversation d i usr of
        None \<Rightarrow> (d, Inl conversation_not_found)
      | Some c \<Rightarrow>
          (let c' = (if c_title c = strip title then c else c\<lparr>c_title := strip title, c_updated_at := now\<rparr>) in
           (put_conversation c' d, Inr c')))"

text \<open>The records of a conversation: unlinked where they outlive it, deleted where they do not.\<close>

definition document_ids :: "uuid \<Rightarrow> db \<Rightarrow> uuid list" where
  "document_ids conv d =
     map kd_id (filter (\<lambda>k. kd_conversation_id k = Some conv) (db_documents d))"

definition cleanup_conversation_records :: "uuid \<Rightarrow> db \<Rightarrow> db" where
  "cleanup_conversation_records conv d = d\<lparr>
     db_tasks := update_where (\<lambda>t. t_conversation_id t = Some conv)
       (\<lambda>t. t\<lparr>t_conversation_id := None\<rparr>) (db_tasks d),
     db_tool_calls := update_where (\<lambda>t. tl_conversation_id t = Some conv)
       (\<lambda>t. t\<lparr>tl_conversation_id := None\<rparr>) (db_tool_calls d),
     db_chunks := filter (\<lambda>k. kc_document_id k \<notin> set (document_ids conv d)) (db_chunks d),
     db_documents := filter (\<lambda>k. kd_conversation_id k \<noteq> Some conv) (db_documents d),
     db_summaries := filter (\<lambda>x. ms_conversation_id x \<noteq> conv) (db_summaries d),
     db_messages := filter (\<lambda>m. m_conversation_id m \<noteq> conv) (db_messages d)\<rparr>"

text \<open>\<open>DELETE\<close> of the row; the foreign key of the schedules is \<open>ON DELETE SET NULL\<close>.\<close>

definition delete_conversation_row :: "uuid \<Rightarrow> db \<Rightarrow> db" where
  "delete_conversation_row conv d = d\<lparr>
     db_schedules := update_where (\<lambda>s. sc_conversation_id s = Some conv)
       (\<lambda>s. s\<lparr>sc_conversation_id := None\<rparr>) (db_schedules d),
     db_conversations := filter (\<lambda>c. c_id c \<noteq> conv) (db_conversations d)\<rparr>"

definition delete_conversation :: "uuid \<Rightarrow> uuid \<Rightarrow> db \<Rightarrow> db \<times> unit res" where
  "delete_conversation usr i d =
     (case get_owned_conversation d i usr of
        None \<Rightarrow> (d, Inl conversation_not_found)
      | Some c \<Rightarrow> (delete_conversation_row i (cleanup_conversation_records i d), Inr ()))"

definition list_messages :: "uuid \<Rightarrow> uuid \<Rightarrow> db \<Rightarrow> message list res" where
  "list_messages usr i d =
     (case get_owned_conversation d i usr of
        None \<Rightarrow> Inl conversation_not_found
      | Some c \<Rightarrow> Inr (sort_key m_created_at (filter (\<lambda>m. m_conversation_id m = i) (db_messages d))))"

text \<open>The checks before a stream starts; a confirmation is claimed before its stream.\<close>

definition chat_stream_guard :: "uuid \<Rightarrow> uuid option \<Rightarrow> db \<Rightarrow> unit res" where
  "chat_stream_guard usr conv d =
     (case conv of
        None \<Rightarrow> Inr ()
      | Some i \<Rightarrow> if get_owned_conversation d i usr = None then Inl conversation_not_found else Inr ())"

definition confirm_tool_stream :: "uuid \<Rightarrow> confirmation_request \<Rightarrow> time \<Rightarrow> db \<Rightarrow> db \<times> message res" where
  "confirm_tool_stream usr p now d =
     (if get_owned_conversation d (cr_conversation_id p) usr = None then (d, Inl conversation_not_found)
      else claim_approval (Some usr) p now d)"

definition cancel_tool_approval :: "uuid \<Rightarrow> uuid \<Rightarrow> uuid \<Rightarrow> time \<Rightarrow> db \<Rightarrow> db \<times> unit res" where
  "cancel_tool_approval usr conv approval_id now d = cancel_approval (Some usr) conv approval_id now d"

section \<open>Facts\<close>

text \<open>On tasks and schedules a deletion is the unlinking of the background system.\<close>

lemma delete_is_unlink:
  "delete_conversation_row i (cleanup_conversation_records i d) =
     (let u = unlink_conversation i d; c = cleanup_conversation_records i d in
      c\<lparr>db_tasks := db_tasks u, db_schedules := db_schedules u,
        db_conversations := filter (\<lambda>x. c_id x \<noteq> i) (db_conversations d)\<rparr>)"
  by (simp add: delete_conversation_row_def cleanup_conversation_records_def unlink_conversation_def Let_def)

text \<open>So a deletion is two steps of the background system, and its invariants survive it.\<close>

lemma delete_conversation_steps:
  "task_step\<^sup>*\<^sup>* s (s\<lparr>s_db := fst (delete_conversation usr i (s_db s))\<rparr>)"
proof (cases "get_owned_conversation (s_db s) i usr")
  case None
  then have "s\<lparr>s_db := fst (delete_conversation usr i (s_db s))\<rparr> = s"
    by (simp add: delete_conversation_def)
  then show ?thesis by simp
next
  case (Some c)
  let ?u = "s\<lparr>s_db := unlink_conversation i (s_db s)\<rparr>"
  let ?d' = "delete_conversation_row i (cleanup_conversation_records i (s_db s))"
  have "task_step s ?u" by (rule task_step.unlink)
  moreover have "task_step ?u (?u\<lparr>s_db := ?d'\<rparr>)"
    by (rule task_step.other) (simp_all add: delete_is_unlink Let_def)
  ultimately have "task_step\<^sup>*\<^sup>* s (?u\<lparr>s_db := ?d'\<rparr>)"
    by (rule converse_rtranclp_into_rtranclp [OF _ r_into_rtranclp])
  with Some show ?thesis by (simp add: delete_conversation_def)
qed

section \<open>Properties\<close>



text \<open>
  Conversations are private: for a conversation of another user every route answers 404
  without a change, it is never listed, and no stream starts on it.
\<close>

theorem conversations_isolated_between_users:
  assumes "\<forall>c \<in> set (db_conversations d). c_id c = i \<longrightarrow> c_user_id c \<noteq> Some usr"
  shows "list_messages usr i d = Inl conversation_not_found
    \<and> update_conversation usr i title now d = (d, Inl conversation_not_found)
    \<and> delete_conversation usr i d = (d, Inl conversation_not_found)
    \<and> chat_stream_guard usr (Some i) d = Inl conversation_not_found
    \<and> (cr_conversation_id p = i \<longrightarrow> confirm_tool_stream usr p now d = (d, Inl conversation_not_found))
    \<and> i \<notin> c_id ` set (list_conversations usr d)"
proof -
  have none: "get_owned_conversation d i usr = None"
    using assms by (auto simp: get_owned_conversation_def find_None_iff)
  have "i \<notin> c_id ` set (list_conversations usr d)"
    using assms by (auto simp: list_conversations_def)
  with none show ?thesis
    by (simp add: list_messages_def update_conversation_def delete_conversation_def chat_stream_guard_def
        confirm_tool_stream_def)
qed

theorem conversations_isolated_between_users_witness:
  "list_messages (UUID 8) (UUID 10) demo_memory_db = Inl conversation_not_found"
  using conversations_isolated_between_users [of demo_memory_db "UUID 10" "UUID 8"]
  by (simp add: demo_memory_db_def demo_conversation_def)

end
