(* ===== verification/Knowledge.thy ===== *)
theory Knowledge
  imports Chunking Conversations
begin

text \<open>
  The knowledge index (\<open>services/rag.py\<close>, \<open>api/routes/knowledge.py\<close>, \<open>mcp/resources.py\<close>): storing a
  document with its chunks, rebuilding its contexts and embeddings, and the routes that list, create,
  upload and import documents. The embedding provider is \<open>emb\<close>, the hex digest \<open>sha\<close>, the PDF
  reader \<open>pdf\<close>, the MCP client \<open>read\<close>; a vector is a list of rationals. \<open>env\<close> is what other
  transactions commit while the provider works.
\<close>

section \<open>Embedding\<close>

type_synonym embedder = "ustr list \<Rightarrow> rat list list res"

definition embed_or_empty :: "embedder \<Rightarrow> ustr list \<Rightarrow> rat list list res" where
  "embed_or_empty emb texts =
     (case emb texts of
        Inl e \<Rightarrow> if is_exception e then Inr [] else Inl e
      | Inr vectors \<Rightarrow>
          if length vectors \<noteq> length texts \<or> (\<exists>v \<in> set vectors. length v \<noteq> 1536) then Inr []
          else Inr vectors)"

lemma embed_or_empty_all:
  assumes "embed_or_empty emb texts = Inr vs"
  shows "vs = [] \<or> length vs = length texts" and "v \<in> set vs \<Longrightarrow> length v = 1536"
  using assms by (auto simp: embed_or_empty_def split: sum.splits if_splits)

section \<open>Storing a document\<close>

record document_request =
  dq_title :: ustr
  dq_source_type :: ustr
  dq_source_uri :: "ustr option"
  dq_user_id :: "uuid option"
  dq_conversation_id :: "uuid option"
  dq_content :: ustr

definition no_document_text :: exn where
  "no_document_text = ValueError (lit ''Document must contain non-whitespace text'')"

definition require_document_text :: "document_request \<Rightarrow> document_request res" where
  "require_document_text q = (if strip (dq_content q) = [] then Inl no_document_text else Inr q)"

definition index_metadata :: "ustr \<Rightarrow> nat \<Rightarrow> rat list list \<Rightarrow> dict" where
  "index_metadata model n embeddings =
     [(lit ''chunk_count'', JInt (int n)),
      (lit ''embedded_chunks'', JInt (int (length embeddings))),
      (lit ''retrieval_mode'', JStr (if embeddings \<noteq> [] then lit ''hybrid'' else lit ''keyword'')),
      (lit ''embedding_model'', JStr model),
      (lit ''contextualization'', JStr (lit ''extractive-headings-v1''))]"

definition embedding_inputs :: "ustr list \<Rightarrow> ustr list \<Rightarrow> ustr list" where
  "embedding_inputs contexts chunks = map2 (\<lambda>context chunk. context @ [10, 10] @ chunk) contexts chunks"

definition chunk_row ::
  "uuid \<Rightarrow> (nat \<Rightarrow> uuid) \<Rightarrow> span list \<Rightarrow> ustr list \<Rightarrow> rat list list \<Rightarrow> nat \<Rightarrow> knowledge_chunk" where
  "chunk_row doc fresh spans contexts embeddings i =
     \<lparr>kc_id = fresh i, kc_document_id = doc, kc_chunk_index = i, kc_content = fst (spans ! i),
      kc_embedding = (if i < length embeddings then Some (embeddings ! i) else None),
      kc_metadata = [(lit ''start_char'', JInt (int (fst (snd (spans ! i))))),
        (lit ''end_char'', JInt (int (snd (snd (spans ! i))))),
        (lit ''retrieval_context'', JStr (contexts ! i))]\<rparr>"

definition chunk_rows ::
  "uuid \<Rightarrow> (nat \<Rightarrow> uuid) \<Rightarrow> span list \<Rightarrow> ustr list \<Rightarrow> rat list list \<Rightarrow> knowledge_chunk list" where
  "chunk_rows doc fresh spans contexts embeddings =
     map (chunk_row doc fresh spans contexts embeddings) [0..<length spans]"

text \<open>The column widths, foreign keys and primary keys of the two tables.\<close>

definition insert_document ::
  "knowledge_document \<Rightarrow> knowledge_chunk list \<Rightarrow> db \<Rightarrow> db \<times> knowledge_document res" where
  "insert_document doc chunks d =
     (if 260 < length (kd_title doc) \<or> 40 < length (kd_source_type doc)
      then (d, Inl (OtherError (lit ''DataError'')))
      else if (\<exists>c. kd_conversation_id doc = Some c \<and> c \<notin> c_id ` set (db_conversations d))
        \<or> (\<exists>u. kd_user_id doc = Some u \<and> u \<notin> us_id ` set (db_users d))
        \<or> kd_id doc \<in> kd_id ` set (db_documents d)
        \<or> \<not> distinct (map kc_id chunks) \<or> (\<exists>k \<in> set chunks. kc_id k \<in> kc_id ` set (db_chunks d))
      then (d, Inl IntegrityError)
      else (d\<lparr>db_documents := db_documents d @ [doc], db_chunks := db_chunks d @ chunks\<rparr>, Inr doc))"

definition index_text ::
  "ustr \<Rightarrow> (ustr \<Rightarrow> ustr) \<Rightarrow> embedder \<Rightarrow> uuid option \<Rightarrow> uuid \<Rightarrow> (nat \<Rightarrow> uuid) \<Rightarrow> time \<Rightarrow> (db \<Rightarrow> db)
   \<Rightarrow> document_request \<Rightarrow> db \<Rightarrow> db \<times> knowledge_document res" where
  "index_text model sha emb usr new_id fresh now env q d =
     (case split_spans (dq_content q) 900 120 of
        Inl e \<Rightarrow> (d, Inl e)
      | Inr spans \<Rightarrow>
          if spans = [] then (d, Inl no_document_text)
          else
            (let chunks = map fst spans;
                 contexts = chunk_contexts (dq_title q) (dq_content q) spans in
             case embed_or_empty emb (embedding_inputs contexts chunks) of
               Inl e \<Rightarrow> (env d, Inl e)
             | Inr embeddings \<Rightarrow>
                 insert_document
                   \<lparr>kd_id = new_id, kd_user_id = (if usr \<noteq> None then usr else dq_user_id q),
                    kd_conversation_id = dq_conversation_id q, kd_title = dq_title q,
                    kd_source_type = dq_source_type q, kd_source_uri = dq_source_uri q,
                    kd_status = lit ''indexed'',
                    kd_metadata = [(lit ''chunker_version'', JStr (lit ''paragraph-v1'')),
                      (lit ''content_sha256'', JStr (sha (dq_content q)))]
                      @ index_metadata model (length chunks) embeddings,
                    kd_created_at = now\<rparr>
                   (chunk_rows new_id fresh spans contexts embeddings) (env d)))"

section \<open>Rebuilding the index of a document\<close>

definition document_chunks :: "uuid \<Rightarrow> db \<Rightarrow> knowledge_chunk list" where
  "document_chunks i d = sort_key kc_chunk_index (filter (\<lambda>k. kc_document_id k = i) (db_chunks d))"

text \<open>The spans of the stored bodies, two characters apart, as they lie in the joined text.\<close>

fun stored_spans :: "nat \<Rightarrow> ustr list \<Rightarrow> span list" where
  "stored_spans offset [] = []"
| "stored_spans offset (c # cs) = (c, offset, offset + length c) # stored_spans (offset + length c + 2) cs"

definition owned_document :: "uuid \<Rightarrow> uuid option \<Rightarrow> db \<Rightarrow> knowledge_document option" where
  "owned_document i usr d = find (\<lambda>k. kd_id k = i \<and> kd_user_id k = usr) (db_documents d)"

definition rewritten_chunk :: "ustr list \<Rightarrow> rat list list \<Rightarrow> nat \<Rightarrow> knowledge_chunk \<Rightarrow> knowledge_chunk" where
  "rewritten_chunk contexts embeddings i k = k\<lparr>
     kc_metadata := dset (lit ''retrieval_context'') (JStr (contexts ! i)) (kc_metadata k),
     kc_embedding := (if embeddings \<noteq> [] then Some (embeddings ! i) else None)\<rparr>"

text \<open>The rows of the document's chunks are rewritten one by one, each found by its primary key.\<close>

definition write_chunks :: "ustr list \<Rightarrow> rat list list \<Rightarrow> knowledge_chunk list \<Rightarrow> knowledge_chunk list \<Rightarrow> knowledge_chunk list" where
  "write_chunks contexts embeddings chunks rows =
     fold (\<lambda>(i, k). put_row kc_id (rewritten_chunk contexts embeddings i k))
       (zip [0..<length chunks] chunks) rows"

definition reindex_document ::
  "ustr \<Rightarrow> embedder \<Rightarrow> uuid option \<Rightarrow> uuid \<Rightarrow> db \<Rightarrow> db \<times> knowledge_document option res" where
  "reindex_document model emb usr i d =
     (case owned_document i usr d of
        None \<Rightarrow> (d, Inr None)
      | Some doc \<Rightarrow>
          (let chunks = document_chunks i d; bodies = map kc_content chunks;
               spans = stored_spans 0 bodies;
               contexts = chunk_contexts (kd_title doc) (join [10, 10] bodies) spans in
           if chunks = [] then (d, Inl (ValueError (lit ''Document has no indexed text'')))
           else
             (case embed_or_empty emb (embedding_inputs contexts bodies) of
                Inl e \<Rightarrow> (d, Inl e)
              | Inr embeddings \<Rightarrow>
                  if embeddings = [] \<and> (\<exists>k \<in> set chunks. kc_embedding k \<noteq> None)
                  then (d, Inl (ValueError (lit ''Embedding service unavailable; existing index preserved'')))
                  else
                    (let doc' = doc\<lparr>kd_metadata :=
                           dupdate (kd_metadata doc) (index_metadata model (length chunks) embeddings)\<rparr> in
                     (d\<lparr>db_chunks := write_chunks contexts embeddings chunks (db_chunks d),
                        db_documents := put_row kd_id doc' (db_documents d)\<rparr>, Inr (Some doc'))))))"

section \<open>Facts: the stored chunks\<close>

text \<open>What a stored chunk says of itself: its body with the offsets it was cut at.\<close>

definition offset_of :: "json \<Rightarrow> nat" where
  "offset_of j = (case j of JInt i \<Rightarrow> nat i | _ \<Rightarrow> 0)"

definition chunk_span :: "knowledge_chunk \<Rightarrow> span" where
  "chunk_span k = (kc_content k, offset_of (dget (kc_metadata k) (lit ''start_char'')),
     offset_of (dget (kc_metadata k) (lit ''end_char'')))"

lemma sort_key_sorted: "sorted (map f xs) \<Longrightarrow> sort_key f xs = xs"
  by (induction xs) (auto simp: insort_is_Cons)

lemma sort_key_upt: "(\<And>i. f (g i) = i) \<Longrightarrow> sort_key f (map g [a..<b]) = map g [a..<(b::nat)]"
  by (rule sort_key_sorted) (simp add: o_def)

lemma chunk_span_row [simp]: "chunk_span (chunk_row doc fresh spans contexts embeddings i) = spans ! i"
  by (simp add: chunk_span_def chunk_row_def dget_def offset_of_def)

lemma chunk_row_simps [simp]:
  "kc_document_id (chunk_row doc fresh spans contexts embeddings i) = doc"
  "kc_chunk_index (chunk_row doc fresh spans contexts embeddings i) = i"
  by (simp_all add: chunk_row_def)

lemma document_chunks_inserted:
  assumes "insert_document doc (chunk_rows (kd_id doc) fresh spans contexts embeddings) d = (d', Inr x)"
    and "\<forall>k \<in> set (db_chunks d). kc_document_id k \<in> kd_id ` set (db_documents d)"
  shows "document_chunks (kd_id doc) d' = chunk_rows (kd_id doc) fresh spans contexts embeddings"
proof -
  have d': "db_chunks d' = db_chunks d @ chunk_rows (kd_id doc) fresh spans contexts embeddings"
    and new: "kd_id doc \<notin> kd_id ` set (db_documents d)"
    using assms(1) by (auto simp: insert_document_def split: if_splits)
  have "filter (\<lambda>k. kc_document_id k = kd_id doc) (db_chunks d) = []"
    using new assms(2) by (simp add: filter_empty_conv) metis
  moreover have "filter (\<lambda>k. kc_document_id k = kd_id doc) (chunk_rows (kd_id doc) fresh spans contexts embeddings)
      = chunk_rows (kd_id doc) fresh spans contexts embeddings"
    by (simp add: chunk_rows_def)
  ultimately show ?thesis
    unfolding document_chunks_def d' filter_append by (simp add: chunk_rows_def sort_key_upt)
qed

lemma map_nth_upt: "map (\<lambda>i. xs ! i) [0..<length xs] = xs"
  by (rule map_nth)

lemma chunk_rows_spans [simp]: "map chunk_span (chunk_rows doc fresh spans contexts embeddings) = spans"
  by (simp add: chunk_rows_def o_def map_nth)

lemma index_text_cases:
  assumes "index_text model sha emb usr new_id fresh now env q d = (d', Inr doc)"
  obtains contexts embeddings where
    "default_spans (dq_content q) \<noteq> []" "kd_id doc = new_id"
    "embeddings = [] \<or> length embeddings = length (default_spans (dq_content q))"
    "\<forall>v \<in> set embeddings. length v = 1536"
    "insert_document doc (chunk_rows new_id fresh (default_spans (dq_content q)) contexts embeddings) (env d) = (d', Inr doc)"
proof -
  have *: "insert_document x cs e = (d', Inr doc) \<Longrightarrow> x = doc" for x cs e
    by (auto simp: insert_document_def split: if_splits)
  let ?s = "default_spans (dq_content q)"
  let ?c = "chunk_contexts (dq_title q) (dq_content q) ?s"
  have sp: "split_spans (dq_content q) 900 120 = Inr ?s" by (simp add: split_spans_def default_spans_def)
  have ne: "?s \<noteq> []" using assms by (auto simp: index_text_def sp)
  then obtain es where es: "embed_or_empty emb (embedding_inputs ?c (map fst ?s)) = Inr es"
    using assms by (auto simp: index_text_def sp Let_def split: sum.splits)
  have ins: "insert_document doc (chunk_rows new_id fresh ?s ?c es) (env d) = (d', Inr doc)" "kd_id doc = new_id"
    using assms ne by (auto simp: index_text_def sp Let_def es dest: * )
  have len: "length ?c = length ?s"
    by (simp add: chunk_contexts_def length_contexts_from)
  show thesis
    using that [OF ne ins(2) _ _ ins(1)] embed_or_empty_all [OF es] len by (auto simp: embedding_inputs_def)
qed

text \<open>
  C16. Indexing is lossless: the chunks stored for a document, read back in the order of their index,
  are numbered from zero, are exact slices of the normalised text at the offsets they record, at most
  900 characters long, and give back that text when the overlaps are dropped; either every one of
  them or none has a vector, of the width of the column.
\<close>

theorem indexed_document_keeps_text:
  assumes "index_text model sha emb usr new_id fresh now env q d = (d', Inr doc)"
    and "\<forall>k \<in> set (db_chunks (env d)). kc_document_id k \<in> kd_id ` set (db_documents (env d))"
  shows "rejoin 120 (map chunk_span (document_chunks (kd_id doc) d')) = normalize_text (dq_content q)
    \<and> map kc_chunk_index (document_chunks (kd_id doc) d') = [0..<length (document_chunks (kd_id doc) d')]
    \<and> (\<forall>(c, i, j) \<in> set (map chunk_span (document_chunks (kd_id doc) d')).
         c = slice (normalize_text (dq_content q)) i j \<and> i < j \<and> j \<le> length (normalize_text (dq_content q)) \<and> j - i \<le> 900)
    \<and> ((\<forall>k \<in> set (document_chunks (kd_id doc) d'). kc_embedding k = None)
       \<or> (\<forall>k \<in> set (document_chunks (kd_id doc) d'). \<exists>v. kc_embedding k = Some v \<and> length v = 1536))"
proof -
  obtain ctx es where e: "kd_id doc = new_id"
      "es = [] \<or> length es = length (default_spans (dq_content q))" "\<forall>v \<in> set es. length v = 1536"
      "insert_document doc (chunk_rows new_id fresh (default_spans (dq_content q)) ctx es) (env d) = (d', Inr doc)"
    using index_text_cases [OF assms(1)] by metis
  have cs: "document_chunks (kd_id doc) d' = chunk_rows (kd_id doc) fresh (default_spans (dq_content q)) ctx es"
    using e(4) assms(2) unfolding e(1) [symmetric] by (rule document_chunks_inserted)
  have "(\<forall>k \<in> set (chunk_rows (kd_id doc) fresh (default_spans (dq_content q)) ctx es). kc_embedding k = None)
      \<or> (\<forall>k \<in> set (chunk_rows (kd_id doc) fresh (default_spans (dq_content q)) ctx es). \<exists>v. kc_embedding k = Some v \<and> length v = 1536)"
    using e(2,3) by (auto simp: chunk_rows_def chunk_row_def)
  moreover have "map kc_chunk_index (chunk_rows (kd_id doc) fresh (default_spans (dq_content q)) ctx es)
      = [0..<length (chunk_rows (kd_id doc) fresh (default_spans (dq_content q)) ctx es)]"
    by (simp add: chunk_rows_def o_def)
  ultimately show ?thesis
    unfolding cs chunk_rows_spans by (simp add: default_spans_rejoin) (use default_spans_slices in blast)
qed

section \<open>Facts: rebuilding\<close>

text \<open>A chunk without what a rebuild may write: its vector and its retrieval context.\<close>

definition chunk_core :: "knowledge_chunk \<Rightarrow> knowledge_chunk" where
  "chunk_core k = k\<lparr>kc_embedding := None,
     kc_metadata := filter (\<lambda>(n, _). n \<noteq> lit ''retrieval_context'') (kc_metadata k)\<rparr>"

lemma filter_dset: "filter (\<lambda>(n, _). n \<noteq> k) (dset k v d) = filter (\<lambda>(n, _). n \<noteq> k) d"
  by (induction k v d rule: dset.induct) auto

lemma core_rewritten [simp]: "chunk_core (rewritten_chunk contexts es i k) = chunk_core k"
  by (simp add: chunk_core_def rewritten_chunk_def filter_dset)

lemma rewritten_id [simp]: "kc_id (rewritten_chunk contexts es i k) = kc_id k"
  by (simp add: rewritten_chunk_def)

lemma core_fields [simp]:
  "kc_id (chunk_core k) = kc_id k" "kc_document_id (chunk_core k) = kc_document_id k"
  by (simp_all add: chunk_core_def)

lemma core_id:
  assumes "chunk_core a = chunk_core b"
  shows "kc_id a = kc_id b" and "kc_document_id a = kc_document_id b"
  using arg_cong [OF assms, of kc_id] arg_cong [OF assms, of kc_document_id] by simp_all

lemma map_core_put_row:
  "\<forall>x \<in> set rows. kc_id x = kc_id k \<longrightarrow> chunk_core x = chunk_core k \<Longrightarrow>
   map chunk_core (put_row kc_id (rewritten_chunk contexts es i k) rows) = map chunk_core rows"
  by (simp add: put_row_def)

lemma core_mem: "map chunk_core xs = map chunk_core ys \<Longrightarrow> x \<in> set xs \<Longrightarrow> \<exists>y \<in> set ys. chunk_core y = chunk_core x"
  by (metis image_iff list.set_map)

lemma write_chunks_core:
  "\<forall>(i, k) \<in> set ps. \<forall>x \<in> set rows. kc_id x = kc_id k \<longrightarrow> chunk_core x = chunk_core k \<Longrightarrow>
   map chunk_core (fold (\<lambda>(i, k). put_row kc_id (rewritten_chunk contexts es i k)) ps rows) = map chunk_core rows"
proof (induction ps arbitrary: rows)
  case (Cons p ps)
  obtain i k where p: "p = (i, k)" by (cases p)
  have one: "map chunk_core (put_row kc_id (rewritten_chunk contexts es i k) rows) = map chunk_core rows"
    using Cons.prems p by (intro map_core_put_row) auto
  have "\<forall>(i', k') \<in> set ps. \<forall>x \<in> set (put_row kc_id (rewritten_chunk contexts es i k) rows).
      kc_id x = kc_id k' \<longrightarrow> chunk_core x = chunk_core k'"
  proof clarify
    fix i' k' x assume a: "(i', k') \<in> set ps" "x \<in> set (put_row kc_id (rewritten_chunk contexts es i k) rows)"
      "kc_id x = kc_id k'"
    obtain y where y: "y \<in> set rows" "chunk_core y = chunk_core x" using core_mem [OF one a(2)] by blast
    have "kc_id y = kc_id k'" using core_id(1) [OF y(2)] a(3) by simp
    with Cons.prems a(1) y(1) have "chunk_core y = chunk_core k'" by auto
    with y(2) show "chunk_core x = chunk_core k'" by simp
  qed
  then show ?case using Cons.IH p one by simp
qed simp

lemma write_chunks_embedded:
  "\<forall>x \<in> set rows. kc_id x \<in> I \<longrightarrow> kc_embedding x \<noteq> None \<Longrightarrow> es \<noteq> [] \<Longrightarrow>
   \<forall>x \<in> set (fold (\<lambda>(i, k). put_row kc_id (rewritten_chunk contexts es i k)) ps rows).
     kc_id x \<in> I \<union> kc_id ` snd ` set ps \<longrightarrow> kc_embedding x \<noteq> None"
proof (induction ps arbitrary: rows I)
  case (Cons p ps)
  obtain i k where p: "p = (i, k)" by (cases p)
  have "\<forall>x \<in> set (put_row kc_id (rewritten_chunk contexts es i k) rows). kc_id x \<in> insert (kc_id k) I \<longrightarrow> kc_embedding x \<noteq> None"
    using Cons.prems by (auto simp: put_row_def rewritten_chunk_def)
  from Cons.IH [OF this Cons.prems(2)] show ?case using p by simp
qed simp

lemma reindex_cases:
  assumes "reindex_document model emb usr i d = (d', r)"
  shows "(d' = d \<and> (\<nexists>x. r = Inr (Some x)))
    \<or> (\<exists>doc doc' contexts es. owned_document i usr d = Some doc \<and> r = Inr (Some doc') \<and> kd_id doc' = kd_id doc
        \<and> (es = [] \<longrightarrow> (\<forall>k \<in> set (document_chunks i d). kc_embedding k = None))
        \<and> d' = d\<lparr>db_chunks := write_chunks contexts es (document_chunks i d) (db_chunks d),
            db_documents := put_row kd_id doc' (db_documents d)\<rparr>)"
proof (cases "owned_document i usr d")
  case None
  with assms show ?thesis by (auto simp: reindex_document_def)
next
  case (Some doc)
  let ?bodies = "map kc_content (document_chunks i d)"
  let ?ctx = "chunk_contexts (kd_title doc) (join [10, 10] ?bodies) (stored_spans 0 ?bodies)"
  consider "document_chunks i d = []"
    | e where "document_chunks i d \<noteq> []" "embed_or_empty emb (embedding_inputs ?ctx ?bodies) = Inl e"
    | es where "document_chunks i d \<noteq> []" "embed_or_empty emb (embedding_inputs ?ctx ?bodies) = Inr es"
    by (metis sum.exhaust)
  then show ?thesis
  proof cases
    case 3
    let ?bad = "es = [] \<and> (\<exists>k \<in> set (document_chunks i d). kc_embedding k \<noteq> None)"
    show ?thesis
    proof (cases ?bad)
      case True
      with assms Some 3 show ?thesis by (auto simp: reindex_document_def Let_def)
    next
      case False
      let ?doc' = "doc\<lparr>kd_metadata := dupdate (kd_metadata doc) (index_metadata model (length (document_chunks i d)) es)\<rparr>"
      from False have n: "es = [] \<longrightarrow> (\<forall>k \<in> set (document_chunks i d). kc_embedding k = None)" by blast
      have "r = Inr (Some ?doc')" "d' = d\<lparr>db_chunks := write_chunks ?ctx es (document_chunks i d) (db_chunks d),
            db_documents := put_row kd_id ?doc' (db_documents d)\<rparr>"
        using assms Some 3 if_not_P [OF False] unfolding reindex_document_def Let_def by (simp_all only: option.case sum.case if_False prod.inject if_not_P [OF False])
      then show ?thesis
        by (intro disjI2 exI [of _ doc] exI [of _ ?doc'] exI [of _ ?ctx] exI [of _ es] conjI Some n) simp_all
    qed
  qed (use assms Some in \<open>auto simp: reindex_document_def Let_def\<close>)
qed

text \<open>
  Rebuilding an index keeps the text: whatever the embedding service answers, every chunk keeps its
  id, document, index, body and offsets; unless it succeeds, nothing changes at all, and when it
  succeeds on a document that had a vector, all its chunks have one.
\<close>

theorem reindex_keeps_text_and_vectors:
  assumes "reindex_document model emb usr i d = (d', r)" and "keys_distinct kc_id (db_chunks d)"
  shows "map chunk_core (db_chunks d') = map chunk_core (db_chunks d)
    \<and> ((\<nexists>x. r = Inr (Some x)) \<longrightarrow> d' = d)
    \<and> ((\<exists>k \<in> set (db_chunks d). kc_document_id k = i \<and> kc_embedding k \<noteq> None) \<longrightarrow>
        (\<exists>x. r = Inr (Some x)) \<longrightarrow>
        (\<forall>k \<in> set (db_chunks d'). kc_document_id k = i \<longrightarrow> kc_embedding k \<noteq> None))"
  using reindex_cases [OF assms(1)]
proof (elim disjE exE conjE)
  assume "d' = d" "\<nexists>x. r = Inr (Some x)"
  then show ?thesis by blast
next
  fix doc doc' contexts es
  assume r: "r = Inr (Some doc')" and es: "es = [] \<longrightarrow> (\<forall>k \<in> set (document_chunks i d). kc_embedding k = None)"
    and d': "d' = d\<lparr>db_chunks := write_chunks contexts es (document_chunks i d) (db_chunks d),
            db_documents := put_row kd_id doc' (db_documents d)\<rparr>"
  have dc: "db_chunks d' = write_chunks contexts es (document_chunks i d) (db_chunks d)" by (simp add: d')
  let ?ps = "zip [0..<length (document_chunks i d)] (document_chunks i d)"
  have mem: "k \<in> set (document_chunks i d) \<longleftrightarrow> k \<in> set (db_chunks d) \<and> kc_document_id k = i" for k
    by (auto simp: document_chunks_def)
  have "\<forall>(j, k) \<in> set ?ps. \<forall>x \<in> set (db_chunks d). kc_id x = kc_id k \<longrightarrow> chunk_core x = chunk_core k"
  proof clarify
    fix j k x assume a: "(j, k) \<in> set ?ps" "x \<in> set (db_chunks d)" "kc_id x = kc_id k"
    have "k \<in> set (db_chunks d)" using set_zip_rightD [OF a(1)] mem by simp
    with assms(2) a have "x = k" unfolding keys_distinct_def distinct_map by (auto dest: inj_onD)
    then show "chunk_core x = chunk_core k" by simp
  qed
  from write_chunks_core [OF this] have core: "map chunk_core (db_chunks d') = map chunk_core (db_chunks d)"
    unfolding dc write_chunks_def .
  have "\<forall>k \<in> set (db_chunks d'). kc_document_id k = i \<longrightarrow> kc_embedding k \<noteq> None"
    if "\<exists>k \<in> set (db_chunks d). kc_document_id k = i \<and> kc_embedding k \<noteq> None"
  proof (intro ballI impI notI)
    fix k assume k: "k \<in> set (db_chunks d')" "kc_document_id k = i" "kc_embedding k = None"
    have "es \<noteq> []" using that es mem by metis
    from write_chunks_embedded [OF _ this, of "db_chunks d" "{}"]
    have all: "\<forall>x \<in> set (db_chunks d'). kc_id x \<in> kc_id ` snd ` set ?ps \<longrightarrow> kc_embedding x \<noteq> None"
      unfolding dc write_chunks_def by simp
    from core_mem [OF core k(1)] obtain y where y: "y \<in> set (db_chunks d)" "chunk_core y = chunk_core k" by (elim bexE)
    have "y \<in> set (document_chunks i d)" using y k(2) core_id [OF y(2)] mem by simp
    moreover have "snd ` set ?ps = set (document_chunks i d)" unfolding set_map [symmetric] by simp
    ultimately have "kc_id y \<in> kc_id ` snd ` set ?ps" by (simp only: imageI)
    then have "kc_id k \<in> kc_id ` snd ` set ?ps" using core_id(1) [OF y(2)] by simp
    with all k(1,3) show False by blast
  qed
  then show ?thesis using core r by simp
qed

section \<open>Witnesses\<close>

definition demo_document_request :: document_request where
  "demo_document_request = \<lparr>dq_title = lit ''notes'', dq_source_type = lit ''text'', dq_source_uri = None,
     dq_user_id = None, dq_conversation_id = None, dq_content = lit ''plan''\<rparr>"

definition demo_knowledge_db :: db where
  "demo_knowledge_db = empty_db\<lparr>
     db_documents := [\<lparr>kd_id = UUID 40, kd_user_id = Some (UUID 7), kd_conversation_id = None,
       kd_title = lit ''notes'', kd_source_type = lit ''text'', kd_source_uri = None,
       kd_status = lit ''indexed'', kd_metadata = [], kd_created_at = 3\<rparr>],
     db_chunks := [\<lparr>kc_id = UUID 41, kc_document_id = UUID 40, kc_chunk_index = 0,
       kc_content = lit ''plan'', kc_embedding = Some [], kc_metadata = []\<rparr>]\<rparr>"

abbreviation demo_index :: "db \<times> knowledge_document res" where
  "demo_index \<equiv> index_text [] (\<lambda>x. x) (\<lambda>_. Inl (RuntimeError [])) None (UUID 50) (\<lambda>n. UUID (60 + n)) 9 id
     demo_document_request demo_knowledge_db"

lemma demo_index_runs: "\<exists>doc. snd demo_index = Inr doc"
proof -
  have n: "normalize_text (lit ''plan'') = lit ''plan''"
    by (simp add: normalize_text_def str_eval)
  have "default_spans (lit ''plan'') \<noteq> []"
    using spans_from_ne [of 0 "lit ''plan''" 120 900] by (simp add: default_spans_def n)
  moreover have "split_spans (lit ''plan'') 900 120 = Inr (default_spans (lit ''plan''))"
    by (simp add: split_spans_def default_spans_def)
  moreover have "distinct (map kc_id (chunk_rows i (\<lambda>n. UUID (60 + n)) sp ctx es))" for i sp ctx es
    by (simp add: chunk_rows_def chunk_row_def o_def distinct_map inj_on_def)
  moreover have "kc_id k \<noteq> UUID 41" if "k \<in> set (chunk_rows i (\<lambda>n. UUID (60 + n)) sp ctx es)" for k i sp ctx es
    using that by (auto simp: chunk_rows_def chunk_row_def)
  ultimately show ?thesis
    by (simp add: index_text_def demo_document_request_def embed_or_empty_def insert_document_def
        demo_knowledge_db_def empty_db_def Let_def)
qed

theorem indexed_document_keeps_text_witness:
  "\<exists>doc. snd demo_index = Inr doc
    \<and> rejoin 120 (map chunk_span (document_chunks (kd_id doc) (fst demo_index))) = normalize_text (lit ''plan'')"
proof -
  obtain doc where d: "snd demo_index = Inr doc" using demo_index_runs by blast
  then have "demo_index = (fst demo_index, Inr doc)" by (metis prod.collapse)
  from indexed_document_keeps_text [OF this] have
    "rejoin 120 (map chunk_span (document_chunks (kd_id doc) (fst demo_index))) = normalize_text (lit ''plan'')"
    by (simp add: demo_knowledge_db_def demo_document_request_def)
  with d show ?thesis by blast
qed

abbreviation demo_reindex :: "db \<times> knowledge_document option res" where
  "demo_reindex \<equiv> reindex_document [] (\<lambda>_. Inl (RuntimeError [])) (Some (UUID 7)) (UUID 40) demo_knowledge_db"

text \<open>The provider is down while the document has a vector: nothing changes.\<close>

theorem reindex_keeps_text_and_vectors_witness: "fst demo_reindex = demo_knowledge_db"
proof -
  have u: "keys_distinct kc_id (db_chunks demo_knowledge_db)" by (simp add: keys_distinct_def demo_knowledge_db_def)
  have "\<nexists>x. snd demo_reindex = Inr (Some x)"
    by (simp add: reindex_document_def owned_document_def demo_knowledge_db_def document_chunks_def
        embed_or_empty_def Let_def)
  then show ?thesis
    using reindex_keeps_text_and_vectors [OF prod.collapse [symmetric] u, of "[]" "\<lambda>_. Inl (RuntimeError [])"
        "Some (UUID 7)" "UUID 40"] by blast
qed

end
