(* ===== verification/Reranker.thy ===== *)
theory Reranker
  imports Config "HOL-Library.Multiset"
begin

text \<open>
  Listwise reranking (\<open>services/retrieval_reranker.py\<close>): the bounded request to a reranking service
  with the validation of its answer, and the local selection of diverse evidence (maximal marginal
  relevance over character shingles). The service is \<open>client\<close>, which answers a request with the blocks
  of its body or an exception (a timeout is one); \<open>loads\<close> is \<open>json.loads\<close>. Scores are rationals.
\<close>

section \<open>The reranking service\<close>

definition max_response_bytes :: nat where
  "max_response_bytes = 262144"

text \<open>The largest magnitude an \<open>int\<close> may have for \<open>float(i)\<close> not to overflow.\<close>

definition float_overflow :: "int \<Rightarrow> bool" where
  "float_overflow i \<longleftrightarrow> 2 ^ 1024 - 2 ^ 970 \<le> \<bar>i\<bar>"

fun read_blocks :: "nat list \<Rightarrow> nat list list \<Rightarrow> nat list res" where
  "read_blocks raw [] = Inr raw"
| "read_blocks raw (b # bs) =
     (if max_response_bytes < length (raw @ b) then Inl (ValueError (lit ''Reranking response too large''))
      else read_blocks (raw @ b) bs)"

definition invalid_score :: exn where
  "invalid_score = ValueError (lit ''Invalid reranking score or index'')"

definition finite_score :: "json \<Rightarrow> rat res" where
  "finite_score j = (case j of
     JFloat (Fin x) \<Rightarrow> Inr x
   | JInt i \<Rightarrow> if float_overflow i then Inl (OtherError (lit ''OverflowError'')) else Inr (of_int i)
   | _ \<Rightarrow> Inl invalid_score)"

fun ranked_rows :: "nat \<Rightarrow> nat list \<Rightarrow> json list \<Rightarrow> (nat \<times> rat) list res" where
  "ranked_rows n seen [] = Inr []"
| "ranked_rows n seen (JObj row # rows) =
     (case dget row (lit ''index'') of
        JInt i \<Rightarrow>
          if i < 0 \<or> int n \<le> i \<or> nat i \<in> set seen then Inl invalid_score
          else (case finite_score (dget row (lit ''relevance_score'')) of
                  Inl e \<Rightarrow> Inl e
                | Inr x \<Rightarrow> (case ranked_rows n (nat i # seen) rows of
                    Inl e \<Rightarrow> Inl e | Inr ps \<Rightarrow> Inr ((nat i, x) # ps)))
      | _ \<Rightarrow> Inl invalid_score)"
| "ranked_rows n seen (_ # rows) = Inl (OtherError (lit ''AttributeError''))"

definition parse_ranking :: "json_reader \<Rightarrow> nat \<Rightarrow> nat list \<Rightarrow> (nat \<times> rat) list res" where
  "parse_ranking loads n raw =
     (case loads raw of
        None \<Rightarrow> Inl (ValueError (lit ''JSONDecodeError''))
      | Some (JObj data) \<Rightarrow>
          (case dget data (lit ''results'') of
             JList rows \<Rightarrow>
               if length rows \<noteq> n then Inl (ValueError (lit ''Incomplete reranking response''))
               else (case ranked_rows n [] rows of
                       Inl e \<Rightarrow> Inl e
                     | Inr ranked \<Rightarrow> Inr (sort_key (\<lambda>(i, x). (- x, i)) ranked))
           | _ \<Rightarrow> Inl (ValueError (lit ''Incomplete reranking response'')))
      | Some _ \<Rightarrow> Inl (OtherError (lit ''AttributeError'')))"

record rerank_post =
  rp_url :: ustr
  rp_authorization :: "ustr option"
  rp_payload :: dict

type_synonym rerank_client = "rerank_post \<Rightarrow> nat list list res"

definition rerank_post_of :: "rag_settings \<Rightarrow> ustr \<Rightarrow> ustr list \<Rightarrow> rerank_post" where
  "rerank_post_of s query documents =
     \<lparr>rp_url = rag_rerank_url s,
      rp_authorization = (if rag_rerank_api_key s \<noteq> [] then Some (lit ''Bearer '' @ rag_rerank_api_key s) else None),
      rp_payload =
        [(lit ''model'', JStr (rag_rerank_model s)), (lit ''query'', JStr (take 2000 query)),
         (lit ''documents'', JList (map (\<lambda>t. JStr (take 2000 t)) documents)),
         (lit ''top_n'', JInt (int (length documents))), (lit ''return_documents'', JBool False)]\<rparr>"

definition rerank_request ::
  "rag_settings \<Rightarrow> json_reader \<Rightarrow> rerank_client \<Rightarrow> ustr \<Rightarrow> ustr list \<Rightarrow> (nat \<times> rat) list res" where
  "rerank_request s loads client query documents =
     (case client (rerank_post_of s query documents) of
        Inl e \<Rightarrow> Inl e
      | Inr blocks \<Rightarrow>
          (case read_blocks [] blocks of
             Inl e \<Rightarrow> Inl e
           | Inr raw \<Rightarrow> parse_ranking loads (length documents) raw))"

text \<open>No usable answer is \<open>None\<close>: the caller keeps its local order. A cancellation passes.\<close>

definition rerank ::
  "rag_settings \<Rightarrow> json_reader \<Rightarrow> rerank_client \<Rightarrow> ustr \<Rightarrow> ustr list \<Rightarrow> (nat \<times> rat) list option res" where
  "rerank s loads client query documents =
     (if rag_rerank_mode s \<noteq> lit ''api'' \<or> rag_rerank_url s = []
        \<or> \<not> (2 \<le> length documents \<and> length documents \<le> rag_rerank_candidates s)
      then Inr None
      else (case rerank_request s loads client query documents of
              Inr ranked \<Rightarrow> Inr (Some ranked)
            | Inl e \<Rightarrow> if is_exception e then Inr None else Inl e))"

section \<open>Diverse evidence\<close>

definition shingles :: "ustr \<Rightarrow> ustr set" where
  "shingles txt =
     (let clean = take 3000 (join [32] (split_ws (casefold txt))) in
      set (map (\<lambda>i. take 3 (drop i clean)) [0..<max 1 (length clean - 2)]))"

definition jaccard :: "ustr set \<Rightarrow> ustr set \<Rightarrow> rat" where
  "jaccard a b = of_nat (card (a \<inter> b)) / of_nat (max (card (a \<union> b)) 1)"

definition near_duplicate :: "ustr set list \<Rightarrow> nat \<Rightarrow> nat \<Rightarrow> bool" where
  "near_duplicate fps i j \<longleftrightarrow> 95 / 100 \<le> jaccard (fps ! i) (fps ! j)"

definition redundancy :: "ustr set list \<Rightarrow> nat list \<Rightarrow> nat \<Rightarrow> rat" where
  "redundancy fps selected i =
     (case map (\<lambda>j. jaccard (fps ! i) (fps ! j)) selected of [] \<Rightarrow> 0 | x # xs \<Rightarrow> fold max xs x)"

definition duplicate_context :: "ustr set list \<Rightarrow> ustr list option \<Rightarrow> nat list \<Rightarrow> nat \<Rightarrow> bool" where
  "duplicate_context fps contexts selected i = (case contexts of
     None \<Rightarrow> True
   | Some cs \<Rightarrow> list_ex (\<lambda>j. cs ! i = cs ! j \<and> near_duplicate fps i j) selected)"

definition mmr_score :: "ustr set list \<Rightarrow> nat list \<Rightarrow> nat \<Rightarrow> rat" where
  "mmr_score fps selected i =
     7 / 10 * (1 - of_nat i / of_nat (max (length fps) 1)) - 3 / 10 * redundancy fps selected i"

definition eligible :: "ustr set list \<Rightarrow> ustr list option \<Rightarrow> nat list \<Rightarrow> nat \<Rightarrow> bool" where
  "eligible fps contexts selected i \<longleftrightarrow>
     \<not> (95 / 100 \<le> redundancy fps selected i \<and> duplicate_context fps contexts selected i)"

text \<open>\<open>max\<close> of the triples \<open>(score, -index, index)\<close>: the highest score, at equal scores the first.\<close>

definition best_index :: "(rat \<times> int \<times> nat) list \<Rightarrow> nat" where
  "best_index ranked = (case ranked of [] \<Rightarrow> 0 | x # xs \<Rightarrow> snd (snd (fold max xs x)))"

definition mmr_ranked :: "ustr set list \<Rightarrow> ustr list option \<Rightarrow> nat list \<Rightarrow> nat list \<Rightarrow> (rat \<times> int \<times> nat) list" where
  "mmr_ranked fps contexts selected remaining =
     map (\<lambda>i. (mmr_score fps selected i, - int i, i)) (filter (eligible fps contexts selected) remaining)"

lemma fold_max_mem: "fold max xs (x :: 'a :: linorder) \<in> insert x (set xs)"
  by (induction xs arbitrary: x) (auto simp: max_def split: if_splits)

lemma best_index_mem:
  assumes "mmr_ranked fps contexts selected remaining \<noteq> []"
  shows "best_index (mmr_ranked fps contexts selected remaining) \<in> set (filter (eligible fps contexts selected) remaining)"
proof -
  obtain x xs where r: "mmr_ranked fps contexts selected remaining = x # xs" using assms by (cases "mmr_ranked fps contexts selected remaining") auto
  have "fold max xs x \<in> set (mmr_ranked fps contexts selected remaining)" using fold_max_mem [of xs x] by (simp add: r)
  then have "snd (snd (fold max xs x)) \<in> set (filter (eligible fps contexts selected) remaining)"
    by (auto simp: mmr_ranked_def)
  then show ?thesis unfolding best_index_def r by simp
qed

function mmr :: "ustr set list \<Rightarrow> ustr list option \<Rightarrow> int \<Rightarrow> nat list \<Rightarrow> nat list \<Rightarrow> nat list" where
  "mmr fps contexts limit selected remaining =
     (if remaining = [] \<or> limit \<le> int (length selected) then selected
      else
        (let ranked = mmr_ranked fps contexts selected remaining in
         if ranked = [] then selected
         else mmr fps contexts limit (selected @ [best_index ranked]) (remove1 (best_index ranked) remaining)))"
  by pat_completeness auto
termination
proof (relation "measure (\<lambda>(fps, contexts, limit, selected, remaining). length remaining)")
  fix fps contexts and limit :: int and selected remaining ranked
  assume a: "\<not> (remaining = [] \<or> limit \<le> int (length selected))"
    "ranked = mmr_ranked fps contexts selected remaining" "ranked \<noteq> []"
  then have "best_index ranked \<in> set remaining" using best_index_mem by fastforce
  then have "length (remove1 (best_index ranked) remaining) < length remaining"
    using a(1) by (simp add: length_remove1)
  then show "((fps, contexts, limit, selected @ [best_index ranked], remove1 (best_index ranked) remaining),
      fps, contexts, limit, selected, remaining)
      \<in> measure (\<lambda>(fps, contexts, limit, selected, remaining). length remaining)" by simp
qed simp

declare mmr.simps [simp del]

definition diverse_indices :: "ustr list \<Rightarrow> int \<Rightarrow> ustr list option \<Rightarrow> nat list" where
  "diverse_indices texts limit contexts = mmr (map shingles texts) contexts limit [] [0..<length texts]"

section \<open>Facts: the answer of the service\<close>

lemma ranked_rows_distinct:
  "ranked_rows n seen rows = Inr ps \<Longrightarrow>
   length ps = length rows \<and> distinct (map fst ps) \<and> set (map fst ps) \<subseteq> {..<n} - set seen"
proof (induction n seen rows arbitrary: ps rule: ranked_rows.induct)
  case (2 n seen row rows)
  then obtain i where i: "dget row (lit ''index'') = JInt i" "\<not> (i < 0 \<or> int n \<le> i \<or> nat i \<in> set seen)"
    by (auto split: json.splits if_splits)
  obtain x where x: "finite_score (dget row (lit ''relevance_score'')) = Inr x"
    using 2(2) i by (auto split: sum.splits)
  obtain qs where q: "ranked_rows n (nat i # seen) rows = Inr qs" "ps = (nat i, x) # qs"
    using 2(2) i x by (auto split: sum.splits)
  from "2.IH" [OF i(1,2) x q(1)] i(2) show ?case by (auto simp: q(2))
qed auto

lemma ranking_permutation:
  assumes "rerank s loads client query documents = Inr (Some ranked)"
  shows "distinct (map fst ranked) \<and> set (map fst ranked) = {..<length documents}
    \<and> sorted_wrt (<) (map (\<lambda>(i, x). (- x, i)) ranked)"
proof -
  obtain blocks raw where "parse_ranking loads (length documents) raw = Inr ranked"
    using assms by (auto simp: rerank_def rerank_request_def split: if_splits sum.splits)
  then obtain rows ps where r: "ranked_rows (length documents) [] rows = Inr ps" "length rows = length documents"
      "ranked = sort_key (\<lambda>(i, x). (- x, i)) ps"
    by (auto simp: parse_ranking_def split: option.splits json.splits if_splits sum.splits)
  from ranked_rows_distinct [OF r(1)] r(2) have d: "distinct (map fst ps)" "set (map fst ps) \<subseteq> {..<length documents}"
      "card (set (map fst ps)) = length documents" by (auto simp: distinct_card simp del: set_map)
  have perm: "mset (map fst ranked) = mset (map fst ps)"
    unfolding r(3) mset_map mset_sort ..
  have dist: "distinct (map fst ranked)" using perm d(1) mset_eq_imp_distinct_iff by metis
  have "set (map fst ranked) = {..<length documents}"
    using mset_eq_setD [OF perm] card_subset_eq [OF _ d(2)] d(3) by simp
  moreover have "sorted (map (\<lambda>(i, x). (- x, i)) ranked)" unfolding r(3) by (rule sorted_sort_key)
  moreover have "distinct (map (\<lambda>(i, x). (- x, i)) ranked)"
  proof -
    have "map snd (map (\<lambda>(i, x). (- x, i)) ranked) = map fst ranked" by auto
    then have "distinct (map snd (map (\<lambda>(i, x). (- x, i)) ranked))" by (simp only: dist)
    then show ?thesis unfolding distinct_map by (rule conjunct1)
  qed
  ultimately show ?thesis using dist unfolding strict_sorted_iff by blast
qed

text \<open>
  A ranking the code accepts from the service is a permutation of the documents it was asked
  about, best score first: no answer can drop, repeat or invent a document.
\<close>

theorem accepted_ranking_is_permutation:
  assumes "rerank s loads client query documents = Inr (Some ranked)"
  shows "distinct (map fst ranked) \<and> set (map fst ranked) = {..<length documents}
    \<and> sorted_wrt (<) (map (\<lambda>(i, x). (- x, i)) ranked)"
  using assms by (rule ranking_permutation)

section \<open>Facts: the diverse selection\<close>

text \<open>Two texts are the same evidence: almost equal shingles, from the same context.\<close>

definition same_evidence :: "ustr set list \<Rightarrow> ustr list option \<Rightarrow> nat \<Rightarrow> nat \<Rightarrow> bool" where
  "same_evidence fps contexts i j \<longleftrightarrow>
     near_duplicate fps i j \<and> (case contexts of None \<Rightarrow> True | Some cs \<Rightarrow> cs ! i = cs ! j)"

lemma fold_max_ge: "x \<le> fold max xs x" "y \<in> set xs \<Longrightarrow> (y :: 'a :: linorder) \<le> fold max xs x"
proof (induction xs arbitrary: x)
  case (Cons z zs)
  { case 1 show ?case using Cons(1) [of "max z x"] by simp
  next
    case 2 show ?case using Cons(1) [of "max z x"] Cons(2) [of "max z x"] 2 by auto }
qed simp_all

lemma redundancy_ge: "j \<in> set selected \<Longrightarrow> jaccard (fps ! i) (fps ! j) \<le> redundancy fps selected i"
  by (cases selected) (auto simp: redundancy_def fold_max_ge)

lemma redundancy_attained:
  assumes "95 / 100 \<le> redundancy fps selected i"
  shows "\<exists>j \<in> set selected. near_duplicate fps i j"
proof (cases "map (\<lambda>j. jaccard (fps ! i) (fps ! j)) selected")
  case Nil
  with assms show ?thesis by (simp add: redundancy_def)
next
  case (Cons x xs)
  have "redundancy fps selected i \<in> set (map (\<lambda>j. jaccard (fps ! i) (fps ! j)) selected)"
    unfolding redundancy_def Cons using fold_max_mem [of xs x] by simp
  with assms show ?thesis by (auto simp: near_duplicate_def)
qed

lemma eligible_iff: "eligible fps contexts selected i \<longleftrightarrow> (\<forall>j \<in> set selected. \<not> same_evidence fps contexts i j)"
proof -
  have "near_duplicate fps i j \<Longrightarrow> j \<in> set selected \<Longrightarrow> 95 / 100 \<le> redundancy fps selected i" for j
    using redundancy_ge [of j selected fps i] by (simp add: near_duplicate_def)
  then show ?thesis
    using redundancy_attained [of fps selected i]
    by (cases contexts) (auto simp: eligible_def duplicate_context_def same_evidence_def list_ex_iff)
qed

lemma mmr_props:
  assumes "distinct (selected @ remaining)" and "sorted_wrt (\<lambda>j i. \<not> same_evidence fps contexts i j) selected"
    and "int (length selected) \<le> max limit 0"
  shows "distinct (mmr fps contexts limit selected remaining)
    \<and> set (mmr fps contexts limit selected remaining) \<subseteq> set (selected @ remaining)
    \<and> int (length (mmr fps contexts limit selected remaining)) \<le> max limit 0
    \<and> sorted_wrt (\<lambda>j i. \<not> same_evidence fps contexts i j) (mmr fps contexts limit selected remaining)
    \<and> (int (length (mmr fps contexts limit selected remaining)) < limit \<longrightarrow>
        (\<forall>i \<in> set remaining. i \<notin> set (mmr fps contexts limit selected remaining) \<longrightarrow>
           (\<exists>j \<in> set (mmr fps contexts limit selected remaining). same_evidence fps contexts i j)))
    \<and> prefix selected (mmr fps contexts limit selected remaining)"
  using assms
proof (induction fps contexts limit selected remaining rule: mmr.induct)
  case (1 fps contexts limit selected remaining)
  let ?ranked = "mmr_ranked fps contexts selected remaining"
  let ?b = "best_index ?ranked"
  consider "remaining = [] \<or> limit \<le> int (length selected)"
    | "\<not> (remaining = [] \<or> limit \<le> int (length selected))" "?ranked = []"
    | "\<not> (remaining = [] \<or> limit \<le> int (length selected))" "?ranked \<noteq> []" by blast
  then show ?case
  proof cases
    case 1
    with "1.prems" show ?thesis by (auto simp: mmr.simps [of fps])
  next
    case 2
    then have "\<forall>i \<in> set remaining. \<not> eligible fps contexts selected i"
      by (simp add: mmr_ranked_def filter_empty_conv)
    with 2 "1.prems" show ?thesis by (auto simp: mmr.simps [of fps] eligible_iff)
  next
    case 3
    have step: "mmr fps contexts limit selected remaining
        = mmr fps contexts limit (selected @ [?b]) (remove1 ?b remaining)"
      using 3 by (subst mmr.simps) (simp add: Let_def)
    have b: "?b \<in> set remaining" "eligible fps contexts selected ?b"
      using best_index_mem [OF 3(2)] by simp_all
    have "distinct ((selected @ [?b]) @ remove1 ?b remaining)" using "1.prems"(1) b(1) by auto
    moreover have "sorted_wrt (\<lambda>j i. \<not> same_evidence fps contexts i j) (selected @ [?b])"
      using "1.prems"(2) b(2) by (simp add: sorted_wrt_append eligible_iff)
    moreover have "int (length (selected @ [?b])) \<le> max limit 0" using 3(1) by simp
    ultimately have IH: "distinct (mmr fps contexts limit selected remaining)"
      "set (mmr fps contexts limit selected remaining) \<subseteq> set ((selected @ [?b]) @ remove1 ?b remaining)"
      "int (length (mmr fps contexts limit selected remaining)) \<le> max limit 0"
      "sorted_wrt (\<lambda>j i. \<not> same_evidence fps contexts i j) (mmr fps contexts limit selected remaining)"
      "int (length (mmr fps contexts limit selected remaining)) < limit \<longrightarrow>
        (\<forall>i \<in> set (remove1 ?b remaining). i \<notin> set (mmr fps contexts limit selected remaining) \<longrightarrow>
           (\<exists>j \<in> set (mmr fps contexts limit selected remaining). same_evidence fps contexts i j))"
      "prefix (selected @ [?b]) (mmr fps contexts limit selected remaining)"
      using "1.IH" [OF 3(1) refl 3(2)] unfolding step by blast+
    have sub: "set ((selected @ [?b]) @ remove1 ?b remaining) \<subseteq> set (selected @ remaining)"
      using b(1) set_remove1_subset [of ?b remaining] by auto
    have "?b \<in> set (mmr fps contexts limit selected remaining)" using IH(6) by (auto simp: prefix_def)
    then have "i \<in> set remaining \<Longrightarrow> i \<notin> set (mmr fps contexts limit selected remaining) \<Longrightarrow> i \<in> set (remove1 ?b remaining)" for i
      by (metis in_set_remove1)
    with IH sub show ?thesis by (auto simp: prefix_def)
  qed
qed

lemma diverse_indices_props:
  "distinct (diverse_indices texts limit contexts)
    \<and> set (diverse_indices texts limit contexts) \<subseteq> {..<length texts}
    \<and> int (length (diverse_indices texts limit contexts)) \<le> max limit 0
    \<and> sorted_wrt (\<lambda>j i. \<not> same_evidence (map shingles texts) contexts i j) (diverse_indices texts limit contexts)
    \<and> (int (length (diverse_indices texts limit contexts)) < limit \<longrightarrow>
        (\<forall>i < length texts. i \<notin> set (diverse_indices texts limit contexts) \<longrightarrow>
           (\<exists>j \<in> set (diverse_indices texts limit contexts). same_evidence (map shingles texts) contexts i j)))
    \<and> (0 < limit \<longrightarrow> texts \<noteq> [] \<longrightarrow> prefix [0] (diverse_indices texts limit contexts))"
proof -
  let ?fps = "map shingles texts"
  have d: "diverse_indices texts limit contexts = mmr ?fps contexts limit [] [0..<length texts]"
    by (simp add: diverse_indices_def)
  note props = mmr_props [of "[]" "[0..<length texts]" ?fps contexts limit, folded d, simplified]
  have "prefix [0] (diverse_indices texts limit contexts)" if l: "0 < limit" and t: "texts \<noteq> []"
  proof -
    let ?r = "mmr_ranked ?fps contexts [] [0..<length texts]"
    obtain xs where up: "[0..<length texts] = 0 # xs" using t by (cases "[0..<length texts]") (auto simp: upt_eq_Cons_conv)
    have score: "mmr_score ?fps [] i = 7 / 10 * (1 - of_nat i / of_nat (max (length ?fps) 1))" for i
      by (simp add: mmr_score_def redundancy_def)
    have r: "?r = (mmr_score ?fps [] 0, - int 0, 0) # map (\<lambda>i. (mmr_score ?fps [] i, - int i, i)) xs"
      unfolding up mmr_ranked_def by (simp add: eligible_iff)
    have "fold max (map (\<lambda>i. (mmr_score ?fps [] i, - int i, i)) ys) (mmr_score ?fps [] 0, - int 0, 0)
        = (mmr_score ?fps [] 0, - int 0, 0)" for ys
    proof (induction ys)
      case (Cons y ys)
      have "mmr_score ?fps [] y < mmr_score ?fps [] 0 \<or> y = 0"
        unfolding score by (cases "y = 0") (auto simp: divide_pos_pos)
      then have "max (mmr_score ?fps [] y, - int y, y) (mmr_score ?fps [] 0, - int 0, 0) = (mmr_score ?fps [] 0, - int 0, 0)"
        by (auto simp: max_def less_eq_prod_def)
      with Cons show ?case by simp
    qed simp
    then have b: "best_index ?r = 0" "?r \<noteq> []" unfolding r best_index_def by simp_all
    have "diverse_indices texts limit contexts = mmr ?fps contexts limit [0] xs"
      using l b up t unfolding d by (subst mmr.simps) (simp add: Let_def)
    moreover have "distinct ([0] @ xs)" using distinct_upt [of 0 "length texts"] unfolding up by simp
    ultimately show ?thesis using mmr_props [of "[0]" xs ?fps contexts limit] l by simp
  qed
  with props show ?thesis by (auto simp: atLeast0LessThan)
qed

text \<open>
  C35. The selection of evidence is diverse and complete: distinct positions, at most the limit, the best
  ranked text first; no two of them are the same evidence, and while there is room a text is left out
  only for one that is the same evidence.
\<close>

theorem diverse_indices_sound:
  "distinct (diverse_indices texts limit contexts)
    \<and> set (diverse_indices texts limit contexts) \<subseteq> {..<length texts}
    \<and> int (length (diverse_indices texts limit contexts)) \<le> max limit 0
    \<and> sorted_wrt (\<lambda>j i. \<not> same_evidence (map shingles texts) contexts i j) (diverse_indices texts limit contexts)
    \<and> (int (length (diverse_indices texts limit contexts)) < limit \<longrightarrow>
        (\<forall>i < length texts. i \<notin> set (diverse_indices texts limit contexts) \<longrightarrow>
           (\<exists>j \<in> set (diverse_indices texts limit contexts). same_evidence (map shingles texts) contexts i j)))
    \<and> (0 < limit \<longrightarrow> texts \<noteq> [] \<longrightarrow> prefix [0] (diverse_indices texts limit contexts))"
  by (rule diverse_indices_props)

theorem diverse_indices_sound_witness:
  "prefix [0] (diverse_indices [lit ''a'', lit ''b''] 1 None) \<and> distinct (diverse_indices [lit ''a'', lit ''b''] 1 None)"
  using diverse_indices_sound [of "[lit ''a'', lit ''b'']" 1 None] by simp

text \<open>A small pool, to see the two kinds of answers.\<close>

definition demo_rag_settings :: rag_settings where
  "demo_rag_settings = default_rag_settings\<lparr>rag_rerank_mode := lit ''api'', rag_rerank_url := lit ''https://r''\<rparr>"

definition demo_ranking :: json where
  "demo_ranking = JObj [(lit ''results'', JList
     [JObj [(lit ''index'', JInt 1), (lit ''relevance_score'', JInt 2)],
      JObj [(lit ''index'', JInt 0), (lit ''relevance_score'', JInt 3)]])]"

lemma demo_rerank:
  "rerank demo_rag_settings (\<lambda>_. Some demo_ranking) (\<lambda>_. Inr [[1]]) (lit ''q'') [lit ''a'', lit ''b''] =
     Inr (Some [(0, 3), (1, 2)])"
  by (simp add: rerank_def rerank_request_def demo_rag_settings_def default_rag_settings_def demo_ranking_def
      max_response_bytes_def parse_ranking_def dget_def finite_score_def float_overflow_def)

theorem accepted_ranking_is_permutation_witness:
  "distinct (map fst [(0 :: nat, 3 :: rat), (1, 2)]) \<and> set (map fst [(0 :: nat, 3 :: rat), (1, 2)]) = {..<length [lit ''a'', lit ''b'']}"
  using accepted_ranking_is_permutation [OF demo_rerank] by blast

end
