(* ===== verification/Retrieval.thy ===== *)
theory Retrieval
  imports Knowledge Reranker "HOL-Library.AList"
begin

text \<open>
  Hybrid retrieval (\<open>services/rag.py\<close>): the keyword and the vector channel over the chunks in scope,
  their reciprocal rank fusion, reranking and the choice of diverse evidence. The database functions
  the queries use are arguments: \<open>pgl\<close> is SQL \<open>lower\<close> and \<open>cosdist\<close> the cosine distance of pgvector, \<open>None\<close>
  where it is not a finite number. A timeout of the query embedding is an exception of \<open>emb\<close>. Scores
  are rationals, so the rounding of float sums is not modelled.
\<close>

definition min_vector_score :: rat where "min_vector_score = 45 / 100"
definition max_keyword_terms :: nat where "max_keyword_terms = 32"
definition max_results :: int where "max_results = 20"
definition max_candidates :: int where "max_candidates = 120"
definition rrf_k :: nat where "rrf_k = 60"

section \<open>Keyword terms\<close>

definition latin_keyword_stop_terms :: "ustr list" where
  "latin_keyword_stop_terms = map lit [''about'', ''could'', ''from'', ''have'', ''please'', ''tell'', ''that'',
     ''this'', ''what'', ''when'', ''where'', ''which'', ''with'', ''would'']"

definition cjk_keyword_stop_terms :: "ustr list" where
  "cjk_keyword_stop_terms = [[19968, 19979], [20160, 20040], [21578, 35785], [22914, 20309], [24110, 25105],
     [24590, 20040], [26159, 21542], [35831, 38382]]"

text \<open>
  The classes of \<open>QUERY_TOKEN_RE\<close>; with \<open>IGNORECASE\<close>, \<open>[a-z]\<close> also matches the letters whose other
  case is ASCII (dotted and dotless i, long s, Kelvin sign).
\<close>

definition token_start :: "nat \<Rightarrow> bool" where
  "token_start c \<longleftrightarrow> (97 \<le> c \<and> c \<le> 122) \<or> (65 \<le> c \<and> c \<le> 90) \<or> (48 \<le> c \<and> c \<le> 57)
     \<or> c = 304 \<or> c = 305 \<or> c = 383 \<or> c = 8490"

definition token_part :: "nat \<Rightarrow> bool" where
  "token_part c \<longleftrightarrow> token_start c \<or> c = 95 \<or> c = 46 \<or> c = 45"

definition cjk :: "nat \<Rightarrow> bool" where
  "cjk c \<longleftrightarrow> (13312 \<le> c \<and> c \<le> 19903) \<or> (19968 \<le> c \<and> c \<le> 40959)"

text \<open>\<open>findall\<close>: the tokens from the left.\<close>

function query_tokens :: "ustr \<Rightarrow> ustr list" where
  "query_tokens [] = []"
| "query_tokens (c # cs) =
     (if token_start c then (c # takeWhile token_part cs) # query_tokens (dropWhile token_part cs)
      else if cjk c then (c # takeWhile cjk cs) # query_tokens (dropWhile cjk cs)
      else query_tokens cs)"
  by pat_completeness auto
termination
  by (relation "measure length") (auto simp: le_imp_less_Suc length_dropWhile_le)

definition ngrams :: "nat \<Rightarrow> ustr \<Rightarrow> ustr list" where
  "ngrams n token = map (\<lambda>i. take n (drop i token)) [0..<Suc (length token) - n]"

definition token_terms :: "ustr \<Rightarrow> ustr list" where
  "token_terms token =
     (if token \<noteq> [] \<and> list_all cjk token
      then filter (\<lambda>t. \<not> any_in cjk_keyword_stop_terms t) (ngrams 3 token @ ngrams 2 token)
      else
        (let t = strip_by (\<lambda>c. c = 46 \<or> c = 95 \<or> c = 45) token in
         if 3 \<le> length t \<and> t \<notin> set latin_keyword_stop_terms then [t] else []))"

definition add_term :: "ustr \<Rightarrow> ustr list \<Rightarrow> ustr list" where
  "add_term term terms =
     (let normalized = casefold term in
      if normalized \<noteq> [] \<and> normalized \<notin> set terms \<and> length terms < max_keyword_terms
      then terms @ [normalized] else terms)"

definition keyword_terms :: "ustr \<Rightarrow> ustr list" where
  "keyword_terms query =
     fold (\<lambda>token terms. fold add_term (token_terms token) terms) (query_tokens (casefold query)) []"

section \<open>Scope\<close>

type_synonym hit = "knowledge_chunk \<times> knowledge_document"

definition in_scope :: "uuid option \<Rightarrow> uuid option \<Rightarrow> bool \<Rightarrow> knowledge_document \<Rightarrow> bool" where
  "in_scope usr conv include_global doc \<longleftrightarrow>
     kd_user_id doc = usr \<and> kd_status doc = lit ''indexed''
     \<and> (if conv = None then kd_conversation_id doc = None
        else if \<not> include_global then kd_conversation_id doc = conv
        else kd_conversation_id doc = conv \<or> kd_conversation_id doc = None)"

text \<open>The join of chunks with their documents, in scope.\<close>

definition scoped_hits :: "uuid option \<Rightarrow> uuid option \<Rightarrow> bool \<Rightarrow> db \<Rightarrow> hit list" where
  "scoped_hits usr conv include_global d =
     concat (map (\<lambda>k. map (\<lambda>doc. (k, doc))
       (filter (\<lambda>doc. kd_id doc = kc_document_id k \<and> in_scope usr conv include_global doc) (db_documents d)))
       (db_chunks d))"

definition scope_priority :: "uuid option \<Rightarrow> knowledge_document \<Rightarrow> int" where
  "scope_priority conv doc = (if conv \<noteq> None \<and> kd_conversation_id doc = conv then 0 else 1)"

text \<open>The term \<open>_retrieval_order\<close> puts into ORDER BY; none without a conversation.\<close>

definition retrieval_order :: "uuid option \<Rightarrow> knowledge_document \<Rightarrow> int list" where
  "retrieval_order conv doc = (if conv = None then [] else [if kd_conversation_id doc = conv then 0 else 1])"

section \<open>Citations\<close>

record citation =
  ci_document_id :: ustr
  ci_title :: ustr
  ci_chunk_index :: nat
  ci_content :: ustr
  ci_source_type :: ustr
  ci_source_uri :: "ustr option"
  ci_score :: rat
  ci_method :: ustr
  ci_evidence :: dict

definition citation_dump :: "citation \<Rightarrow> dict" where
  "citation_dump c =
     (let uri = (case ci_source_uri c of None \<Rightarrow> JNull | Some u \<Rightarrow> JStr u) in
      [(lit ''document_id'', JStr (ci_document_id c)), (lit ''title'', JStr (ci_title c)),
       (lit ''chunk_index'', JInt (int (ci_chunk_index c))), (lit ''content'', JStr (ci_content c)),
       (lit ''source_type'', JStr (ci_source_type c)), (lit ''source_uri'', uri),
       (lit ''score'', JFloat (Fin (ci_score c))), (lit ''retrieval_method'', JStr (ci_method c)),
       (lit ''metadata'', JObj (dupdate
         [(lit ''document_title'', JStr (ci_title c)), (lit ''chunk_index'', JInt (int (ci_chunk_index c))),
          (lit ''source_type'', JStr (ci_source_type c)), (lit ''source_uri'', uri),
          (lit ''score'', JFloat (Fin (ci_score c))), (lit ''retrieval_method'', JStr (ci_method c))]
         (ci_evidence c)))])"

definition quoted_keys :: "ustr set" where
  "quoted_keys = {lit ''start_char'', lit ''end_char'', lit ''retrieval_context''}"

definition citation_of :: "ustr \<Rightarrow> rat \<Rightarrow> hit \<Rightarrow> citation" where
  "citation_of mthd score h = (case h of (k, doc) \<Rightarrow>
     \<lparr>ci_document_id = uuid_str (kd_id doc), ci_title = kd_title doc, ci_chunk_index = kc_chunk_index k,
      ci_content = kc_content k, ci_source_type = kd_source_type doc, ci_source_uri = kd_source_uri doc,
      ci_score = score, ci_method = mthd,
      ci_evidence = filter (\<lambda>(n, _). n \<in> quoted_keys) (kc_metadata k)\<rparr>)"

text \<open>The retrieval context under which the code stores text only, with the title as its default.\<close>

definition context_or :: "dict \<Rightarrow> ustr \<Rightarrow> ustr" where
  "context_or md title = (case map_of md (lit ''retrieval_context'') of Some (JStr s) \<Rightarrow> s | _ \<Rightarrow> title)"

section \<open>The two channels\<close>

definition count_terms :: "ustr list \<Rightarrow> ustr \<Rightarrow> nat" where
  "count_terms terms txt = length (filter (\<lambda>t. substr t txt) terms)"

definition keyword_score :: "(ustr \<Rightarrow> ustr) \<Rightarrow> ustr list \<Rightarrow> hit \<Rightarrow> rat" where
  "keyword_score low terms h = (case h of (k, doc) \<Rightarrow>
     of_nat (count_terms terms (low (kc_content k)))
     + 1 / 4 * of_nat (count_terms terms (low (context_or (kc_metadata k) (kd_title doc)))))"

definition search_by_keywords ::
  "(ustr \<Rightarrow> ustr) \<Rightarrow> uuid option \<Rightarrow> ustr \<Rightarrow> uuid option \<Rightarrow> int \<Rightarrow> db \<Rightarrow> citation list" where
  "search_by_keywords pgl usr query conv limit d =
     (let terms = keyword_terms query in
      if terms = [] then []
      else
        (let rows = take (nat limit)
               (sort_key (\<lambda>(k, doc). (- keyword_score pgl terms (k, doc), retrieval_order conv doc, kc_id k))
                 (filter (\<lambda>h. keyword_score pgl terms h \<noteq> 0) (scoped_hits usr conv True d)));
             scored = sort_key (\<lambda>(k, doc). (- keyword_score lower terms (k, doc), scope_priority conv doc, uuid_str (kc_id k)))
               (filter (\<lambda>h. keyword_score lower terms h \<noteq> 0) rows) in
         map (\<lambda>h. citation_of (lit ''keyword'') (keyword_score lower terms h) h) (take (nat limit) scored)))"

definition vector_score :: "rat option \<Rightarrow> rat" where
  "vector_score distance = (case distance of None \<Rightarrow> 0 | Some x \<Rightarrow> max 0 (1 - x))"

definition vector_rows ::
  "(rat list \<Rightarrow> rat list \<Rightarrow> rat option) \<Rightarrow> rat list \<Rightarrow> hit list \<Rightarrow> (hit \<times> rat) list" where
  "vector_rows cosdist v hits = concat (map (\<lambda>(k, doc).
     case kc_embedding k of
       None \<Rightarrow> []
     | Some e \<Rightarrow> (case cosdist e v of
         None \<Rightarrow> [] | Some x \<Rightarrow> if x \<le> 1 - min_vector_score then [((k, doc), x)] else [])) hits)"

definition search_by_vector ::
  "embedder \<Rightarrow> (rat list \<Rightarrow> rat list \<Rightarrow> rat option) \<Rightarrow> uuid option \<Rightarrow> ustr \<Rightarrow> uuid option \<Rightarrow> int \<Rightarrow> db
   \<Rightarrow> citation list res" where
  "search_by_vector emb cosdist usr query conv limit d =
     (case embed_or_empty emb [query] of
        Inl e \<Rightarrow> Inl e
      | Inr [] \<Rightarrow> Inr []
      | Inr (v # _) \<Rightarrow>
          (let rows = take (nat limit)
                 (sort_key (\<lambda>((k, doc), x). (x, retrieval_order conv doc, kc_id k))
                   (vector_rows cosdist v (scoped_hits usr conv True d))) in
           Inr (map (\<lambda>(h, x). citation_of (lit ''vector'') (vector_score (Some x)) h)
             (filter (\<lambda>(h, x). \<not> vector_score (Some x) < min_vector_score) rows))))"

section \<open>Fusion\<close>

type_synonym cite_key = "ustr \<times> nat"

definition cite_key :: "citation \<Rightarrow> cite_key" where
  "cite_key c = (ci_document_id c, ci_chunk_index c)"

text \<open>\<open>math.isclose(a, b, rel_tol=1e-6, abs_tol=1e-8)\<close>.\<close>

definition isclose :: "rat \<Rightarrow> rat \<Rightarrow> bool" where
  "isclose a b \<longleftrightarrow> \<bar>a - b\<bar> \<le> max (max \<bar>a\<bar> \<bar>b\<bar> / 1000000) (1 / 100000000)"

definition next_rank :: "rat option \<Rightarrow> nat \<Rightarrow> nat \<Rightarrow> citation \<Rightarrow> nat" where
  "next_rank previous rank position c = (case previous of
     None \<Rightarrow> position | Some p \<Rightarrow> if isclose (ci_score c) p then rank else position)"

definition merge_citation ::
  "ustr \<Rightarrow> nat \<Rightarrow> citation \<Rightarrow> (cite_key \<times> citation) list \<Rightarrow> (cite_key \<times> citation) list" where
  "merge_citation channel rank c m =
     (let existing = (case map_of m (cite_key c) of Some e \<Rightarrow> e | None \<Rightarrow> c);
          score = (case map_of m (cite_key c) of Some e \<Rightarrow> ci_score e | None \<Rightarrow> 0) in
      AList.update (cite_key c)
        (existing\<lparr>ci_score := score + 1 / of_nat (rrf_k + rank), ci_method := lit ''hybrid_rrf'',
          ci_evidence := dset (channel @ lit ''_score'') (JFloat (Fin (ci_score c)))
            (dset (channel @ lit ''_rank'') (JInt (int rank)) (ci_evidence existing))\<rparr>) m)"

fun fuse_channel ::
  "ustr \<Rightarrow> nat \<Rightarrow> rat option \<Rightarrow> nat \<Rightarrow> cite_key list \<Rightarrow> citation list \<Rightarrow> (cite_key \<times> citation) list
   \<Rightarrow> (cite_key \<times> citation) list" where
  "fuse_channel channel position previous rank seen [] m = m"
| "fuse_channel channel position previous rank seen (c # cs) m =
     (let rank' = next_rank previous rank position c in
      if cite_key c \<in> set seen
      then fuse_channel channel (Suc position) (Some (ci_score c)) rank' seen cs m
      else fuse_channel channel (Suc position) (Some (ci_score c)) rank' (cite_key c # seen) cs
             (merge_citation channel rank' c m))"

definition keyword_rank :: "citation \<Rightarrow> int" where
  "keyword_rank c = (case map_of (ci_evidence c) (lit ''keyword_rank'') of
     Some (JInt r) \<Rightarrow> r | _ \<Rightarrow> max_candidates + 1)"

definition merged_channels :: "citation list \<Rightarrow> citation list \<Rightarrow> (cite_key \<times> citation) list" where
  "merged_channels vec kws =
     fuse_channel (lit ''keyword'') 1 None 0 [] kws (fuse_channel (lit ''vector'') 1 None 0 [] vec [])"

definition fuse :: "citation list \<Rightarrow> citation list \<Rightarrow> int \<Rightarrow> citation list" where
  "fuse vec kws limit =
     (if vec = [] \<or> kws = [] then take (nat limit) (if vec \<noteq> [] then vec else kws)
      else map snd (take (nat limit)
        (sort_key (\<lambda>(key, c). (- ci_score c, keyword_rank c, key)) (merged_channels vec kws))))"

section \<open>Search\<close>

definition conversation_context_terms :: "ustr list" where
  "conversation_context_terms =
     map lit [''attachment'', ''context'', ''document'', ''file'', ''knowledge'', ''notes'', ''provided'', ''uploaded'']
     @ [[19978, 20256], [19978, 19979, 25991], [25991, 26723], [25991, 20214], [26448, 26009], [30693, 35782],
        [31508, 35760], [36164, 26009], [38468, 20214]]"

definition requests_conversation_context :: "ustr \<Rightarrow> bool" where
  "requests_conversation_context query \<longleftrightarrow> any_in conversation_context_terms (casefold query)"

definition conversation_document_context :: "uuid option \<Rightarrow> uuid \<Rightarrow> int \<Rightarrow> db \<Rightarrow> citation list" where
  "conversation_document_context usr conv limit d =
     map (citation_of (lit ''conversation_context'') 0) (take (nat limit)
       (sort_key (\<lambda>(k, doc). (- kd_created_at doc, kc_chunk_index k, kc_id k)) (scoped_hits usr (Some conv) False d)))"

definition citation_context :: "citation \<Rightarrow> ustr" where
  "citation_context c = context_or (ci_evidence c) (ci_title c)"

definition reranked_pool :: "rag_settings \<Rightarrow> citation list \<Rightarrow> (nat \<times> rat) list option \<Rightarrow> citation list" where
  "reranked_pool s pool ranked = (case ranked of
     None \<Rightarrow> pool
   | Some rs \<Rightarrow> map (\<lambda>(i, x). (pool ! i)\<lparr>ci_evidence :=
       dset (lit ''reranker'') (JStr (rag_rerank_model s))
         (dset (lit ''rerank_score'') (JFloat (Fin x)) (ci_evidence (pool ! i)))\<rparr>) rs)"

definition rerank_status :: "rag_settings \<Rightarrow> nat \<Rightarrow> (nat \<times> rat) list option \<Rightarrow> ustr" where
  "rerank_status s n ranked =
     (if ranked \<noteq> None then lit ''applied''
      else if rag_rerank_mode s = lit ''api'' \<and> 2 \<le> n then lit ''fallback'' else lit ''local'')"

definition select_evidence :: "rag_settings \<Rightarrow> int \<Rightarrow> citation list \<Rightarrow> (nat \<times> rat) list option \<Rightarrow> citation list" where
  "select_evidence s limit pool ranked =
     map (\<lambda>i. (pool ! i)\<lparr>ci_evidence :=
         dset (lit ''rerank_status'') (JStr (rerank_status s (length pool) ranked))
           (dset (lit ''selection_method'') (JStr (lit ''mmr'')) (ci_evidence (pool ! i)))\<rparr>)
       (diverse_indices (map ci_content pool) limit (Some (map citation_context pool)))"

definition rerank_citations ::
  "rag_settings \<Rightarrow> json_reader \<Rightarrow> rerank_client \<Rightarrow> ustr \<Rightarrow> citation list \<Rightarrow> int \<Rightarrow> citation list res" where
  "rerank_citations s loads client query candidates limit =
     (let pool = take (rag_rerank_candidates s) candidates in
      case rerank s loads client query (map (\<lambda>c. citation_context c @ [10, 10] @ ci_content c) pool) of
        Inl e \<Rightarrow> Inl e
      | Inr ranked \<Rightarrow> Inr (select_evidence s limit (reranked_pool s pool ranked) ranked))"

text \<open>What a search reaches: settings, database functions, embedding and reranking services.\<close>

record retrieval_env =
  re_settings :: rag_settings
  re_lower :: "ustr \<Rightarrow> ustr"
  re_dist :: "rat list \<Rightarrow> rat list \<Rightarrow> rat option"
  re_embed :: embedder
  re_loads :: json_reader
  re_client :: rerank_client

definition search :: "retrieval_env \<Rightarrow> uuid option \<Rightarrow> ustr \<Rightarrow> uuid option \<Rightarrow> int \<Rightarrow> db \<Rightarrow> citation list res" where
  "search v usr query conv limit d =
     (if strip query = [] \<or> limit \<le> 0 then Inr []
      else
        (let limit = min limit max_results;
             candidates = min max_candidates (max 24 (limit * 6));
             keyword_results = search_by_keywords (re_lower v) usr query conv candidates d in
         case search_by_vector (re_embed v) (re_dist v) usr query conv candidates d of
           Inl e \<Rightarrow> Inl e
         | Inr vector_results \<Rightarrow>
             if vector_results \<noteq> [] \<or> keyword_results \<noteq> []
             then rerank_citations (re_settings v) (re_loads v) (re_client v) query
                    (fuse vector_results keyword_results candidates) limit
             else (case conv of
                     Some c \<Rightarrow>
                       if requests_conversation_context query
                       then Inr (conversation_document_context usr c limit d) else Inr []
                   | None \<Rightarrow> Inr [])))"

section \<open>Facts: keyword terms\<close>

lemma add_terms_props:
  "distinct ts \<and> length ts \<le> max_keyword_terms \<and> [] \<notin> set ts \<Longrightarrow>
   distinct (fold add_term new ts) \<and> length (fold add_term new ts) \<le> max_keyword_terms \<and> [] \<notin> set (fold add_term new ts)"
proof (induction new arbitrary: ts)
  case (Cons t new)
  have "distinct (add_term t ts) \<and> length (add_term t ts) \<le> max_keyword_terms \<and> [] \<notin> set (add_term t ts)"
    using Cons.prems by (auto simp: add_term_def Let_def)
  from Cons.IH [OF this] show ?case by simp
qed simp

lemma keyword_terms_props:
  "distinct (keyword_terms query) \<and> length (keyword_terms query) \<le> max_keyword_terms \<and> [] \<notin> set (keyword_terms query)"
proof -
  have "distinct ts \<and> length ts \<le> max_keyword_terms \<and> [] \<notin> set ts \<Longrightarrow>
      let r = fold (\<lambda>token terms. fold add_term (token_terms token) terms) tokens ts
      in distinct r \<and> length r \<le> max_keyword_terms \<and> [] \<notin> set r" for tokens ts
  proof (induction tokens arbitrary: ts)
    case (Cons t tokens)
    from Cons.IH [OF add_terms_props [OF Cons.prems, of "token_terms t"]] show ?case by simp
  qed simp
  from this [of "[]" "query_tokens (casefold query)"] show ?thesis by (simp add: keyword_terms_def Let_def)
qed

section \<open>Facts: what a citation quotes\<close>

text \<open>The part of a citation that fusion, reranking and selection must not touch.\<close>

definition quotes :: "citation \<Rightarrow> hit \<Rightarrow> bool" where
  "quotes c h = (case h of (k, doc) \<Rightarrow>
     ci_document_id c = uuid_str (kd_id doc) \<and> ci_title c = kd_title doc
     \<and> ci_chunk_index c = kc_chunk_index k \<and> ci_content c = kc_content k
     \<and> ci_source_type c = kd_source_type doc \<and> ci_source_uri c = kd_source_uri doc
     \<and> (\<forall>n \<in> quoted_keys.
          map_of (ci_evidence c) n = map_of (kc_metadata k) n))"

lemma map_of_filter_key: "p n \<Longrightarrow> map_of (filter (\<lambda>(m, _). p m) xs) n = map_of xs n"
  by (induction xs) auto

lemma quotes_citation_of [simp]: "quotes (citation_of mthd score h) h"
proof (cases h)
  case (Pair k doc)
  have "map_of (filter (\<lambda>(n, _). n \<in> quoted_keys) (kc_metadata k)) n
      = map_of (kc_metadata k) n" if "n \<in> quoted_keys" for n
    using that by (rule map_of_filter_key)
  then show ?thesis unfolding quotes_def citation_of_def Pair by simp
qed

text \<open>Changes of the score, the method and the evidence under other names keep the quotation.\<close>

definition evidence_kept :: "dict \<Rightarrow> dict \<Rightarrow> bool" where
  "evidence_kept a b \<longleftrightarrow> (\<forall>n \<in> quoted_keys. map_of a n = map_of b n)"

lemma evidence_kept_refl: "evidence_kept a a" by (simp add: evidence_kept_def)

lemma evidence_kept_dset:
  "evidence_kept a b \<Longrightarrow> n \<notin> quoted_keys \<Longrightarrow> evidence_kept (dset n v a) b"
  by (auto simp: evidence_kept_def map_of_dset)

lemma quotes_update:
  "quotes c h \<Longrightarrow> evidence_kept ev (ci_evidence c) \<Longrightarrow>
   quotes (c\<lparr>ci_score := x, ci_method := mthd, ci_evidence := ev\<rparr>) h"
  "quotes c h \<Longrightarrow> evidence_kept ev (ci_evidence c) \<Longrightarrow> quotes (c\<lparr>ci_evidence := ev\<rparr>) h"
  by (auto simp: quotes_def evidence_kept_def)

lemma channel_fields:
  "lit ''vector'' @ lit ''_score'' = lit ''vector_score''" "lit ''vector'' @ lit ''_rank'' = lit ''vector_rank''"
  "lit ''keyword'' @ lit ''_score'' = lit ''keyword_score''" "lit ''keyword'' @ lit ''_rank'' = lit ''keyword_rank''"
  by (simp_all add: lit_append)

lemma channel_names:
  assumes "channel \<in> {lit ''vector'', lit ''keyword''}"
  shows "channel @ lit ''_score'' \<notin> quoted_keys"
    and "channel @ lit ''_rank'' \<notin> quoted_keys"
proof -
  consider "channel = lit ''vector''" | "channel = lit ''keyword''" using assms by blast
  then have "channel @ lit ''_score'' \<notin> quoted_keys
    \<and> channel @ lit ''_rank'' \<notin> quoted_keys"
    by cases (simp_all only: channel_fields, simp_all add: quoted_keys_def)
  then show "channel @ lit ''_score'' \<notin> quoted_keys"
    and "channel @ lit ''_rank'' \<notin> quoted_keys"
    by (elim conjunct1 conjunct2)+
qed

lemma merge_citation_quotes:
  assumes "channel \<in> {lit ''vector'', lit ''keyword''}" and "\<exists>h \<in> H. quotes c h" and "\<forall>(key, e) \<in> set m. \<exists>h \<in> H. quotes e h"
  shows "\<forall>(key, e) \<in> set (merge_citation channel rank c m). \<exists>h \<in> H. quotes e h"
proof -
  let ?e = "case map_of m (cite_key c) of Some e \<Rightarrow> e | None \<Rightarrow> c"
  obtain h where h: "h \<in> H" "quotes ?e h"
    using assms(2,3) by (cases "map_of m (cite_key c)") (auto dest!: map_of_SomeD)
  have "evidence_kept (dset (channel @ lit ''_score'') u (dset (channel @ lit ''_rank'') w (ci_evidence ?e))) (ci_evidence ?e)" for u w
    by (intro evidence_kept_dset evidence_kept_refl channel_names [OF assms(1)])
  from quotes_update(1) [OF h(2) this] have q: "quotes (?e\<lparr>ci_score := x, ci_method := y, ci_evidence :=
      dset (channel @ lit ''_score'') u (dset (channel @ lit ''_rank'') w (ci_evidence ?e))\<rparr>) h" for x y u w .
  have "set (AList.update k v m) \<subseteq> insert (k, v) (set m)" for k v
    by (induction m) auto
  then show ?thesis using assms(3) h(1) q unfolding merge_citation_def Let_def by blast
qed

lemma fuse_channel_quotes:
  assumes "channel \<in> {lit ''vector'', lit ''keyword''}" and "\<forall>c \<in> set cs. \<exists>h \<in> H. quotes c h"
    and "\<forall>(key, e) \<in> set m. \<exists>h \<in> H. quotes e h"
  shows "\<forall>(key, e) \<in> set (fuse_channel channel position previous rank seen cs m). \<exists>h \<in> H. quotes e h"
  using assms(2,3)
proof (induction cs arbitrary: position previous rank seen m)
  case (Cons c cs)
  have c: "\<exists>h \<in> H. quotes c h" and cs: "\<forall>c \<in> set cs. \<exists>h \<in> H. quotes c h" using Cons.prems(1) by simp_all
  show ?case
    using Cons.IH [OF cs Cons.prems(2)] Cons.IH [OF cs merge_citation_quotes [OF assms(1) c Cons.prems(2)]]
    unfolding fuse_channel.simps Let_def by (simp only: split: if_split) blast
qed simp

lemma fuse_quotes:
  assumes "\<forall>c \<in> set vec. \<exists>h \<in> H. quotes c h" and "\<forall>c \<in> set kws. \<exists>h \<in> H. quotes c h"
  shows "\<forall>c \<in> set (fuse vec kws limit). \<exists>h \<in> H. quotes c h"
proof -
  have "\<forall>(key, e) \<in> set (merged_channels vec kws). \<exists>h \<in> H. quotes e h"
    unfolding merged_channels_def
    by (rule fuse_channel_quotes [OF _ assms(2)], simp, rule fuse_channel_quotes [OF _ assms(1)]) simp_all
  then have m: "\<forall>e \<in> snd ` set (merged_channels vec kws). \<exists>h \<in> H. quotes e h" by auto
  have "set (fuse vec kws limit) \<subseteq> set vec \<union> set kws \<union> snd ` set (merged_channels vec kws)"
  proof (cases "vec = [] \<or> kws = []")
    case True
    then have "fuse vec kws limit = take (nat limit) (if vec \<noteq> [] then vec else kws)"
      unfolding fuse_def by (simp only: if_True)
    moreover have "set (take (nat limit) xs) \<subseteq> set xs" for xs :: "citation list" by (rule set_take_subset)
    ultimately have "set (fuse vec kws limit) \<subseteq> set (if vec \<noteq> [] then vec else kws)" by (simp only:)
    moreover have "set (if vec \<noteq> [] then vec else kws) \<subseteq> set vec \<union> set kws" by (cases "vec = []") simp_all
    ultimately have "set (fuse vec kws limit) \<subseteq> set vec \<union> set kws" by (rule subset_trans)
    then show ?thesis by (rule subset_trans) (rule Un_upper1)
  next
    case False
    let ?l = "sort_key (\<lambda>(key, c). (- ci_score c, keyword_rank c, key)) (merged_channels vec kws)"
    have "fuse vec kws limit = map snd (take (nat limit) ?l)"
      unfolding fuse_def using False by (simp only: if_False)
    moreover have "set (take (nat limit) ?l) \<subseteq> set (merged_channels vec kws)"
      using set_take_subset [of "nat limit" ?l] unfolding set_sort .
    ultimately have "set (fuse vec kws limit) \<subseteq> snd ` set (merged_channels vec kws)"
      by (simp only: set_map image_mono)
    then show ?thesis by (rule subset_trans) (rule Un_upper2)
  qed
  moreover have "\<forall>c \<in> set vec \<union> set kws \<union> snd ` set (merged_channels vec kws). \<exists>h \<in> H. quotes c h"
    using assms m unfolding ball_Un by (intro conjI)
  ultimately show ?thesis by (metis subsetD)
qed

lemma length_fuse: "length (fuse vec kws limit) \<le> nat limit"
  by (simp add: fuse_def)

lemma search_by_keywords_quotes:
  "\<forall>c \<in> set (search_by_keywords pgl usr query conv limit d). \<exists>h \<in> set (scoped_hits usr conv True d). quotes c h"
proof -
  have sub: "x \<in> set (take n (sort_key f (filter p (take m (sort_key g (filter q xs)))))) \<Longrightarrow> x \<in> set xs"
    for n m p q and f :: "hit \<Rightarrow> rat \<times> int \<times> ustr" and g :: "hit \<Rightarrow> rat \<times> int list \<times> uuid" and xs x
    by (auto dest!: in_set_takeD)
  show ?thesis
  proof
    fix c assume "c \<in> set (search_by_keywords pgl usr query conv limit d)"
    then obtain h x where "c = citation_of (lit ''keyword'') x h" "h \<in> set (scoped_hits usr conv True d)"
      unfolding search_by_keywords_def Let_def by (cases "keyword_terms query = []") (auto dest: sub)
    then show "\<exists>h \<in> set (scoped_hits usr conv True d). quotes c h" by (auto intro: quotes_citation_of)
  qed
qed

lemma vector_rows_hits: "(h, x) \<in> set (vector_rows dst v hits) \<Longrightarrow> h \<in> set hits"
  by (auto simp: vector_rows_def split: option.splits if_splits prod.splits)

lemma search_by_vector_quotes:
  assumes "search_by_vector emb cosdist usr query conv limit d = Inr cs" and "c \<in> set cs"
  shows "\<exists>h \<in> set (scoped_hits usr conv True d). quotes c h"
proof -
  obtain v vs where "embed_or_empty emb [query] = Inr (v # vs)"
    using assms by (auto simp: search_by_vector_def split: sum.splits list.splits)
  with assms obtain h x where "c = citation_of (lit ''vector'') (vector_score (Some x)) h"
      "(h, x) \<in> set (vector_rows cosdist v (scoped_hits usr conv True d))"
    by (auto simp: search_by_vector_def Let_def simp del: split_paired_Ex dest!: in_set_takeD)
  then show ?thesis using vector_rows_hits quotes_citation_of by blast
qed

lemma reranked_pool_quotes:
  assumes "\<forall>c \<in> set pool. \<exists>h \<in> H. quotes c h"
    and "\<And>rs. ranked = Some rs \<Longrightarrow> set (map fst rs) = {..<length pool}"
  shows "\<forall>c \<in> set (reranked_pool s pool ranked). \<exists>h \<in> H. quotes c h"
proof (cases ranked)
  case None
  with assms(1) show ?thesis by (simp add: reranked_pool_def)
next
  case (Some rs)
  show ?thesis
  proof
    fix c assume "c \<in> set (reranked_pool s pool ranked)"
    then obtain i x where c: "(i, x) \<in> set rs" "c = (pool ! i)\<lparr>ci_evidence :=
        dset (lit ''reranker'') (JStr (rag_rerank_model s))
         (dset (lit ''rerank_score'') (JFloat (Fin x)) (ci_evidence (pool ! i)))\<rparr>"
      by (auto simp: reranked_pool_def Some)
    have "i < length pool" using assms(2) [OF Some] c(1) by force
    then obtain h where h: "h \<in> H" "quotes (pool ! i) h" using assms(1) by force
    have "quotes c h" unfolding c(2)
      by (rule quotes_update(2) [OF h(2)], intro evidence_kept_dset evidence_kept_refl) (simp_all add: quoted_keys_def)
    with h(1) show "\<exists>h \<in> H. quotes c h" by blast
  qed
qed

lemma select_evidence_quotes:
  assumes "\<forall>c \<in> set pool. \<exists>h \<in> H. quotes c h"
  shows "\<forall>c \<in> set (select_evidence s limit pool ranked). \<exists>h \<in> H. quotes c h"
proof
  fix c assume "c \<in> set (select_evidence s limit pool ranked)"
  then obtain i where i: "i \<in> set (diverse_indices (map ci_content pool) limit (Some (map citation_context pool)))"
      "c = (pool ! i)\<lparr>ci_evidence :=
         dset (lit ''rerank_status'') (JStr (rerank_status s (length pool) ranked))
           (dset (lit ''selection_method'') (JStr (lit ''mmr'')) (ci_evidence (pool ! i)))\<rparr>"
    by (auto simp: select_evidence_def)
  have "i < length pool" using i(1) diverse_indices_props [of "map ci_content pool" limit "Some (map citation_context pool)"] by auto
  then obtain h where h: "h \<in> H" "quotes (pool ! i) h" using assms by force
  have "quotes c h" unfolding i(2)
    by (rule quotes_update(2) [OF h(2)], intro evidence_kept_dset evidence_kept_refl) (simp_all add: quoted_keys_def)
  with h(1) show "\<exists>h \<in> H. quotes c h" by blast
qed

lemma rerank_citations_props:
  assumes "rerank_citations s loads client query candidates limit = Inr cs"
    and "\<forall>c \<in> set candidates. \<exists>h \<in> H. quotes c h"
  shows "(\<forall>c \<in> set cs. \<exists>h \<in> H. quotes c h) \<and> int (length cs) \<le> max limit 0"
proof -
  let ?pool = "take (rag_rerank_candidates s) candidates"
  obtain ranked where r: "rerank s loads client query (map (\<lambda>c. citation_context c @ [10, 10] @ ci_content c) ?pool) = Inr ranked"
      "cs = select_evidence s limit (reranked_pool s ?pool ranked) ranked"
    using assms(1) by (auto simp: rerank_citations_def Let_def split: sum.splits)
  have "\<forall>c \<in> set ?pool. \<exists>h \<in> H. quotes c h" using assms(2) by (auto dest: in_set_takeD)
  moreover have "set (map fst rs) = {..<length ?pool}" if "ranked = Some rs" for rs
    using ranking_permutation [OF r(1) [unfolded that]] by simp
  ultimately have "\<forall>c \<in> set cs. \<exists>h \<in> H. quotes c h"
    unfolding r(2) by (intro select_evidence_quotes reranked_pool_quotes)
  moreover have "int (length cs) \<le> max limit 0"
    unfolding r(2) select_evidence_def length_map by (simp add: diverse_indices_props)
  ultimately show ?thesis by blast
qed

lemma search_quotes:
  assumes "search v usr query conv limit d = Inr cs"
  shows "int (length cs) \<le> max 0 (min limit max_results)
    \<and> (\<forall>c \<in> set cs. \<exists>h. (h \<in> set (scoped_hits usr conv True d) \<or> (\<exists>c. conv = Some c \<and> h \<in> set (scoped_hits usr (Some c) False d))) \<and> quotes c h)"
proof (cases "strip query = [] \<or> limit \<le> 0")
  case True
  with assms show ?thesis by (simp add: search_def)
next
  case False
  let ?limit = "min limit max_results"
  let ?n = "min max_candidates (max 24 (?limit * 6))"
  let ?kws = "search_by_keywords (re_lower v) usr query conv ?n d"
  obtain vec where vec: "search_by_vector (re_embed v) (re_dist v) usr query conv ?n d = Inr vec"
    using assms False by (auto simp: search_def Let_def split: sum.splits)
  show ?thesis
  proof (cases "vec \<noteq> [] \<or> ?kws \<noteq> []")
    case True
    then have "rerank_citations (re_settings v) (re_loads v) (re_client v) query (fuse vec ?kws ?n) ?limit = Inr cs"
      using assms False vec unfolding search_def Let_def by (simp only: if_False if_True sum.case)
    from rerank_citations_props [OF this fuse_quotes [OF ballI search_by_keywords_quotes]]
      search_by_vector_quotes [OF vec] show ?thesis by (auto simp: max.commute simp del: split_paired_Ex split_paired_All)
  next
    case none: False
    show ?thesis
    proof (cases conv)
      case None
      with assms False vec none show ?thesis by (simp add: search_def Let_def)
    next
      case (Some c)
      have "cs = [] \<or> cs = conversation_document_context usr c ?limit d"
        using assms False vec none Some unfolding search_def Let_def
        by (simp only: if_False sum.case option.case split: if_splits) auto
      moreover have "c' \<in> set (conversation_document_context usr c ?limit d) \<Longrightarrow>
          \<exists>h \<in> set (scoped_hits usr (Some c) False d). quotes c' h" for c'
        unfolding conversation_document_context_def set_map
        using quotes_citation_of by (fastforce simp del: split_paired_Bex_Sigma dest!: in_set_takeD)
      moreover have "int (length (conversation_document_context usr c ?limit d)) \<le> max 0 ?limit"
        by (simp add: conversation_document_context_def)
      ultimately show ?thesis using Some by (elim disjE) (simp, blast)
    qed
  qed
qed

text \<open>
  C13. A search quotes only what its caller may read, word for word: whatever the embedding and
  reranking services answer, each of the at most twenty (and at most \<open>limit\<close>) results is a chunk of an
  indexed document of that user in that conversation (or in none), with the stored body, title, source
  and offsets; without an identity only unowned documents are searched.
\<close>

theorem search_stays_in_scope:
  assumes "search v usr query conv limit d = Inr cs"
  shows "int (length cs) \<le> max 0 (min limit 20)
    \<and> (\<forall>c \<in> set cs. \<exists>k \<in> set (db_chunks d). \<exists>doc \<in> set (db_documents d).
         quotes c (k, doc) \<and> kd_id doc = kc_document_id k \<and> kd_user_id doc = usr
         \<and> kd_status doc = lit ''indexed'' \<and> (kd_conversation_id doc = conv \<or> kd_conversation_id doc = None))"
proof -
  have scope: "h \<in> set (scoped_hits usr conv True d) \<or> (\<exists>c. conv = Some c \<and> h \<in> set (scoped_hits usr (Some c) False d)) \<Longrightarrow>
      (\<exists>k doc. h = (k, doc) \<and> k \<in> set (db_chunks d) \<and> doc \<in> set (db_documents d) \<and> kd_id doc = kc_document_id k
        \<and> kd_user_id doc = usr \<and> kd_status doc = lit ''indexed''
        \<and> (kd_conversation_id doc = conv \<or> kd_conversation_id doc = None))" for h
    by (auto simp: scoped_hits_def in_scope_def split: if_splits)
  have "int (length cs) \<le> max 0 (min limit max_results)
    \<and> (\<forall>c \<in> set cs. \<exists>h. (h \<in> set (scoped_hits usr conv True d) \<or> (\<exists>c. conv = Some c \<and> h \<in> set (scoped_hits usr (Some c) False d))) \<and> quotes c h)"
    using search_quotes [OF assms] .
  then show ?thesis using scope unfolding max_results_def by blast
qed

definition demo_retrieval :: retrieval_env where
  "demo_retrieval = \<lparr>re_settings = default_rag_settings, re_lower = lower, re_dist = (\<lambda>_ _. None),
     re_embed = (\<lambda>_. Inl (TimeoutError [])), re_loads = (\<lambda>_. None), re_client = (\<lambda>_. Inl (RuntimeError []))\<rparr>"

abbreviation demo_search :: "citation list res" where
  "demo_search \<equiv> search demo_retrieval (Some (UUID 7)) (lit ''plan'') None 4 demo_knowledge_db"

lemma demo_search_runs: "\<exists>cs. demo_search = Inr cs \<and> cs \<noteq> []"
proof -
  have t: "keyword_terms (lit ''plan'') = [lit ''plan'']"
    by (simp add: keyword_terms_def query_tokens.simps token_start_def token_part_def token_terms_def add_term_def
        casefold_def casefold_cp_def lower_cp_def cjk_def latin_keyword_stop_terms_def max_keyword_terms_def str_eval)
  let ?h = "(hd (db_chunks demo_knowledge_db), hd (db_documents demo_knowledge_db))"
  have h: "scoped_hits (Some (UUID 7)) None True demo_knowledge_db = [?h]"
    by (simp add: scoped_hits_def demo_knowledge_db_def in_scope_def)
  have l: "lower (lit ''plan'') = lit ''plan''" by (simp add: lower_def lower_cp_def str_eval)
  have s: "keyword_score lower [lit ''plan''] ?h \<noteq> 0"
    by (simp add: keyword_score_def demo_knowledge_db_def count_terms_def l add_nonneg_eq_0_iff)
  let ?c = "citation_of (lit ''keyword'') (keyword_score lower [lit ''plan''] ?h) ?h"
  have k: "search_by_keywords lower (Some (UUID 7)) (lit ''plan'') None 24 demo_knowledge_db = [?c]"
    using s by (simp add: search_by_keywords_def t h)
  have v: "search_by_vector (\<lambda>_. Inl (TimeoutError [])) ds (Some (UUID 7)) (lit ''plan'') None 24 demo_knowledge_db = Inr []" for ds
    by (simp add: search_by_vector_def embed_or_empty_def)
  have f: "fuse [] [?c] 24 = [?c]" unfolding fuse_def by simp
  have r: "rerank_citations default_rag_settings loads cl (lit ''plan'') [?c] 4 = Inr (select_evidence default_rag_settings 4 [?c] None)" for loads cl
    by (simp add: rerank_citations_def rerank_def default_rag_settings_def reranked_pool_def)
  have ne: "select_evidence default_rag_settings 4 [?c] None \<noteq> []"
    using diverse_indices_props [of "map ci_content [?c]" 4 "Some (map citation_context [?c])"]
    by (auto simp: select_evidence_def prefix_def simp del: split_paired_Ex)
  have q: "strip (lit ''plan'') \<noteq> []" by (simp add: str_eval)
  have "demo_search = Inr (select_evidence default_rag_settings 4 [?c] None)"
    unfolding search_def demo_retrieval_def Let_def
    by (simp only: retrieval_env.select_convs q, simp add: max_results_def max_candidates_def v k f r)
  with ne show ?thesis by blast
qed

theorem search_stays_in_scope_witness:
  "\<exists>cs. demo_search = Inr cs \<and> cs \<noteq> [] \<and> (\<forall>c \<in> set cs. \<exists>k \<in> set (db_chunks demo_knowledge_db). ci_content c = kc_content k)"
proof -
  obtain cs where cs: "demo_search = Inr cs" "cs \<noteq> []" using demo_search_runs by blast
  have "\<exists>k \<in> set (db_chunks demo_knowledge_db). ci_content c = kc_content k" if "c \<in> set cs" for c
    using search_stays_in_scope [OF cs(1)] that by (auto simp: quotes_def)
  with cs show ?thesis by blast
qed

end
