(* ===== verification/Mcp_Content.thy ===== *)
theory Mcp_Content
  imports Json
begin

text \<open>
  The text of an MCP resource (\<open>mcp/resources.py\<close>): inline text and the content blocks of
  \<open>resources/read\<close>, stripped, in the order of the traversal, each text once.
\<close>

lemma size_dget: "size (dget d k) < size (JObj d)"
proof -
  have "map_of d k = Some v \<Longrightarrow> size v \<le> size_list (size_prod (\<lambda>_. 0) size) d" for v
    by (induction d) (auto split: if_splits)
  then show ?thesis by (force simp: dget_def split: option.split)
qed

lemma twice_size_dget: "2 * size (dget d k) < Suc (Suc (2 * size_list (size_prod (\<lambda>_. 0) size) d))"
  using size_dget [of d k] by simp

function (sequential) collect_text :: "json \<Rightarrow> ustr list \<Rightarrow> ustr list"
  and collect_texts :: "json list \<Rightarrow> ustr list \<Rightarrow> ustr list" where
  "collect_text (JStr s) acc = (if strip s \<noteq> [] \<and> strip s \<notin> set acc then acc @ [strip s] else acc)"
| "collect_text (JList xs) acc = collect_texts xs acc"
| "collect_text (JObj d) acc =
     collect_text (dget d (lit ''content'')) (collect_text (dget d (lit ''text'')) acc)"
| "collect_text _ acc = acc"
| "collect_texts [] acc = acc"
| "collect_texts (x # xs) acc = collect_texts xs (collect_text x acc)"
  by pat_completeness auto
termination
  by (relation "measure (\<lambda>x. case x of Inl (j, _) \<Rightarrow> 2 * size j | Inr (xs, _) \<Rightarrow> Suc (2 * size_list size xs))")
    (auto simp: twice_size_dget)

definition extract_mcp_resource_text :: "dict \<Rightarrow> ustr" where
  "extract_mcp_resource_text resource =
     join [10, 10] (fold (\<lambda>k acc. collect_text (dget resource k) acc)
       [lit ''text'', lit ''content'', lit ''contents''] [])"

section \<open>Facts\<close>

text \<open>The collected texts are distinct and none is empty.\<close>

definition clean_texts :: "ustr list \<Rightarrow> bool" where
  "clean_texts ts \<longleftrightarrow> distinct ts \<and> [] \<notin> set ts"

lemma collect_text_clean:
  "clean_texts acc \<Longrightarrow> clean_texts (collect_text j acc)"
  "clean_texts acc \<Longrightarrow> clean_texts (collect_texts js acc)"
  by (induction j acc and js acc rule: collect_text_collect_texts.induct) (auto simp: clean_texts_def)

end
