(* ===== verification/Utf8.thy ===== *)
theory Utf8
  imports Prelude
begin

text \<open>
  UTF-8 as the code uses it: decoding with \<open>errors="replace"\<close>, \<open>errors="ignore"\<close> and strictly, encoding, and
  the round trip. Texts are lists of code points, bytes are numbers below 256.
\<close>

section \<open>Decoding\<close>

definition cont :: "nat \<Rightarrow> bool" where
  "cont b \<longleftrightarrow> 128 \<le> b \<and> b \<le> 191"

definition second_ok :: "nat \<Rightarrow> nat \<Rightarrow> bool" where
  "second_ok a b \<longleftrightarrow> cont b \<and> (a = 224 \<longrightarrow> 160 \<le> b) \<and> (a = 237 \<longrightarrow> b \<le> 159)
     \<and> (a = 240 \<longrightarrow> 144 \<le> b) \<and> (a = 244 \<longrightarrow> b \<le> 143)"

definition seq_length :: "nat \<Rightarrow> nat" where
  "seq_length a = (if a < 128 then 1 else if 194 \<le> a \<and> a \<le> 223 then 2
     else if 224 \<le> a \<and> a \<le> 239 then 3 else if 240 \<le> a \<and> a \<le> 244 then 4 else 0)"

text \<open>How many of the following bytes belong to the sequence begun by \<open>a\<close>, at most \<open>n\<close>.\<close>

definition good_tail :: "nat \<Rightarrow> nat \<Rightarrow> nat list \<Rightarrow> nat" where
  "good_tail a n bs = (case bs of
     [] \<Rightarrow> 0
   | b # rest \<Rightarrow> if n = 0 \<or> \<not> second_ok a b then 0 else 1 + length (takeWhile cont (take (n - 1) rest)))"

definition lead_bits :: "nat \<Rightarrow> nat \<Rightarrow> nat" where
  "lead_bits n a = (if n = 1 then a else if n = 2 then a - 192 else if n = 3 then a - 224 else a - 240)"

text \<open>The code points of a byte sequence; a maximal prefix of a well-formed sequence that goes no further is one error.\<close>

function utf8_units :: "nat list \<Rightarrow> nat option list" where
  "utf8_units [] = []"
| "utf8_units (a # bs) =
     (let n = seq_length a; k = good_tail a (n - 1) bs in
      (if 0 < n \<and> k = n - 1 then Some (fold (\<lambda>b v. v * 64 + (b - 128)) (take k bs) (lead_bits n a)) else None)
        # utf8_units (drop k bs))"
  by pat_completeness auto
termination
  by (relation "measure length") auto

definition decode_utf8 :: "nat list \<Rightarrow> ustr" where
  "decode_utf8 bs = map (\<lambda>u. case u of Some c \<Rightarrow> c | None \<Rightarrow> 65533) (utf8_units bs)"

definition decode_ignore :: "nat list \<Rightarrow> ustr" where
  "decode_ignore bs = concat (map (\<lambda>u. case u of Some c \<Rightarrow> [c] | None \<Rightarrow> []) (utf8_units bs))"

definition decode_strict :: "nat list \<Rightarrow> ustr option" where
  "decode_strict bs = (if None \<in> set (utf8_units bs) then None else Some (decode_ignore bs))"

text \<open>A byte order mark is dropped by the \<open>utf-8-sig\<close> codec.\<close>

definition decode_utf8_sig :: "nat list \<Rightarrow> ustr" where
  "decode_utf8_sig bs = decode_utf8 (if take 3 bs = [239, 187, 191] then drop 3 bs else bs)"

section \<open>Encoding\<close>

text \<open>\<open>str.encode()\<close>; surrogates cannot be encoded.\<close>

definition encodable :: "nat \<Rightarrow> bool" where
  "encodable c \<longleftrightarrow> c < 55296 \<or> (57344 \<le> c \<and> c < 1114112)"

definition encode_cp :: "nat \<Rightarrow> nat list" where
  "encode_cp c =
     (if c < 128 then [c]
      else if c < 2048 then [192 + c div 64, 128 + c mod 64]
      else if c < 65536 then [224 + c div 4096, 128 + c div 64 mod 64, 128 + c mod 64]
      else [240 + c div 262144, 128 + c div 4096 mod 64, 128 + c div 64 mod 64, 128 + c mod 64])"

definition encode_utf8 :: "ustr \<Rightarrow> nat list" where
  "encode_utf8 s = concat (map encode_cp s)"

section \<open>Round trip\<close>

lemma encode_utf8_simps [simp]: "encode_utf8 [] = []" "encode_utf8 (c # s) = encode_cp c @ encode_utf8 s"
  "encode_utf8 (s @ t) = encode_utf8 s @ encode_utf8 t"
  by (simp_all add: encode_utf8_def)

lemma cont_tail [simp]: "cont (128 + n mod 64)"
  by (simp add: cont_def)

lemma units_sequence:
  assumes "seq_length a = Suc (Suc (length rest))" "second_ok a b" "list_all cont rest"
  shows "utf8_units (a # b # rest @ bs)
    = Some (fold (\<lambda>b v. v * 64 + (b - 128)) (b # rest) (lead_bits (seq_length a) a)) # utf8_units bs"
proof -
  have "takeWhile cont rest = rest" using assms(3) by (simp add: list_all_iff takeWhile_eq_all_conv)
  then have k: "good_tail a (Suc (length rest)) (b # rest @ bs) = Suc (length rest)"
    using assms(2) by (simp add: good_tail_def del: takeWhile_eq_all_conv)
  show ?thesis unfolding utf8_units.simps Let_def assms(1) diff_Suc_1 k by simp
qed

lemma units_ascii: "c < 128 \<Longrightarrow> utf8_units (c # bs) = Some c # utf8_units bs"
  by (simp add: seq_length_def good_tail_def lead_bits_def split: list.split)

lemma units_2:
  assumes "128 \<le> c" "c < 2048"
  shows "utf8_units (encode_cp c @ bs) = Some c # utf8_units bs"
proof -
  from assms have d: "2 \<le> c div 64" "c div 64 \<le> 31" by linarith+
  then have n: "seq_length (192 + c div 64) = 2" by (simp add: seq_length_def)
  have ok: "second_ok (192 + c div 64) (128 + c mod 64)" using d by (simp add: second_ok_def)
  show ?thesis using units_sequence [of "192 + c div 64" "[]" "128 + c mod 64" bs] n ok assms
    by (simp add: encode_cp_def lead_bits_def)
qed

text \<open>The base-64 digits of a code point.\<close>

lemma digits_64: "(c div 64) div 64 = c div 4096" "(c div 4096) div 64 = c div 262144"
  for c :: nat
  by (simp_all add: div_mult2_eq [symmetric])

lemma join_64: "c div 64 * 64 + c mod 64 = c" for c :: nat
  by (rule div_mult_mod_eq)

lemma units_3:
  assumes "2048 \<le> c" "c < 65536" "encodable c"
  shows "utf8_units (encode_cp c @ bs) = Some c # utf8_units bs"
proof -
  define q where "q = c div 64"
  define h where "h = q div 64"
  have h: "c div 4096 = h" unfolding h_def q_def by (simp add: digits_64)
  have c: "h * 64 + q mod 64 = q" "q * 64 + c mod 64 = c" "q mod 64 < 64" "c mod 64 < 64"
    unfolding h_def q_def by simp_all
  have d: "h \<le> 15" using assms c by linarith
  then have n: "seq_length (224 + h) = 3" by (simp add: seq_length_def)
  have "h = 0 \<Longrightarrow> 32 \<le> q mod 64" "h = 13 \<Longrightarrow> q mod 64 \<le> 31"
    using assms c unfolding encodable_def by linarith+
  then have ok: "second_ok (224 + h) (128 + q mod 64)" using d by (auto simp: second_ok_def)
  have "encode_cp c = [224 + h, 128 + q mod 64, 128 + c mod 64]"
    using assms by (simp add: encode_cp_def h q_def [symmetric])
  then show ?thesis
    using units_sequence [of "224 + h" "[128 + c mod 64]" "128 + q mod 64" bs] n ok c
    by (simp add: lead_bits_def)
qed

lemma units_4:
  assumes "65536 \<le> c" "encodable c"
  shows "utf8_units (encode_cp c @ bs) = Some c # utf8_units bs"
proof -
  define q where "q = c div 64"
  define h where "h = q div 64"
  define t where "t = h div 64"
  have h: "c div 4096 = h" unfolding h_def q_def by (simp add: digits_64)
  have t: "c div 262144 = t" unfolding t_def h [symmetric] by (simp add: digits_64)
  have c: "t * 64 + h mod 64 = h" "h * 64 + q mod 64 = q" "q * 64 + c mod 64 = c"
    "h mod 64 < 64" "q mod 64 < 64" "c mod 64 < 64"
    unfolding t_def h_def q_def by simp_all
  have lt: "c < 1114112" using assms by (auto simp: encodable_def)
  have d: "t \<le> 4" using lt c by linarith
  then have n: "seq_length (240 + t) = 4" by (simp add: seq_length_def)
  have "t = 0 \<Longrightarrow> 16 \<le> h mod 64" "t = 4 \<Longrightarrow> h mod 64 \<le> 15" using assms(1) lt c by linarith+
  then have ok: "second_ok (240 + t) (128 + h mod 64)" using d by (auto simp: second_ok_def)
  have "encode_cp c = [240 + t, 128 + h mod 64, 128 + q mod 64, 128 + c mod 64]"
    using assms by (simp add: encode_cp_def h t q_def [symmetric])
  then show ?thesis
    using units_sequence [of "240 + t" "[128 + q mod 64, 128 + c mod 64]" "128 + h mod 64" bs] n ok c
    by (simp add: lead_bits_def)
qed

lemma units_encode_cp: "encodable c \<Longrightarrow> utf8_units (encode_cp c @ bs) = Some c # utf8_units bs"
  using units_2 units_3 units_4 units_ascii [of c bs]
  by (cases "c < 128"; cases "c < 2048"; cases "c < 65536") (simp_all add: encode_cp_def)

lemma units_encode: "list_all encodable s \<Longrightarrow> utf8_units (encode_utf8 s) = map Some s"
  by (induction s) (simp_all add: units_encode_cp)

lemma concat_singletons: "concat (map (\<lambda>c. [c]) s) = s"
  by (induction s) simp_all

lemma decode_encode: "list_all encodable s \<Longrightarrow> decode_strict (encode_utf8 s) = Some s"
  by (auto simp: decode_strict_def decode_ignore_def units_encode o_def concat_singletons)

lemma encode_ascii: "list_all (\<lambda>c. c < 128) s \<Longrightarrow> encode_utf8 s = s"
  by (induction s) (simp_all add: encode_cp_def)

end
