(* ===== verification/Knowledge_Routes.thy ===== *)
theory Knowledge_Routes
  imports Knowledge Mcp_Content Utf8
begin

text \<open>
  The routes of the knowledge base (\<open>api/routes/knowledge.py\<close>). The PDF reader is \<open>pdf\<close> (bytes to the text of each page) and the MCP client's
  \<open>read_resource\<close> is \<open>read\<close>.
\<close>

section \<open>Text of a document\<close>

abbreviation ends_with :: "ustr \<Rightarrow> ustr \<Rightarrow> bool" where
  "ends_with s e \<equiv> suffix e s"

definition detect_source_type :: "ustr \<Rightarrow> ustr option \<Rightarrow> ustr" where
  "detect_source_type filename content_type =
     (let name = lower filename in
      if ends_with name (lit ''.pdf'') \<or> content_type = Some (lit ''application/pdf'') then lit ''pdf''
      else if ends_with name (lit ''.md'') then lit ''markdown'' else lit ''text'')"

type_synonym pdf_reader = "nat list \<Rightarrow> ustr option list res"

definition unsupported_document :: exn where
  "unsupported_document = HttpError 415
     (lit ''Unsupported document type. Upload TXT, Markdown, or text-based PDF files.'')"

definition extract_text :: "pdf_reader \<Rightarrow> ustr \<Rightarrow> nat list \<Rightarrow> ustr option \<Rightarrow> ustr res" where
  "extract_text pdf filename raw content_type =
     (let source_type = detect_source_type filename content_type in
      if source_type = lit ''pdf''
      then (case pdf raw of
              Inl e \<Rightarrow> Inl e
            | Inr pages \<Rightarrow> Inr (join [10] (map (\<lambda>p. case p of None \<Rightarrow> [] | Some t \<Rightarrow> t) pages)))
      else if source_type = lit ''markdown'' \<or> source_type = lit ''text''
        \<or> ends_with (lower filename) (lit ''.txt'') \<or> ends_with (lower filename) (lit ''.md'')
      then Inr (decode_utf8_sig raw)
      else Inl unsupported_document)"

section \<open>Routes\<close>

definition require_owned :: "uuid option \<Rightarrow> uuid \<Rightarrow> db \<Rightarrow> unit res" where
  "require_owned conv usr d =
     (case conv of
        None \<Rightarrow> Inr ()
      | Some c \<Rightarrow> if get_owned_conversation d c usr = None then Inl conversation_not_found else Inr ())"

definition list_documents :: "uuid \<Rightarrow> uuid option \<Rightarrow> db \<Rightarrow> knowledge_document list res" where
  "list_documents usr conv d =
     (case conv of
        None \<Rightarrow> Inr []
      | Some c \<Rightarrow>
          (case require_owned (Some c) usr d of
             Inl e \<Rightarrow> Inl e
           | Inr _ \<Rightarrow> Inr (sort_key (\<lambda>k. - kd_created_at k)
               (filter (\<lambda>k. kd_user_id k = Some usr \<and> kd_conversation_id k = Some c) (db_documents d)))))"

text \<open>What the indexing of a request needs besides it: services, fresh ids, the clock, other commits.\<close>

record index_env =
  ie_model :: ustr
  ie_sha :: "ustr \<Rightarrow> ustr"
  ie_embed :: embedder
  ie_id :: uuid
  ie_fresh :: "nat \<Rightarrow> uuid"
  ie_now :: time
  ie_env :: "db \<Rightarrow> db"

definition index_request ::
  "index_env \<Rightarrow> uuid \<Rightarrow> document_request \<Rightarrow> db \<Rightarrow> db \<times> knowledge_document res" where
  "index_request v usr q d =
     index_text (ie_model v) (ie_sha v) (ie_embed v) (Some usr) (ie_id v) (ie_fresh v) (ie_now v) (ie_env v) q d"

definition create_document ::
  "index_env \<Rightarrow> uuid \<Rightarrow> document_request \<Rightarrow> db \<Rightarrow> db \<times> knowledge_document res" where
  "create_document v usr q d =
     (case require_document_text q of
        Inl _ \<Rightarrow> (d, Inl (HttpError 422 (exn_str no_document_text)))
      | Inr q \<Rightarrow>
          (case require_owned (dq_conversation_id q) usr d of
             Inl e \<Rightarrow> (d, Inl e)
           | Inr _ \<Rightarrow> index_request v usr (q\<lparr>dq_user_id := Some usr\<rparr>) d))"

definition reindex_document_route ::
  "ustr \<Rightarrow> embedder \<Rightarrow> uuid \<Rightarrow> uuid \<Rightarrow> db \<Rightarrow> db \<times> knowledge_document res" where
  "reindex_document_route model emb usr i d =
     (case reindex_document model emb (Some usr) i d of
        (_, Inl (ValueError m)) \<Rightarrow> (d, Inl (HttpError 503 m))
      | (d', Inl e) \<Rightarrow> (d', Inl e)
      | (d', Inr None) \<Rightarrow> (d', Inl (HttpError 404 (lit ''Document not found'')))
      | (d', Inr (Some doc)) \<Rightarrow> (d', Inr doc))"

record import_request =
  iq_server_name :: ustr
  iq_uri :: ustr
  iq_title :: "ustr option"
  iq_conversation_id :: "uuid option"

definition imported_title :: "py_repr \<Rightarrow> import_request \<Rightarrow> dict \<Rightarrow> ustr" where
  "imported_title fr q resource =
     (case iq_title q of
        Some (c # cs) \<Rightarrow> c # cs
      | _ \<Rightarrow> str_or fr (dget resource (lit ''name'')) (iq_uri q))"

definition import_mcp_resource ::
  "py_repr \<Rightarrow> index_env \<Rightarrow> (ustr \<Rightarrow> ustr \<Rightarrow> dict res) \<Rightarrow> uuid \<Rightarrow> import_request \<Rightarrow> db
   \<Rightarrow> db \<times> knowledge_document res" where
  "import_mcp_resource fr v read usr q d =
     (case require_owned (iq_conversation_id q) usr d of
        Inl e \<Rightarrow> (d, Inl e)
      | Inr _ \<Rightarrow>
          (case read (iq_server_name q) (iq_uri q) of
             Inl e \<Rightarrow> (d, Inl e)
           | Inr resource \<Rightarrow>
               (let content = extract_mcp_resource_text resource in
                if strip content = [] then (d, Inl (HttpError 422 (lit ''MCP resource did not contain text'')))
                else index_request v usr
                  \<lparr>dq_title = imported_title fr q resource, dq_source_type = lit ''mcp_resource'',
                   dq_source_uri = Some (iq_uri q), dq_user_id = Some usr,
                   dq_conversation_id = iq_conversation_id q, dq_content = content\<rparr> d)))"

record upload =
  up_filename :: "ustr option"
  up_content_type :: "ustr option"
  up_raw :: "nat list"

definition upload_name :: "upload \<Rightarrow> ustr" where
  "upload_name f = (case up_filename f of Some (c # cs) \<Rightarrow> c # cs | _ \<Rightarrow> lit ''uploaded-document'')"

definition upload_document ::
  "pdf_reader \<Rightarrow> index_env \<Rightarrow> uuid \<Rightarrow> upload \<Rightarrow> uuid option \<Rightarrow> db \<Rightarrow> db \<times> knowledge_document res" where
  "upload_document pdf v usr f conv d =
     (case require_owned conv usr d of
        Inl e \<Rightarrow> (d, Inl e)
      | Inr _ \<Rightarrow>
          (case extract_text pdf (upload_name f) (up_raw f) (up_content_type f) of
             Inl e \<Rightarrow> (d, Inl e)
           | Inr content \<Rightarrow>
               if strip content = []
               then (d, Inl (HttpError 422 (lit ''No text could be extracted from the document'')))
               else index_request v usr
                 \<lparr>dq_title = upload_name f,
                  dq_source_type = detect_source_type (case up_filename f of None \<Rightarrow> [] | Some n \<Rightarrow> n) (up_content_type f),
                  dq_source_uri = Some (lit ''upload:'' @ (case up_filename f of None \<Rightarrow> lit ''None'' | Some n \<Rightarrow> n)),
                  dq_user_id = Some usr, dq_conversation_id = conv, dq_content = content\<rparr> d))"

section \<open>Facts\<close>

text \<open>A source type is always recognised, so the 415 answer of \<open>extract_text\<close> is never given.\<close>

lemma extract_text_answer:
  "extract_text pdf filename raw content_type =
     (if detect_source_type filename content_type = lit ''pdf''
      then (case pdf raw of Inl e \<Rightarrow> Inl e
            | Inr pages \<Rightarrow> Inr (join [10] (map (\<lambda>p. case p of None \<Rightarrow> [] | Some t \<Rightarrow> t) pages)))
      else Inr (decode_utf8_sig raw))"
  by (simp add: extract_text_def detect_source_type_def Let_def)

lemma insert_document_cases:
  assumes "insert_document doc cs d = (d', r)"
  shows "(d' = d \<and> \<not> is_ok r)
    \<or> (r = Inr doc \<and> d' = d\<lparr>db_documents := db_documents d @ [doc], db_chunks := db_chunks d @ cs\<rparr>)"
  using assms unfolding insert_document_def by (simp add: is_ok_def split: if_splits) auto

text \<open>A request stores nothing, or one document of the user with its own chunks.\<close>

definition one_document_added :: "uuid \<Rightarrow> uuid option \<Rightarrow> db \<Rightarrow> db \<Rightarrow> knowledge_document res \<Rightarrow> bool" where
  "one_document_added usr conv d d' r \<longleftrightarrow>
     (\<exists>doc cs. kd_user_id doc = Some usr \<and> kd_conversation_id doc = conv \<and> (\<forall>k \<in> set cs. kc_document_id k = kd_id doc)
        \<and> r = Inr doc \<and> d' = d\<lparr>db_documents := db_documents d @ [doc], db_chunks := db_chunks d @ cs\<rparr>)"

lemma index_request_adds:
  assumes "index_request v usr q d = (d', r)"
  shows "((d' = d \<or> d' = ie_env v d) \<and> \<not> is_ok r) \<or> one_document_added usr (dq_conversation_id q) (ie_env v d) d' r"
proof (cases "split_spans (dq_content q) 900 120")
  case (Inl e)
  with assms show ?thesis by (auto simp: index_request_def index_text_def)
next
  case (Inr sp)
  let ?ctx = "chunk_contexts (dq_title q) (dq_content q) sp"
  show ?thesis
  proof (cases "sp = []")
    case True
    with assms Inr show ?thesis by (auto simp: index_request_def index_text_def)
  next
    case ne: False
    show ?thesis
    proof (cases "embed_or_empty (ie_embed v) (embedding_inputs ?ctx (map fst sp))")
      case (Inl e)
      with assms Inr ne show ?thesis by (auto simp: index_request_def index_text_def Let_def)
    next
      case es: (Inr es)
      obtain doc where doc: "kd_user_id doc = Some usr" "kd_conversation_id doc = dq_conversation_id q"
          "kd_id doc = ie_id v"
          "insert_document doc (chunk_rows (ie_id v) (ie_fresh v) sp ?ctx es) (ie_env v d) = (d', r)"
        using assms Inr ne es by (simp add: index_request_def index_text_def Let_def) force
      have "\<forall>k \<in> set (chunk_rows (ie_id v) (ie_fresh v) sp ?ctx es). kc_document_id k = kd_id doc"
        by (simp add: chunk_rows_def doc(3))
      with insert_document_cases [OF doc(4)] doc(1,2) show ?thesis
        unfolding one_document_added_def by blast
    qed
  qed
qed

lemma stored_document_owned:
  assumes "index_request v usr q d = (d', Inr doc)"
    and "require_owned (dq_conversation_id q) usr d = Inr u"
  shows "kd_user_id doc = Some usr \<and> (\<forall>c. kd_conversation_id doc = Some c \<longrightarrow> get_owned_conversation d c usr \<noteq> None)"
  using index_request_adds [OF assms(1)] assms(2)
  by (auto simp: one_document_added_def require_owned_def split: option.splits if_splits)

lemma create_document_stores:
  assumes "create_document v usr q d = (d', Inr doc)"
  shows "\<exists>q' u. index_request v usr q' d = (d', Inr doc) \<and> require_owned (dq_conversation_id q') usr d = Inr u"
  using assms by (auto simp: create_document_def require_document_text_def split: if_splits sum.splits)

lemma import_mcp_resource_stores:
  assumes "import_mcp_resource fr v rd usr q d = (d', Inr doc)"
  shows "\<exists>q' u. index_request v usr q' d = (d', Inr doc) \<and> require_owned (dq_conversation_id q') usr d = Inr u"
proof -
  obtain u where u: "require_owned (iq_conversation_id q) usr d = Inr u"
    using assms by (auto simp: import_mcp_resource_def split: sum.splits)
  obtain res where res: "rd (iq_server_name q) (iq_uri q) = Inr res"
    using assms u by (auto simp: import_mcp_resource_def split: sum.splits)
  show ?thesis
    using assms u res by (auto simp: import_mcp_resource_def Let_def split: if_splits intro!: exI [of _ u] exI)
qed

lemma upload_document_stores:
  assumes "upload_document pdf v usr f conv d = (d', Inr doc)"
  shows "\<exists>q' u. index_request v usr q' d = (d', Inr doc) \<and> require_owned (dq_conversation_id q') usr d = Inr u"
proof -
  obtain u where u: "require_owned conv usr d = Inr u"
    using assms by (auto simp: upload_document_def split: sum.splits)
  obtain str where t: "extract_text pdf (upload_name f) (up_raw f) (up_content_type f) = Inr str"
    using assms u by (auto simp: upload_document_def split: sum.splits)
  show ?thesis
    using assms u t by (auto simp: upload_document_def split: if_splits intro!: exI [of _ u] exI)
qed

lemma owned_document_other:
  "keys_distinct kd_id (db_documents d) \<Longrightarrow> k \<in> set (db_documents d) \<Longrightarrow> kd_user_id k \<noteq> usr \<Longrightarrow>
   owned_document (kd_id k) usr d = None"
  unfolding owned_document_def find_None_iff keys_distinct_def distinct_map by (auto dest: inj_onD)

text \<open>
  The knowledge base is isolated between users: a document of another user is in no listing and
  cannot be rebuilt (404, nothing changes), and whatever a request to create, import or upload stores
  belongs to its sender and lies in a conversation the sender owns, or in none.
\<close>

theorem knowledge_isolated_between_users:
  assumes "keys_distinct kd_id (db_documents d)" and "k \<in> set (db_documents d)" and "kd_user_id k \<noteq> Some usr"
  shows "(\<forall>conv ks. list_documents usr conv d = Inr ks \<longrightarrow> k \<notin> set ks)
    \<and> reindex_document_route model emb usr (kd_id k) d = (d, Inl (HttpError 404 (lit ''Document not found'')))
    \<and> (\<forall>d' doc. create_document v usr q d = (d', Inr doc) \<or> import_mcp_resource fr v rd usr iq d = (d', Inr doc)
          \<or> upload_document pdf v usr f conv d = (d', Inr doc) \<longrightarrow>
        kd_user_id doc = Some usr
        \<and> (\<forall>c. kd_conversation_id doc = Some c \<longrightarrow> get_owned_conversation d c usr \<noteq> None))"
proof (intro conjI allI impI)
  fix conv ks assume "list_documents usr conv d = Inr ks"
  then show "k \<notin> set ks" using assms(3) by (auto simp: list_documents_def split: option.splits sum.splits)
next
  show "reindex_document_route model emb usr (kd_id k) d = (d, Inl (HttpError 404 (lit ''Document not found'')))"
    by (simp add: reindex_document_route_def reindex_document_def owned_document_other [OF assms])
next
  fix d' doc
  assume "create_document v usr q d = (d', Inr doc) \<or> import_mcp_resource fr v rd usr iq d = (d', Inr doc)
          \<or> upload_document pdf v usr f conv d = (d', Inr doc)"
  then obtain q' u where s: "index_request v usr q' d = (d', Inr doc)" "require_owned (dq_conversation_id q') usr d = Inr u"
    using create_document_stores import_mcp_resource_stores upload_document_stores by metis
  show "kd_user_id doc = Some usr" using stored_document_owned [OF s] by (rule conjunct1)
  fix c assume "kd_conversation_id doc = Some c"
  then show "get_owned_conversation d c usr \<noteq> None" using stored_document_owned [OF s] by blast
qed

theorem knowledge_isolated_between_users_witness:
  "reindex_document_route [] (\<lambda>_. Inr []) (UUID 8) (UUID 40) demo_knowledge_db =
     (demo_knowledge_db, Inl (HttpError 404 (lit ''Document not found'')))"
proof -
  let ?k = "hd (db_documents demo_knowledge_db)"
  have "keys_distinct kd_id (db_documents demo_knowledge_db)" "?k \<in> set (db_documents demo_knowledge_db)"
    "kd_user_id ?k \<noteq> Some (UUID 8)" "kd_id ?k = UUID 40"
    by (simp_all add: keys_distinct_def demo_knowledge_db_def)
  then show ?thesis using knowledge_isolated_between_users [of demo_knowledge_db ?k "UUID 8"] by metis
qed

end
