(* ===== verification/Stream_Spec.thy ===== *)
theory Stream_Spec
  imports Model_Gateway
begin

text \<open>
  Reference definition of the event stream of a model (\<open>_sse_data\<close> of \<open>services/model_gateway.py\<close>): the
  lines are cut into blocks at blank lines, a block is its data values, and what is not followed by a
  blank line is not an event. The code reads the same lines one at a time, with the values and the size
  of the current block as its only state.
\<close>

fun blocks :: "ustr list \<Rightarrow> ustr list list" where
  "blocks [] = [[]]"
| "blocks (l # ls) = (if l = [] then [] # blocks ls else (l # hd (blocks ls)) # tl (blocks ls))"

definition block_size :: "ustr list \<Rightarrow> nat" where
  "block_size vs = sum_list (map (\<lambda>v. length v + 1) vs)"

definition block_values :: "ustr list \<Rightarrow> ustr list" where
  "block_values ls = List.map_filter data_value ls"

definition data_events :: "ustr list list \<Rightarrow> ustr list" where
  "data_events vss = map (join [10]) (filter (\<lambda>vs. vs \<noteq> []) vss)"

text \<open>The events up to the first block that is too large, or of all blocks but the unfinished last one.\<close>

definition events_of_blocks :: "ustr list list \<Rightarrow> ustr list \<times> exn option" where
  "events_of_blocks vss =
     (let good = takeWhile (\<lambda>vs. block_size vs \<le> max_sse_event_chars) vss in
      if good = vss then (data_events (butlast vss), None)
      else (data_events good, Some (ModelResponseError (lit ''Model stream event exceeds the size limit''))))"

definition sse_events :: "ustr list \<Rightarrow> ustr list \<times> exn option" where
  "sse_events ls = events_of_blocks (map block_values (blocks ls))"

section \<open>Facts\<close>

lemma blocks_Cons_hd: "blocks ls = hd (blocks ls) # tl (blocks ls)"
  by (induction ls) auto

lemma blocks_not_Nil [simp]: "blocks ls \<noteq> []"
  by (induction ls) auto

lemma block_size_simps [simp]:
  "block_size [] = 0" "block_size (v # vs) = Suc (length v) + block_size vs"
  "block_size (vs @ ws) = block_size vs + block_size ws"
  by (simp_all add: block_size_def)

lemma block_values_simps [simp]:
  "block_values [] = []"
  "block_values (l # ls) = (case data_value l of None \<Rightarrow> block_values ls | Some v \<Rightarrow> v # block_values ls)"
  by (simp_all add: block_values_def map_filter_simps split: option.split)

lemma events_of_blocks_step:
  assumes "block_size vs \<le> max_sse_event_chars" and "vss \<noteq> []"
  shows "events_of_blocks (vs # vss) =
    (case events_of_blocks vss of (es, e) \<Rightarrow> (if vs = [] then es else join [10] vs # es, e))"
  using assms by (auto simp: events_of_blocks_def data_events_def Let_def)

lemma events_of_blocks_large:
  "max_sse_event_chars < block_size vs \<Longrightarrow> events_of_blocks (vs # vss) =
    ([], Some (ModelResponseError (lit ''Model stream event exceeds the size limit'')))"
  by (simp add: events_of_blocks_def data_events_def Let_def)

text \<open>The state of the reader is the beginning of the first block.\<close>

lemma sse_data_blocks:
  "block_size parts \<le> max_sse_event_chars \<Longrightarrow>
   sse_data parts (block_size parts) ls =
     events_of_blocks ((parts @ block_values (hd (blocks ls))) # map block_values (tl (blocks ls)))"
proof (induction ls arbitrary: parts)
  case Nil
  then show ?case by (simp add: events_of_blocks_def data_events_def Let_def)
next
  case (Cons l ls)
  show ?case
  proof (cases "l = []")
    case True
    have "sse_data [] 0 ls = events_of_blocks (map block_values (blocks ls))"
      using Cons(1) [of "[]"] blocks_Cons_hd [of ls] by (metis append_Nil block_size_simps(1) list.simps(9) zero_le)
    moreover have "parts = [] \<Longrightarrow> sse_data [] (block_size []) ls = sse_data [] 0 ls" by simp
    ultimately show ?thesis
      using True events_of_blocks_step [OF Cons(2), of "map block_values (blocks ls)"]
      by (cases "parts = []") (simp_all add: case_prod_unfold)
  next
    case False
    show ?thesis
    proof (cases "data_value l")
      case None
      with False Cons(1) [OF Cons(2)] show ?thesis by simp
    next
      case (Some v)
      show ?thesis
      proof (cases "max_sse_event_chars < block_size parts + length v + 1")
        case True
        then have "max_sse_event_chars < block_size (parts @ v # block_values (hd (blocks ls)))" by simp
        from events_of_blocks_large [OF this] True False Some show ?thesis by simp
      next
        case small: False
        then have "block_size (parts @ [v]) \<le> max_sse_event_chars" by simp
        from Cons(1) [OF this] small False Some show ?thesis by simp
      qed
    qed
  qed
qed

text \<open>
  C25. Reading a model's event stream line by line gives exactly the events of the reference definition, for
  every sequence of lines: the same texts in the same order, the same silence about an unfinished last
  block, and the size error at the same place.
\<close>

theorem sse_data_is_reference: "sse_data [] 0 ls = sse_events ls"
  using sse_data_blocks [of "[]" ls] blocks_Cons_hd [of ls]
  by (metis append_Nil block_size_simps(1) list.simps(9) sse_events_def zero_le)

end
