(* ===== verification/Response_Policy.thy ===== *)
theory Response_Policy
  imports Protocol Agent_State Tool_Schema
begin

text \<open>
  The user-visible answers that the agent gives without the model (\<open>agent/response_policy.py\<close>): the
  cleaning of model text, the inventory of tools, the report of a failed tool call and the degraded
  summary of a web search. The methods are those of an \<open>AgentRuntime\<close> object: where the subclass
  overrides one (\<open>_tool_output_text\<close>), the override runs. What the code takes from the interpreter is
  the record \<open>text_lib\<close>: the Unicode digits of \<open>\d\<close>,
    \<open>repr\<close> of containers and floats, \<open>json.loads\<close>, the Unicode word table,
  \<open>urlparse\<close> (scheme, netloc, path) and \<open>unquote\<close>.
\<close>

record text_lib =
  lx_repr :: py_repr
  lx_loads :: json_reader
  lx_uni :: "nat \<Rightarrow> bool"
  lx_urlparse :: "ustr \<Rightarrow> (ustr \<times> ustr \<times> ustr) res"
  lx_unquote :: "ustr \<Rightarrow> ustr"
  lx_digit :: "nat \<Rightarrow> bool"

definition web_search_tool_name :: ustr where "web_search_tool_name = lit ''web_search''"
definition mcp_fetch_tool_name :: ustr where "mcp_fetch_tool_name = lit ''mcp.fetch.fetch''"

definition message_has_cjk :: "ustr \<Rightarrow> bool" where
  "message_has_cjk message \<longleftrightarrow> list_ex (\<lambda>c. 19968 \<le> c \<and> c \<le> 40959) message"

definition limit_fallback_text :: "ustr \<Rightarrow> ustr" where
  "limit_fallback_text txt = (if length txt \<le> 4000 then txt else take 4000 txt @ [8230])"

section \<open>Text of a tool output\<close>

text \<open>\<open>AgentRuntime._tool_output_text\<close>, which takes the response.\<close>

definition tool_output_text :: "text_lib \<Rightarrow> tool_response \<Rightarrow> ustr" where
  "tool_output_text lib r = (case tr_output r of
     JObj d \<Rightarrow> (case dget d (lit ''content'') of JStr s \<Rightarrow> s | _ \<Rightarrow> dumps (lx_repr lib) (JObj d))
   | JStr s \<Rightarrow> s
   | JNull \<Rightarrow> (case tr_output_summary r of None \<Rightarrow> [] | Some s \<Rightarrow> s)
   | j \<Rightarrow> dumps (lx_repr lib) j)"

fun py_type_name :: "json \<Rightarrow> ustr" where
  "py_type_name JNull = lit ''NoneType''"
| "py_type_name (JBool b) = lit ''bool''"
| "py_type_name (JInt i) = lit ''int''"
| "py_type_name (JFloat x) = lit ''float''"
| "py_type_name (JStr s) = lit ''str''"
| "py_type_name (JList xs) = lit ''list''"
| "py_type_name (JObj d) = lit ''dict''"

text \<open>
  The same method when the policy passes it an output value: a value has no attribute \<open>output\<close>, so the
  first access raises.
\<close>

definition output_value_text :: "json \<Rightarrow> ustr res" where
  "output_value_text value = Inl (OtherError
     ([39] @ py_type_name value @ ([39] @ lit '' object has no attribute '' @ [39] @ lit ''output'' @ [39])))"

section \<open>Answers after cleaning\<close>

definition first_line_rx :: rx where
  "first_line_rx = rx_seq [Bound, rx_ilit (lit ''first''), rx_plus rx_space, rx_ilit (lit ''line''), Bound]"

definition asks_first_line :: "text_lib \<Rightarrow> ustr \<Rightarrow> bool" where
  "asks_first_line lib message \<longleftrightarrow> substr [31532, 19968,
    34892] message \<or> rx_search (lx_uni lib) first_line_rx message"

definition first_text_line :: "ustr \<Rightarrow> ustr" where
  "first_text_line txt = (case filter (\<lambda>l. l \<noteq> []) (map strip (splitlines txt)) of [] \<Rightarrow> txt | l # _ \<Rightarrow> l)"

definition read_file_answer :: "text_lib \<Rightarrow> ustr \<Rightarrow> ustr \<Rightarrow> ustr \<Rightarrow> ustr" where
  "read_file_answer lib message path txt =
     (if asks_first_line lib message
      then (if message_has_cjk message then ([25991, 20214] @ lit '' `'') @ path @ (lit ''` '' @ [30340, 31532,
        19968, 34892, 26159, 65306]) @ first_text_line txt
            else (lit ''The first line of `'') @ path @ (lit ''` is: '') @ first_text_line txt)
      else if message_has_cjk message
      then ([24050, 25104, 21151, 35835, 21462, 25991, 20214] @ lit '' `'') @ path @ (lit ''`'' @ [12290, 21487,
        29992, 20869, 23481, 22914, 19979, 65306, 10, 10]) @ limit_fallback_text txt
      else (lit ''The file `'') @ path @ (lit ''` was read successfully. Available content:'' @ [10, 10])
        @ limit_fallback_text txt)"

definition tool_done_answer :: "ustr \<Rightarrow> ustr \<Rightarrow> ustr \<Rightarrow> ustr" where
  "tool_done_answer message name txt =
     (if message_has_cjk message
      then ([24037, 20855] @ lit '' `'') @ name @ (lit ''` '' @ [24050, 25104, 21151, 25191, 34892, 12290, 21487,
        29992, 32467, 26524, 22914, 19979, 65306, 10, 10]) @ limit_fallback_text txt
      else (lit ''Tool `'') @ name @ (lit ''` completed successfully. Available result:'' @ [10, 10])
        @ limit_fallback_text txt)"

text \<open>The loop over \<open>reversed(state.tool_calls)\<close>.\<close>

fun successful_fallback_from :: "text_lib \<Rightarrow> ustr \<Rightarrow> tool_call_entry list \<Rightarrow> ustr option res" where
  "successful_fallback_from lib message [] = Inr None"
| "successful_fallback_from lib message (call # calls) =
     (let r = tc_result call; name = (if tc_tool_name call = [] then lit ''tool'' else tc_tool_name call) in
      if tr_status r \<noteq> lit ''success'' then successful_fallback_from lib message calls
      else if name = lit ''read_file'' \<and> is_obj (tr_output r)
      then (let d = obj_items (tr_output r); txt = strip (str_or (lx_repr lib) (dget d (lit ''content'')) []);
                path = str_or (lx_repr lib) (dget d (lit ''path''))
                  (str_or (lx_repr lib) (dget (tc_arguments call) (lit ''path'')) (lit ''file'')) in
            if txt = [] then successful_fallback_from lib message calls
            else Inr (Some (read_file_answer lib message path txt)))
      else (case output_value_text (tr_output r) of
              Inl e \<Rightarrow> Inl e
            | Inr txt \<Rightarrow> if txt = [] then successful_fallback_from lib message calls
                         else Inr (Some (tool_done_answer message name txt))))"

definition successful_tool_fallback_answer :: "text_lib \<Rightarrow> agent_state \<Rightarrow> ustr option res" where
  "successful_tool_fallback_answer lib st = successful_fallback_from lib (as_message st) (rev (as_tool_calls st))"

definition blocked_markup_answer :: "ustr \<Rightarrow> ustr" where
  "blocked_markup_answer message =
     (let asks = substr (lit ''agentdemo'') (lower message) \<or> substr [39033, 30446] message
          \<or> substr [33021, 20570, 20160, 20040] message in
      if message_has_cjk message \<and> asks
      then (lit ''AgentDemo '' @ [21487, 20197, 36890, 36807, 32842, 22825, 30028, 38754, 23436, 25104, 38382,
        31572, 12289, 35745, 21010, 25191, 34892, 21644, 30693, 35782, 24211, 26816, 32034, 65292, 24182, 25226,
          36816, 34892, 29366, 24577, 23454, 26102, 27969, 24335, 23637, 31034, 20986, 26469, 12290, 23427, 25903,
            25345, 36890, 36807, 23433, 20840, 30340, 24037, 20855, 25191, 34892, 38142, 36335, 35843, 29992, 26412,
              22320, 24037, 20855, 12289] @ lit ''MCP '' @ [24037, 20855, 12289, 32593, 39029, 25235, 21462, 21644,
                32852, 32593, 25628, 32034, 12290, 21069, 31471, 36824, 20250, 23637, 31034, 35745, 21010, 12289,
                  24037, 20855, 21382, 21490, 21644, 26368, 32456, 22238, 31572, 65292, 26041, 20415, 29992, 25143,
                    30830, 35748, 31995, 32479, 27599, 19968, 27493, 20570, 20102, 20160, 20040, 12290])
      else if message_has_cjk message
      then [25105, 25318, 25130, 20102, 27169, 22411, 29983, 25104, 30340, 20869, 37096, 24037, 20855, 35843, 29992,
        26631, 35760, 65307, 35831, 25442, 19968, 31181, 26041, 24335, 37325, 35797, 36825, 20010, 35831, 27714,
          12290]
      else (lit ''I blocked internal tool-call markup from the model response. Please retry the request.''))"

definition fallback_answer_after_protocol_strip :: "text_lib \<Rightarrow> agent_state \<Rightarrow> ustr res" where
  "fallback_answer_after_protocol_strip lib st =
     (case successful_tool_fallback_answer lib st of
        Inl e \<Rightarrow> Inl e
      | Inr (Some a) \<Rightarrow> Inr a
      | Inr None \<Rightarrow> Inr (blocked_markup_answer (as_message st)))"

definition sanitize_model_answer :: "text_lib \<Rightarrow> ustr \<Rightarrow> agent_state \<Rightarrow> ustr res" where
  "sanitize_model_answer lib answer st =
     (if \<not> contains_raw_tool_protocol answer then Inr answer
      else
        (let cleaned = clean_protocol (lx_uni lib) answer in
         if cleaned \<noteq> [] then Inr (cleaned @ (if suffix [10] answer then [10] else []))
         else fallback_answer_after_protocol_strip lib st))"

section \<open>Inventory of tools\<close>

abbreviation rx_word :: "string \<Rightarrow> rx" where
  "rx_word s \<equiv> rx_lit (lit s)"

abbreviation rx_words :: "string list \<Rightarrow> rx" where
  "rx_words ss \<equiv> rx_any (map (\<lambda>s. rx_lit (lit s)) ss)"

definition rx_texts :: "ustr list \<Rightarrow> rx" where
  "rx_texts ss = rx_any (map rx_lit ss)"

abbreviation rx_gap :: "nat \<Rightarrow> rx" where
  "rx_gap n \<equiv> Upto n (Cls (\<lambda>c. c \<noteq> 10))"

abbreviation rx_sp :: rx where
  "rx_sp \<equiv> rx_plus rx_space"

definition rx_tools :: rx where
  "rx_tools = rx_seq [rx_word ''tool'', rx_opt (rx_word ''s''), Bound]"

definition rx_tool_id :: "(nat \<Rightarrow> bool) \<Rightarrow> rx" where
  "rx_tool_id uni = rx_plus (Cls (\<lambda>c. re_word uni c \<or> c = 46 \<or> c = 58 \<or> c = 45))"

definition english_inventory_patterns :: "(nat \<Rightarrow> bool) \<Rightarrow> rx list" where
  "english_inventory_patterns uni = [
     rx_seq [Bound, rx_words [''what'', ''which''], rx_sp, rx_opt (Cat (rx_word ''runtime'') rx_sp), rx_tools],
     rx_seq [Bound, rx_words [''list'', ''show'', ''check''], rx_sp, rx_opt (Cat (rx_word ''the'') rx_sp),
       rx_opt (Cat (rx_words [''available'', ''installed'', ''loaded'', ''runtime'']) rx_sp), rx_tools],
     rx_seq [Bound, rx_words [''available'', ''installed'', ''loaded''], rx_sp,
       rx_opt (Cat (rx_word ''runtime'') rx_sp), rx_tools],
     rx_seq [Bound, rx_words [''do'', ''does''], rx_sp,
       rx_any [rx_word ''you'', rx_word ''agentdemo'', rx_seq [rx_word ''the'', rx_sp, rx_word ''runtime''],
         rx_seq [rx_word ''this'', rx_sp, rx_word ''agent'']],
       rx_gap 40, Bound, rx_words [''have'', ''support''], Bound, rx_gap 40, Bound, rx_tools],
     rx_seq [Bound, rx_word ''do'', rx_sp, rx_word ''you'', rx_sp, rx_words [''have'', ''support''], rx_sp,
       rx_tool_id uni, Bound],
     rx_seq [Bound, rx_words [''is'', ''are''], rx_sp, rx_tool_id uni, rx_sp, rx_opt (Cat (rx_word ''tool'') rx_sp),
       rx_words [''available'', ''installed'', ''loaded''], Bound]]"

definition tool_zh :: ustr where
  "tool_zh = [24037, 20855]"

definition chinese_inventory_patterns :: "rx list" where
  "chinese_inventory_patterns = [
     rx_seq [rx_texts [[26377, 21738, 20123], [26377, 20160, 20040], [21738, 20123], [21015, 20986], [21015, 19968,
       19979], [23637, 31034], [26174, 31034], [26597, 30475], [26816, 26597]],
       rx_gap 30, rx_lit tool_zh],
     rx_seq [rx_lit tool_zh, rx_gap 12,
       rx_texts [[26377, 21738, 20123], [26377, 20160, 20040], [21738, 20123], [21015, 34920], [28165, 21333],
         [26159, 21542, 21487, 29992], [33021, 21542, 20351, 29992]]],
     rx_seq [rx_texts [[26377, 27809, 26377], [26377, 26080], [26159, 21542, 26377], [26159, 21542, 25903, 25345],
       [25903, 25345, 21738, 20123]], rx_gap 30, rx_lit tool_zh],
     rx_seq [rx_texts [[20320], [31995, 32479], [39033, 30446], (lit ''agentdemo'')], rx_gap 12, rx_texts [[26377],
       [25903, 25345]],
       rx_gap 30, rx_lit tool_zh, rx_opt (rx_texts [[21527], [20040], [65311], (lit ''?'')])]]"

definition requests_tool_inventory :: "text_lib \<Rightarrow> ustr \<Rightarrow> bool" where
  "requests_tool_inventory lib lowered \<longleftrightarrow>
     list_ex (\<lambda>r. rx_search (lx_uni lib) r lowered) (english_inventory_patterns (lx_uni lib))
     \<or> (substr tool_zh lowered \<and> list_ex (\<lambda>r. rx_search (lx_uni lib) r lowered) chinese_inventory_patterns)"

definition opt_text :: "ustr option \<Rightarrow> ustr" where
  "opt_text x = (case x of None \<Rightarrow> [] | Some s \<Rightarrow> s)"

definition tool_matches_message :: "registered_tool \<Rightarrow> ustr \<Rightarrow> bool" where
  "tool_matches_message tool lowered \<longleftrightarrow>
     list_ex (\<lambda>i. i \<noteq> [] \<and> substr i lowered)
       ([lower (tool_name tool), lower (opt_text (rt_provider_tool_id tool)), lower (opt_text (rt_server_name tool))]
        @ (if opt_text (rt_server_name tool) \<noteq> []
           then [lower (opt_text (rt_server_name tool)) @ lit '' mcp'', lit ''mcp ''
             @ lower (opt_text (rt_server_name tool))]
           else []))"

definition available_tools :: "registry option \<Rightarrow> registered_tool list" where
  "available_tools reg = (case reg of
     None \<Rightarrow> [] | Some r \<Rightarrow> filter (\<lambda>t. pm_enabled (rt_manifest t)) (list_tools r))"

definition tool_loaded_answer :: "registered_tool \<Rightarrow> ustr" where
  "tool_loaded_answer tool =
     ([26377, 65292, 25105, 24050, 32463, 21152, 36733, 20102] @ lit '' `'') @ tool_name tool @ (lit ''` ''
       @ [24037, 20855, 12290, 29992, 36884, 65306]) @ pm_description (rt_manifest tool)
     @ (if tool_name tool = web_search_tool_name
        then ([12290, 23427, 21487, 20197, 34987, 33258, 21160, 35302, 21457, 25110, 30452, 25509, 35843, 29992,
          65292, 20294, 30495, 23454, 32852, 32593, 25628, 32034, 36824, 38656, 35201, 22312, 21518, 31471]
            @ lit '' `.env` '' @ [37324, 37197, 32622] @ lit '' `WEB_SEARCH_PROVIDER` '' @ [21644, 23545, 24212]
              @ lit '' API key'' @ [12290])
        else [])"

definition tool_availability_answer :: "text_lib \<Rightarrow> registry option \<Rightarrow> ustr \<Rightarrow> ustr option" where
  "tool_availability_answer lib reg message =
     (let lowered = lower message; tools = available_tools reg; asks = requests_tool_inventory lib lowered in
      if tools = [] then (if asks then Some [24403, 21069, 27809, 26377, 24050, 21152, 36733, 30340, 36816, 34892,
        26102, 24037, 20855, 12290] else None)
      else
        (case filter (\<lambda>t. tool_matches_message t lowered) tools of
           tool # _ \<Rightarrow> if asks then Some (tool_loaded_answer tool) else None
         | [] \<Rightarrow>
             if asks
             then Some ([24403, 21069, 24050, 21152, 36733, 30340, 24037, 20855, 26377, 65306]
               @ join (lit '', '') (map (\<lambda>t. (lit ''`'') @ tool_name t @ (lit ''`'')) tools) @ [12290])
             else None))"

section \<open>Failed and degraded tool calls\<close>

definition search_result_items :: "text_lib \<Rightarrow> json \<Rightarrow> json list" where
  "search_result_items lib out =
     (case (case out of JStr s \<Rightarrow> lx_loads lib s | j \<Rightarrow> Some j) of
        Some (JObj d) \<Rightarrow> (case dget d (lit ''results'') of JList xs \<Rightarrow> xs | _ \<Rightarrow> [])
      | _ \<Rightarrow> [])"

definition latest_successful_web_search_call :: "agent_state \<Rightarrow> tool_call_entry option" where
  "latest_successful_web_search_call st =
     find (\<lambda>c. tc_tool_name c = web_search_tool_name \<and> tr_status (tc_result c) = lit ''success'') (rev (as_tool_calls st))"

definition result_line :: "text_lib \<Rightarrow> bool \<Rightarrow> nat \<Rightarrow> dict \<Rightarrow> ustr" where
  "result_line lib zh index d =
     (let field = (\<lambda>k dflt. strip (str_or (lx_repr lib) (dget d k) dflt));
          title = field (lit ''title'') (lit ''Untitled''); snippet = field (lit ''snippet'') []; url = field (lit ''url'') [] in
      show_nat index @ lit ''. '' @ title
      @ (if snippet \<noteq> [] then (if zh then ([10] @ lit ''   '' @ [25688, 35201, 65306]) else ([10]
        @ lit ''   Summary: '')) @ snippet else [])
      @ (if url \<noteq> [] then (if zh then ([10] @ lit ''   '' @ [26469, 28304, 65306]) else ([10]
        @ lit ''   Source: '')) @ url else []))"

definition result_lines :: "text_lib \<Rightarrow> bool \<Rightarrow> json list \<Rightarrow> ustr list" where
  "result_lines lib zh results =
     concat (map (\<lambda>(i, item). case item of JObj d \<Rightarrow> [result_line lib zh (Suc i) d] | _ \<Rightarrow> [])
       (zip [0..<length results] results))"

definition search_summary :: "bool \<Rightarrow> ustr \<Rightarrow> ustr list \<Rightarrow> ustr" where
  "search_summary zh provider ls =
     (if zh
      then ([25105, 24050, 32463, 23436, 25104] @ lit '' '') @ provider @ (lit '' '' @ [25628, 32034, 65292, 20294,
        25628, 32034, 32467, 26524, 32593, 39029, 27491, 25991, 20840, 37096, 25235, 21462, 22833, 36133, 65292,
          25152, 20197, 20808, 22522, 20110, 25628, 32034, 32467, 26524, 26631, 39064, 12289, 25688, 35201, 21644,
            26469, 28304, 38142, 25509, 32473, 20320, 19968, 20010, 38477, 32423, 29256, 24635, 32467, 65306, 10, 10])
        @ join [10, 10] ls
        @ [10, 10, 27880, 24847, 65306, 20197, 19978, 19981, 26159, 32593, 39029, 27491, 25991, 28145, 24230, 20998,
          26512, 65307, 35831, 31245, 21518, 37325, 35797, 32593, 39029, 25235, 21462, 25110, 26356, 25442, 21487,
            35775, 38382, 26469, 28304, 12290]
      else (lit ''The '') @ provider @ (lit '' search succeeded, but every search-result page fetch failed. Here is a fallback summary from the search titles, snippets, and source URLs:'' @ [10, 10])
        @ join [10, 10] ls
        @ ([10, 10] @ lit ''Note: this is not a full page-body analysis; retry fetching later or use accessible sources.''))"

definition enrichment_calls :: "agent_state \<Rightarrow> tool_call_entry list" where
  "enrichment_calls st =
     filter (\<lambda>c. tc_tool_name c = mcp_fetch_tool_name \<and> tc_search_enrichment c) (as_tool_calls st)"

definition search_results_fallback_answer :: "text_lib \<Rightarrow> agent_state \<Rightarrow> ustr option" where
  "search_results_fallback_answer lib st =
     (case latest_successful_web_search_call st of
        None \<Rightarrow> None
      | Some call \<Rightarrow>
          (let out = tr_output (tc_result call); results = take 5 (search_result_items lib out);
               zh = message_has_cjk (as_message st);
               provider = (case out of
                 JObj d \<Rightarrow> str_or (lx_repr lib) (dget d (lit ''provider'')) (lit ''web_search'')
               | _ \<Rightarrow> lit ''web_search'');
               ls = result_lines lib zh results in
           if enrichment_calls st = []
             \<or> list_ex (\<lambda>c. tr_status (tc_result c) = lit ''success'') (enrichment_calls st)
             \<or> results = [] \<or> ls = []
           then None else Some (search_summary zh provider ls)))"

definition failed_search_answer :: "bool \<Rightarrow> ustr \<Rightarrow> ustr" where
  "failed_search_answer zh error =
     (if zh
      then [25105, 27809, 33021, 23436, 25104, 36825, 27425, 32852, 32593, 25628, 32034, 65306] @ error
        @ ([10, 10, 22240, 20026, 27809, 26377, 25104, 21151, 33719, 21462, 25628, 32034, 32467, 26524, 65292,
          25105, 19981, 20250, 32534, 36896, 20170, 22825, 30340, 26032, 38395, 25688, 35201, 12290, 35831, 22312,
            21518, 31471, 37197, 32622] @ lit '' `WEB_SEARCH_PROVIDER` '' @ [21644, 23545, 24212]
              @ lit '' `WEB_SEARCH_API_KEY` '' @ [21518, 37325, 35797, 12290])
      else (lit ''I could not complete the web search: '') @ error
        @ ([10, 10] @ lit ''Because no search results were retrieved, I will not invent a news summary. Configure `WEB_SEARCH_PROVIDER` and the matching `WEB_SEARCH_API_KEY` on the backend, then try again.''))"

definition failed_mcp_answer :: "bool \<Rightarrow> ustr" where
  "failed_mcp_answer zh =
     (if zh
      then [36825, 27425, 24037, 20855, 35843, 29992, 22833, 36133, 65292, 26410, 21462, 24471, 21487, 29992, 32467,
        26524, 65292, 22240, 27492, 26242, 26102, 26080, 27861, 23436, 25104, 25152, 35831, 27714, 30340, 35835,
          21462, 25110, 24635, 32467, 12290, 35831, 26597, 30475, 24037, 20855, 21382, 21490, 20013, 30340, 38169,
            35823, 20449, 24687, 65292, 20462, 22797, 26381, 21153, 25110, 26356, 25442, 26469, 28304, 21518, 37325,
              35797, 12290]
      else (lit ''The tool call failed and returned no usable result, so I cannot complete the requested retrieval or summary. Check the error in tool history, then retry after fixing the service or choosing another source.''))"

definition tool_failure_answer :: "text_lib \<Rightarrow> agent_state \<Rightarrow> ustr option" where
  "tool_failure_answer lib st =
     (case rev (as_tool_calls st) of
        [] \<Rightarrow> None
      | latest # _ \<Rightarrow>
          (case search_results_fallback_answer lib st of
             Some a \<Rightarrow> Some a
           | None \<Rightarrow>
               (let r = tc_result latest; zh = message_has_cjk (as_message st) in
                if tr_status r = lit ''success'' then None
                else if tc_provider latest = mcp_server \<and> \<not> tc_search_enrichment latest then Some (failed_mcp_answer zh)
                else if tc_tool_name latest \<noteq> web_search_tool_name then None
                else Some (failed_search_answer zh
                  (if opt_text (tr_error r) \<noteq> [] then opt_text (tr_error r)
                   else if tr_status r \<noteq> [] then tr_status r else lit ''unknown error'')))))"

section \<open>Facts\<close>

text \<open>Every marker has a less-than or an equals sign, which lower-casing neither makes nor removes.\<close>

lemma lower_cp_ascii: "c' \<in> set (lower_cp c) \<Longrightarrow> c' = 60 \<or> c' = 61 \<Longrightarrow> c' = c"
  by (auto simp: lower_cp_def split: if_splits)

lemma no_signs_no_markup:
  assumes "60 \<notin> set txt" and "61 \<notin> set txt"
  shows "\<not> contains_raw_tool_protocol txt"
proof
  assume "contains_raw_tool_protocol txt"
  then obtain m where m: "m \<in> set raw_tool_protocol_markers" "sublist m (lower txt)" unfolding contains_iff by blast
  have "60 \<in> set m \<or> 61 \<in> set m"
    using m(1) by (auto simp: raw_tool_protocol_markers_def lit_def of_char_Char)
  then have "60 \<in> set (lower txt) \<or> 61 \<in> set (lower txt)"
    using set_mono_sublist [OF m(2)] by blast
  then show False using assms lower_cp_ascii by (fastforce simp: lower_def)
qed

lemma blocked_answer_clean: "\<not> contains_raw_tool_protocol (blocked_markup_answer message)"
  by (rule no_signs_no_markup) (simp_all add: blocked_markup_answer_def lit_def of_char_Char Let_def)

text \<open>The calls from which the degraded answer of a cleaned model text can be taken.\<close>

definition read_success :: "tool_call_entry \<Rightarrow> bool" where
  "read_success c \<longleftrightarrow> tc_tool_name c = lit ''read_file'' \<and> tr_status (tc_result c) = lit ''success''"

lemma successful_fallback_from_Some:
  "successful_fallback_from lib message calls = Inr (Some a) \<Longrightarrow>
   \<exists>c \<in> set calls. read_success c \<and> (\<exists>path txt. a = read_file_answer lib message path txt)"
proof (induction lib message calls rule: successful_fallback_from.induct)
  case (2 lib message call calls)
  then show ?case
    by (auto simp: Let_def read_success_def output_value_text_def split: if_splits)
qed simp


text \<open>
  C40. When the model answers with nothing but markup after a successful call of any tool but
  \<open>read_file\<close>, the run fails: the fallback hands the output value to the overridden method, which
  expects a response, so the promised answer from the tool result is never given.
\<close>

theorem markup_after_successful_tool_fails:
  assumes "contains_raw_tool_protocol answer" and "clean_protocol (lx_uni lib) answer = []"
    and "as_tool_calls st = calls @ [call]" and "tr_status (tc_result call) = lit ''success''"
    and "tc_tool_name call \<noteq> lit ''read_file''"
  shows "\<exists>message. sanitize_model_answer lib answer st = Inl (OtherError message)"
  using assms by (simp add: sanitize_model_answer_def fallback_answer_after_protocol_strip_def
      successful_tool_fallback_answer_def output_value_text_def Let_def)

section \<open>Witnesses\<close>

definition demo_tool_call :: "ustr \<Rightarrow> json \<Rightarrow> tool_call_entry" where
  "demo_tool_call name out = \<lparr>tc_tool_name = name, tc_provider = local_plugin, tc_provider_tool_id = None,
     tc_server_name = None, tc_arguments = [], tc_reason = [], tc_requires_confirmation = False,
     tc_search_enrichment = False, tc_search_target = None,
     tc_result = \<lparr>tr_tool_name = name, tr_provider = local_plugin, tr_provider_tool_id = None,
       tr_server_name = None, tr_status = lit ''success'', tr_output = out, tr_output_summary = None,
       tr_error = None, tr_trace_id = []\<rparr>,
     tc_approval_id = None, tc_approval_status = None, tc_approval_expires_at = None,
       tc_approval_error = None\<rparr>"

definition demo_agent_state :: "tool_call_entry list \<Rightarrow> agent_state" where
  "demo_agent_state calls = \<lparr>as_user_id = Some (UUID 7), as_task_id = None,
    as_conversation_id = Some (UUID 10),
     as_message = lit ''read it'', as_history = [], as_memory_summaries = [], as_citations = [],
     as_mcp_resources = [], as_mcp_prompts = [], as_plan = default_plan, as_tool_calls = calls,
     as_observations = [], as_search_fetch_targets = [], as_confirmed_search_target = None,
     as_final_answer = [], as_context_budget = [], as_approval_id = None, as_trace_id = lit ''t''\<rparr>"

definition demo_text_lib :: text_lib where
  "demo_text_lib = \<lparr>lx_repr = (\<lambda>_. []), lx_loads = (\<lambda>_. None), lx_uni = (\<lambda>_. False),
     lx_urlparse = (\<lambda>_. Inl (ValueError [])), lx_unquote = (\<lambda>s. s),
       lx_digit = (\<lambda>_. False)\<rparr>"

lemma demo_markup: "contains_raw_tool_protocol (lit ''<invoke'')"
  by (simp add: contains_iff raw_tool_protocol_markers_def lower_def lower_cp_def lit_def of_char_Char)

lemma demo_cleaned: "clean_protocol (\<lambda>_. False) (lit ''<invoke'') = []"
proof -
  have r: "rx_remove (\<lambda>_. False) raw_tool_protocol_re (lit ''<invoke'') = lit ''<invoke''"
    by (simp add: rx_remove_def rx_at_def raw_tool_protocol_re_def rx_block_def rx_open_def rx_ilit_def icase_def
        dsml_tag_def tool_tag_def rx_bars_def rx_dots_def rx_close_def rx_opt_def at_bound_def re_word_def ascii_word_def
        lit_def of_char_Char py_space_def Let_def)
  have "splitlines (lit ''<invoke'') = [lit ''<invoke'']"
    by (simp add: splitlines_def line_break_def lit_def of_char_Char)
  then show ?thesis unfolding clean_protocol_def r using demo_markup by (simp add: str_eval)
qed

text \<open>A file that itself holds markup.\<close>

abbreviation demo_read :: agent_state where
  "demo_read \<equiv> demo_agent_state [demo_tool_call (lit ''read_file'')
     (JObj [(lit ''content'', JStr (lit ''<invoke'')), (lit ''path'', JStr (lit ''a''))])]"


theorem markup_after_successful_tool_fails_witness:
  "\<exists>message. sanitize_model_answer demo_text_lib (lit ''<invoke'')
     (demo_agent_state [demo_tool_call (lit ''web_search'') (JObj [])]) = Inl (OtherError message)"
  by (rule markup_after_successful_tool_fails [OF demo_markup,
    where calls = "[]" and call = "demo_tool_call (lit ''web_search'') (JObj [])"])
    (simp_all add: demo_text_lib_def demo_cleaned demo_agent_state_def demo_tool_call_def)

end
