(* ===== verification/Intents.thy ===== *)
theory Intents
  imports Response_Policy
begin

text \<open>
  What the agent reads off a user message (\<open>agent/runtime.py\<close>): URLs, GitHub and Hugging Face
  references, file paths, the wish to fetch, read or search, and the query of a web search. Patterns are
  values of \<open>rx\<close>; \<open>IGNORECASE\<close> literals are \<open>rx_ilit\<close>. \<open>urlparse\<close> may raise \<open>ValueError\<close>, so the readers
  of references have a result type.
\<close>

section \<open>URLs\<close>

text \<open>\<open>[^\s<>"]+\<close>\<close>

definition rx_url_rest :: rx where
  "rx_url_rest = rx_plus (Cls (\<lambda>c. \<not> py_space c \<and> c \<notin> {60, 62, 34}))"

definition rx_scheme :: rx where
  "rx_scheme = rx_seq [rx_ilit (lit ''http''), rx_opt (rx_ilit (lit ''s'')), rx_lit (lit ''://'')]"

definition rx_www :: rx where
  "rx_www = rx_opt (rx_ilit (lit ''www.''))"

definition fetch_url_re :: rx where
  "fetch_url_re = Cat rx_scheme rx_url_rest"

definition github_url_re :: rx where
  "github_url_re = rx_seq [rx_scheme, rx_www, rx_ilit (lit ''github.com/''), rx_url_rest]"

definition huggingface_url_re :: rx where
  "huggingface_url_re = rx_seq [rx_scheme, rx_www,
     rx_any [rx_ilit (lit ''huggingface.co''), rx_ilit (lit ''hf.co'')], rx_lit (lit ''/''), rx_url_rest]"

text \<open>The punctuation that \<open>rstrip\<close> takes off the end of a URL.\<close>

definition url_tail :: "nat \<Rightarrow> bool" where
  "url_tail c \<longleftrightarrow> c \<in> set (lit ''.,;:!?)'' @ [12290, 65292, 65307, 65306, 65281, 65311, 65289,
    12305, 12301, 39, 34])"

definition found_url :: "text_lib \<Rightarrow> rx \<Rightarrow> ustr \<Rightarrow> ustr option" where
  "found_url lib r message = (case rx_find (lx_uni lib) r message of
     None \<Rightarrow> None | Some (_, m, _) \<Rightarrow> Some (rstrip_by url_tail m))"

definition extract_fetch_url :: "text_lib \<Rightarrow> ustr \<Rightarrow> ustr option" where
  "extract_fetch_url lib message = found_url lib fetch_url_re message"

definition message_without_urls :: "text_lib \<Rightarrow> ustr \<Rightarrow> ustr" where
  "message_without_urls lib message = rx_sub (lx_uni lib) fetch_url_re [32] message"

definition fetch_intent_terms :: "ustr list" where
  "fetch_intent_terms = [(lit ''fetch''), (lit ''read''), (lit ''retrieve''), (lit ''summarize''),
    (lit ''summarise''), (lit ''summary''), (lit ''analyze''),
     (lit ''analyse''), (lit ''page''), (lit ''webpage''), [24635, 32467], [25688, 35201], [27010, 25324], [25235,
       21462], [35835, 21462], [20998, 26512], [32593, 39029], [39029, 38754]]"

definition requests_fetch_url :: "ustr \<Rightarrow> bool" where
  "requests_fetch_url message = any_in fetch_intent_terms (lower message)"

section \<open>Repository references\<close>

fun split_on :: "nat \<Rightarrow> ustr \<Rightarrow> ustr list" where
  "split_on sep [] = [[]]"
| "split_on sep (c # cs) =
     (if c = sep then [] # split_on sep cs
      else (case split_on sep cs of [] \<Rightarrow> [[c]] | p # ps \<Rightarrow> (c # p) # ps))"

definition path_parts :: "text_lib \<Rightarrow> ustr \<Rightarrow> ustr list" where
  "path_parts lib path = map (lx_unquote lib) (filter (\<lambda>p. p \<noteq> []) (split_on 47 (strip_by (\<lambda>c. c = 47) path)))"

definition removesuffix :: "ustr \<Rightarrow> ustr \<Rightarrow> ustr" where
  "removesuffix sfx s = (if suffix sfx s then take (length s - length sfx) s else s)"

record github_ref =
  gh_url :: ustr
  gh_owner :: ustr
  gh_repo :: ustr
  gh_path :: ustr
  gh_ref :: ustr

text \<open>The branch or commit and the path of a \<open>blob\<close> or \<open>tree\<close> URL.\<close>

definition github_place :: "ustr list \<Rightarrow> ustr \<times> ustr" where
  "github_place parts =
     (if 5 \<le> length parts \<and> parts ! 2 = (lit ''blob'') then (parts ! 3, join [47] (drop 4 parts))
      else if 4 \<le> length parts \<and> parts ! 2 = (lit ''tree'') then (parts ! 3, join [47] (drop 4 parts))
      else ([], []))"

definition extract_github_reference :: "text_lib \<Rightarrow> ustr \<Rightarrow> github_ref option res" where
  "extract_github_reference lib message =
     (case found_url lib github_url_re message of
        None \<Rightarrow> Inr None
      | Some url \<Rightarrow>
          (case lx_urlparse lib url of
             Inl e \<Rightarrow> Inl e
           | Inr (scheme, netloc, path) \<Rightarrow>
               if scheme \<noteq> (lit ''http'') \<and> scheme \<noteq> (lit ''https'') then Inr None
               else if lower netloc \<noteq> (lit ''github.com'') \<and> lower netloc \<noteq> (lit ''www.github.com'') then Inr None
               else
                 (let parts = path_parts lib path in
                  case parts of
                    owner # name # _ \<Rightarrow>
                      (let repo = removesuffix (lit ''.git'') name in
                       if owner = [] \<or> repo = [] then Inr None
                       else (case github_place parts of (ref, p) \<Rightarrow>
                         Inr (Some \<lparr>gh_url = url, gh_owner = owner, gh_repo = repo, gh_path = p,
                           gh_ref = ref\<rparr>)))
                  | _ \<Rightarrow> Inr None)))"

record huggingface_ref =
  hf_url :: ustr
  hf_repo_id :: ustr
  hf_repo_type :: ustr

definition extract_huggingface_reference :: "text_lib \<Rightarrow> ustr \<Rightarrow> huggingface_ref option res" where
  "extract_huggingface_reference lib message =
     (case found_url lib huggingface_url_re message of
        None \<Rightarrow> Inr None
      | Some url \<Rightarrow>
          (case lx_urlparse lib url of
             Inl e \<Rightarrow> Inl e
           | Inr (_, _, path) \<Rightarrow>
               (let parts = path_parts lib path;
                    kind = (case parts of
                      p # _ \<Rightarrow> if p = (lit ''datasets'') then (lit ''dataset'') else if p = (lit ''spaces'') then (lit ''space'') else (lit ''model'')
                    | [] \<Rightarrow> (lit ''model''));
                    rest = (if kind = (lit ''model'') then parts else tl parts) in
                if length rest < 2 then Inr None
                else Inr (Some \<lparr>hf_url = url, hf_repo_id = join [47] (take 2 rest),
                  hf_repo_type = kind\<rparr>))))"

definition requests_huggingface_tool :: "ustr \<Rightarrow> bool" where
  "requests_huggingface_tool message =
     any_in [(lit ''hugging face''), (lit ''huggingface''), (lit ''hf.co/''), (lit ''huggingface.co/''), [25265,
       25265, 33080]] (lower message)"

definition model_terms :: "ustr list" where
  "model_terms = [(lit ''model''), (lit ''models''), [27169, 22411], (lit ''qwen''), (lit ''quant''), [37327, 21270]]"

definition infer_huggingface_repo_type :: "ustr \<Rightarrow> ustr option" where
  "infer_huggingface_repo_type message =
     (let lowered = lower message in
      if any_in [(lit ''dataset''), (lit ''datasets''), [25968, 25454, 38598]] lowered then Some (lit ''dataset'')
      else if any_in [(lit ''space''), (lit ''spaces'')] lowered then Some (lit ''space'')
      else if any_in model_terms lowered then Some (lit ''model'')
      else None)"

section \<open>Hugging Face queries\<close>

text \<open>Commas, full stops and blanks at the ends of a query.\<close>

definition query_edge :: "nat \<Rightarrow> bool" where
  "query_edge c \<longleftrightarrow> c \<in> set (lit '' .,'' @ [12290, 65292])"

abbreviation rx_iword :: "string \<Rightarrow> rx" where
  "rx_iword s \<equiv> rx_ilit (lit s)"

abbreviation rx_iwords :: "string list \<Rightarrow> rx" where
  "rx_iwords ss \<equiv> rx_any (map (\<lambda>s. rx_ilit (lit s)) ss)"

definition rx_summarise :: rx where
  "rx_summarise = rx_seq [rx_iword ''summari'', rx_iwords [''s'', ''z''], rx_iword ''e'']"

definition hf_tail_re :: rx where
  "hf_tail_re = rx_any [
     rx_seq [Bound, rx_opt (Cat (rx_iword ''and'') rx_sp),
       rx_any [rx_summarise, rx_iword ''list'', rx_iword ''show''], Bound],
     rx_seq [Cls (\<lambda>c. c = 65292 \<or> c = 44), rx_spaces, rx_opt (Cat (rx_iword ''and'') rx_sp),
       rx_summarise],
     rx_lit [24182, 24635, 32467]]"

definition hf_kinds :: rx where
  "hf_kinds = rx_any [
     Cat (rx_iword ''model'') (rx_opt (rx_iword ''s'')), Cat (rx_iword ''dataset'') (rx_opt (rx_iword ''s'')),
     Cat (rx_iword ''space'') (rx_opt (rx_iword ''s'')), Cat (rx_iword ''paper'') (rx_opt (rx_iword ''s'')),
     Cat (rx_iword ''doc'') (rx_opt (rx_iword ''s'')), rx_iword ''documentation'']"

definition hf_verb :: rx where
  "hf_verb = rx_seq [rx_opt (Cat (rx_iword ''please'') rx_sp),
     rx_any [rx_iword ''search'', rx_iword ''find'', rx_seq [rx_iword ''look'', rx_sp, rx_iword ''up''],
       rx_iword ''show'']]"

definition hf_head_res :: "rx list" where
  "hf_head_res = [
     rx_seq [rx_begin, hf_verb, rx_sp, rx_opt (Cat (rx_iword ''on'') rx_sp), rx_iword ''hugging'', rx_sp,
       rx_iword ''face'', rx_sp, rx_opt (Cat (rx_iword ''hub'') rx_sp), rx_opt hf_kinds, rx_spaces,
       rx_opt (rx_iwords [''for'', ''about'']), rx_spaces],
     rx_seq [rx_begin, hf_verb, rx_sp,
       rx_opt (rx_seq [rx_iword ''hugging'', rx_sp, rx_iword ''face'', rx_sp]), hf_kinds, rx_sp,
       rx_iwords [''for'', ''about''], rx_sp]]"

definition hf_chinese_terms :: "ustr list" where
  "hf_chinese_terms = [([22312] @ lit '' Hugging Face '' @ [19978]), ([22312] @ lit '' HuggingFace '' @ [19978]),
    (lit ''Hugging Face '' @ [19978]), (lit ''HuggingFace '' @ [19978]),
     [25628, 32034], [26597, 19968, 19979], [26597], [25214]]"

definition blank_terms :: "ustr list \<Rightarrow> ustr \<Rightarrow> ustr" where
  "blank_terms terms s = fold (\<lambda>t acc. replace_all t [32] acc) terms s"

definition before_match :: "text_lib \<Rightarrow> rx \<Rightarrow> ustr \<Rightarrow> ustr" where
  "before_match lib r s = (case rx_find (lx_uni lib) r s of None \<Rightarrow> s | Some (a, _, _) \<Rightarrow> a)"

definition huggingface_query :: "text_lib \<Rightarrow> ustr \<Rightarrow> ustr" where
  "huggingface_query lib message =
     (let whole = join [32] (split_ws (strip message));
          q1 = strip_by query_edge (before_match lib hf_tail_re whole);
          q2 = fold (\<lambda>r q. strip (rx_sub (lx_uni lib) r [] q)) hf_head_res q1;
          q3 = join [32] (split_ws (strip_by query_edge (blank_terms hf_chinese_terms q2))) in
      if q3 = [] then whole else q3)"

end
