(* ===== verification/Web_Query.thy ===== *)
theory Web_Query
  imports Intents
begin

text \<open>
  Web search and file reading as the agent recognises them in a message (\<open>agent/runtime.py\<close>): whether to
  search, the query sent to the search service (the model's rewriting, cleaned, or a fallback built from the
  message), the recency filter, and the path of a file to read.
\<close>

section \<open>The wish to search\<close>

definition web_search_trigger_terms :: "ustr list" where
  "web_search_trigger_terms = [(lit ''web search''), (lit ''search web''), (lit ''search online''),
    (lit ''online search''), (lit ''internet search''),
     [32852, 32593, 25628, 32034], [25628, 32034, 19968, 19979], [19978, 32593, 26597], [32593, 19978, 25628],
       [26597, 26368, 26032]]"

definition web_search_current_terms :: "ustr list" where
  "web_search_current_terms = [(lit ''latest''), (lit ''today''), (lit ''recent''), (lit ''recently''),
    (lit ''news''), [26368, 26032], [26368, 36817], [36817, 26399],
     [20170, 22825], [29616, 22312], [26032, 38395], [28040, 24687], [36164, 35759]]"

text \<open>Only whether this pattern matches is used, so its lazy gap is the greedy one.\<close>

definition web_search_contextual_current_re :: "(nat \<Rightarrow> bool) \<Rightarrow> rx" where
  "web_search_contextual_current_re uni = rx_any [
     rx_seq [Bound, rx_iword ''current'',
       Upto 4 (Cat rx_sp (rx_plus (Cls (\<lambda>c. re_word uni c \<or> c \<in> {46, 35, 43, 45})))), rx_sp,
       rx_iwords [''price'', ''weather'', ''score'', ''stock'', ''release'', ''version'', ''status'', ''model'',
         ''news'', ''ceo'', ''president''], Bound],
     rx_seq [rx_lit [24403, 21069], rx_gap 24,
       rx_texts [[20215, 26684], [22825, 27668], [32929, 20215], [27719, 29575], [27604, 20998], [34892, 24773],
         [29256, 26412], [21457, 24067], [26032, 38395], [28040, 24687],
         [36164, 35759], [27169, 22411], [29366, 24577]]]]"

definition web_search_fact_query_terms :: "ustr list" where
  "web_search_fact_query_terms = [(lit ''price''), (lit ''weather''), (lit ''score''), (lit ''stock''),
    (lit ''release''), (lit ''version''), (lit ''status''),
     (lit ''model''), (lit ''news''), [20160, 20040], [26159, 35841], [22810, 23569], [20215, 26684], [22825,
       27668], [32929, 20215], [27719, 29575], [27604, 20998], [34892, 24773], [29256, 26412],
     [21457, 24067], [26032, 38395], [28040, 24687], [36164, 35759]]"

definition web_search_query_format_terms :: "ustr list" where
  "web_search_query_format_terms = [(lit ''summarize''), (lit ''summary''), (lit ''bullet''), (lit ''bullets''),
    (lit ''bullet points''), (lit ''list''),
     (lit ''answer in chinese''), (lit ''respond in chinese''), (lit ''explain''), [20998, 26465, 24635, 32467,
       19968, 19979], [20998, 26465, 24635, 32467], [20998, 26465], [24635, 32467, 19968, 19979],
     [24635, 32467], [29992, 20013, 25991, 22238, 31572], [20013, 25991, 22238, 31572], [35828, 26126, 19968,
       19979], [35299, 37322, 19968, 19979]]"

definition web_search_query_question_noise :: "ustr list" where
  "web_search_query_question_noise = [(lit ''what are''), (lit ''what is''), (lit ''tell me''), [26377, 20160,
    20040], [26377, 21738, 20123], [20160, 20040], [21738, 20123]]"

definition web_search_question_re :: rx where
  "web_search_question_re = rx_seq [Bound,
     rx_words [''who'', ''what'', ''when'', ''where'', ''which'', ''how many'', ''how much''], Bound]"

definition requests_web_search :: "text_lib \<Rightarrow> ustr \<Rightarrow> bool" where
  "requests_web_search lib message =
     (let lowered = lower (message_without_urls lib message) in
      if any_in web_search_trigger_terms lowered then True
      else if \<not> (any_in web_search_current_terms lowered
              \<or> rx_search (lx_uni lib) (web_search_contextual_current_re (lx_uni lib)) lowered) then False
      else rx_search (lx_uni lib) web_search_question_re lowered \<or> substr [65311] lowered \<or> substr (lit ''?'') lowered
        \<or> any_in web_search_fact_query_terms lowered)"

section \<open>Cleaning the model's query\<close>

definition remove_query_format_terms :: "text_lib \<Rightarrow> ustr \<Rightarrow> ustr" where
  "remove_query_format_terms lib s =
     fold (\<lambda>t acc. rx_sub (lx_uni lib) (rx_ilit t) [32] acc) web_search_query_format_terms s"

definition compact_query_text :: "text_lib \<Rightarrow> ustr \<Rightarrow> ustr" where
  "compact_query_text lib s =
     (let s1 = rx_sub (lx_uni lib) (rx_plus (Cls (\<lambda>c. c \<in> {13, 10, 9}))) [32] s;
          s2 = rx_sub (lx_uni lib) (rx_plus (Cls (\<lambda>c. c \<in> set ([65292] @ lit '','' @ [12290]
            @ lit ''.!'' @ [65281] @ lit ''?'' @ [65311, 65307] @ lit '';'' @ [65306] @ lit '':''
              @ [12289])))) [32] s1 in
      join [32] (split_ws (strip s2)))"

text \<open>A code fence around the candidate.\<close>

definition strip_fence :: "text_lib \<Rightarrow> ustr \<Rightarrow> ustr" where
  "strip_fence lib s =
     (if prefix (lit ''```'') s
      then strip (rx_sub (lx_uni lib) (rx_seq [rx_spaces, rx_lit (lit ''```''), Dollar]) []
             (rx_sub (lx_uni lib) (rx_seq [rx_begin, rx_lit (lit ''```''),
                Star True (Cls (\<lambda>c. ascii_word c \<or> c = 45)), rx_spaces]) [] s))
      else s)"

definition query_from_json_text :: "text_lib \<Rightarrow> ustr \<Rightarrow> ustr option" where
  "query_from_json_text lib s = (case lx_loads lib s of
     Some (JStr q) \<Rightarrow> Some q
   | Some (JObj d) \<Rightarrow>
       map_option (\<lambda>v. case v of JStr q \<Rightarrow> q | _ \<Rightarrow> [])
         (find is_str (map (dget d) [(lit ''query''), (lit ''search_query''), (lit ''q'')]))
   | _ \<Rightarrow> None)"

definition bullet_re :: "(nat \<Rightarrow> bool) \<Rightarrow> rx" where
  "bullet_re digit = rx_seq [rx_begin, rx_spaces,
     rx_plus (Cls (\<lambda>c. digit c \<or> c \<in> set (lit ''-*#.)]''))), rx_spaces]"

definition query_label_re :: rx where
  "query_label_re = rx_seq [rx_begin, rx_spaces,
     rx_any [rx_seq [rx_iword ''search'', rx_sp, rx_iword ''query''], rx_iword ''query'',
       rx_seq [rx_iword ''rewritten'', rx_sp, rx_iword ''query''], rx_seq [rx_iword ''final'', rx_sp,
         rx_iword ''query''],
       rx_lit [25628, 32034, 35789], rx_lit [26597, 35810]],
     Cls (\<lambda>c. c = 58 \<or> c = 65306), rx_spaces]"

definition query_phrase_re :: rx where
  "query_phrase_re = rx_seq [rx_begin, rx_iword ''the'', rx_sp, rx_opt (rx_iwords [''best'', ''concise'', ''final'']),
     rx_spaces, rx_iword ''search'', rx_sp, rx_iword ''query'', rx_sp,
     rx_any [rx_iword ''is'', rx_seq [rx_iword ''should'', rx_sp, rx_iword ''be'']], rx_spaces,
     rx_opt (Cls (\<lambda>c. c = 58 \<or> c = 65306)), rx_spaces]"

definition first_line :: "ustr \<Rightarrow> ustr" where
  "first_line s = (case filter (\<lambda>l. l \<noteq> []) (map strip (splitlines s)) of [] \<Rightarrow> [] | l # _ \<Rightarrow> l)"

text \<open>The candidate without fence, JSON, bullet, label, quotes and format words.\<close>

definition query_core :: "text_lib \<Rightarrow> ustr \<Rightarrow> ustr" where
  "query_core lib s =
     (let s1 = strip_fence lib s;
          s2 = (case query_from_json_text lib s1 of None \<Rightarrow> s1 | Some q \<Rightarrow> q);
          s3 = strip (rx_sub (lx_uni lib) (bullet_re (lx_digit lib)) [] (first_line s2));
          s4 = strip (rx_sub (lx_uni lib) query_label_re [] s3);
          s5 = strip (rx_sub (lx_uni lib) query_phrase_re [] s4);
          s6 = strip_by (\<lambda>c. c \<in> set (lit ''`'' @ [39, 34, 8220, 8221, 8216, 8217])) s5 in
      compact_query_text lib (remove_query_format_terms lib s6))"

definition clean_web_search_query :: "text_lib \<Rightarrow> ustr \<Rightarrow> ustr \<Rightarrow> ustr" where
  "clean_web_search_query lib candidate message =
     (let s = strip candidate in
      if s = [] then []
      else
        (let q = query_core lib s; lowered = lower q in
         if q = [] then []
         else if any_in [(lit ''query should''), (lit ''i would search''), (lit ''here is'')] lowered then []
         else if any_in (map lower web_search_query_format_terms) lowered then []
         else if any_in (map lower web_search_query_question_noise) lowered then []
         else if q = compact_query_text lib message then []
         else if length q > 120 then []
         else if length (split_ws q) > 14 then []
         else q))"

section \<open>The fallback query\<close>

definition today_terms :: "ustr list" where
  "today_terms = [(lit ''today''), (lit ''now''), [20170, 22825], [29616, 22312]]"

definition request_words_re :: rx where
  "request_words_re = rx_seq [Bound,
     rx_any [rx_iword ''please'', rx_seq [rx_iword ''could'', rx_sp, rx_iword ''you''],
       rx_seq [rx_iword ''can'', rx_sp, rx_iword ''you''], rx_seq [rx_iword ''tell'', rx_sp, rx_iword ''me''],
       rx_iword ''find'', rx_iword ''search'', rx_seq [rx_iword ''look'', rx_sp, rx_iword ''up'']], Bound]"

definition fallback_web_search_query :: "text_lib \<Rightarrow> ustr \<Rightarrow> ustr" where
  "fallback_web_search_query lib message =
     (let s = message_without_urls lib message; lowered = lower s;
          has_ai = substr (lit ''ai'') lowered \<or> substr [20154, 24037, 26234, 33021] s;
          has_news = substr (lit ''news'') lowered \<or> substr [26032, 38395] s \<or> substr [28040, 24687] s in
      if has_ai \<and> has_news
      then (if any_in today_terms lowered then (lit ''AI news today'') else (lit ''latest AI news''))
      else
        (let s1 = fold (\<lambda>t acc. rx_sub (lx_uni lib) (rx_ilit t) [32] acc)
                    (web_search_trigger_terms @ web_search_query_format_terms) s;
             s2 = rx_sub (lx_uni lib) request_words_re [32] s1;
             s3 = blank_terms [[35831], [19968, 19979], [24110, 25105], [26597, 19968, 19979], [26377, 20160,
               20040], [26377, 21738, 20123]] s2;
             q = strip (take 120 (compact_query_text lib (remove_query_format_terms lib s3))) in
         if q = [] then (lit ''latest news'') else q))"

text \<open>\<open>candidate\<close> is what the model made of the message; any \<open>Exception\<close> of it counts as no candidate.\<close>

definition normalized_web_search_query :: "text_lib \<Rightarrow> ustr res \<Rightarrow> ustr \<Rightarrow> ustr res" where
  "normalized_web_search_query lib candidate message =
     (let finish = (\<lambda>c. let q = clean_web_search_query lib c message in
                Inr (if q \<noteq> [] then q else fallback_web_search_query lib message)) in
      case candidate of
        Inr c \<Rightarrow> finish c
      | Inl e \<Rightarrow> if is_exception e then finish [] else Inl e)"

definition infer_web_search_recency_days :: "ustr \<Rightarrow> int option" where
  "infer_web_search_recency_days message =
     (let lowered = lower message in
      if any_in today_terms lowered then Some 1
      else if any_in [(lit ''latest''), (lit ''current''), (lit ''news''), [26368, 26032], [26032,
        38395]] lowered then Some 7
      else None)"

definition web_search_arguments :: "text_lib \<Rightarrow> ustr res \<Rightarrow> ustr \<Rightarrow> dict res" where
  "web_search_arguments lib candidate message =
     (case normalized_web_search_query lib candidate message of
        Inl e \<Rightarrow> Inl e
      | Inr q \<Rightarrow> Inr (((lit ''query''), JStr q) # (case infer_web_search_recency_days message of
          None \<Rightarrow> [] | Some n \<Rightarrow> [((lit ''recency_days''), JInt n)])))"

section \<open>Reading a file\<close>

definition path_quote :: "nat \<Rightarrow> bool" where
  "path_quote c \<longleftrightarrow> c \<in> set (lit ''`'' @ [34, 39, 8220, 8221, 8216, 8217])"

definition ascii_alnum :: "nat \<Rightarrow> bool" where
  "ascii_alnum c \<longleftrightarrow> ascii_word c \<and> c \<noteq> 95"

definition quoted_path_re :: rx where
  "quoted_path_re = rx_seq [Cls path_quote, rx_plus (Cls (\<lambda>c. \<not> path_quote c)), rx_lit (lit ''.''),
     rx_plus (Cls ascii_alnum), Cls path_quote]"

definition bare_path_re :: "(nat \<Rightarrow> bool) \<Rightarrow> rx" where
  "bare_path_re uni = rx_seq [rx_plus (Cls (\<lambda>c. re_word uni c \<or> c \<in> {46, 47, 92, 45})),
    rx_lit (lit ''.''),
     rx_any [rx_iword ''md'', rx_iword ''txt'', rx_iword ''py'', rx_iword ''json'',
       rx_seq [rx_iword ''y'', rx_opt (rx_iword ''a''), rx_iword ''ml''], rx_iword ''toml'']]"

text \<open>The group of the quoted pattern is its match without the two quotes.\<close>

definition extract_read_file_path :: "text_lib \<Rightarrow> ustr \<Rightarrow> ustr option" where
  "extract_read_file_path lib message =
     (case rx_find (lx_uni lib) quoted_path_re message of
        Some (_, m, _) \<Rightarrow> Some (strip (butlast (tl m)))
      | None \<Rightarrow>
          (case rx_find (lx_uni lib) (bare_path_re (lx_uni lib)) message of
             Some (_, m, _) \<Rightarrow> Some (strip_by (\<lambda>c. c \<in> set (lit '' '' @ [12290] @ lit ''.!''
               @ [65281, 65311] @ lit '','' @ [65292])) m)
           | None \<Rightarrow> None))"

definition requests_file_read :: "text_lib \<Rightarrow> ustr \<Rightarrow> bool" where
  "requests_file_read lib message =
     (let lowered = lower message in
      any_in [(lit ''read''), (lit ''open''), (lit ''inspect''), [35835, 21462], [35835, 19968, 19979], [26597,
        30475], [30475, 30475]] lowered
      \<and> (any_in [(lit ''summarize''), (lit ''summary''), [24635, 32467], [27010, 25324], [24402, 32435]] lowered
         \<or> extract_read_file_path lib message \<noteq> None))"

section \<open>Facts: the query\<close>

lemma strip_length: "length (strip s) \<le> length s"
proof -
  have "length (dropWhile p (xs :: ustr)) \<le> length xs" for p xs by (rule length_dropWhile_le)
  from this [of py_space "rev (dropWhile py_space s)"] this [of py_space s]
  show ?thesis unfolding strip_def strip_by_def rstrip_by_def lstrip_by_def by simp
qed

lemma clean_query_bounds: "length (clean_web_search_query lib candidate message) \<le> 120"
  by (simp add: clean_web_search_query_def Let_def)

lemma fallback_query_bounds:
  "fallback_web_search_query lib message \<noteq> []" "length (fallback_web_search_query lib message) \<le> 120"
proof -
  have "length (strip (take 120 s)) \<le> 120" for s using strip_length [of "take 120 s"] by simp
  then show "fallback_web_search_query lib message \<noteq> []" "length (fallback_web_search_query lib message) \<le> 120"
    by (simp_all add: fallback_web_search_query_def Let_def)
qed

lemma normalized_query_cases:
  assumes "normalized_web_search_query lib candidate message = Inr q"
  shows "q \<noteq> [] \<and> length q \<le> 120"
  using assms fallback_query_bounds [of lib message] clean_query_bounds [of lib _ message]
  by (auto simp: normalized_web_search_query_def Let_def split: sum.splits if_splits)

end
