(* ===== verification/Tool_Loop.thy ===== *)
theory Tool_Loop
  imports Intents Tool_Executor
begin

text \<open>
  The tool step of the agent runtime (\<open>agent/runtime.py\<close>): running the planned tool, recording the call
  and its observation, and supplementing a web search by fetching its result pages, which stops at the
  first page that needs the user's confirmation. Tools run through \<open>run_tool\<close> of \<open>Tool_Executor\<close>; fresh
  ids and trace ids of the runs and the clock readings are numbered by the run.
\<close>

section \<open>Events\<close>

text \<open>
  An event of the stream: its type and payload, serialised by \<open>json.dumps\<close> on the way out. A \<open>status\<close>
  event carries a label, or the model when an answer is being generated; \<open>done\<close> shows the state.
\<close>

datatype agent_event =
    StatusEv ustr
  | GeneratingEv ustr
  | PlanEv agent_plan
  | ToolCallEv ustr dict bool bool
  | ToolResultEv tool_response
  | TokenEv ustr
  | DoneEv uuid agent_state model_route
  | ErrorEv ustr

section \<open>Observations\<close>

definition fetch_default_max_length :: int where "fetch_default_max_length = 8000"
definition search_fetch_max_pages :: nat where "search_fetch_max_pages = 3"

definition is_http_url :: "text_lib \<Rightarrow> ustr \<Rightarrow> bool res" where
  "is_http_url lib url =
     (if url = [] then Inr False
      else (case lx_urlparse lib url of
              Inl e \<Rightarrow> Inl e
            | Inr (scheme, netloc, _) \<Rightarrow> Inr ((scheme = lit ''http'' \<or> scheme = lit ''https'') \<and> netloc \<noteq> [])))"

text \<open>The targets of a search: at most three, each URL once up to case.\<close>

fun fetch_targets_from :: "text_lib \<Rightarrow> search_target list \<Rightarrow> json list \<Rightarrow> search_target list res" where
  "fetch_targets_from lib acc [] = Inr acc"
| "fetch_targets_from lib acc (JObj item # items) =
     (let url = rstrip_by url_tail (strip (str_or (lx_repr lib) (dget item (lit ''url'')) [])) in
      case is_http_url lib url of
        Inl e \<Rightarrow> Inl e
      | Inr ok \<Rightarrow>
          if \<not> ok \<or> lower url \<in> set (map (\<lambda>t. lower (st_url t)) acc) then fetch_targets_from lib acc items
          else
            (let acc' = acc @ [\<lparr>st_url = url, st_title = str_or (lx_repr lib) (dget item (lit ''title'')) [],
                   st_snippet = str_or (lx_repr lib) (dget item (lit ''snippet'')) []\<rparr>] in
             if search_fetch_max_pages \<le> length acc' then Inr acc' else fetch_targets_from lib acc' items))"
| "fetch_targets_from lib acc (_ # items) = fetch_targets_from lib acc items"

definition search_result_fetch_targets :: "text_lib \<Rightarrow> tool_response \<Rightarrow> search_target list res" where
  "search_result_fetch_targets lib r = fetch_targets_from lib [] (search_result_items lib (tr_output r))"

definition observed_url :: "text_lib \<Rightarrow> json \<Rightarrow> ustr" where
  "observed_url lib out = (case out of
     JObj d \<Rightarrow>
       (let url = str_or (lx_repr lib) (dget d (lit ''url'')) [] in
        if url \<noteq> [] then url
        else (case dget d (lit ''raw'') of JObj raw \<Rightarrow> str_or (lx_repr lib) (dget raw (lit ''url'')) [] | _ \<Rightarrow> []))
   | _ \<Rightarrow> [])"

definition opt_str_none :: "ustr option \<Rightarrow> ustr" where
  "opt_str_none x = (case x of None \<Rightarrow> lit ''None'' | Some s \<Rightarrow> s)"

definition format_tool_observation :: "text_lib \<Rightarrow> tool_response \<Rightarrow> ustr" where
  "format_tool_observation lib r =
     (let out = tool_output_text lib r in
      if tr_status r \<noteq> lit ''success''
      then tr_tool_name r @ lit '' failed with status '' @ tr_status r @ lit '': '' @ opt_str_none (tr_error r)
      else if tr_tool_name r = web_search_tool_name
      then (lit ''Web search results. Use these results for current external facts and cite result URLs when answering:'' @ [10]) @ out
      else if tr_tool_name r = mcp_fetch_tool_name
      then (lit ''Fetched web page content. Summarize the content from this page and preserve the source URL in the answer: '')
        @ observed_url lib (tr_output r) @ [10] @ out
      else if prefix (lit ''mcp.github.'') (tr_tool_name r)
      then (lit ''GitHub repository content. Analyze this repository or code file from the GitHub MCP result and mention the source GitHub URL if available:'' @ [10]) @ out
      else if prefix (lit ''mcp.huggingface.'') (tr_tool_name r)
      then (lit ''Hugging Face Hub MCP results. Use these results for Hugging Face models, datasets, Spaces, papers, documentation, or repository details; preserve Hub links or resource IDs in the answer:'' @ [10]) @ out
      else tr_tool_name r @ lit '' succeeded: '' @ out)"

definition format_search_fetch_observation :: "text_lib \<Rightarrow> tool_response \<Rightarrow> search_target \<Rightarrow> ustr" where
  "format_search_fetch_observation lib r target =
     (let title = (if st_title target = [] then lit ''(untitled)'' else st_title target);
          place = lit ''Title: '' @ title @ ([10] @ lit ''URL: '') @ st_url target @ ([10]
            @ lit ''Search snippet: '') @ st_snippet target in
      if tr_status r = lit ''success''
      then (lit ''Search result page content. This body text was fetched from one of the web_search result URLs. Summarize and analyze this body content, compare it with the other fetched pages when available, and preserve the source URL.'' @ [10])
        @ place @ ([10] @ lit ''Fetched content:'' @ [10]) @ tool_output_text lib r
      else (lit ''Search result page fetch failed. Skip this source if other fetched pages are available; if every page fetch failed, fall back to search result snippets and explain the body-fetch failure.'' @ [10])
        @ place @ ([10] @ lit ''Error: '') @ (if opt_text (tr_error r) \<noteq> [] then opt_text (tr_error r) else tr_status r))"

section \<open>Running a tool\<close>

text \<open>
  The services of a turn: registry, tool world, executor settings, the lease of the worker, and for the
  n-th tool run its audit id, trace id and time.
\<close>

record tool_services =
  sv_lib :: text_lib
  sv_registry :: "registry option"
  sv_world :: tool_world
  sv_env :: tool_env
  sv_lease :: "lease option"
  sv_audit :: "nat \<Rightarrow> uuid"
  sv_trace :: "nat \<Rightarrow> ustr"
  sv_now :: "nat \<Rightarrow> time"

text \<open>A turn in progress: the database, the number of runs so far, the state and the events.\<close>

record turn =
  tu_db :: db
  tu_runs :: nat
  tu_state :: agent_state
  tu_events :: "agent_event list"

definition find_tool :: "tool_services \<Rightarrow> ustr \<Rightarrow> registered_tool option" where
  "find_tool sv name = (case sv_registry sv of None \<Rightarrow> None | Some r \<Rightarrow> registry_get r name)"

definition tool_request :: "bool \<Rightarrow> agent_state \<Rightarrow> tool_call" where
  "tool_request confirmed st = \<lparr>tq_confirmed = confirmed, tq_session = True, tq_user_id = as_user_id st,
     tq_conversation_id = as_conversation_id st, tq_task_id = as_task_id st,
       tq_identity = Some \<lparr>mi_user_id = as_user_id st, mi_service_id = None,
         mi_is_admin = False\<rparr>\<rparr>"

definition execute :: "tool_services \<Rightarrow> bool \<Rightarrow> registered_tool \<Rightarrow> dict \<Rightarrow> turn \<Rightarrow> turn \<times> tool_response res" where
  "execute sv confirmed tool arguments t =
     (case run_tool (sv_world sv) (sv_env sv) (sv_lease sv) (sv_now sv (tu_runs t)) (sv_audit sv (tu_runs t))
             (sv_trace sv (tu_runs t)) (tool_request confirmed (tu_state t)) tool arguments (tu_db t) of
        (d', r) \<Rightarrow> (t\<lparr>tu_db := d', tu_runs := Suc (tu_runs t)\<rparr>, r))"

definition failed_response :: "ustr \<Rightarrow> ustr \<Rightarrow> ustr \<Rightarrow> tool_response" where
  "failed_response trace_id name error = \<lparr>tr_tool_name = name, tr_provider = local_plugin,
    tr_provider_tool_id = None,
     tr_server_name = None, tr_status = lit ''failed'', tr_output = JNull, tr_output_summary = None,
     tr_error = Some error, tr_trace_id = trace_id\<rparr>"

definition execute_tool_plan :: "tool_services \<Rightarrow> turn \<Rightarrow> turn \<times> tool_response res" where
  "execute_tool_plan sv t =
     (let plan = as_plan (tu_state t);
          failed = (\<lambda>name error. (t\<lparr>tu_runs := Suc (tu_runs t)\<rparr>,
            Inr (failed_response (sv_trace sv (tu_runs t)) name error))) in
      case pl_tool_name plan of
        None \<Rightarrow> failed (lit ''unknown'') (lit ''Tool plan did not include a tool name'')
      | Some name \<Rightarrow>
          (case find_tool sv name of
             None \<Rightarrow> failed name (lit ''Tool is not available: '' @ name)
           | Some tool \<Rightarrow> execute sv (\<not> pl_requires_confirmation plan) tool (pl_arguments plan) t))"

section \<open>Fetching the pages of a search\<close>

definition emit :: "agent_event \<Rightarrow> turn \<Rightarrow> turn" where
  "emit e t = t\<lparr>tu_events := tu_events t @ [e]\<rparr>"

definition on_state :: "(agent_state \<Rightarrow> agent_state) \<Rightarrow> turn \<Rightarrow> turn" where
  "on_state f t = t\<lparr>tu_state := f (tu_state t)\<rparr>"

definition add_observation :: "ustr \<Rightarrow> agent_state \<Rightarrow> agent_state" where
  "add_observation txt st = st\<lparr>as_observations := as_observations st @ [txt]\<rparr>"

definition add_call :: "tool_call_entry \<Rightarrow> agent_state \<Rightarrow> agent_state" where
  "add_call c st = st\<lparr>as_tool_calls := as_tool_calls st @ [c]\<rparr>"

definition fetch_max_length :: "tool_services \<Rightarrow> int" where
  "fetch_max_length sv = max 1 (min fetch_default_max_length (max_tool_output_chars (te_tools (sv_env sv))))"

definition fetch_arguments :: "tool_services \<Rightarrow> search_target \<Rightarrow> dict" where
  "fetch_arguments sv target =
     [(lit ''url'', JStr (st_url target)), (lit ''max_length'', JInt (fetch_max_length sv))]"

definition fetch_call :: "registered_tool \<Rightarrow> dict \<Rightarrow> search_target \<Rightarrow> tool_response \<Rightarrow> tool_call_entry" where
  "fetch_call tool arguments target r = \<lparr>tc_tool_name = tool_name tool, tc_provider = rt_provider tool,
     tc_provider_tool_id = rt_provider_tool_id tool, tc_server_name = rt_server_name tool,
     tc_arguments = arguments,
     tc_reason = lit ''Fetch this search result page to supplement the saved search snippets.'',
     tc_requires_confirmation = pm_requires_confirmation (rt_manifest tool),
     tc_search_enrichment = True, tc_search_target = Some target, tc_result = r,
     tc_approval_id = None, tc_approval_status = None, tc_approval_expires_at = None,
       tc_approval_error = None\<rparr>"

text \<open>The summary after the last page: a fallback when no page of the whole search was fetched.\<close>

definition fetch_failure :: "text_lib \<Rightarrow> tool_call_entry \<Rightarrow> ustr" where
  "fetch_failure lib c = scalar_str (lx_repr lib) (dget (tc_arguments c) (lit ''url'')) @ lit '': ''
     @ (if opt_text (tr_error (tc_result c)) \<noteq> [] then opt_text (tr_error (tc_result c)) else tr_status (tc_result c))"

definition all_fetches_failed :: "ustr \<Rightarrow> ustr" where
  "all_fetches_failed detail =
     (lit ''All search result page fetches failed. Fall back to the web search titles, snippets, and URLs, and explain that page-body fetching failed: '') @ detail"

definition finish_fetches :: "text_lib \<Rightarrow> agent_state \<Rightarrow> agent_state" where
  "finish_fetches lib st =
     (let attempts = filter tc_search_enrichment (as_tool_calls st);
          failures = filter (\<lambda>c. tr_status (tc_result c) \<noteq> lit ''success'') attempts in
      if length failures = length attempts
      then
        (let detail = (if failures \<noteq> [] then join (lit ''; '') (map (fetch_failure lib) failures)
                       else lit ''no fetch attempts completed'');
             st1 = add_observation (all_fetches_failed detail) st in
         case search_results_fallback_answer lib st1 of
           None \<Rightarrow> st1 | Some a \<Rightarrow> st1\<lparr>as_final_answer := a\<rparr>)
      else st)"

text \<open>The loop, by recursion over the targets left (\<open>state.search_fetch_targets\<close>).\<close>

fun fetch_loop :: "tool_services \<Rightarrow> registered_tool \<Rightarrow> search_target list \<Rightarrow> turn \<Rightarrow> turn \<times> unit res" where
  "fetch_loop sv tool [] t = (on_state (finish_fetches (sv_lib sv)) t, Inr ())"
| "fetch_loop sv tool (target # targets) t =
     (let arguments = fetch_arguments sv target;
          t1 = emit (ToolCallEv (tool_name tool) arguments (pm_requires_confirmation (rt_manifest tool)) True)
                 (on_state (\<lambda>st. st\<lparr>as_search_fetch_targets := targets\<rparr>) t) in
      case execute sv False tool arguments t1 of
        (t2, Inl e) \<Rightarrow> (t2, Inl e)
      | (t2, Inr r) \<Rightarrow>
          (let t3 = emit (ToolResultEv r) (on_state (add_observation (format_search_fetch_observation (sv_lib sv) r target)
                       \<circ> add_call (fetch_call tool arguments target r)) t2) in
           if tr_error r = Some confirmation_error then (t3, Inr ()) else fetch_loop sv tool targets t3))"

definition fetch_search_targets :: "tool_services \<Rightarrow> turn \<Rightarrow> turn \<times> unit res" where
  "fetch_search_targets sv t =
     (case find_tool sv mcp_fetch_tool_name of
        None \<Rightarrow>
          (on_state (add_observation (lit ''Fetch MCP is unavailable. Use the saved search snippets and URLs.'')
             \<circ> (\<lambda>st. st\<lparr>as_search_fetch_targets := []\<rparr>)) t, Inr ())
      | Some tool \<Rightarrow> fetch_loop sv tool (as_search_fetch_targets (tu_state t)) t)"

definition enrich_web_search_with_fetch :: "tool_services \<Rightarrow> tool_response \<Rightarrow> turn \<Rightarrow> turn \<times> unit res" where
  "enrich_web_search_with_fetch sv r t =
     (case find_tool sv mcp_fetch_tool_name of
        None \<Rightarrow>
          (on_state (add_observation (lit ''Search result page content was not fetched because the Fetch MCP tool `mcp.fetch.fetch` is not available. Fall back to the web search titles, snippets, and source URLs.'')) t, Inr ())
      | Some _ \<Rightarrow>
          (case search_result_fetch_targets (sv_lib sv) r of
             Inl e \<Rightarrow> (t, Inl e)
           | Inr [] \<Rightarrow>
               (on_state (add_observation (lit ''Search result page content was not fetched because the web search results did not include any unique http/https URLs. Fall back to the search snippets.'')) t, Inr ())
           | Inr targets \<Rightarrow> fetch_search_targets sv (on_state (\<lambda>st. st\<lparr>as_search_fetch_targets := targets\<rparr>) t)))"

section \<open>The tool step\<close>

definition plan_call :: "agent_plan \<Rightarrow> ustr \<Rightarrow> tool_response \<Rightarrow> tool_call_entry" where
  "plan_call plan name r = \<lparr>tc_tool_name = name, tc_provider = pl_provider plan,
     tc_provider_tool_id = pl_provider_tool_id plan, tc_server_name = pl_server_name plan,
     tc_arguments = pl_arguments plan, tc_reason = pl_reason plan,
     tc_requires_confirmation = pl_requires_confirmation plan, tc_search_enrichment = False,
     tc_search_target = None, tc_result = r, tc_approval_id = None, tc_approval_status = None,
     tc_approval_expires_at = None, tc_approval_error = None\<rparr>"

text \<open>The call and its observation; a confirmed page of a search is recorded as such.\<close>

definition record_result :: "text_lib \<Rightarrow> ustr \<Rightarrow> tool_response \<Rightarrow> agent_state \<Rightarrow> agent_state" where
  "record_result lib name r st =
     (let call = plan_call (as_plan st) name r in
      case as_confirmed_search_target st of
        Some target \<Rightarrow>
          (add_observation (format_search_fetch_observation lib r target)
            (add_call (call\<lparr>tc_search_enrichment := True, tc_search_target := Some target\<rparr>) st))
              \<lparr>as_confirmed_search_target := None\<rparr>
      | None \<Rightarrow> add_observation (format_tool_observation lib r) (add_call call st))"

definition maybe_execute_tool :: "tool_services \<Rightarrow> turn \<Rightarrow> turn \<times> unit res" where
  "maybe_execute_tool sv t =
     (let plan = as_plan (tu_state t) in
      case (if pl_no_tool plan then None else pl_tool_name plan) of
        None \<Rightarrow> (t, Inr ())
      | Some name \<Rightarrow>
          (case execute_tool_plan sv
                  (emit (ToolCallEv name (pl_arguments plan) (pl_requires_confirmation plan) False) t) of
             (t1, Inl e) \<Rightarrow> (t1, Inl e)
           | (t1, Inr r) \<Rightarrow>
               (let enriched = as_confirmed_search_target (tu_state t1) \<noteq> None;
                    t2 = emit (ToolResultEv r) (on_state (record_result (sv_lib sv) name r) t1) in
                if tr_status r = lit ''success'' \<and> name = web_search_tool_name
                then enrich_web_search_with_fetch sv r t2
                else if enriched then fetch_search_targets sv t2
                else (t2, Inr ()))))"

section \<open>Facts: targets\<close>

lemma fetch_targets_from_props:
  "fetch_targets_from lib acc items = Inr ts \<Longrightarrow> length acc < search_fetch_max_pages \<Longrightarrow>
   distinct (map (\<lambda>t. lower (st_url t)) acc) \<Longrightarrow> \<forall>t \<in> set acc. is_http_url lib (st_url t) = Inr True \<Longrightarrow>
   length ts \<le> search_fetch_max_pages \<and> distinct (map (\<lambda>t. lower (st_url t)) ts)
   \<and> (\<forall>t \<in> set ts. is_http_url lib (st_url t) = Inr True)"
proof (induction lib acc items rule: fetch_targets_from.induct)
  case (2 lib acc item items)
  let ?url = "rstrip_by url_tail (strip (str_or (lx_repr lib) (dget item (lit ''url'')) []))"
  obtain ok where ok: "is_http_url lib ?url = Inr ok" using "2.prems"(1) by (auto simp: Let_def split: sum.splits)
  show ?case
  proof (cases "\<not> ok \<or> lower ?url \<in> set (map (\<lambda>t. lower (st_url t)) acc)")
    case True
    with ok "2.prems" have "fetch_targets_from lib acc items = Inr ts" by (auto simp: Let_def)
    from "2.IH"(1) [OF refl ok True this "2.prems"(2-4)] show ?thesis .
  next
    case False
    let ?acc = "acc @ [\<lparr>st_url = ?url, st_title = str_or (lx_repr lib) (dget item (lit ''title'')) [],
                   st_snippet = str_or (lx_repr lib) (dget item (lit ''snippet'')) []\<rparr>]"
    have d: "distinct (map (\<lambda>t. lower (st_url t)) ?acc)" using False "2.prems"(3) by auto
    have h: "\<forall>t \<in> set ?acc. is_http_url lib (st_url t) = Inr True" using False ok "2.prems"(4) by auto
    show ?thesis
    proof (cases "search_fetch_max_pages \<le> length ?acc")
      case True
      then have "ts = ?acc" using "2.prems"(1) ok False by (auto simp: Let_def)
      with d h "2.prems"(2) show ?thesis by simp
    next
      case more: False
      then have "fetch_targets_from lib ?acc items = Inr ts" using "2.prems"(1) ok False by (auto simp: Let_def)
      from "2.IH"(2) [OF refl ok False refl more this _ d h] more show ?thesis by simp
    qed
  qed
qed auto

text \<open>
  A web search is supplemented from at most three pages: the targets taken from its results are
  distinct up to letter case and all are http or https URLs with a host.
\<close>

theorem search_targets_bounded:
  assumes "search_result_fetch_targets lib r = Inr targets"
  shows "length targets \<le> 3 \<and> distinct (map (\<lambda>t. lower (st_url t)) targets)
    \<and> (\<forall>t \<in> set targets. is_http_url lib (st_url t) = Inr True)"
  using fetch_targets_from_props [of lib "[]" "search_result_items lib (tr_output r)" targets] assms
  by (simp add: search_result_fetch_targets_def search_fetch_max_pages_def)

section \<open>Facts: the fetch loop\<close>

lemma turn_simps [simp]:
  "tu_state (emit e t) = tu_state t" "tu_db (emit e t) = tu_db t" "tu_runs (emit e t) = tu_runs t"
  "tu_state (on_state f t) = f (tu_state t)" "tu_db (on_state f t) = tu_db t" "tu_runs (on_state f t) = tu_runs t"
  by (simp_all add: emit_def on_state_def)

lemma state_simps [simp]:
  "as_tool_calls (add_observation x st) = as_tool_calls st" "as_tool_calls (add_call c st) = as_tool_calls st @ [c]"
  "as_search_fetch_targets (add_observation x st) = as_search_fetch_targets st"
  "as_search_fetch_targets (add_call c st) = as_search_fetch_targets st"
  by (simp_all add: add_observation_def add_call_def)

lemma finish_fetches_simps [simp]:
  "as_tool_calls (finish_fetches lib st) = as_tool_calls st"
  "as_search_fetch_targets (finish_fetches lib st) = as_search_fetch_targets st"
  by (simp_all add: finish_fetches_def Let_def split: option.splits)

lemma execute_simps:
  assumes "execute sv confirmed tool arguments t = (t', r)"
  shows "tu_state t' = tu_state t" and "tu_runs t' = Suc (tu_runs t)" and "tu_events t' = tu_events t"
  using assms by (auto simp: execute_def split: prod.splits)

lemma fetch_loop_props:
  "fetch_loop sv tool targets t = (t', Inr ()) \<Longrightarrow> as_search_fetch_targets (tu_state t) = targets \<Longrightarrow>
   \<exists>calls. as_tool_calls (tu_state t') = as_tool_calls (tu_state t) @ calls
     \<and> map tc_search_target calls @ map Some (as_search_fetch_targets (tu_state t')) = map Some targets
     \<and> tu_runs t' = tu_runs t + length calls
     \<and> (\<forall>c \<in> set (butlast calls). tr_error (tc_result c) \<noteq> Some confirmation_error)
     \<and> (as_search_fetch_targets (tu_state t') \<noteq> [] \<longrightarrow>
         calls \<noteq> [] \<and> tr_error (tc_result (last calls)) = Some confirmation_error)"
proof (induction sv tool targets t rule: fetch_loop.induct)
  case (1 sv tool t)
  then show ?case by (intro exI [of _ "[]"]) auto
next
  case (2 sv tool target targets t)
  let ?args = "fetch_arguments sv target"
  let ?t1 = "emit (ToolCallEv (tool_name tool) ?args (pm_requires_confirmation (rt_manifest tool)) True)
                 (on_state (\<lambda>st. st\<lparr>as_search_fetch_targets := targets\<rparr>) t)"
  obtain t2 r where e: "execute sv False tool ?args ?t1 = (t2, Inr r)"
    using "2.prems"(1) by (auto simp: Let_def split: prod.splits sum.splits)
  let ?t3 = "emit (ToolResultEv r) (on_state (add_observation (format_search_fetch_observation (sv_lib sv) r target)
                       \<circ> add_call (fetch_call tool ?args target r)) t2)"
  note x = execute_simps [OF e]
  have calls: "as_tool_calls (tu_state ?t3) = as_tool_calls (tu_state t) @ [fetch_call tool ?args target r]"
    and targets: "as_search_fetch_targets (tu_state ?t3) = targets" and runs: "tu_runs ?t3 = Suc (tu_runs t)"
    using x by simp_all
  have c: "tc_search_target (fetch_call tool ?args target r) = Some target" "tc_result (fetch_call tool ?args target r) = r"
    by (simp_all add: fetch_call_def)
  show ?case
  proof (cases "tr_error r = Some confirmation_error")
    case True
    then have "t' = ?t3" using "2.prems"(1) e by (simp add: Let_def)
    with calls targets runs c True show ?thesis
      by (intro exI [of _ "[fetch_call tool ?args target r]"]) simp
  next
    case False
    then have "fetch_loop sv tool targets ?t3 = (t', Inr ())" using "2.prems"(1) e by (simp add: Let_def)
    from "2.IH" [OF refl refl e [symmetric] refl refl False this targets] obtain more where
      m: "as_tool_calls (tu_state t') = as_tool_calls (tu_state ?t3) @ more"
      "map tc_search_target more @ map Some (as_search_fetch_targets (tu_state t')) = map Some targets"
      "tu_runs t' = tu_runs ?t3 + length more"
      "\<forall>c \<in> set (butlast more). tr_error (tc_result c) \<noteq> Some confirmation_error"
      "as_search_fetch_targets (tu_state t') \<noteq> [] \<longrightarrow>
         more \<noteq> [] \<and> tr_error (tc_result (last more)) = Some confirmation_error" by blast
    let ?calls = "fetch_call tool ?args target r # more"
    have "as_tool_calls (tu_state t') = as_tool_calls (tu_state t) @ ?calls" using m(1) calls by simp
    moreover have "map tc_search_target ?calls @ map Some (as_search_fetch_targets (tu_state t')) = map Some (target # targets)"
      using m(2) c(1) by simp
    moreover have "tu_runs t' = tu_runs t + length ?calls" using m(3) runs by simp
    moreover have "\<forall>c \<in> set (butlast ?calls). tr_error (tc_result c) \<noteq> Some confirmation_error"
      using m(4) False c(2) by (cases "more = []") auto
    moreover have "as_search_fetch_targets (tu_state t') \<noteq> [] \<longrightarrow>
         ?calls \<noteq> [] \<and> tr_error (tc_result (last ?calls)) = Some confirmation_error" using m(5) by auto
    ultimately show ?thesis by blast
  qed
qed

text \<open>
  The pages of a search are fetched in order, each once, and none is lost: what was called and what
  is still pending together are the targets, every call is one run, and the loop stops exactly at the
  first page that needs the user's confirmation, keeping the rest for the confirmed continuation.
\<close>

theorem pages_fetched_in_order:
  assumes "fetch_search_targets sv t = (t', Inr ())" and "find_tool sv mcp_fetch_tool_name = Some tool"
  shows "\<exists>calls. as_tool_calls (tu_state t') = as_tool_calls (tu_state t) @ calls
     \<and> map tc_search_target calls @ map Some (as_search_fetch_targets (tu_state t'))
         = map Some (as_search_fetch_targets (tu_state t))
     \<and> tu_runs t' = tu_runs t + length calls
     \<and> (\<forall>c \<in> set (butlast calls). tr_error (tc_result c) \<noteq> Some confirmation_error)
     \<and> (as_search_fetch_targets (tu_state t') \<noteq> [] \<longrightarrow>
         calls \<noteq> [] \<and> tr_error (tc_result (last calls)) = Some confirmation_error)"
  using assms by (intro fetch_loop_props [of sv tool]) (simp_all add: fetch_search_targets_def)

section \<open>Facts: guarded tools\<close>

text \<open>An enabled tool that needs a confirmation nobody gave: the run is audited as failed, nothing else happens.\<close>

definition waits :: "registered_tool \<Rightarrow> bool" where
  "waits tool \<longleftrightarrow> pm_enabled (rt_manifest tool) \<and> pm_requires_confirmation (rt_manifest tool)"

lemma run_tool_waits:
  "waits tool \<Longrightarrow> \<not> tq_confirmed q \<Longrightarrow>
   run_tool w env current now audit_id trace_id q tool arguments d =
     audited env current now audit_id q tool arguments
       (make_response env tool (lit ''failed'') trace_id JNull (Some confirmation_error)) d"
  by (simp add: run_tool_def waits_def Let_def)

lemma execute_waits:
  assumes "waits tool"
  shows "execute sv False tool arguments t = execute (sv\<lparr>sv_world := w\<rparr>) False tool arguments t"
    and "execute sv False tool arguments t = (t', Inr r) \<Longrightarrow> tr_status r = lit ''failed'' \<and> tr_error r = Some confirmation_error"
proof -
  have q: "\<not> tq_confirmed (tool_request False st)" for st by (simp add: tool_request_def)
  show "execute sv False tool arguments t = execute (sv\<lparr>sv_world := w\<rparr>) False tool arguments t"
    by (simp add: execute_def run_tool_waits [OF assms q])
  show "tr_status r = lit ''failed'' \<and> tr_error r = Some confirmation_error"
    if "execute sv False tool arguments t = (t', Inr r)"
    using that by (auto simp: execute_def run_tool_waits [OF assms q] audited_def make_response_def split: prod.splits sum.splits)
qed

text \<open>The call that the graph takes as the sign to wait for the user.\<close>

definition needs_user :: "tool_call_entry \<Rightarrow> bool" where
  "needs_user c \<longleftrightarrow> tc_requires_confirmation c \<and> tr_status (tc_result c) = lit ''failed''
     \<and> tr_error (tc_result c) = Some confirmation_error"

text \<open>
  A tool that needs confirmation is not run by the plan that asks for it: the step has the same
  outcome whatever the tool would do, makes one attempt, and leaves a last call that waits for the user.
\<close>

theorem guarded_plan_waits_for_user:
  assumes "pl_no_tool (as_plan (tu_state t)) = False" and "pl_tool_name (as_plan (tu_state t)) = Some name"
    and "pl_requires_confirmation (as_plan (tu_state t))" and "find_tool sv name = Some tool" and "waits tool"
    and "as_confirmed_search_target (tu_state t) = None"
  shows "maybe_execute_tool sv t = maybe_execute_tool (sv\<lparr>sv_world := w\<rparr>) t
    \<and> (\<forall>t'. maybe_execute_tool sv t = (t', Inr ()) \<longrightarrow>
        (\<exists>c. as_tool_calls (tu_state t') = as_tool_calls (tu_state t)
          @ [c] \<and> needs_user c) \<and> tu_runs t' = Suc (tu_runs t))"
proof -
  let ?args = "pl_arguments (as_plan (tu_state t))"
  let ?t0 = "emit (ToolCallEv name ?args True False) t"
  have plan: "execute_tool_plan v ?t0 = execute v False tool ?args ?t0" if "find_tool v name = Some tool" for v
    using assms(2,3) that by (simp add: execute_tool_plan_def Let_def)
  have f: "find_tool (sv\<lparr>sv_world := w\<rparr>) name = Some tool" using assms(4) by (simp add: find_tool_def)
  obtain t1 x where e: "execute sv False tool ?args ?t0 = (t1, x)" by fastforce
  then have e': "execute (sv\<lparr>sv_world := w\<rparr>) False tool ?args ?t0 = (t1,
    x)" using execute_waits(1) [OF assms(5)] by metis
  note run = maybe_execute_tool_def assms(1-3) plan [OF assms(4)] plan [OF f] e e' Let_def
  show ?thesis
  proof (cases x)
    case (Inl exc)
    then show ?thesis by (simp add: run)
  next
    case (Inr r)
    have r: "tr_status r = lit ''failed''" "tr_error r = Some confirmation_error"
      using execute_waits(2) [OF assms(5) e [unfolded Inr]] by simp_all
    have st: "tu_state t1 = tu_state t" "tu_runs t1 = Suc (tu_runs t)" using execute_simps [OF e] by simp_all
    have "as_tool_calls (record_result lib name r (tu_state t)) =
        as_tool_calls (tu_state t) @ [plan_call (as_plan (tu_state t)) name r]" for lib
      using assms(6) by (simp add: record_result_def Let_def)
    moreover have "needs_user (plan_call (as_plan (tu_state t)) name r)"
      using r assms(3) by (simp add: needs_user_def plan_call_def)
    ultimately show ?thesis using Inr r st assms(6) by (simp add: run)
  qed
qed

end
