(* ===== verification/Planner.thy ===== *)
theory Planner
  imports Web_Query Tool_Loop Model_Gateway
begin

text \<open>
  The planner of the agent (\<open>_plan_next_step\<close>,
    \<open>_plan_early_confirmable_tool\<close> and the plan builders of
  \<open>agent/runtime.py\<close>): at most one tool call at a time, taken from the registry, with the tool's own
  provider and confirmation flag. The model only contributes the rewritten web query (\<open>candidate\<close>); the
  other choices are made by rules over the message.
\<close>

definition mcp_github_server_name :: ustr where "mcp_github_server_name = (lit ''github'')"
definition mcp_github_file_tool_ids :: "ustr list" where "mcp_github_file_tool_ids = [(lit ''get_file_contents'')]"
definition mcp_huggingface_server_name :: ustr where "mcp_huggingface_server_name = (lit ''huggingface'')"

section \<open>Plans\<close>

definition no_tool_plan :: "ustr \<Rightarrow> agent_plan" where
  "no_tool_plan reason = default_plan\<lparr>pl_reason := reason\<rparr>"

text \<open>The plan of a registered tool.\<close>

definition tool_plan :: "registered_tool \<Rightarrow> dict \<Rightarrow> ustr \<Rightarrow> agent_plan" where
  "tool_plan tool arguments reason = \<lparr>pl_no_tool = False, pl_tool_name = Some (tool_name tool),
     pl_provider = rt_provider tool, pl_provider_tool_id = rt_provider_tool_id tool,
     pl_server_name = rt_server_name tool, pl_arguments = arguments, pl_reason = reason,
     pl_requires_confirmation = pm_requires_confirmation (rt_manifest tool)\<rparr>"

text \<open>The plan of a built-in tool by name, planned whether or not the registry has it.\<close>

definition builtin_plan :: "registered_tool option \<Rightarrow> ustr \<Rightarrow> dict \<Rightarrow> ustr \<Rightarrow> agent_plan" where
  "builtin_plan tool name arguments reason = \<lparr>pl_no_tool = False, pl_tool_name = Some name,
     pl_provider = (case tool of None \<Rightarrow> local_plugin | Some t \<Rightarrow> rt_provider t),
     pl_provider_tool_id = (case tool of None \<Rightarrow> Some name | Some t \<Rightarrow> rt_provider_tool_id t),
     pl_server_name = (case tool of None \<Rightarrow> None | Some t \<Rightarrow> rt_server_name t),
     pl_arguments = arguments, pl_reason = reason,
     pl_requires_confirmation = (case tool of None \<Rightarrow> False | Some t \<Rightarrow> pm_requires_confirmation (rt_manifest t))\<rparr>"

section \<open>Finding tools\<close>

definition reg_get :: "registry option \<Rightarrow> ustr \<Rightarrow> registered_tool option" where
  "reg_get reg name = (case reg of None \<Rightarrow> None | Some r \<Rightarrow> registry_get r name)"

definition find_mcp_server_tools :: "registry option \<Rightarrow> ustr \<Rightarrow> registered_tool list" where
  "find_mcp_server_tools reg server_name = (case reg of
     None \<Rightarrow> []
   | Some r \<Rightarrow> filter (\<lambda>t. rt_provider t = mcp_server \<and> rt_server_name t = Some server_name
                \<and> pm_enabled (rt_manifest t)) (list_tools r))"

definition find_mcp_tool :: "registry option \<Rightarrow> ustr \<Rightarrow> ustr list \<Rightarrow> registered_tool option" where
  "find_mcp_tool reg server_name ids = (case reg of
     None \<Rightarrow> None
   | Some r \<Rightarrow>
       (case concat (map (\<lambda>i. filter (\<lambda>t. rt_provider t = mcp_server \<and> rt_server_name t = Some server_name
                \<and> rt_provider_tool_id t = Some i \<and> pm_enabled (rt_manifest t)) (list_tools r)) ids) of
          [] \<Rightarrow> None | t # _ \<Rightarrow> Some t))"

definition tool_candidate_of :: "registered_tool \<Rightarrow> tool_candidate" where
  "tool_candidate_of t = \<lparr>cd_name = tool_name t, cd_provider_tool_id = Some
     (case rt_provider_tool_id t of None \<Rightarrow> tool_name t | Some i \<Rightarrow> if i = [] then tool_name t else i)\<rparr>"

section \<open>Arguments\<close>

text \<open>\<open>set(schema.get("required") or [])\<close>: a list or dictionary in it is not hashable.\<close>

definition required_names :: "json \<Rightarrow> json list res" where
  "required_names j = (case list_or_empty j of
     Inl e \<Rightarrow> Inl e
   | Inr xs \<Rightarrow>
       (case find (\<lambda>x. is_list x \<or> is_obj x) xs of
          None \<Rightarrow> Inr xs
        | Some x \<Rightarrow> Inl (TypeError ((lit ''unhashable type: '' @ [39]) @ py_type_name x @ [39]))))"

definition accepts :: "dict \<Rightarrow> json list \<Rightarrow> ustr \<Rightarrow> bool" where
  "accepts properties required name \<longleftrightarrow> properties = [] \<or> dhas properties name \<or> JStr name \<in> set required"

text \<open>The properties and required names of a tool's schema.\<close>

definition tool_schema :: "registered_tool \<Rightarrow> (dict \<times> json list) res" where
  "tool_schema tool =
     (let params = pm_parameters (rt_manifest tool) in
      case required_names (dget params (lit ''required'')) of
        Inl e \<Rightarrow> Inl e
      | Inr required \<Rightarrow> Inr (obj_items (dget params (lit ''properties'')), required))"

definition github_file_arguments :: "registered_tool \<Rightarrow> github_ref \<Rightarrow> dict res" where
  "github_file_arguments tool ref = (case tool_schema tool of
     Inl e \<Rightarrow> Inl e
   | Inr (props, required) \<Rightarrow>
       (let ok = accepts props required in
        Inr ((if ok (lit ''owner'') then [((lit ''owner''), JStr (gh_owner ref))] else [])
          @ (if ok (lit ''repo'') then [((lit ''repo''), JStr (gh_repo ref))] else [])
          @ (if ok (lit ''repository'') then [((lit ''repository''), JStr (gh_owner ref @ (lit ''/'')
            @ gh_repo ref))] else [])
          @ (if gh_path ref \<noteq> [] \<or> ok (lit ''path'') then [((lit ''path''), JStr (gh_path ref))] else [])
          @ (if gh_ref ref = [] then []
             else if ok (lit ''ref'') then [((lit ''ref''), JStr (gh_ref ref))]
             else if ok (lit ''sha'') then [((lit ''sha''), JStr (gh_ref ref))]
             else if ok (lit ''branch'') then [((lit ''branch''), JStr (gh_ref ref))] else [])
          @ (if ok (lit ''url'') then [((lit ''url''), JStr (gh_url ref))] else []))))"

text \<open>The first accepted name of a list; of the query names the first that is not taken.\<close>

definition huggingface_arguments :: "text_lib \<Rightarrow> registered_tool \<Rightarrow> ustr \<Rightarrow> dict res" where
  "huggingface_arguments lib tool message = (case tool_schema tool of
     Inl e \<Rightarrow> Inl e
   | Inr (props, required) \<Rightarrow>
       (case extract_huggingface_reference lib message of
          Inl e \<Rightarrow> Inl e
        | Inr reference \<Rightarrow>
            (let ok = accepts props required;
                 from_ref = (case reference of
                   None \<Rightarrow> []
                 | Some ref \<Rightarrow>
                     (case find ok [(lit ''repo_id''), (lit ''repository''), (lit ''id'')] of
                        None \<Rightarrow> [] | Some n \<Rightarrow> [(n, JStr (hf_repo_id ref))])
                     @ (if ok (lit ''repo_type'') then [((lit ''repo_type''), JStr (hf_repo_type ref))]
                        else if ok (lit ''type'') then [((lit ''type''), JStr (hf_repo_type ref))] else [])
                     @ (if ok (lit ''url'') then [((lit ''url''), JStr (hf_url ref))] else []));
                 types = (if ok (lit ''repo_types'')
                   then (case infer_huggingface_repo_type message of
                           None \<Rightarrow> [] | Some k \<Rightarrow> [((lit ''repo_types''), JList [JStr k])])
                   else []);
                 query = (case find (\<lambda>n. ok n \<and> \<not> dhas (from_ref @ types) n)
                              [(lit ''query''), (lit ''q''), (lit ''search''), (lit ''text''), (lit ''prompt'')] of
                            None \<Rightarrow> [] | Some n \<Rightarrow> [(n,
                              JStr (huggingface_query lib message))]) in
             Inr (from_ref @ types @ query))))"

section \<open>Choosing a Hugging Face tool\<close>

definition find_tool_by_terms :: "registered_tool list \<Rightarrow> ustr list \<Rightarrow> registered_tool option" where
  "find_tool_by_terms tools terms =
     find (\<lambda>t. any_in terms (join [32] [lower (tool_name t), lower (opt_text (rt_provider_tool_id t)),
             lower (pm_description (rt_manifest t))])) tools"

definition hf_categories :: "(ustr list \<times> ustr list) list" where
  "hf_categories = [
     ([(lit ''repo''), (lit ''repository''), (lit ''details''), (lit ''readme''), [20179, 24211], [35814, 24773]],
      [(lit ''hub_repo_details''), (lit ''repo_details''), (lit ''repository details'')]),
     ([(lit ''dataset''), (lit ''datasets''), [25968, 25454, 38598]], [(lit ''dataset_search''),
       (lit ''hub_repo_search''), (lit ''repo_search'')]),
     ([(lit ''space''), (lit ''spaces'')], [(lit ''space_search''), (lit ''spaces semantic search'')]),
     ([(lit ''paper''), (lit ''papers''), [35770, 25991]], [(lit ''paper_search''),
       (lit ''papers semantic search'')]),
     ([(lit ''doc''), (lit ''docs''), (lit ''documentation''), (lit ''peft''), (lit ''lora''), [25991, 26723]],
      [(lit ''hf_doc_search''), (lit ''doc_search''), (lit ''documentation'')]),
     ([(lit ''job''), (lit ''jobs''), (lit ''run''), (lit ''manage''), [36816, 34892], [31649, 29702]],
       [(lit ''job''), (lit ''jobs'')]),
     (model_terms, [(lit ''model_search''), (lit ''hub_repo_search''), (lit ''repo_search'')])]"

fun select_by_category :: "ustr \<Rightarrow> registered_tool list \<Rightarrow> (ustr list \<times> ustr list) list \<Rightarrow> registered_tool option" where
  "select_by_category lowered tools [] = None"
| "select_by_category lowered tools ((message_terms, tool_terms) # cats) =
     (if \<not> any_in message_terms lowered then select_by_category lowered tools cats
      else (case find_tool_by_terms tools tool_terms of
              Some t \<Rightarrow> Some t | None \<Rightarrow> select_by_category lowered tools cats))"

definition select_huggingface_tool :: "text_lib \<Rightarrow> ustr \<Rightarrow> registered_tool list \<Rightarrow> registered_tool option" where
  "select_huggingface_tool lib message tools =
     select_by_category (lower message) tools
       ((if rx_search (lx_uni lib) huggingface_url_re message
         then [([(lit ''repo'')], [(lit ''hub_repo_details''), (lit ''repo_details''),
           (lit ''repository details'')])] else [])
        @ hf_categories)"

section \<open>The plan builders\<close>

definition plan_fetch_tool :: "text_lib \<Rightarrow> registry option \<Rightarrow> int \<Rightarrow> ustr \<Rightarrow> agent_plan option" where
  "plan_fetch_tool lib reg max_length message =
     (case extract_fetch_url lib message of
        None \<Rightarrow> None
      | Some url \<Rightarrow>
          (case reg_get reg mcp_fetch_tool_name of
             None \<Rightarrow>
               if \<not> requests_fetch_url message then None
               else Some (no_tool_plan (lit ''The user asked to read a specific web page, but the fetch MCP tool is not available.''))
           | Some tool \<Rightarrow>
               Some (tool_plan tool [((lit ''url''), JStr url), ((lit ''max_length''), JInt max_length)]
                 (lit ''The user asked to fetch and summarize a specific web page URL.''))))"

text \<open>\<open>(?<![A-Za-z0-9_.-])readme(?![A-Za-z0-9_.-])\<close>, ignoring case.\<close>

definition name_char :: "nat \<Rightarrow> bool" where
  "name_char c \<longleftrightarrow> ascii_word c \<or> c \<in> {46, 45, 304, 305, 383, 8490}"

definition readme_re :: rx where
  "readme_re = rx_seq [
     Guard (\<lambda>prev _. case prev of None \<Rightarrow> True | Some c \<Rightarrow> \<not> name_char c),
       rx_iword ''readme'',
     Guard (\<lambda>_ nxt. case nxt of None \<Rightarrow> True | Some c \<Rightarrow> \<not> name_char c)]"

text \<open>A path named in the message completes a URL of the repository's root.\<close>

definition requested_repo_path :: "text_lib \<Rightarrow> ustr \<Rightarrow> ustr option" where
  "requested_repo_path lib message =
     (let request = message_without_urls lib message in
      case extract_read_file_path lib request of
        Some p \<Rightarrow> Some p
      | None \<Rightarrow> if rx_search (lx_uni lib) readme_re request then Some (lit ''README.md'') else None)"

definition plan_github_tool :: "text_lib \<Rightarrow> registry option \<Rightarrow> ustr \<Rightarrow> agent_plan option res" where
  "plan_github_tool lib reg message =
     (case extract_github_reference lib message of
        Inl e \<Rightarrow> Inl e
      | Inr None \<Rightarrow> Inr None
      | Inr (Some ref0) \<Rightarrow>
          (let ref = (if gh_path ref0 \<noteq> [] then ref0
             else (case requested_repo_path lib message of
                     None \<Rightarrow> ref0 | Some p \<Rightarrow> ref0\<lparr>gh_path := replace_all [92] [47] p\<rparr>)) in
           case find_mcp_tool reg mcp_github_server_name mcp_github_file_tool_ids of
             None \<Rightarrow> Inr (Some (no_tool_plan (lit ''The user shared a GitHub link, but the GitHub MCP file-content tool is not available.'')))
           | Some tool \<Rightarrow>
               (case github_file_arguments tool ref of
                  Inl e \<Rightarrow> Inl e
                | Inr arguments \<Rightarrow> Inr (Some (tool_plan tool arguments
                    (lit ''The user shared a GitHub link, so read repository content through GitHub MCP before answering.''))))))"

definition planned_candidate :: "registry option \<Rightarrow> ustr \<Rightarrow> registered_tool list \<Rightarrow> agent_plan option" where
  "planned_candidate reg message tools =
     (let planned = plan_tool_call message (map tool_candidate_of tools) in
      if sp_no_tool planned then None
      else (case sp_tool_name planned of
              None \<Rightarrow> None
            | Some name \<Rightarrow>
                (case reg_get reg name of
                   None \<Rightarrow> None
                 | Some tool \<Rightarrow> Some (tool_plan tool (sp_arguments planned) (sp_reason planned)))))"

definition plan_huggingface_tool :: "text_lib \<Rightarrow> registry option \<Rightarrow> ustr \<Rightarrow> agent_plan option res" where
  "plan_huggingface_tool lib reg message =
     (if \<not> requests_huggingface_tool message then Inr None
      else
        (let tools = find_mcp_server_tools reg mcp_huggingface_server_name in
         if tools = [] then Inr (Some (no_tool_plan (lit ''The user asked for Hugging Face Hub resources, but the Hugging Face MCP server is not available.'')))
         else (case select_huggingface_tool lib message tools of
                 None \<Rightarrow> Inr (planned_candidate reg message tools)
               | Some tool \<Rightarrow>
                   (case huggingface_arguments lib tool message of
                      Inl e \<Rightarrow> Inl e
                    | Inr arguments \<Rightarrow> Inr (Some (tool_plan tool arguments
                        (lit ''The user asked to search or read Hugging Face Hub resources through MCP.'')))))))"

definition plan_mcp_tool :: "registry option \<Rightarrow> ustr \<Rightarrow> agent_plan option" where
  "plan_mcp_tool reg message =
     (let tools = (case reg of None \<Rightarrow> [] | Some r \<Rightarrow> filter (\<lambda>t. rt_provider t = mcp_server) (list_tools r)) in
      if tools = [] then None else planned_candidate reg message tools)"

definition plan_early_confirmable_tool :: "text_lib \<Rightarrow> registry option \<Rightarrow> int \<Rightarrow> ustr \<Rightarrow> agent_plan option res" where
  "plan_early_confirmable_tool lib reg max_length message =
     (case extract_github_reference lib message of
        Inl e \<Rightarrow> Inl e
      | Inr found \<Rightarrow>
          (case (if found \<noteq> None then plan_github_tool lib reg message
                 else if requests_huggingface_tool message then Inr None
                 else Inr (plan_fetch_tool lib reg max_length message)) of
             Inl e \<Rightarrow> Inl e
           | Inr None \<Rightarrow> Inr None
           | Inr (Some plan) \<Rightarrow>
               Inr (if \<not> pl_no_tool plan \<and> pl_requires_confirmation plan then Some plan else None)))"

section \<open>The next step\<close>

text \<open>A tool that already answered in this turn ends the planning.\<close>

definition already_done :: "tool_call_entry list \<Rightarrow> ustr option" where
  "already_done calls =
     (let named = (\<lambda>n. list_ex (\<lambda>c. tc_tool_name c = n) calls);
          under = (\<lambda>p. list_ex (\<lambda>c. prefix p (tc_tool_name c)) calls) in
      if named (lit ''read_file'') then Some (lit ''The requested file has already been read.'')
      else if under (lit ''mcp.github.'') then Some (lit ''The requested GitHub repository content has already been read.'')
      else if named mcp_fetch_tool_name then Some (lit ''The requested web page has already been fetched.'')
      else if under (lit ''mcp.huggingface.'') then Some (lit ''The requested Hugging Face MCP lookup has already been completed.'')
      else if named web_search_tool_name then Some (lit ''The web has already been searched.'')
      else None)"

definition plan_read_file :: "text_lib \<Rightarrow> registry option \<Rightarrow> ustr \<Rightarrow> agent_plan option" where
  "plan_read_file lib reg message =
     (case extract_read_file_path lib message of
        Some path \<Rightarrow>
          if requests_file_read lib message
          then Some (builtin_plan (reg_get reg (lit ''read_file'')) (lit ''read_file'') [((lit ''path''), JStr path)]
                 (lit ''The user asked to read a local file before answering.''))
          else None
      | None \<Rightarrow> None)"

definition plan_web_search :: "text_lib \<Rightarrow> registry option \<Rightarrow> ustr res \<Rightarrow> ustr \<Rightarrow> agent_plan res" where
  "plan_web_search lib reg candidate message =
     (case web_search_arguments lib candidate message of
        Inl e \<Rightarrow> Inl e
      | Inr arguments \<Rightarrow> Inr (builtin_plan (reg_get reg web_search_tool_name) web_search_tool_name arguments
          (lit ''The user asked for current or external web information.'')))"

definition plan_next_step ::
  "text_lib \<Rightarrow> registry option \<Rightarrow> int \<Rightarrow> ustr res \<Rightarrow> agent_state \<Rightarrow> agent_plan res" where
  "plan_next_step lib reg max_length candidate st =
     (let message = as_message st in
      case already_done (as_tool_calls st) of
        Some reason \<Rightarrow> Inr (no_tool_plan reason)
      | None \<Rightarrow>
          (case plan_github_tool lib reg message of
             Inl e \<Rightarrow> Inl e
           | Inr (Some p) \<Rightarrow> Inr p
           | Inr None \<Rightarrow>
               (case plan_read_file lib reg message of
                  Some p \<Rightarrow> Inr p
                | None \<Rightarrow>
                    (case plan_fetch_tool lib reg max_length message of
                       Some p \<Rightarrow> Inr p
                     | None \<Rightarrow>
                         (case plan_huggingface_tool lib reg message of
                            Inl e \<Rightarrow> Inl e
                          | Inr (Some p) \<Rightarrow> Inr p
                          | Inr None \<Rightarrow>
                              if requests_web_search lib message then plan_web_search lib reg candidate message
                              else if tool_availability_answer lib reg message \<noteq> None
                              then Inr (no_tool_plan (lit ''The user asked about available tools.''))
                              else (case plan_mcp_tool reg message of
                                      Some p \<Rightarrow> Inr p
                                    | None \<Rightarrow> Inr (no_tool_plan (lit ''No tool is needed for this message.''))))))))"

section \<open>Facts\<close>

text \<open>
  A sound plan calls nothing, or a tool of the registry under that tool's own flags, or one of the two
  built-in names the registry lacks.
\<close>

definition sound_plan :: "registry option \<Rightarrow> agent_plan \<Rightarrow> bool" where
  "sound_plan reg p \<longleftrightarrow> pl_no_tool p
     \<or> (\<exists>tool arguments reason. reg_get reg (tool_name tool) = Some tool \<and> p = tool_plan tool arguments reason)
     \<or> (\<exists>name arguments reason. name \<in> {(lit ''read_file''),
       web_search_tool_name} \<and> reg_get reg name = None
          \<and> p = builtin_plan None name arguments reason)"

lemma no_tool_plan_sound [simp]: "sound_plan reg (no_tool_plan reason)"
  by (simp add: sound_plan_def no_tool_plan_def default_plan_def)

lemma reg_get_name: "reg_get reg name = Some tool \<Longrightarrow> tool_name tool = name"
  by (auto simp: reg_get_def registry_get_def dest: find_row_Some(2) split: option.splits)

lemma tool_plan_sound: "reg_get reg name = Some tool \<Longrightarrow> sound_plan reg (tool_plan tool arguments reason)"
  using reg_get_name [of reg name tool] by (auto simp: sound_plan_def)

lemma builtin_plan_tool: "tool_name tool = name \<Longrightarrow> builtin_plan (Some tool) name arguments reason = tool_plan tool arguments reason"
  by (simp add: builtin_plan_def tool_plan_def)

lemma builtin_plan_sound:
  assumes "name \<in> {(lit ''read_file''), web_search_tool_name}"
  shows "sound_plan reg (builtin_plan (reg_get reg name) name arguments reason)"
proof (cases "reg_get reg name")
  case None
  with assms show ?thesis unfolding sound_plan_def by (intro disjI2) auto
next
  case (Some tool)
  with tool_plan_sound [OF Some] reg_get_name [OF Some] show ?thesis by (simp add: builtin_plan_tool)
qed

text \<open>The names of a registry are its keys, so a listed tool is the one found under its name.\<close>

definition keyed :: "registry option \<Rightarrow> bool" where
  "keyed reg \<longleftrightarrow> (case reg of None \<Rightarrow> True | Some r \<Rightarrow> distinct (map tool_name r))"

lemma listed_tool_found:
  assumes "keyed (Some r)" and "tool \<in> set (list_tools r)"
  shows "reg_get (Some r) (tool_name tool) = Some tool"
  using assms find_row_in_distinct [of tool_name r tool]
  by (simp add: keyed_def keys_distinct_def list_tools_def reg_get_def registry_get_def)

lemma select_by_category_mem: "select_by_category lowered tools cats = Some t \<Longrightarrow> t \<in> set tools"
  by (induction lowered tools cats rule: select_by_category.induct)
    (auto simp: find_tool_by_terms_def dest: find_SomeD split: if_splits option.splits)

lemma planned_candidate_sound: "planned_candidate reg message tools = Some p \<Longrightarrow> sound_plan reg p"
  by (auto simp: planned_candidate_def Let_def tool_plan_sound split: if_splits option.splits)

lemma find_mcp_tool_listed:
  "find_mcp_tool reg server_name ids = Some tool \<Longrightarrow> \<exists>r. reg = Some r \<and> tool \<in> set (list_tools r)"
proof (cases reg)
  case (Some r)
  let ?found = "concat (map (\<lambda>i. filter (\<lambda>t. rt_provider t = mcp_server \<and> rt_server_name t = Some server_name
                \<and> rt_provider_tool_id t = Some i \<and> pm_enabled (rt_manifest t)) (list_tools r)) ids)"
  assume "find_mcp_tool reg server_name ids = Some tool"
  with Some have "tool \<in> set ?found" by (cases ?found) (auto simp: find_mcp_tool_def simp del: set_concat)
  then have "tool \<in> set (list_tools r)" by auto
  with Some show ?thesis by blast
qed (simp add: find_mcp_tool_def)

lemma plan_github_sound:
  assumes "keyed reg" and "plan_github_tool lib reg message = Inr (Some p)"
  shows "sound_plan reg p"
proof (cases "find_mcp_tool reg mcp_github_server_name mcp_github_file_tool_ids")
  case None
  with assms(2) show ?thesis by (auto simp: plan_github_tool_def Let_def split: sum.splits option.splits)
next
  case (Some tool)
  then obtain r where r: "reg = Some r" "tool \<in> set (list_tools r)" by (auto dest: find_mcp_tool_listed)
  from listed_tool_found [OF assms(1) [unfolded r(1)] r(2)] have "reg_get reg (tool_name tool) = Some tool" by (simp add: r(1))
  moreover obtain arguments reason where "p = tool_plan tool arguments reason"
    using assms(2) Some by (auto simp: plan_github_tool_def Let_def split: sum.splits option.splits)
  ultimately show ?thesis using tool_plan_sound by metis
qed

lemma plan_huggingface_sound:
  assumes "keyed reg" and "plan_huggingface_tool lib reg message = Inr (Some p)"
  shows "sound_plan reg p"
proof -
  let ?tools = "find_mcp_server_tools reg mcp_huggingface_server_name"
  show ?thesis
  proof (cases "select_huggingface_tool lib message ?tools")
    case None
    then show ?thesis using assms(2) planned_candidate_sound
      by (auto simp: plan_huggingface_tool_def Let_def split: if_splits sum.splits)
  next
    case (Some tool)
    then have "tool \<in> set ?tools" by (auto simp: select_huggingface_tool_def dest: select_by_category_mem)
    then obtain r where r: "reg = Some r" "tool \<in> set (list_tools r)"
      by (auto simp: find_mcp_server_tools_def split: option.splits)
    from listed_tool_found [OF assms(1) [unfolded r(1)] r(2)] have g: "reg_get reg (tool_name tool) = Some tool" by (simp add: r(1))
    consider "p = no_tool_plan (lit ''The user asked for Hugging Face Hub resources, but the Hugging Face MCP server is not available.'')"
      | arguments reason where "p = tool_plan tool arguments reason"
      using assms(2) Some by (auto simp: plan_huggingface_tool_def Let_def split: if_splits sum.splits)
    then show ?thesis using tool_plan_sound [OF g] by cases simp_all
  qed
qed

lemma plan_fetch_sound: "plan_fetch_tool lib reg n message = Some p \<Longrightarrow> sound_plan reg p"
  by (auto simp: plan_fetch_tool_def tool_plan_sound split: option.splits if_splits)

lemma plan_mcp_sound: "plan_mcp_tool reg message = Some p \<Longrightarrow> sound_plan reg p"
  by (auto simp: plan_mcp_tool_def Let_def dest: planned_candidate_sound split: if_splits)

lemma plan_read_file_sound: "plan_read_file lib reg message = Some p \<Longrightarrow> sound_plan reg p"
  by (auto simp: plan_read_file_def builtin_plan_sound split: option.splits if_splits)

lemma plan_web_search_sound: "plan_web_search lib reg candidate message = Inr p \<Longrightarrow> sound_plan reg p"
  by (auto simp: plan_web_search_def builtin_plan_sound split: sum.splits)

lemma next_step_sound:
  assumes "keyed reg" and "plan_next_step lib reg n candidate st = Inr p"
  shows "sound_plan reg p"
  using assms(2) plan_github_sound [OF assms(1)] plan_huggingface_sound [OF assms(1)]
    plan_fetch_sound plan_mcp_sound plan_read_file_sound plan_web_search_sound
  by (simp add: plan_next_step_def Let_def split: option.splits sum.splits if_splits) auto

lemma early_plan_sound:
  assumes "keyed reg" and "plan_early_confirmable_tool lib reg n message = Inr (Some p)"
  shows "sound_plan reg p \<and> \<not> pl_no_tool p \<and> pl_requires_confirmation p"
  using assms(2) plan_github_sound [OF assms(1)] plan_fetch_sound
  by (auto simp: plan_early_confirmable_tool_def split: option.splits sum.splits if_splits)

text \<open>
  C38. Every planned step is well formed: it calls nothing, or a tool of the registry with that tool's own
  provider, ids and confirmation flag, or a built-in name the registry lacks (which the executor then
  refuses as unknown). No message and no model answer can plan a tool under another provider or lift its
  confirmation.
\<close>

theorem planned_step_is_registered:
  assumes "keyed reg"
  shows "case plan_next_step lib reg n candidate st of Inl e \<Rightarrow> True | Inr p \<Rightarrow>
    pl_no_tool p
    \<or> (\<exists>tool. reg_get reg (tool_name tool) = Some tool \<and> pl_tool_name p = Some (tool_name tool)
         \<and> pl_provider p = rt_provider tool \<and> pl_provider_tool_id p = rt_provider_tool_id tool
         \<and> pl_server_name p = rt_server_name tool
         \<and> pl_requires_confirmation p = pm_requires_confirmation (rt_manifest tool))
    \<or> (\<exists>name. name \<in> {(lit ''read_file''), web_search_tool_name} \<and> reg_get reg name = None
         \<and> pl_tool_name p = Some name \<and> pl_provider p = local_plugin \<and> \<not> pl_requires_confirmation p)"
proof (cases "plan_next_step lib reg n candidate st")
  case (Inr p)
  from next_step_sound [OF assms this] show ?thesis
    unfolding Inr sound_plan_def by (auto simp: tool_plan_def builtin_plan_def)
qed simp

theorem planned_step_is_registered_witness:
  "case plan_next_step demo_text_lib (Some [demo_tool]) 8000 (Inr []) (demo_agent_state []) of Inl e \<Rightarrow> True | Inr p \<Rightarrow>
    pl_no_tool p \<or> pl_requires_confirmation p \<or> pl_tool_name p = Some web_search_tool_name"
proof -
  have "keyed (Some [demo_tool])"
    by (auto simp: keyed_def registry_get_def find_row_def)
  moreover have "reg_get (Some [demo_tool]) name = (if name = (lit ''read_file'') then Some demo_tool else None)" for name
    by (auto simp: reg_get_def registry_get_def find_row_def tool_name_def demo_tool_def)
  moreover have "pm_requires_confirmation (rt_manifest demo_tool)" by (simp add: demo_tool_def)
  ultimately show ?thesis
    using planned_step_is_registered [of "Some [demo_tool]" demo_text_lib 8000 "Inr []" "demo_agent_state []"]
    by (auto split: sum.splits if_splits)
qed

end
