(* ===== verification/Agent_Answer.thy ===== *)
theory Agent_Answer
  imports Response_Policy Model_Gateway Context_Budget Mcp_Content
begin

text \<open>
  The answer of a turn (\<open>agent/runtime.py\<close>): the supplemental texts shown to the model, fitted into the
  context budget, the streamed reply and its cleaning; and the MCP resources and prompts that a message
  names. The MCP client is the record \<open>mcp_reader\<close> of what its calls return.
\<close>

section \<open>Resources and prompts named in a message\<close>

record mcp_reader =
  mx_resources :: "dict list res"
  mx_read_resource :: "ustr \<Rightarrow> ustr \<Rightarrow> dict res"
  mx_prompts :: "dict list res"
  mx_get_prompt :: "ustr \<Rightarrow> ustr \<Rightarrow> dict res"

definition names_it :: "ustr \<Rightarrow> ustr \<Rightarrow> bool" where
  "names_it lowered name \<longleftrightarrow> name \<noteq> [] \<and> substr (lower name) lowered"

text \<open>\<open>str(item["server_name"])\<close>; the key is missing only in a foreign catalog.\<close>

definition item_server :: "text_lib \<Rightarrow> dict \<Rightarrow> ustr res" where
  "item_server lib item = (case map_of item (lit ''server_name'') of
     None \<Rightarrow> Inl (KeyError ([39] @ lit ''server_name''
       @ [39])) | Some v \<Rightarrow> Inr (scalar_str (lx_repr lib) v))"

fun load_resources :: "text_lib \<Rightarrow> mcp_reader \<Rightarrow> ustr \<Rightarrow> dict list \<Rightarrow> json list res" where
  "load_resources lib mx lowered [] = Inr []"
| "load_resources lib mx lowered (item # items) =
     (let uri = str_or (lx_repr lib) (dget item (lit ''uri'')) []; name = str_or (lx_repr lib) (dget item (lit ''name'')) [] in
      if \<not> names_it lowered uri \<and> \<not> names_it lowered name then load_resources lib mx lowered items
      else
        (case item_server lib item of
           Inl e \<Rightarrow> Inl e
         | Inr server \<Rightarrow>
             (case mx_read_resource mx server uri of
                Inl e \<Rightarrow> Inl e
              | Inr loaded \<Rightarrow>
                  (case load_resources lib mx lowered items of
                     Inl e \<Rightarrow> Inl e
                   | Inr rest \<Rightarrow>
                       Inr (JObj [((lit ''server_name''), JStr server), ((lit ''uri''), JStr uri), ((lit ''name''),
                         JStr name),
                             ((lit ''text''), JStr (extract_mcp_resource_text loaded))] # rest)))))"

definition load_mcp_resources :: "text_lib \<Rightarrow> mcp_reader option \<Rightarrow> ustr \<Rightarrow> json list res" where
  "load_mcp_resources lib client message = (case client of
     None \<Rightarrow> Inr []
   | Some mx \<Rightarrow> (case mx_resources mx of Inl e \<Rightarrow> Inl e | Inr items \<Rightarrow> load_resources lib mx (lower message) items))"

text \<open>A prompt with a required argument is not usable from a bare mention.\<close>

definition requires_arguments :: "dict \<Rightarrow> bool" where
  "requires_arguments prompt = (case dget prompt (lit ''arguments'') of
     JList xs \<Rightarrow> list_ex (\<lambda>x. is_obj x \<and> jget x (lit ''required'') = JBool True) xs | _ \<Rightarrow> False)"

definition prompt_content :: "text_lib \<Rightarrow> dict \<Rightarrow> ustr res" where
  "prompt_content lib loaded = (case list_or_empty (dget loaded (lit ''messages'')) of
     Inl e \<Rightarrow> Inl e
   | Inr items \<Rightarrow> Inr (join [10] (map (\<lambda>x. scalar_str (lx_repr lib) (jget x (lit ''content'')))
       (filter (\<lambda>x. is_obj x \<and> truthy (jget x (lit ''content''))) items))))"

fun load_prompts :: "text_lib \<Rightarrow> mcp_reader \<Rightarrow> ustr \<Rightarrow> dict list \<Rightarrow> json list res" where
  "load_prompts lib mx lowered [] = Inr []"
| "load_prompts lib mx lowered (item # items) =
     (let name = str_or (lx_repr lib) (dget item (lit ''name'')) [] in
      if \<not> names_it lowered name \<or> requires_arguments item then load_prompts lib mx lowered items
      else
        (case item_server lib item of
           Inl e \<Rightarrow> Inl e
         | Inr server \<Rightarrow>
             (case mx_get_prompt mx server name of
                Inl e \<Rightarrow> Inl e
              | Inr loaded \<Rightarrow>
                  (case prompt_content lib loaded of
                     Inl e \<Rightarrow> Inl e
                   | Inr txt \<Rightarrow>
                       (case load_prompts lib mx lowered items of
                          Inl e \<Rightarrow> Inl e
                        | Inr rest \<Rightarrow>
                            Inr (JObj [((lit ''server_name''), JStr server), ((lit ''name''), JStr name),
                              ((lit ''content''), JStr txt)] # rest))))))"

definition load_mcp_prompts :: "text_lib \<Rightarrow> mcp_reader option \<Rightarrow> ustr \<Rightarrow> json list res" where
  "load_mcp_prompts lib client message = (case client of
     None \<Rightarrow> Inr []
   | Some mx \<Rightarrow> (case mx_prompts mx of Inl e \<Rightarrow> Inl e | Inr items \<Rightarrow> load_prompts lib mx (lower message) items))"

section \<open>The supplemental context\<close>

text \<open>A chunk index is an integer in every citation the retrieval makes.\<close>

definition chunk_line :: "json \<Rightarrow> ustr list" where
  "chunk_line j = (case j of JInt i \<Rightarrow> [(lit ''Chunk: '') @ show_int (i + 1)] | _ \<Rightarrow> [])"

definition format_citation_context :: "text_lib \<Rightarrow> json \<Rightarrow> nat \<Rightarrow> ustr" where
  "format_citation_context lib c index =
     (let str = (\<lambda>k default. strip (str_or (lx_repr lib) (jget c k) default));
          section_context = jget (jget c (lit ''metadata'')) (lit ''retrieval_context'');
          source_uri = str (lit ''source_uri'') [];
          how = (lit ''Retrieval: '') @ str (lit ''retrieval_method'') (lit ''unknown'') in
      join [10] (
        [(lit ''Knowledge source '') @ show_nat index @ (lit '': '')
          @ str (lit ''title'') (lit ''Untitled knowledge source'')]
        @ chunk_line (jget c (lit ''chunk_index''))
        @ (if truthy section_context then [(lit ''Section context: '')
          @ scalar_str (lx_repr lib) section_context] else [])
        @ (if source_uri \<noteq> [] then [(lit ''Source: '') @ source_uri] else [])
        @ [if jget c (lit ''score'') = JNull then how
           else how @ (lit ''; relevance score: '') @ scalar_str (lx_repr lib) (jget c (lit ''score''))]
        @ [(lit ''Content:'' @ [10]) @ scalar_str (lx_repr lib) (jget c (lit ''content''))]))"

definition available_tools_context :: "registry option \<Rightarrow> ustr" where
  "available_tools_context reg =
     (let tools = available_tools reg in
      if tools = [] then []
      else join [10] ((lit ''Available runtime tools. If the user asks whether a tool exists, answer from this list:'')
        # map (\<lambda>t. (lit ''- '') @ tool_name t @ (lit '': '') @ pm_description (rt_manifest t)) tools))"

fun citation_texts :: "text_lib \<Rightarrow> nat \<Rightarrow> json list \<Rightarrow> ustr list" where
  "citation_texts lib n [] = []"
| "citation_texts lib n (c # cs) =
     (if truthy (jget c (lit ''content'')) then [format_citation_context lib c n] else [])
       @ citation_texts lib (Suc n) cs"

definition mcp_text :: "text_lib \<Rightarrow> ustr \<Rightarrow> ustr \<Rightarrow> ustr \<Rightarrow> json \<Rightarrow> ustr" where
  "mcp_text lib kind key body item =
     (lit ''MCP '') @ kind @ [32] @ scalar_str (lx_repr lib) (jget item key) @ (lit '' from '')
       @ scalar_str (lx_repr lib) (jget item (lit ''server_name'')) @ (lit '':'' @ [10])
         @ scalar_str (lx_repr lib) (jget item body)"

definition answer_context :: "text_lib \<Rightarrow> registry option \<Rightarrow> agent_state \<Rightarrow> ustr list" where
  "answer_context lib reg st =
     map (\<lambda>s. (lit ''Memory summary:'' @ [10]) @ s) (as_memory_summaries st)
     @ (let tools = available_tools_context reg in
        if tools \<noteq> [] \<and> requests_tool_inventory lib (lower (as_message st)) then [tools] else [])
     @ citation_texts lib 1 (as_citations st)
     @ map (mcp_text lib (lit ''resource'') (lit ''uri'') (lit ''text'')) (filter (\<lambda>i. truthy (jget i (lit ''text''))) (as_mcp_resources st))
     @ map (mcp_text lib (lit ''prompt'') (lit ''name'') (lit ''content'')) (filter (\<lambda>i. truthy (jget i (lit ''content''))) (as_mcp_prompts st))
     @ map (\<lambda>o'. (lit ''Tool observation:'' @ [10]) @ o') (as_observations st)"

section \<open>Generating the answer\<close>

definition budget_items :: "budget_report \<Rightarrow> (ustr \<times> int) list" where
  "budget_items b = [((lit ''max_chars''), bg_max_chars b), ((lit ''input_chars''), bg_input_chars b),
     ((lit ''dropped_history_messages''), bg_dropped_history_messages b),
     ((lit ''omitted_context_chars''), bg_omitted_context_chars b)]"

record model_services =
  ml_settings :: model_settings
  ml_provider :: provider
  ml_client :: stream_client

text \<open>The state with its budget and final answer, and the tokens yielded: the whole answer at once, or nothing.\<close>

definition generate_answer ::
  "text_lib \<Rightarrow> registry option \<Rightarrow> model_services \<Rightarrow> nat \<Rightarrow> ustr \<Rightarrow> agent_state \<Rightarrow> (agent_state \<times> ustr list) res" where
  "generate_answer lib reg ml max_chars model_name st =
     (case fit_context (as_message st) (as_history st) (answer_context lib reg st) (int max_chars) of
        Inl e \<Rightarrow> Inl e
      | Inr (history, ctx, budget) \<Rightarrow>
          (let st1 = st\<lparr>as_context_budget := budget_items budget\<rparr> in
           case stream_reply (ml_settings ml) (ml_provider ml) (ml_client ml) model_name (as_message st) ctx history of
             (_, _, Inl e) \<Rightarrow> Inl e
           | (parts, _, Inr _) \<Rightarrow>
               (case sanitize_model_answer lib (concat parts) st1 of
                  Inl e \<Rightarrow> Inl e
                | Inr answer \<Rightarrow> Inr (st1\<lparr>as_final_answer := answer\<rparr>,
                  if answer = [] then [] else [answer]))))"

section \<open>Facts\<close>

text \<open>Generating an answer touches only the budget and the answer.\<close>

lemma generate_answer_state:
  assumes "generate_answer lib reg ml max_chars model_name st = Inr (st', tokens)"
  shows "as_tool_calls st' = as_tool_calls st" "as_conversation_id st' = as_conversation_id st"
    "concat tokens = as_final_answer st'" "length tokens \<le> 1"
  using assms by (auto simp: generate_answer_def Let_def split: sum.splits prod.splits if_splits)

text \<open>Every resource that is loaded was named by the message, in the order of the catalog.\<close>

lemma load_resources_named:
  "load_resources lib mx lowered items = Inr loaded \<Longrightarrow> r \<in> set loaded \<Longrightarrow>
   \<exists>uri name. jget r (lit ''uri'') = JStr uri \<and> jget r (lit ''name'') = JStr name \<and> (names_it lowered uri \<or> names_it lowered name)"
proof (induction lib mx lowered items arbitrary: loaded rule: load_resources.induct)
  case (2 lib mx lowered item items)
  let ?uri = "str_or (lx_repr lib) (dget item (lit ''uri'')) []" and ?name = "str_or (lx_repr lib) (dget item (lit ''name'')) []"
  show ?case
  proof (cases "\<not> names_it lowered ?uri \<and> \<not> names_it lowered ?name")
    case True
    with "2.prems" "2.IH"(1) [OF refl refl True] show ?thesis by (simp add: Let_def)
  next
    case False
    then obtain server page rest where l: "item_server lib item = Inr server" "mx_read_resource mx server ?uri = Inr page"
      "load_resources lib mx lowered items = Inr rest"
      "loaded = JObj [((lit ''server_name''), JStr server), ((lit ''uri''), JStr ?uri), ((lit ''name''), JStr ?name),
                             ((lit ''text''), JStr (extract_mcp_resource_text page))] # rest"
      using "2.prems"(1) by (auto simp: Let_def split: sum.splits)
    note IH = "2.IH"(2) [OF refl refl False l(1,2,3)]
    have k: "(lit ''uri'') \<noteq> (lit ''server_name'')" "(lit ''name'') \<noteq> (lit ''server_name'')" "(lit ''name'') \<noteq> (lit ''uri'')" by simp_all
    from l(4) "2.prems"(2) IH False show ?thesis by (auto simp: jget_def dget_def k)
  qed
qed simp

end
