(* ===== verification/Agent_Store.thy ===== *)
theory Agent_Store
  imports Task_Lease Agent_State Memory Tool_Approvals
begin

text \<open>
  What an agent turn reads and writes in the database (\<open>agent/runtime.py\<close>): its conversation, the recent
  history, the active memory, the title and the saved messages. A worker's writes lock its task lease
  first; a retried task finds the message it already saved.
\<close>

section \<open>Reading\<close>

definition new_conversation_title :: ustr where
  "new_conversation_title = (lit ''New conversation'')"

text \<open>A conversation of another user is not found; a new one is created instead (flushed, not committed).\<close>

definition ensure_conversation ::
  "uuid option \<Rightarrow> uuid option \<Rightarrow> uuid \<Rightarrow> time \<Rightarrow> db \<Rightarrow> db \<times> conversation" where
  "ensure_conversation usr requested new_id now d =
     (case (case requested of
              None \<Rightarrow> None
            | Some i \<Rightarrow> find (\<lambda>c. c_id c = i \<and> (usr = None \<or> c_user_id c = usr)) (db_conversations d)) of
        Some c \<Rightarrow> (d, c)
      | None \<Rightarrow>
          (let c = \<lparr>c_id = new_id, c_user_id = usr, c_title = new_conversation_title,
                    c_memory_cursor = NoCursor, c_updated_at = now\<rparr> in
           (d\<lparr>db_conversations := db_conversations d @ [c]\<rparr>, c)))"

text \<open>The messages of the task in progress are its own attempt, not history.\<close>

definition history_row :: "uuid option \<Rightarrow> uuid \<Rightarrow> message \<Rightarrow> bool" where
  "history_row task conv m \<longleftrightarrow> m_conversation_id m = conv
     \<and> (task = None \<or> m_agent_task_id m \<noteq> task) \<and> m_content m \<noteq> []"

definition load_recent_history ::
  "agent_settings \<Rightarrow> uuid option \<Rightarrow> uuid \<Rightarrow> db \<Rightarrow> chat_message list" where
  "load_recent_history s task conv d =
     map (\<lambda>m. (role_str (m_role m), m_content m))
       (rev (take (nat (agent_memory_message_limit s))
          (newest_first (filter (history_row task conv) (db_messages d)))))"

text \<open>Summaries updated and created at the same instants come in any order; here the later row first.\<close>

definition load_active_memory_summaries :: "uuid option \<Rightarrow> uuid \<Rightarrow> db \<Rightarrow> ustr list" where
  "load_active_memory_summaries usr conv d =
     filter (\<lambda>s. s \<noteq> []) (map ms_summary (take 3
       (rev (sort_key (\<lambda>x. (ms_updated_at x, ms_created_at x))
         (filter (\<lambda>x. ms_conversation_id x = conv \<and> ms_valid_to x = None
              \<and> list_ex (\<lambda>c. c_id c = conv \<and> c_user_id c = usr) (db_conversations d))
            (db_summaries d))))))"

section \<open>The title\<close>

definition title_prefixes :: "ustr list" where
  "title_prefixes = [[35831, 35760, 20303], [35831, 24110, 25105], [35831, 24110, 24537], [33021, 21542, 35831],
    [21487, 20197, 24110, 25105], [35831], [24110, 25105], [24110, 24537], [33021, 21542], [21487, 20197],
     (lit ''please''), (lit ''can you''), (lit ''could you'')]"

definition title_edge :: "nat \<Rightarrow> bool" where
  "title_edge c \<longleftrightarrow> c \<in> set (lit '' '' @ [65306] @ lit '':'' @ [65292] @ lit '','' @ [12290]
    @ lit ''.!'' @ [65281, 65311])"

text \<open>The longest prefix first; \<open>sorted\<close> with \<open>reverse\<close> keeps equal lengths in order.\<close>

definition longest_first :: "ustr list \<Rightarrow> ustr list" where
  "longest_first ts = sort_key (\<lambda>t. - int (length t)) ts"

definition summarize_title :: "ustr \<Rightarrow> ustr" where
  "summarize_title message =
     (let clean = join [32] (split_ws (strip message)) in
      if clean = [] then new_conversation_title
      else
        (let short = (case find (\<lambda>p. prefix p (lower clean)) (longest_first title_prefixes) of
               None \<Rightarrow> clean | Some p \<Rightarrow> strip_by title_edge (drop (length p) clean));
             title = rstrip_by title_edge (take 40 short) in
         if title = [] then new_conversation_title else title))"

definition auto_title_conversation ::
  "lease option \<Rightarrow> time \<Rightarrow> conversation \<Rightarrow> ustr \<Rightarrow> chat_message list \<Rightarrow> db \<Rightarrow> db \<times> unit res" where
  "auto_title_conversation current now c message history d =
     (if history \<noteq> [] \<or> strip (c_title c) \<noteq> new_conversation_title then (d, Inr ())
      else (case lock_task_lease current True now d of
              Inl e \<Rightarrow> (d, Inl e)
            | Inr _ \<Rightarrow>
                (let title = summarize_title message in
                 if title = c_title c then (d, Inr ())
                 else (put_conversation (c\<lparr>c_title := title, c_updated_at := now\<rparr>) d, Inr ()))))"

section \<open>Saving messages\<close>

record new_message =
  nm_role :: role
  nm_content :: ustr
  nm_tool_calls :: "tool_call_entry list"
  nm_metadata :: dict
  nm_model_name :: "ustr option"

definition message_row :: "uuid \<Rightarrow> uuid \<Rightarrow> time \<Rightarrow> uuid option \<Rightarrow> new_message \<Rightarrow> message" where
  "message_row new_id conv now task n = \<lparr>m_id = new_id, m_conversation_id = conv, m_role = nm_role n,
     m_content = nm_content n, m_model_name = nm_model_name n, m_created_at = now, m_agent_task_id = task,
     m_tool_calls = nm_tool_calls n, m_continuation = None, m_approval = None,
       m_metadata = JObj (nm_metadata n)\<rparr>"

text \<open>The message that an earlier attempt of the task saved in this role.\<close>

definition saved_before :: "uuid \<Rightarrow> uuid \<Rightarrow> role \<Rightarrow> db \<Rightarrow> bool" where
  "saved_before task conv r d \<longleftrightarrow>
     list_ex (\<lambda>m. m_conversation_id m = conv \<and> m_role m = r \<and> m_agent_task_id m = Some task) (db_messages d)"

text \<open>The insert needs a fresh id and an existing conversation (its foreign key).\<close>

definition insert_message :: "message \<Rightarrow> db \<Rightarrow> db \<times> unit res" where
  "insert_message m d =
     (if get_message (m_id m) d \<noteq> None \<or> m_conversation_id m \<notin> c_id ` set (db_conversations d)
      then (d, Inl IntegrityError)
      else (d\<lparr>db_messages := db_messages d @ [m]\<rparr>, Inr ()))"

definition save_message ::
  "lease option \<Rightarrow> time \<Rightarrow> uuid \<Rightarrow> uuid \<Rightarrow> new_message \<Rightarrow> db \<Rightarrow> db \<times> unit res" where
  "save_message current now new_id conv n d =
     (case lock_task_lease current True now d of
        Inl e \<Rightarrow> (d, Inl e)
      | Inr None \<Rightarrow> insert_message (message_row new_id conv now None n) d
      | Inr (Some t) \<Rightarrow>
          if saved_before (t_id t) conv (nm_role n) d then (d, Inr ())
          else
            (let d1 = (if nm_role n = AssistantRole
                       then put_task (block_replay now (lit ''Assistant answer saved'') t) d else d) in
             case insert_message (message_row new_id conv now (Some (t_id t)) n) d1 of
               (d2, Inr _) \<Rightarrow> (d2, Inr ())
             | (_, Inl e) \<Rightarrow> (d, Inl e)))"

definition user_message :: "ustr \<Rightarrow> new_message" where
  "user_message message = \<lparr>nm_role = UserRole, nm_content = message, nm_tool_calls = [], nm_metadata = [],
     nm_model_name = None\<rparr>"

definition route_dict :: "model_route \<Rightarrow> dict" where
  "route_dict r = [((lit ''provider''), JStr (mr_provider r)), ((lit ''model_name''), JStr (mr_model_name r)),
     ((lit ''reason''), JStr (mr_reason r))]"

definition assistant_message :: "agent_state \<Rightarrow> model_route \<Rightarrow> new_message" where
  "assistant_message st route = \<lparr>nm_role = AssistantRole, nm_content = as_final_answer st,
     nm_tool_calls = as_tool_calls st,
     nm_metadata = [((lit ''citations''), JList (as_citations st)), ((lit ''mcp_resources''),
       JList (as_mcp_resources st)),
       ((lit ''mcp_prompts''), JList (as_mcp_prompts st)),
       ((lit ''memory_summaries''), JList (map JStr (as_memory_summaries st))), ((lit ''trace_id''),
         JStr (as_trace_id st)),
       ((lit ''model_route''), JObj (route_dict route)),
       ((lit ''context_budget''), JObj (map (\<lambda>(k, v). (k, JInt v)) (as_context_budget st))),
       ((lit ''resolves_approval_id''), (case as_approval_id st of None \<Rightarrow> JNull | Some i \<Rightarrow> JStr (uuid_str i)))],
     nm_model_name = Some (mr_model_name route)\<rparr>"

definition save_assistant_message ::
  "lease option \<Rightarrow> time \<Rightarrow> uuid \<Rightarrow> agent_state \<Rightarrow> model_route \<Rightarrow> db \<Rightarrow> db \<times> unit res" where
  "save_assistant_message current now new_id st route d =
     (case as_conversation_id st of
        None \<Rightarrow> (d, Inl (RuntimeError (lit ''Cannot save assistant message without a conversation'')))
      | Some conv \<Rightarrow> save_message current now new_id conv (assistant_message st route) d)"

section \<open>Facts\<close>

lemma insert_message_cases:
  assumes "insert_message m d = (d', r)"
  obtains "r = Inl IntegrityError" "d' = d"
    | "r = Inr ()" "d' = d\<lparr>db_messages := db_messages d @ [m]\<rparr>" "get_message (m_id m) d = None"
  using assms by (auto simp: insert_message_def split: if_splits)

text \<open>A saved message is kept by a later row, and the inserted one is found under its id.\<close>

lemma get_message_append:
  "get_message i (d\<lparr>db_messages := db_messages d @ ms\<rparr>) =
     (case get_message i d of Some m \<Rightarrow> Some m | None \<Rightarrow> find_row m_id i ms)"
  by (simp add: get_message_def find_row_def find_append split: option.split)

lemma get_message_put_task [simp]: "get_message i (put_task t d) = get_message i d"
  by (simp add: get_message_def put_task_def)

lemma insert_keeps_messages:
  "insert_message m d = (d', r) \<Longrightarrow> get_message i d = Some x \<Longrightarrow> get_message i d' = Some x"
  by (erule insert_message_cases) (simp_all add: get_message_append)

lemma save_message_keeps:
  assumes "save_message current now new_id conv n d = (d', r)" and "get_message i d = Some x"
  shows "get_message i d' = Some x"
  using assms insert_keeps_messages
  by (auto simp: save_message_def Let_def split: sum.splits option.splits if_splits prod.splits)

text \<open>What a successful save leaves: the message, or the one of an earlier attempt of the same task.\<close>

lemma save_message_ok:
  assumes "save_message current now new_id conv n d = (d', Inr ())"
  shows "(\<exists>m \<in> set (db_messages d'). m_id m = new_id \<and> m_conversation_id m = conv \<and> m_role m = nm_role n
            \<and> m_content m = nm_content n \<and> m_tool_calls m = nm_tool_calls n)
    \<or> (\<exists>l. current = Some l \<and> saved_before (l_task_id l) conv (nm_role n) d \<and> d' = d)"
proof -
  have ins: "\<exists>m \<in> set (db_messages d2). m_id m = new_id \<and> m_conversation_id m = conv \<and> m_role m = nm_role n
            \<and> m_content m = nm_content n \<and> m_tool_calls m = nm_tool_calls n"
    if "insert_message (message_row new_id conv now k n) d1 = (d2, Inr ())" for k d1 d2
    using that by (rule insert_message_cases) (auto simp: message_row_def)
  have locked: "\<exists>l. current = Some l \<and> t_id t = l_task_id l" if "lock_task_lease current True now d = Inr (Some t)" for t
    using that by (auto simp: lock_task_lease_def dest: get_task_id split: option.splits if_splits)
  show ?thesis using assms ins locked
    by (auto simp: save_message_def Let_def split: sum.splits option.splits if_splits prod.splits)
qed

text \<open>A worker's answer blocks the replay of its task in the same transaction.\<close>

lemma answer_blocks_replay:
  assumes "save_message (Some l) now new_id conv n d = (d', Inr ())" and "nm_role n = AssistantRole"
    and "\<not> saved_before (l_task_id l) conv AssistantRole d"
  shows "\<exists>t. get_task (l_task_id l) d' = Some t \<and> t_replay_blocked_at t \<noteq> None"
proof -
  obtain t where l: "lock_task_lease (Some l) True now d = Inr (Some t)"
    using assms(1) by (auto simp: save_message_def lock_task_lease_def split: sum.splits option.splits if_splits)
  then have t: "get_task (l_task_id l) d = Some t" "t_id t = l_task_id l"
    by (auto simp: lock_task_lease_def dest: get_task_id split: option.splits if_splits)
  let ?t = "block_replay now (lit ''Assistant answer saved'') t"
  obtain d2 where i: "insert_message (message_row new_id conv now (Some (t_id t)) n) (put_task ?t d) = (d2, Inr ())"
    and d': "d' = d2"
    using assms l t by (auto simp: save_message_def Let_def split: prod.splits sum.splits)
  have "get_task (l_task_id l) (put_task ?t d) = Some ?t" using t by (simp add: get_put_task block_replay_def)
  moreover have "get_task (l_task_id l) d2 = get_task (l_task_id l) (put_task ?t d)"
    using i by (rule insert_message_cases) (simp_all add: get_task_def)
  ultimately show ?thesis using d' by (auto simp: block_replay_def split: option.splits)
qed

text \<open>The history never exceeds the configured number of messages and never shows the task's own.\<close>

lemma history_bound: "length (load_recent_history s task conv d) \<le> nat (agent_memory_message_limit s)"
  by (simp add: load_recent_history_def)

text \<open>A title is never empty and has at most forty characters.\<close>

lemma rstrip_length: "length (rstrip_by p s) \<le> length (s :: ustr)"
  using length_dropWhile_le [of p "rev s"] by (simp add: rstrip_by_def)

lemma title_bounds: "summarize_title message \<noteq> []" "length (summarize_title message) \<le> 40"
proof -
  have "length (rstrip_by title_edge (take 40 s)) \<le> 40" for s using rstrip_length [of title_edge "take 40 s"] by simp
  then show "summarize_title message \<noteq> []" "length (summarize_title message) \<le> 40"
    by (simp_all add: summarize_title_def Let_def new_conversation_title_def)
qed

end
