(* ===== verification/Agent_Graph.thy ===== *)
theory Agent_Graph
  imports Planner Agent_Answer Agent_Store Retrieval
begin

text \<open>
  The agent as a graph (\<open>agent/graph.py\<close>, \<open>agent/nodes.py\<close>,
    \<open>agent/events.py\<close>, \<open>agent/state.py\<close>): one
  definition per node, the routes between them, and the run. The graph library walks the nodes one after
  the other, merges what each returns into the state, streams the events and gives up after \<open>limit\<close> steps
  (its recursion limit). An exception leaves the run where it is raised; \<open>ge_interrupt n\<close> is what arrives
  from outside before the n-th step: a passed deadline or a cancellation.
\<close>

section \<open>State\<close>

text \<open>
  What a turn reaches: tools, settings, models, retrieval and MCP client, and for the n-th step its clock
  and fresh id. \<open>ge_loads_in_time\<close> tells how many of the three retrieval steps end before their deadline.
\<close>

record graph_env =
  ge_tools :: tool_services
  ge_settings :: agent_settings
  ge_models :: model_services
  ge_user :: "uuid option"
  ge_mcp :: "mcp_reader option"
  ge_retrieval :: retrieval_env
  ge_loads_in_time :: nat
  ge_memory_locked :: bool
  ge_now :: "nat \<Rightarrow> time"
  ge_fresh :: "nat \<Rightarrow> uuid"
  ge_interrupt :: "nat \<Rightarrow> exn option"

text \<open>
  \<open>AgentGraphState\<close>: the execution state is in the turn; \<open>gs_saved\<close> is the committed database, which a
  failed run leaves behind; a confirmed tool is its name, arguments and reason.
\<close>

record graph_state =
  gs_turn :: turn
  gs_saved :: db
  gs_conversation :: "conversation option"
  gs_task_type :: ustr
  gs_route :: "model_route option"
  gs_tool_rounds :: int
  gs_max_tool_rounds :: int
  gs_save_user :: bool
  gs_confirmed :: "(ustr \<times> dict \<times> ustr) option"
  gs_steps :: nat

abbreviation gs_state :: "graph_state \<Rightarrow> agent_state" where
  "gs_state g \<equiv> tu_state (gs_turn g)"

abbreviation gs_db :: "graph_state \<Rightarrow> db" where
  "gs_db g \<equiv> tu_db (gs_turn g)"

definition upd_turn :: "(turn \<Rightarrow> turn) \<Rightarrow> graph_state \<Rightarrow> graph_state" where
  "upd_turn f g = g\<lparr>gs_turn := f (gs_turn g)\<rparr>"

definition emit_to :: "agent_event \<Rightarrow> graph_state \<Rightarrow> graph_state" where
  "emit_to e = upd_turn (emit e)"

definition upd_state :: "(agent_state \<Rightarrow> agent_state) \<Rightarrow> graph_state \<Rightarrow> graph_state" where
  "upd_state f = upd_turn (on_state f)"

text \<open>A transaction that ended: its database is the session's and the committed one.\<close>

definition commit_db :: "db \<Rightarrow> graph_state \<Rightarrow> graph_state" where
  "commit_db d g = (upd_turn (\<lambda>t. t\<lparr>tu_db := d\<rparr>) g)\<lparr>gs_saved := d\<rparr>"

abbreviation env_lease :: "graph_env \<Rightarrow> lease option" where
  "env_lease v \<equiv> sv_lease (ge_tools v)"

abbreviation env_lib :: "graph_env \<Rightarrow> text_lib" where
  "env_lib v \<equiv> sv_lib (ge_tools v)"

abbreviation env_reg :: "graph_env \<Rightarrow> registry option" where
  "env_reg v \<equiv> sv_registry (ge_tools v)"

abbreviation now_of :: "graph_env \<Rightarrow> graph_state \<Rightarrow> time" where
  "now_of v g \<equiv> ge_now v (gs_steps g)"

abbreviation fresh_of :: "graph_env \<Rightarrow> graph_state \<Rightarrow> uuid" where
  "fresh_of v g \<equiv> ge_fresh v (gs_steps g)"

definition turn_route :: "graph_env \<Rightarrow> graph_state \<Rightarrow> model_route" where
  "turn_route v g = route_for (ml_settings (ge_models v)) (gs_task_type g)"

definition missing_conversation :: "ustr \<Rightarrow> exn" where
  "missing_conversation what = RuntimeError ((lit ''Cannot '') @ what @ (lit '' without a conversation''))"

definition missing_route :: exn where
  "missing_route = KeyError ([39] @ lit ''route'' @ [39])"

section \<open>The nodes\<close>

type_synonym node_result = "graph_state \<times> unit res"

definition ensure_conversation_node :: "graph_env \<Rightarrow> graph_state \<Rightarrow> node_result" where
  "ensure_conversation_node v g =
     (let g1 = emit_to (StatusEv (lit ''ensure_conversation'')) g in
      case ensure_conversation (ge_user v) (as_conversation_id (gs_state g)) (fresh_of v g) (now_of v g) (gs_db g) of
        (d, c) \<Rightarrow>
          ((upd_state (\<lambda>st. st\<lparr>as_conversation_id := Some (c_id c)\<rparr>)
              (upd_turn (\<lambda>t. t\<lparr>tu_db := d\<rparr>) g1))\<lparr>gs_conversation := Some c\<rparr>,
                Inr ()))"

text \<open>The title's transaction also commits the new conversation.\<close>

definition load_context_node :: "graph_env \<Rightarrow> graph_state \<Rightarrow> node_result" where
  "load_context_node v g =
     (let g1 = emit_to (StatusEv (lit ''load_history'')) g in
      case as_conversation_id (gs_state g) of
        None \<Rightarrow> (g1, Inl (missing_conversation (lit ''load history'')))
      | Some conv \<Rightarrow>
          (let history = load_recent_history (ge_settings v) (as_task_id (gs_state g)) conv (gs_db g);
               summaries = load_active_memory_summaries (ge_user v) conv (gs_db g);
               fill = (\<lambda>g. (upd_state (\<lambda>st. st\<lparr>as_history := history,
                 as_memory_summaries := summaries\<rparr>) g)
                        \<lparr>gs_route := Some (turn_route v g)\<rparr>) in
           case gs_conversation g of
             Some c \<Rightarrow>
               if gs_save_user g \<and> history = [] \<and> strip (c_title c) = new_conversation_title
               then (case auto_title_conversation (env_lease v) (now_of v g) c (as_message (gs_state g)) history (gs_db g) of
                       (d, Inl e) \<Rightarrow> (g1, Inl e)
                     | (d, Inr _) \<Rightarrow> (fill (commit_db d g1), Inr ()))
               else (fill g1, Inr ())
           | None \<Rightarrow> (fill g1, Inr ())))"

definition save_user_message_node :: "graph_env \<Rightarrow> graph_state \<Rightarrow> node_result" where
  "save_user_message_node v g =
     (if \<not> gs_save_user g then (g, Inr ())
      else
        (let g1 = emit_to (StatusEv (lit ''save_user_message'')) g in
         case as_conversation_id (gs_state g) of
           None \<Rightarrow> (g1, Inl (missing_conversation (lit ''save user message'')))
         | Some conv \<Rightarrow>
             (case save_message (env_lease v) (now_of v g) (fresh_of v g) conv
                     (user_message (as_message (gs_state g))) (gs_db g) of
                (d, Inl e) \<Rightarrow> (g1, Inl e)
              | (d, Inr _) \<Rightarrow> (commit_db d g1, Inr ()))))"

definition set_plan :: "agent_plan \<Rightarrow> graph_state \<Rightarrow> graph_state" where
  "set_plan p g = upd_state (\<lambda>st. st\<lparr>as_plan := p\<rparr>) (emit_to (PlanEv p) g)"

definition preflight_node :: "graph_env \<Rightarrow> graph_state \<Rightarrow> node_result" where
  "preflight_node v g =
     (case plan_early_confirmable_tool (env_lib v) (env_reg v) (fetch_max_length (ge_tools v)) (as_message (gs_state g)) of
        Inl e \<Rightarrow> (g, Inl e)
      | Inr None \<Rightarrow> (g, Inr ())
      | Inr (Some p) \<Rightarrow>
          ((set_plan p (emit_to (StatusEv (lit ''planning'')) g))\<lparr>gs_route := Some (turn_route v g)\<rparr>,
            Inr ()))"

text \<open>The three loads, in order, as far as they end in time: each overwrites its part of the state.\<close>

definition in_time :: "graph_env \<Rightarrow> nat \<Rightarrow> 'a res \<Rightarrow> 'a res" where
  "in_time v k r = (if k < ge_loads_in_time v then r else Inl (TimeoutError []))"

definition load_sources ::
  "graph_env \<Rightarrow> graph_state \<Rightarrow> json list \<times> json list \<times> json list \<times> unit res" where
  "load_sources v g =
     (case in_time v 0 (search (ge_retrieval v) (ge_user v) (as_message (gs_state g)) (as_conversation_id (gs_state g)) 4 (gs_db g)) of
        Inl e \<Rightarrow> ([], [], [], Inl e)
      | Inr cs \<Rightarrow>
          (let citations = map (\<lambda>c. JObj (citation_dump c)) cs in
           case in_time v 1 (load_mcp_resources (env_lib v) (ge_mcp v) (as_message (gs_state g))) of
             Inl e \<Rightarrow> (citations, [], [], Inl e)
           | Inr resources \<Rightarrow>
               (case in_time v 2 (load_mcp_prompts (env_lib v) (ge_mcp v) (as_message (gs_state g))) of
                  Inl e \<Rightarrow> (citations, resources, [], Inl e)
                | Inr prompts \<Rightarrow> (citations, resources, prompts, Inr ()))))"

definition is_timeout :: "exn \<Rightarrow> bool" where
  "is_timeout e \<longleftrightarrow> (case e of TimeoutError _ \<Rightarrow> True | _ \<Rightarrow> False)"

text \<open>A timeout keeps what was loaded and rolls the session back; any other exception ends the run.\<close>

definition retrieve_context_node :: "graph_env \<Rightarrow> graph_state \<Rightarrow> node_result" where
  "retrieve_context_node v g =
     (let g1 = emit_to (StatusEv (lit ''retrieving_context'')) g in
      case load_sources v g of
        (citations, resources, prompts, r) \<Rightarrow>
          (let fill = (\<lambda>g. (upd_state (\<lambda>st. st\<lparr>as_citations := citations,
            as_mcp_resources := resources,
                        as_mcp_prompts := prompts\<rparr>) g)\<lparr>gs_route := Some (turn_route v g)\<rparr>) in
           case r of
             Inr _ \<Rightarrow> (fill g1, Inr ())
           | Inl e \<Rightarrow>
               if is_timeout e
               then (fill (emit_to (StatusEv (lit ''retrieval_timeout''))
                       (upd_turn (\<lambda>t. t\<lparr>tu_db := gs_saved g\<rparr>) g1)), Inr ())
               else (g1, Inl e)))"

definition confirmed_plan :: "registered_tool option \<Rightarrow> ustr \<Rightarrow> dict \<Rightarrow> ustr \<Rightarrow> agent_plan" where
  "confirmed_plan tool name arguments reason =
     (builtin_plan tool name arguments reason)\<lparr>pl_requires_confirmation := False\<rparr>"

definition rounds_exhausted :: "int \<Rightarrow> agent_plan" where
  "rounds_exhausted n = no_tool_plan ((lit ''Stopped after the maximum of '') @ show_int n
    @ (lit '' tool round(s).''))"

definition plan_node :: "graph_env \<Rightarrow> graph_state \<Rightarrow> node_result" where
  "plan_node v g =
     (case gs_confirmed g of
        Some (name, arguments, reason) \<Rightarrow>
          (set_plan (confirmed_plan (reg_get (env_reg v) name) name arguments reason) g, Inr ())
      | None \<Rightarrow>
          if gs_max_tool_rounds g \<le> gs_tool_rounds g
          then (set_plan (rounds_exhausted (gs_max_tool_rounds g)) g, Inr ())
          else
            (let g1 = emit_to (StatusEv (lit ''planning'')) g in
             case plan_next_step (env_lib v) (env_reg v) (fetch_max_length (ge_tools v))
                    (normalize_web_search_query (ml_settings (ge_models v)) (ml_provider (ge_models v))
                       (ml_client (ge_models v)) (as_message (gs_state g))) (gs_state g) of
               Inl e \<Rightarrow> (g1, Inl e)
             | Inr p \<Rightarrow> (set_plan p g1, Inr ())))"

text \<open>Each tool run commits its audit; the rounds count the visits of this node.\<close>

definition execute_tool_node :: "graph_env \<Rightarrow> graph_state \<Rightarrow> node_result" where
  "execute_tool_node v g =
     (case maybe_execute_tool (ge_tools v) (gs_turn g) of
        (t, r) \<Rightarrow>
          (let g1 = g\<lparr>gs_turn := t, gs_saved := tu_db t\<rparr> in
           case r of
             Inl e \<Rightarrow> (g1, Inl e)
           | Inr _ \<Rightarrow> (g1\<lparr>gs_tool_rounds := gs_tool_rounds g + 1\<rparr>, Inr ())))"

text \<open>A background task only reports the block; an interactive turn stores an approval.\<close>

definition await_confirmation_node :: "graph_env \<Rightarrow> graph_state \<Rightarrow> node_result" where
  "await_confirmation_node v g =
     (case (as_conversation_id (gs_state g), gs_route g) of
        (Some conv, Some route) \<Rightarrow>
          if as_task_id (gs_state g) \<noteq> None
          then (emit_to (DoneEv conv (gs_state g) route) g, Inr ())
          else
            (let g1 = emit_to (StatusEv (lit ''saving_confirmation'')) g in
             case create_approval (fresh_of v g) (now_of v g) (gs_state g) route (gs_task_type g)
                    (agent_approval_ttl_seconds (ge_settings v)) (gs_db g) of
               (d, Inl e) \<Rightarrow> (g1, Inl e)
             | (d, Inr st) \<Rightarrow>
                 (emit_to (DoneEv conv st route) (upd_state (\<lambda>_. st) (commit_db d g1)), Inr ()))
      | _ \<Rightarrow> (g, Inl missing_route))"

definition generate_answer_node :: "graph_env \<Rightarrow> graph_state \<Rightarrow> node_result" where
  "generate_answer_node v g =
     (case gs_route g of
        None \<Rightarrow> (g, Inl missing_route)
      | Some route \<Rightarrow>
          (let st = gs_state g;
               available = (if gs_confirmed g = None \<and> as_tool_calls st = []
                 then tool_availability_answer (env_lib v) (env_reg v) (as_message st) else None);
               say = (\<lambda>answer. (emit_to (TokenEv answer)
                 (upd_state (\<lambda>st. st\<lparr>as_final_answer := answer\<rparr>) (emit_to (GeneratingEv (lit ''runtime'')) g)), Inr ())) in
           if as_final_answer st \<noteq> [] then say (as_final_answer st)
           else (case available of
                   Some answer \<Rightarrow> say answer
                 | None \<Rightarrow>
                     (case tool_failure_answer (env_lib v) st of
                        Some answer \<Rightarrow> say answer
                      | None \<Rightarrow>
                          (let g1 = emit_to (GeneratingEv (mr_model_name route)) g in
                           case generate_answer (env_lib v) (env_reg v) (ge_models v)
                                  (agent_context_max_chars (ge_settings v)) (mr_model_name route) st of
                             Inl e \<Rightarrow> (g1, Inl e)
                           | Inr (st', tokens) \<Rightarrow>
                               (fold (\<lambda>t. emit_to (TokenEv t)) tokens (upd_state (\<lambda>_. st') g1),
                                 Inr ()))))))"

definition save_assistant_message_node :: "graph_env \<Rightarrow> graph_state \<Rightarrow> node_result" where
  "save_assistant_message_node v g =
     (let g1 = emit_to (StatusEv (lit ''save_assistant_message'')) g in
      case gs_route g of
        None \<Rightarrow> (g1, Inl missing_route)
      | Some route \<Rightarrow>
          (case save_assistant_message (env_lease v) (now_of v g) (fresh_of v g) (gs_state g) route (gs_db g) of
             (d, Inl e) \<Rightarrow> (g1, Inl e)
           | (d, Inr _) \<Rightarrow> (commit_db d g1, Inr ())))"

definition update_memory_node :: "graph_env \<Rightarrow> graph_state \<Rightarrow> node_result" where
  "update_memory_node v g =
     (case as_conversation_id (gs_state g) of
        None \<Rightarrow> (g, Inl (missing_conversation (lit ''update memory summary'')))
      | Some conv \<Rightarrow>
          (case update_memory (lx_uni (env_lib v)) (ge_settings v)
                  (summarize_messages (ml_settings (ge_models v)) (ml_provider (ge_models v)) (ml_client (ge_models v)))
                  (ge_user v) (ge_memory_locked v) (fresh_of v g) conv (now_of v g) (gs_db g) of
             (d, Inl e) \<Rightarrow> (commit_db d g, Inl e)
           | (d, Inr _) \<Rightarrow>
               (case gs_route g of
                  None \<Rightarrow> (commit_db d g, Inl missing_route)
                | Some route \<Rightarrow> (emit_to (DoneEv conv (gs_state g) route) (commit_db d g), Inr ()))))"

section \<open>The graph\<close>

datatype node =
    EnsureConversation | LoadContext | SaveUserMessage | Preflight | RetrieveContext | Plan | ExecuteTool
  | AwaitConfirmation | GenerateAnswer | SaveAssistantMessage | UpdateMemorySummary

datatype graph_mode = ChatMode | ConfirmedTool

fun run_node :: "graph_env \<Rightarrow> node \<Rightarrow> graph_state \<Rightarrow> node_result" where
  "run_node v EnsureConversation g = ensure_conversation_node v g"
| "run_node v LoadContext g = load_context_node v g"
| "run_node v SaveUserMessage g = save_user_message_node v g"
| "run_node v Preflight g = preflight_node v g"
| "run_node v RetrieveContext g = retrieve_context_node v g"
| "run_node v Plan g = plan_node v g"
| "run_node v ExecuteTool g = execute_tool_node v g"
| "run_node v AwaitConfirmation g = await_confirmation_node v g"
| "run_node v GenerateAnswer g = generate_answer_node v g"
| "run_node v SaveAssistantMessage g = save_assistant_message_node v g"
| "run_node v UpdateMemorySummary g = update_memory_node v g"

definition awaits_user :: "graph_state \<Rightarrow> bool" where
  "awaits_user g \<longleftrightarrow> (case rev (as_tool_calls (gs_state g)) of [] \<Rightarrow> False | c # _ \<Rightarrow> needs_user c)"

text \<open>The edges; \<open>None\<close> is \<open>END\<close>.\<close>

fun next_node :: "graph_mode \<Rightarrow> node \<Rightarrow> graph_state \<Rightarrow> node option" where
  "next_node mode EnsureConversation g = Some LoadContext"
| "next_node mode LoadContext g = Some (if mode = ConfirmedTool then Plan else SaveUserMessage)"
| "next_node mode SaveUserMessage g = Some Preflight"
| "next_node mode Preflight g =
     Some (if \<not> pl_no_tool (as_plan (gs_state g)) \<and> pl_requires_confirmation (as_plan (gs_state g))
           then ExecuteTool else RetrieveContext)"
| "next_node mode RetrieveContext g = Some Plan"
| "next_node mode Plan g =
     Some (if mode = ConfirmedTool then ExecuteTool
           else if pl_no_tool (as_plan (gs_state g)) then GenerateAnswer else ExecuteTool)"
| "next_node mode ExecuteTool g =
     Some (if awaits_user g then AwaitConfirmation
           else if mode = ConfirmedTool then GenerateAnswer else Plan)"
| "next_node mode AwaitConfirmation g = None"
| "next_node mode GenerateAnswer g = Some SaveAssistantMessage"
| "next_node mode SaveAssistantMessage g = Some UpdateMemorySummary"
| "next_node mode UpdateMemorySummary g = None"

text \<open>How a run ends: at \<open>END\<close>, by an exception, or at the step limit.\<close>

datatype graph_end = Finished | Failed_with exn | OverLimit

fun run_graph :: "graph_env \<Rightarrow> graph_mode \<Rightarrow> nat \<Rightarrow> node \<Rightarrow> graph_state \<Rightarrow> graph_state \<times> graph_end" where
  "run_graph v mode 0 n g = (g, OverLimit)"
| "run_graph v mode (Suc limit) n g =
     (case ge_interrupt v (gs_steps g) of
        Some e \<Rightarrow> (g, Failed_with e)
      | None \<Rightarrow>
          (case run_node v n g of
             (g', Inl e) \<Rightarrow> (g', Failed_with e)
           | (g', Inr _) \<Rightarrow>
               (case next_node mode n g' of
                  None \<Rightarrow> (g', Finished)
                | Some n' \<Rightarrow> run_graph v mode limit n' (g'\<lparr>gs_steps := Suc (gs_steps g')\<rparr>))))"

end
