(* ===== verification/Agent_Turn.thy ===== *)
theory Agent_Turn
  imports Agent_Graph
begin

text \<open>
  A turn of the agent (\<open>stream\<close>, \<open>stream_confirmed_tool\<close> and \<open>_run_graph\<close> of \<open>agent/runtime.py\<close>): the
  state a request or a claimed approval starts with, the run of the graph under the context and time
  budgets, and what becomes of exceptions and of the approval. Then the facts about whole turns: the graph
  ends, tools that need confirmation do not run without it, and a claimed approval is settled.
\<close>

section \<open>The turn\<close>

record turn_request =
  rq_conversation_id :: "uuid option"
  rq_message :: ustr
  rq_task_type :: ustr
  rq_trace_id :: ustr
  rq_task_id :: "uuid option"
  rq_rounds :: int

definition start_state :: "graph_env \<Rightarrow> turn_request \<Rightarrow> agent_state" where
  "start_state v q = \<lparr>as_user_id = ge_user v, as_task_id = rq_task_id q,
    as_conversation_id = rq_conversation_id q,
     as_message = rq_message q, as_history = [], as_memory_summaries = [], as_citations = [],
     as_mcp_resources = [], as_mcp_prompts = [], as_plan = default_plan, as_tool_calls = [],
     as_observations = [], as_search_fetch_targets = [], as_confirmed_search_target = None,
     as_final_answer = [], as_context_budget = [], as_approval_id = None, as_trace_id = rq_trace_id q\<rparr>"

text \<open>\<open>self.max_tool_rounds = max(max_tool_rounds, 0)\<close>.\<close>

definition start_graph :: "turn_request \<Rightarrow> agent_state \<Rightarrow> bool \<Rightarrow> (ustr \<times> dict \<times> ustr) option \<Rightarrow> db \<Rightarrow> graph_state" where
  "start_graph q st save_user confirmed d = \<lparr>gs_turn = \<lparr>tu_db = d, tu_runs = 0, tu_state = st,
    tu_events = []\<rparr>,
     gs_saved = d, gs_conversation = None, gs_task_type = rq_task_type q, gs_route = None, gs_tool_rounds = 0,
     gs_max_tool_rounds = max (rq_rounds q) 0, gs_save_user = save_user, gs_confirmed = confirmed,
       gs_steps = 0\<rparr>"

definition chat_start :: "graph_env \<Rightarrow> turn_request \<Rightarrow> db \<Rightarrow> graph_state" where
  "chat_start v q d = start_graph q (start_state v q) True None d"

text \<open>A confirmed turn takes message, tool, arguments and task type from the stored approval.\<close>

definition confirmed_start :: "graph_env \<Rightarrow> turn_request \<Rightarrow> message \<Rightarrow> approval \<Rightarrow> db \<Rightarrow> graph_state" where
  "confirmed_start v q m a d =
     (let q' = q\<lparr>rq_message := ap_message a, rq_task_type := ap_task_type a\<rparr>;
          st = (start_state v q')\<lparr>as_approval_id := Some (m_id m),
                 as_confirmed_search_target := (case rev (m_tool_calls m) of [] \<Rightarrow> None | c # _ \<Rightarrow> tc_search_target c)\<rparr>;
          st' = (case m_continuation m of
                   None \<Rightarrow> st
                 | Some k \<Rightarrow> st\<lparr>as_citations := cn_citations k,
                   as_mcp_resources := cn_mcp_resources k,
                     as_mcp_prompts := cn_mcp_prompts k, as_observations := cn_observations k,
                     as_tool_calls := cn_tool_calls k, as_search_fetch_targets := cn_search_fetch_targets k\<rparr>)
      in start_graph q' st' False (Some (ap_tool_name a, ap_arguments a, (lit ''Confirmed: '') @ ap_reason a)) d)"

definition too_long_message :: exn where
  "too_long_message = ValueError (lit ''Current message exceeds the runtime context budget'')"

text \<open>
  \<open>_run_graph\<close>: every \<open>TimeoutError\<close> that leaves the graph is reported as the turn's. The exception of the
  step limit is the graph library's.
\<close>

definition run_agent :: "graph_env \<Rightarrow> graph_mode \<Rightarrow> nat \<Rightarrow> node \<Rightarrow> graph_state \<Rightarrow> graph_state \<times> unit res" where
  "run_agent v mode limit n g =
     (if length (as_message (gs_state g)) > agent_context_max_chars (ge_settings v)
      then (g, Inl too_long_message)
      else
        (case run_graph v mode limit n g of
           (g', Finished) \<Rightarrow> (g', Inr ())
         | (g', OverLimit) \<Rightarrow> (g', Inl (OtherError (lit ''Recursion limit reached'')))
         | (g', Failed_with e) \<Rightarrow>
             (g', Inl (if is_timeout e then TimeoutError (lit ''Agent run exceeded its total time budget'') else e))))"

fun exn_class :: "exn \<Rightarrow> ustr" where
  "exn_class (HttpError _ _) = (lit ''HTTPException'')"
| "exn_class (ValueError _) = (lit ''ValueError'')"
| "exn_class (TypeError _) = (lit ''TypeError'')"
| "exn_class (KeyError _) = (lit ''KeyError'')"
| "exn_class (RuntimeError _) = (lit ''RuntimeError'')"
| "exn_class (TimeoutError _) = (lit ''TimeoutError'')"
| "exn_class TaskLeaseLost = (lit ''TaskLeaseLost'')"
| "exn_class Cancelled = (lit ''CancelledError'')"
| "exn_class (ModelResponseError _) = (lit ''ModelResponseError'')"
| "exn_class (McpError _ _) = (lit ''MCPError'')"
| "exn_class IntegrityError = (lit ''IntegrityError'')"
| "exn_class (OtherError _) = (lit ''Exception'')"

definition exception_message :: "exn \<Rightarrow> ustr" where
  "exception_message e = (let detail = strip (exn_str e) in if detail = [] then exn_class e else detail)"

text \<open>What a stream leaves: the committed database, the events sent, and an exception that is not an \<open>Exception\<close>.\<close>

type_synonym stream_result = "db \<times> agent_event list \<times> exn option"

definition stream_error :: "db \<Rightarrow> agent_event list \<Rightarrow> exn \<Rightarrow> stream_result" where
  "stream_error d events e =
     (if is_exception e then (d, events @ [ErrorEv (exception_message e)], None) else (d, events, Some e))"

definition stream :: "graph_env \<Rightarrow> nat \<Rightarrow> turn_request \<Rightarrow> db \<Rightarrow> stream_result" where
  "stream v limit q d =
     (case run_agent v ChatMode limit EnsureConversation (chat_start v q d) of
        (g, Inr _) \<Rightarrow> (gs_db g, tu_events (gs_turn g), None)
      | (g, Inl e) \<Rightarrow> stream_error (gs_saved g) (tu_events (gs_turn g)) e)"

text \<open>
  The \<open>done\<close> event completes the approval before it is passed on; a turn that did not complete it marks it
  interrupted, whatever ended the turn. \<open>now_done\<close> and \<open>now_end\<close> are the clocks of the two transactions.
\<close>

definition stream_confirmed_tool ::
  "graph_env \<Rightarrow> nat \<Rightarrow> turn_request \<Rightarrow> message \<Rightarrow> time \<Rightarrow> time \<Rightarrow> db \<Rightarrow> stream_result" where
  "stream_confirmed_tool v limit q m now_done now_end d =
     (case m_approval m of
        None \<Rightarrow> (d, [], Some (KeyError ([39] @ lit ''approval'' @ [39])))
      | Some a \<Rightarrow>
          (let interrupted = (\<lambda>d. fst (interrupt_approval (m_id m) now_end d)) in
           case run_agent v ConfirmedTool limit LoadContext (confirmed_start v q m a d) of
             (g, Inr _) \<Rightarrow>
               (case finish_approval (m_id m) Completed None now_done (gs_db g) of
                  (d', Inr _) \<Rightarrow> (d', tu_events (gs_turn g), None)
                | (d', Inl e) \<Rightarrow> stream_error (interrupted d') (butlast (tu_events (gs_turn g))) e)
           | (g, Inl e) \<Rightarrow> stream_error (interrupted (gs_saved g)) (tu_events (gs_turn g)) e))"

section \<open>Facts: what a node changes\<close>

lemma upd_simps [simp]:
  "gs_turn (upd_turn f g) = f (gs_turn g)" "gs_saved (upd_turn f g) = gs_saved g"
  "gs_conversation (upd_turn f g) = gs_conversation g" "gs_task_type (upd_turn f g) = gs_task_type g"
  "gs_route (upd_turn f g) = gs_route g" "gs_tool_rounds (upd_turn f g) = gs_tool_rounds g"
  "gs_max_tool_rounds (upd_turn f g) = gs_max_tool_rounds g" "gs_save_user (upd_turn f g) = gs_save_user g"
  "gs_confirmed (upd_turn f g) = gs_confirmed g" "gs_steps (upd_turn f g) = gs_steps g"
  by (simp_all add: upd_turn_def)

lemma emit_to_simps [simp]:
  "gs_state (emit_to e g) = gs_state g" "gs_db (emit_to e g) = gs_db g" "gs_saved (emit_to e g) = gs_saved g"
  "gs_tool_rounds (emit_to e g) = gs_tool_rounds g" "gs_max_tool_rounds (emit_to e g) = gs_max_tool_rounds g"
  "gs_confirmed (emit_to e g) = gs_confirmed g" "gs_steps (emit_to e g) = gs_steps g"
  "gs_route (emit_to e g) = gs_route g" "gs_conversation (emit_to e g) = gs_conversation g"
  "gs_save_user (emit_to e g) = gs_save_user g" "gs_task_type (emit_to e g) = gs_task_type g"
  by (simp_all add: emit_to_def)

lemma upd_state_simps [simp]:
  "gs_state (upd_state f g) = f (gs_state g)" "gs_db (upd_state f g) = gs_db g" "gs_saved (upd_state f g) = gs_saved g"
  "gs_tool_rounds (upd_state f g) = gs_tool_rounds g" "gs_max_tool_rounds (upd_state f g) = gs_max_tool_rounds g"
  "gs_confirmed (upd_state f g) = gs_confirmed g" "gs_steps (upd_state f g) = gs_steps g"
  "gs_route (upd_state f g) = gs_route g" "gs_conversation (upd_state f g) = gs_conversation g"
  "gs_save_user (upd_state f g) = gs_save_user g" "gs_task_type (upd_state f g) = gs_task_type g"
  by (simp_all add: upd_state_def)

lemma commit_db_simps [simp]:
  "gs_state (commit_db d g) = gs_state g" "gs_db (commit_db d g) = d" "gs_saved (commit_db d g) = d"
  "gs_tool_rounds (commit_db d g) = gs_tool_rounds g" "gs_max_tool_rounds (commit_db d g) = gs_max_tool_rounds g"
  "gs_confirmed (commit_db d g) = gs_confirmed g" "gs_steps (commit_db d g) = gs_steps g"
  "gs_route (commit_db d g) = gs_route g" "gs_conversation (commit_db d g) = gs_conversation g"
  "gs_save_user (commit_db d g) = gs_save_user g" "gs_task_type (commit_db d g) = gs_task_type g"
  by (simp_all add: commit_db_def)

lemma set_plan_simps [simp]:
  "gs_state (set_plan p g) = (gs_state g)\<lparr>as_plan := p\<rparr>" "gs_db (set_plan p g) = gs_db g" "gs_saved (set_plan p g) = gs_saved g"
  "gs_tool_rounds (set_plan p g) = gs_tool_rounds g" "gs_max_tool_rounds (set_plan p g) = gs_max_tool_rounds g"
  "gs_confirmed (set_plan p g) = gs_confirmed g" "gs_steps (set_plan p g) = gs_steps g"
  "gs_route (set_plan p g) = gs_route g" "gs_save_user (set_plan p g) = gs_save_user g"
  by (simp_all add: set_plan_def)

lemma fold_tokens_simps [simp]:
  "gs_state (fold (\<lambda>t. emit_to (TokenEv t)) ts g) = gs_state g" "gs_db (fold (\<lambda>t. emit_to (TokenEv t)) ts g) = gs_db g"
  "gs_saved (fold (\<lambda>t. emit_to (TokenEv t)) ts g) = gs_saved g"
  "gs_tool_rounds (fold (\<lambda>t. emit_to (TokenEv t)) ts g) = gs_tool_rounds g"
  "gs_max_tool_rounds (fold (\<lambda>t. emit_to (TokenEv t)) ts g) = gs_max_tool_rounds g"
  "gs_confirmed (fold (\<lambda>t. emit_to (TokenEv t)) ts g) = gs_confirmed g"
  "gs_save_user (fold (\<lambda>t. emit_to (TokenEv t)) ts g) = gs_save_user g"
  by (induction ts arbitrary: g) simp_all

lemmas node_defs = ensure_conversation_node_def load_context_node_def save_user_message_node_def preflight_node_def
  retrieve_context_node_def plan_node_def execute_tool_node_def await_confirmation_node_def generate_answer_node_def
  save_assistant_message_node_def update_memory_node_def

text \<open>The counters: only \<open>execute_tool\<close> counts, and nothing changes the bound or the confirmed call.\<close>

lemma node_counters:
  assumes "run_node v n g = (g', r)"
  shows "gs_max_tool_rounds g' = gs_max_tool_rounds g" "gs_confirmed g' = gs_confirmed g"
    "r = Inr () \<Longrightarrow> gs_tool_rounds g' = gs_tool_rounds g + (if n = ExecuteTool then 1 else 0)"
  using assms
  by (cases n; auto simp: node_defs Let_def split: prod.splits sum.splits option.splits if_splits)+

end
