(* ===== verification/Agent_Turn_Facts.thy ===== *)
theory Agent_Turn_Facts
  imports Agent_Turn
begin

text \<open>
  What holds of whole agent turns: the graph ends within a number of steps fixed by the tool rounds, a
  chat turn never runs a tool that needs confirmation, every step keeps the stored messages, a finished
  turn has saved its answer or an approval, and a claimed approval is settled.
\<close>

section \<open>Termination\<close>

definition rounds_left :: "graph_state \<Rightarrow> nat" where
  "rounds_left g = nat (gs_max_tool_rounds g - gs_tool_rounds g)"

text \<open>A bound on the steps from a node on, with \<open>r\<close> tool rounds left.\<close>

fun steps_left :: "graph_mode \<Rightarrow> nat \<Rightarrow> node \<Rightarrow> nat" where
  "steps_left m r GenerateAnswer = 3"
| "steps_left m r SaveAssistantMessage = 2"
| "steps_left m r UpdateMemorySummary = 1"
| "steps_left m r AwaitConfirmation = 1"
| "steps_left ChatMode r ExecuteTool = 5 + 2 * (r - 1)"
| "steps_left ChatMode r Plan = 4 + 2 * r"
| "steps_left ChatMode r RetrieveContext = 5 + 2 * r"
| "steps_left ChatMode r Preflight = 6 + 2 * r"
| "steps_left ChatMode r SaveUserMessage = 7 + 2 * r"
| "steps_left ChatMode r LoadContext = 8 + 2 * r"
| "steps_left ChatMode r EnsureConversation = 9 + 2 * r"
| "steps_left ConfirmedTool r ExecuteTool = 4"
| "steps_left ConfirmedTool r Plan = 5"
| "steps_left ConfirmedTool r RetrieveContext = 6"
| "steps_left ConfirmedTool r Preflight = 7"
| "steps_left ConfirmedTool r SaveUserMessage = 8"
| "steps_left ConfirmedTool r LoadContext = 6"
| "steps_left ConfirmedTool r EnsureConversation = 7"

lemma planned_within_rounds:
  assumes "run_node v Plan g = (g', r)" and "gs_confirmed g = None" and "\<not> pl_no_tool (as_plan (gs_state g'))"
  shows "gs_tool_rounds g < gs_max_tool_rounds g"
proof (rule ccontr)
  assume "\<not> gs_tool_rounds g < gs_max_tool_rounds g"
  then have "gs_max_tool_rounds g \<le> gs_tool_rounds g" by linarith
  with assms show False by (auto simp: plan_node_def rounds_exhausted_def no_tool_plan_def default_plan_def)
qed

lemma steps_decrease:
  assumes run: "run_node v n g = (g', Inr ())" and nxt: "next_node mode n g' = Some n'"
    and mode: "mode = ConfirmedTool \<or> gs_confirmed g = None"
  shows "steps_left mode (rounds_left g') n' < steps_left mode (rounds_left g) n"
proof -
  note c = node_counters [OF run]
  have same: "rounds_left g' = rounds_left g" if "n \<noteq> ExecuteTool" using c that by (simp add: rounds_left_def)
  have less: "rounds_left g' = rounds_left g - 1" if "n = ExecuteTool" using c that by (simp add: rounds_left_def)
  show ?thesis
  proof (cases "n = Plan")
    case True
    show ?thesis
    proof (cases "mode = ChatMode \<and> n' = ExecuteTool")
      case chat: True
      then have "\<not> pl_no_tool (as_plan (gs_state g'))" using nxt True by (auto split: if_splits)
      then have "gs_tool_rounds g < gs_max_tool_rounds g"
        using planned_within_rounds [of v g g'] run True mode chat by auto
      then have "1 \<le> rounds_left g" by (simp add: rounds_left_def)
      with chat True same show ?thesis by simp
    next
      case False
      with nxt True show ?thesis by (cases mode) (auto split: if_splits)
    qed
  next
    case False
    with nxt same less show ?thesis by (cases n; cases mode) (auto split: if_splits)
  qed
qed

lemma run_graph_ends:
  "steps_left mode (rounds_left g) n \<le> limit \<Longrightarrow> mode = ConfirmedTool \<or> gs_confirmed g = None \<Longrightarrow>
   snd (run_graph v mode limit n g) \<noteq> OverLimit"
proof (induction limit arbitrary: n g)
  case 0
  then show ?case by (cases n; cases mode) auto
next
  case (Suc limit)
  obtain g' r where r: "run_node v n g = (g', r)" by fastforce
  show ?case
  proof (cases "ge_interrupt v (gs_steps g) = None \<and> r = Inr ()")
    case True
    with r have r': "run_node v n g = (g', Inr ())" by simp
    show ?thesis
    proof (cases "next_node mode n g'")
      case None
      with True r show ?thesis by simp
    next
      case (Some n')
      let ?g = "g'\<lparr>gs_steps := Suc (gs_steps g')\<rparr>"
      have e: "rounds_left ?g = rounds_left g'" by (simp add: rounds_left_def)
      from steps_decrease [OF r' Some Suc.prems(2)] Suc.prems(1) have "steps_left mode (rounds_left ?g) n' \<le> limit"
        unfolding e by linarith
      moreover have "mode = ConfirmedTool \<or> gs_confirmed ?g = None" using Suc.prems(2) node_counters(2) [OF r] by simp
      ultimately show ?thesis using Suc.IH [of ?g n'] True r Some by simp
    qed
  next
    case False
    with r show ?thesis by (cases r) (auto split: option.splits)
  qed
qed

text \<open>The tool rounds stay within the bound; a plan found before the planner may add a first one.\<close>

definition rounds_ok :: "node \<Rightarrow> graph_state \<Rightarrow> bool" where
  "rounds_ok n g \<longleftrightarrow> gs_tool_rounds g \<le> max 1 (gs_max_tool_rounds g)
     \<and> (n \<in> {EnsureConversation, LoadContext, SaveUserMessage,
       Preflight} \<longrightarrow> gs_tool_rounds g = 0)
     \<and> (n = ExecuteTool \<longrightarrow> gs_tool_rounds g < max 1 (gs_max_tool_rounds g))"

lemma failing_node_rounds: "run_node v n g = (g', Inl e) \<Longrightarrow> gs_tool_rounds g' = gs_tool_rounds g"
  by (cases n; auto simp: node_defs Let_def split: prod.splits sum.splits option.splits if_splits)

lemma rounds_ok_step:
  assumes run: "run_node v n g = (g', Inr ())" and nxt: "next_node ChatMode n g' = Some n'"
    and none: "gs_confirmed g = None" and ok: "rounds_ok n g"
  shows "rounds_ok n' g'"
proof -
  note c = node_counters [OF run]
  show ?thesis
  proof (cases "n = Plan \<and> n' = ExecuteTool")
    case True
    then have "\<not> pl_no_tool (as_plan (gs_state g'))" using nxt by (auto split: if_splits)
    then have "gs_tool_rounds g < gs_max_tool_rounds g"
      using planned_within_rounds [of v g g'] run True none by auto
    with c True ok show ?thesis by (auto simp: rounds_ok_def)
  next
    case False
    with c ok nxt show ?thesis by (cases n) (auto simp: rounds_ok_def split: if_splits)
  qed
qed

lemma run_graph_rounds:
  "rounds_ok n g \<Longrightarrow> gs_confirmed g = None \<Longrightarrow> run_graph v ChatMode limit n g = (g',
    r) \<Longrightarrow>
   gs_tool_rounds g' \<le> max 1 (gs_max_tool_rounds g)"
proof (induction limit arbitrary: n g)
  case 0
  then show ?case by (auto simp: rounds_ok_def)
next
  case (Suc limit)
  obtain h x where x: "run_node v n g = (h, x)" by fastforce
  note c = node_counters(1,2) [OF x]
  show ?case
  proof (cases "ge_interrupt v (gs_steps g) = None \<and> x = Inr ()")
    case True
    with x have x': "run_node v n g = (h, Inr ())" by simp
    show ?thesis
    proof (cases "next_node ChatMode n h")
      case None
      then have "g' = h" using Suc.prems(3) True x by simp
      with node_counters(3) [OF x'] Suc.prems(1) c show ?thesis by (auto simp: rounds_ok_def)
    next
      case (Some n')
      let ?h = "h\<lparr>gs_steps := Suc (gs_steps h)\<rparr>"
      have "rounds_ok n' ?h" using rounds_ok_step [OF x' Some Suc.prems(2,1)] by (simp add: rounds_ok_def)
      moreover have "run_graph v ChatMode limit n' ?h = (g', r)" using Suc.prems(3) True x Some by simp
      ultimately show ?thesis using Suc.IH [of n' ?h] c Suc.prems(2) by simp
    qed
  next
    case False
    then have "g' = g \<or> (\<exists>e. x = Inl e \<and> g' = h)" using Suc.prems(3) x by (cases x) (auto split: option.splits)
    then show ?thesis using Suc.prems(1) failing_node_rounds [of v n g h] x by (auto simp: rounds_ok_def)
  qed
qed

section \<open>What a tool step keeps\<close>

text \<open>Plan, message, conversation and task of the turn, and the stored messages and conversations.\<close>

definition turn_kept :: "turn \<Rightarrow> turn \<Rightarrow> bool" where
  "turn_kept t t' \<longleftrightarrow> as_plan (tu_state t') = as_plan (tu_state t) \<and> as_message (tu_state t') = as_message (tu_state t)
     \<and> as_conversation_id (tu_state t') = as_conversation_id (tu_state t) \<and> as_task_id (tu_state t') = as_task_id (tu_state t)
     \<and> db_messages (tu_db t') = db_messages (tu_db t) \<and> db_conversations (tu_db t') = db_conversations (tu_db t)"

lemma turn_kept_refl [simp]: "turn_kept t t"
  by (simp add: turn_kept_def)

lemma turn_kept_trans: "turn_kept a b \<Longrightarrow> turn_kept b c \<Longrightarrow> turn_kept a c"
  by (simp add: turn_kept_def)

lemma turn_kept_emit [simp]: "turn_kept t (emit e t') = turn_kept t t'"
  by (simp add: turn_kept_def)

definition state_kept :: "(agent_state \<Rightarrow> agent_state) \<Rightarrow> bool" where
  "state_kept f \<longleftrightarrow> (\<forall>st. as_plan (f st) = as_plan st \<and> as_message (f st) = as_message st
     \<and> as_conversation_id (f st) = as_conversation_id st \<and> as_task_id (f st) = as_task_id st)"

lemma turn_kept_on_state: "state_kept f \<Longrightarrow> turn_kept t (on_state f t') = turn_kept t t'"
  by (simp add: turn_kept_def state_kept_def)

lemma state_kept_ops [simp]:
  "state_kept (add_observation x)" "state_kept (add_call c)" "state_kept (finish_fetches lib)"
  "state_kept (record_result lib name r)" "state_kept (\<lambda>st. st\<lparr>as_search_fetch_targets := ts\<rparr>)"
  "state_kept f \<Longrightarrow> state_kept h \<Longrightarrow> state_kept (f \<circ> h)"
  by (auto simp: state_kept_def add_observation_def add_call_def finish_fetches_def record_result_def Let_def
      split: option.splits)

lemma event_keeps_messages:
  "record_mcp_task_event current now s i ty tool p pr d = (d', r) \<Longrightarrow>
   db_messages d' = db_messages d \<and> db_conversations d' = db_conversations d"
  by (auto simp: record_mcp_task_event_def put_task_def Let_def split: option.splits sum.splits if_splits)

lemma audited_keeps_messages:
  "audited env current now i q tool args r d = (d', x) \<Longrightarrow>
   db_messages d' = db_messages d \<and> db_conversations d' = db_conversations d"
  by (auto simp: audited_def record_audit_def Let_def dest!: event_keeps_messages split: prod.splits sum.splits if_splits)

lemma announce_keeps_messages:
  "announce current now q tool trace_id d = (d', x) \<Longrightarrow>
   db_messages d' = db_messages d \<and> db_conversations d' = db_conversations d"
  by (auto simp: announce_def dest: event_keeps_messages split: if_splits)

lemma prepare_keeps_messages:
  "prepare_dispatch env current now q tool args d = (d', x) \<Longrightarrow>
   db_messages d' = db_messages d \<and> db_conversations d' = db_conversations d"
  by (auto simp: prepare_dispatch_def put_task_def split: sum.splits option.splits if_splits)

lemma run_tool_keeps_messages:
  assumes "run_tool w env current now i tr q tool args d = (d', x)"
  shows "db_messages d' = db_messages d \<and> db_conversations d' = db_conversations d"
proof -
  have a: "db_messages (fst (audited env current now i q tool args r d0)) = db_messages d0
      \<and> db_conversations (fst (audited env current now i q tool args r d0)) = db_conversations d0" for r d0
    using audited_keeps_messages [of env current now i q tool args r d0] by (cases "audited env current now i q tool args r d0") auto
  obtain d1 y where y: "announce current now q tool tr d = (d1, y)" by fastforce
  obtain d2 z where z: "prepare_dispatch env current now q tool (JObj args) d1 = (d2, z)" by fastforce
  have d': "d' = fst (run_tool w env current now i tr q tool args d)" using assms by simp
  show ?thesis
    using announce_keeps_messages [OF y] prepare_keeps_messages [OF z] a z
    unfolding d' run_tool_def Let_def y by (cases y) (auto split: sum.split)
qed

lemma execute_kept: "execute sv c tool args t = (t', r) \<Longrightarrow> turn_kept t t'"
  by (auto simp: execute_def turn_kept_def dest: run_tool_keeps_messages split: prod.splits)

lemma execute_plan_kept: "execute_tool_plan sv t = (t', r) \<Longrightarrow> turn_kept t t'"
  by (auto simp: execute_tool_plan_def Let_def turn_kept_def dest: execute_kept [unfolded turn_kept_def] split: option.splits)

lemma fetch_loop_kept: "fetch_loop sv tool targets t = (t', r) \<Longrightarrow> turn_kept t t'"
proof (induction sv tool targets t arbitrary: t' r rule: fetch_loop.induct)
  case (1 sv tool t)
  then show ?case using turn_kept_on_state [of "finish_fetches (sv_lib sv)" t t] by auto
next
  case (2 sv tool target targets t)
  let ?args = "fetch_arguments sv target"
  let ?t1 = "emit (ToolCallEv (tool_name tool) ?args (pm_requires_confirmation (rt_manifest tool)) True)
                 (on_state (\<lambda>st. st\<lparr>as_search_fetch_targets := targets\<rparr>) t)"
  obtain t2 x where e: "execute sv False tool ?args ?t1 = (t2, x)" by fastforce
  have k2: "turn_kept t t2"
    using turn_kept_trans [OF _ execute_kept [OF e]] turn_kept_on_state [of "\<lambda>st. st\<lparr>as_search_fetch_targets := targets\<rparr>" t t] by simp
  show ?case
  proof (cases x)
    case (Inl exc)
    with "2.prems" e k2 show ?thesis by (simp add: Let_def)
  next
    case (Inr res)
    let ?f = "add_observation (format_search_fetch_observation (sv_lib sv) res target)
                       \<circ> add_call (fetch_call tool ?args target res)"
    let ?t3 = "emit (ToolResultEv res) (on_state ?f t2)"
    have k3: "turn_kept t ?t3" using k2 by (simp add: turn_kept_on_state)
    show ?thesis
    proof (cases "tr_error res = Some confirmation_error")
      case True
      with "2.prems" e Inr k3 show ?thesis by (simp add: Let_def)
    next
      case False
      then have "fetch_loop sv tool targets ?t3 = (t', r)" using "2.prems" e Inr by (simp add: Let_def)
      from "2.IH" [OF refl refl e [symmetric] Inr refl False this] k3 show ?thesis using turn_kept_trans by blast
    qed
  qed
qed

lemma fetch_targets_kept: "fetch_search_targets sv t = (t', r) \<Longrightarrow> turn_kept t t'"
  by (auto simp: fetch_search_targets_def turn_kept_on_state dest: fetch_loop_kept split: option.splits)

lemma enrich_kept:
  assumes "enrich_web_search_with_fetch sv x t = (t', r)"
  shows "turn_kept t t'"
proof -
  have set: "turn_kept t (on_state (\<lambda>st. st\<lparr>as_search_fetch_targets := ts\<rparr>) t)" for ts
    by (simp add: turn_kept_on_state)
  show ?thesis
    using assms turn_kept_trans [OF set fetch_targets_kept]
    by (auto simp: enrich_web_search_with_fetch_def turn_kept_on_state split: option.splits sum.splits list.splits)
qed

lemma maybe_execute_kept:
  assumes "maybe_execute_tool sv t = (t', r)"
  shows "turn_kept t t'"
proof (cases "if pl_no_tool (as_plan (tu_state t)) then None else pl_tool_name (as_plan (tu_state t))")
  case None
  with assms show ?thesis by (simp add: maybe_execute_tool_def Let_def)
next
  case (Some name)
  let ?p = "as_plan (tu_state t)"
  obtain t1 x where e: "execute_tool_plan sv
      (emit (ToolCallEv name (pl_arguments ?p) (pl_requires_confirmation ?p) False) t) = (t1, x)" by fastforce
  from execute_plan_kept [OF e] have k1: "turn_kept t t1" by (simp add: turn_kept_def)
  show ?thesis
  proof (cases x)
    case (Inl exc)
    with assms Some e k1 show ?thesis by (simp add: maybe_execute_tool_def Let_def)
  next
    case (Inr res)
    let ?t2 = "emit (ToolResultEv res) (on_state (record_result (sv_lib sv) name res) t1)"
    have k2: "turn_kept t ?t2" using k1 by (simp add: turn_kept_on_state)
    show ?thesis
      using assms Some e Inr k2 turn_kept_trans [OF k2 enrich_kept] turn_kept_trans [OF k2 fetch_targets_kept]
      by (auto simp: maybe_execute_tool_def Let_def split: if_splits)
  qed
qed

end
