(* ===== verification/Agent_Safety.thy ===== *)
theory Agent_Safety
  imports Agent_Turn_Facts
begin

text \<open>
  Tools that need confirmation do not run without it: the whole course of a chat turn (database, events,
  state) is the same whatever those tools would do, and a confirmed turn depends on one of them only
  through the approved call. The planner plans tools of the registry under their own flag only, the
  executor runs a tool only when the plan carries no confirmation flag, and the confirmed plan is the
  stored call.
\<close>

section \<open>Worlds that differ in guarded tools only\<close>

definition same_open_tools :: "registry option \<Rightarrow> tool_env \<Rightarrow> tool_world \<Rightarrow> tool_world \<Rightarrow> bool" where
  "same_open_tools reg env w w' \<longleftrightarrow>
     (\<forall>tool q args. reg_get reg (tool_name tool) = Some tool \<longrightarrow> \<not> pm_requires_confirmation (rt_manifest tool)
        \<longrightarrow> dispatch_tool w env q tool args = dispatch_tool w' env q tool args)"

text \<open>The worlds also agree on one call, a tool by name with its arguments.\<close>

definition same_call :: "registry option \<Rightarrow> tool_env \<Rightarrow> ustr \<Rightarrow> dict \<Rightarrow> tool_world \<Rightarrow> tool_world \<Rightarrow> bool" where
  "same_call reg env name args w w' \<longleftrightarrow>
     (\<forall>tool q. reg_get reg name = Some tool \<longrightarrow> dispatch_tool w env q tool args = dispatch_tool w' env q tool args)"

text \<open>What a tool step may run: a sound plan, or the call confirmed by the user.\<close>

definition allowed_plan :: "registry option \<Rightarrow> (ustr \<times> dict \<times> ustr) option \<Rightarrow> agent_plan \<Rightarrow> bool" where
  "allowed_plan reg confirmed p \<longleftrightarrow> sound_plan reg p
     \<or> (\<exists>name args reason. confirmed = Some (name, args, reason)
          \<and> p = confirmed_plan (reg_get reg name) name args reason)"

definition same_tools :: "registry option \<Rightarrow> tool_env \<Rightarrow> (ustr \<times> dict \<times> ustr) option \<Rightarrow> tool_world \<Rightarrow> tool_world \<Rightarrow> bool" where
  "same_tools reg env confirmed w w' \<longleftrightarrow> same_open_tools reg env w w'
     \<and> (case confirmed of None \<Rightarrow> True | Some (name, args,
       _) \<Rightarrow> same_call reg env name args w w')"

abbreviation with_world :: "tool_world \<Rightarrow> tool_services \<Rightarrow> tool_services" where
  "with_world w sv \<equiv> sv\<lparr>sv_world := w\<rparr>"

lemma with_world_simps:
  "sv_lib (with_world w sv) = sv_lib sv" "sv_registry (with_world w sv) = sv_registry sv"
  "sv_env (with_world w sv) = sv_env sv" "sv_lease (with_world w sv) = sv_lease sv"
  "fetch_max_length (with_world w sv) = fetch_max_length sv"
  by (simp_all add: fetch_max_length_def)

lemma run_tool_same_dispatch:
  assumes "dispatch_tool w env q tool args = dispatch_tool w' env q tool args"
  shows "run_tool w env current now i tr q tool args d = run_tool w' env current now i tr q tool args d"
  unfolding run_tool_def assms ..

lemma run_tool_unconfirmed:
  "pm_requires_confirmation (rt_manifest tool) \<Longrightarrow> \<not> tq_confirmed q \<Longrightarrow>
   run_tool w env current now i tr q tool args d = run_tool w' env current now i tr q tool args d"
  by (rule run_tool_blocked) (simp add: may_dispatch_def)

lemma execute_same:
  assumes "same_open_tools (sv_registry sv) (sv_env sv) (sv_world sv) w'"
    and "find_tool sv name = Some tool" and "pm_requires_confirmation (rt_manifest tool) \<longrightarrow> \<not> confirmed"
  shows "execute (with_world w' sv) confirmed tool args t = execute sv confirmed tool args t"
proof -
  let ?q = "tool_request confirmed (tu_state t)"
  have reg: "reg_get (sv_registry sv) name = Some tool" using assms(2) by (simp add: find_tool_def reg_get_def)
  then have reg': "reg_get (sv_registry sv) (tool_name tool) = Some tool" using reg_get_name by blast
  have "run_tool (sv_world sv) (sv_env sv) current now i tr ?q tool args d = run_tool w' (sv_env sv) current now i tr ?q tool args d"
    for current now i tr d
  proof (cases "pm_requires_confirmation (rt_manifest tool)")
    case True
    with assms(3) show ?thesis by (intro run_tool_unconfirmed) (simp_all add: tool_request_def)
  next
    case False
    with assms(1) reg' show ?thesis by (intro run_tool_same_dispatch) (simp add: same_open_tools_def)
  qed
  then show ?thesis by (simp add: execute_def)
qed

lemma fetch_loop_same:
  assumes "same_open_tools (sv_registry sv) (sv_env sv) (sv_world sv) w'" and "find_tool sv name = Some tool"
  shows "fetch_loop (with_world w' sv) tool targets t = fetch_loop sv tool targets t"
proof (induction targets arbitrary: t)
  case (Cons target targets)
  have e: "execute (with_world w' sv) False tool args t = execute sv False tool args t" for args t
    using execute_same [OF assms, of False] by simp
  have a: "fetch_arguments (with_world w' sv) target = fetch_arguments sv target"
    by (simp add: fetch_arguments_def fetch_max_length_def)
  show ?case unfolding fetch_loop.simps e a Cons.IH by simp
qed simp

lemma find_tool_world [simp]: "find_tool (with_world w' sv) = find_tool sv"
  by (simp add: find_tool_def fun_eq_iff)

lemma fetch_targets_same:
  assumes "same_open_tools (sv_registry sv) (sv_env sv) (sv_world sv) w'"
  shows "fetch_search_targets (with_world w' sv) t = fetch_search_targets sv t"
  using fetch_loop_same [OF assms] by (simp add: fetch_search_targets_def split: option.split)

lemma enrich_same:
  assumes "same_open_tools (sv_registry sv) (sv_env sv) (sv_world sv) w'"
  shows "enrich_web_search_with_fetch (with_world w' sv) r t = enrich_web_search_with_fetch sv r t"
  unfolding enrich_web_search_with_fetch_def find_tool_world fetch_targets_same [OF assms] with_world_simps ..

lemma execute_plan_same:
  assumes "same_tools (sv_registry sv) (sv_env sv) confirmed (sv_world sv) w'"
    and "allowed_plan (sv_registry sv) confirmed (as_plan (tu_state t))" and "\<not> pl_no_tool (as_plan (tu_state t))"
  shows "execute_tool_plan (with_world w' sv) t = execute_tool_plan sv t"
proof -
  have open_tools: "same_open_tools (sv_registry sv) (sv_env sv) (sv_world sv) w'" using assms(1) by (simp add: same_tools_def)
  have reg: "find_tool sv name = reg_get (sv_registry sv) name" for name by (simp add: find_tool_def reg_get_def)
  show ?thesis
    using assms(2) unfolding allowed_plan_def sound_plan_def
  proof (elim disjE exE conjE)
    assume "pl_no_tool (as_plan (tu_state t))" with assms(3) show ?thesis by simp
  next
    fix tool args reason
    assume g: "reg_get (sv_registry sv) (tool_name tool) = Some tool" and p: "as_plan (tu_state t) = tool_plan tool args reason"
    have f: "find_tool sv (tool_name tool) = Some tool" using g by (simp add: reg)
    have "execute (with_world w' sv) (\<not> pm_requires_confirmation (rt_manifest tool)) tool args t
        = execute sv (\<not> pm_requires_confirmation (rt_manifest tool)) tool args t"
      by (rule execute_same [OF open_tools f]) simp
    with f p show ?thesis by (simp add: execute_tool_plan_def tool_plan_def Let_def)
  next
    fix name args reason
    assume g: "reg_get (sv_registry sv) name = None" and p: "as_plan (tu_state t) = builtin_plan None name args reason"
    have f: "find_tool sv name = None" using g by (simp add: reg)
    with p show ?thesis by (simp add: execute_tool_plan_def builtin_plan_def Let_def)
  next
    fix name args reason
    assume c: "confirmed = Some (name, args, reason)"
      and p: "as_plan (tu_state t) = confirmed_plan (reg_get (sv_registry sv) name) name args reason"
    show ?thesis
    proof (cases "reg_get (sv_registry sv) name")
      case None
      with p show ?thesis by (simp add: execute_tool_plan_def confirmed_plan_def builtin_plan_def reg Let_def)
    next
      case (Some tool)
      have d: "dispatch_tool (sv_world sv) (sv_env sv) q tool args = dispatch_tool w' (sv_env sv) q tool args" for q
        using assms(1) c Some by (auto simp: same_tools_def same_call_def)
      have "execute (with_world w' sv) True tool args t = execute sv True tool args t"
        by (simp add: execute_def run_tool_same_dispatch [OF d])
      with p Some show ?thesis by (simp add: execute_tool_plan_def confirmed_plan_def builtin_plan_def reg Let_def)
    qed
  qed
qed

lemma maybe_execute_same:
  assumes "same_tools (sv_registry sv) (sv_env sv) confirmed (sv_world sv) w'"
    and "allowed_plan (sv_registry sv) confirmed (as_plan (tu_state t))"
  shows "maybe_execute_tool (with_world w' sv) t = maybe_execute_tool sv t"
proof (cases "pl_no_tool (as_plan (tu_state t))")
  case True
  then show ?thesis by (simp add: maybe_execute_tool_def Let_def)
next
  case False
  have open_tools: "same_open_tools (sv_registry sv) (sv_env sv) (sv_world sv) w'" using assms(1) by (simp add: same_tools_def)
  have e: "execute_tool_plan (with_world w' sv) (emit e t) = execute_tool_plan sv (emit e t)" for e
    using execute_plan_same [of sv confirmed w' "emit e t"] assms False by simp
  show ?thesis
    unfolding maybe_execute_tool_def Let_def e enrich_same [OF open_tools] fetch_targets_same [OF open_tools]
      with_world_simps ..
qed

section \<open>The graph\<close>

definition env_world :: "tool_world \<Rightarrow> graph_env \<Rightarrow> graph_env" where
  "env_world w v = v\<lparr>ge_tools := with_world w (ge_tools v)\<rparr>"

lemma env_world_simps [simp]:
  "ge_tools (env_world w v) = with_world w (ge_tools v)" "ge_settings (env_world w v) = ge_settings v"
  "ge_models (env_world w v) = ge_models v" "ge_user (env_world w v) = ge_user v" "ge_mcp (env_world w v) = ge_mcp v"
  "ge_retrieval (env_world w v) = ge_retrieval v" "ge_loads_in_time (env_world w v) = ge_loads_in_time v"
  "ge_memory_locked (env_world w v) = ge_memory_locked v" "ge_now (env_world w v) = ge_now v"
  "ge_fresh (env_world w v) = ge_fresh v" "ge_interrupt (env_world w v) = ge_interrupt v"
  by (simp_all add: env_world_def)

text \<open>The plan the tool step will run is allowed.\<close>

definition plan_ok :: "graph_env \<Rightarrow> graph_state \<Rightarrow> bool" where
  "plan_ok v g \<longleftrightarrow> allowed_plan (env_reg v) (gs_confirmed g) (as_plan (gs_state g))"

definition same_for :: "graph_env \<Rightarrow> graph_state \<Rightarrow> tool_world \<Rightarrow> bool" where
  "same_for v g w' \<longleftrightarrow>
     same_tools (env_reg v) (sv_env (ge_tools v)) (gs_confirmed g) (sv_world (ge_tools v)) w'"

lemma node_same:
  assumes "same_for v g w'" and "plan_ok v g"
  shows "run_node (env_world w' v) n g = run_node v n g"
proof (cases "n = ExecuteTool")
  case True
  with maybe_execute_same [OF assms(1) [unfolded same_for_def], of "gs_turn g"] assms(2) show ?thesis
    by (simp add: execute_tool_node_def plan_ok_def)
next
  case False
  have sources: "load_sources (env_world w' v) g = load_sources v g"
    unfolding load_sources_def in_time_def env_world_simps with_world_simps ..
  have route: "turn_route (env_world w' v) g = turn_route v g" for g
    by (simp add: turn_route_def)
  note nodes = ensure_conversation_node_def load_context_node_def save_user_message_node_def preflight_node_def
    retrieve_context_node_def plan_node_def await_confirmation_node_def generate_answer_node_def
    save_assistant_message_node_def update_memory_node_def
  from False show ?thesis
    by (cases n) (simp_all only: run_node.simps nodes env_world_simps with_world_simps sources route simp_thms)
qed

lemma create_approval_plan: "create_approval i now st route ty ttl d = (d',
  Inr st') \<Longrightarrow> as_plan st' = as_plan st"
  by (auto simp: create_approval_def Let_def split: list.splits option.splits if_splits)

lemma generate_answer_plan: "generate_answer lib reg ml n m st = Inr (st',
  ts) \<Longrightarrow> as_plan st' = as_plan st"
  by (auto simp: generate_answer_def Let_def split: sum.splits prod.splits)

lemma allowed_sound: "sound_plan reg p \<Longrightarrow> allowed_plan reg c p"
  by (simp add: allowed_plan_def)

lemma node_plan_ok:
  assumes "keyed (env_reg v)" and "plan_ok v g" and run: "run_node v n g = (g', Inr ())"
  shows "plan_ok v g'"
proof -
  have same: "gs_confirmed g' = gs_confirmed g" by (rule node_counters(2) [OF run])
  have keep: "plan_ok v g'" if "as_plan (gs_state g') = as_plan (gs_state g)"
    using that assms(2) same by (simp add: plan_ok_def)
  consider (plan) "n = Plan" | (pre) "n = Preflight" | (tool) "n = ExecuteTool"
    | (other) "n \<noteq> Plan" "n \<noteq> Preflight" "n \<noteq> ExecuteTool" by blast
  then show ?thesis
  proof cases
    case plan
    show ?thesis
    proof (cases "gs_confirmed g")
      case None
      with run plan next_step_sound [OF assms(1)] have "sound_plan (env_reg v) (as_plan (gs_state g'))"
        by (auto simp: plan_node_def Let_def rounds_exhausted_def split: if_splits sum.splits)
      then show ?thesis by (simp add: plan_ok_def allowed_sound)
    next
      case (Some c)
      obtain name args reason where c: "c = (name, args, reason)" by (cases c)
      with run plan Some same show ?thesis by (auto simp: plan_node_def plan_ok_def allowed_plan_def)
    qed
  next
    case pre
    show ?thesis
    proof (cases "as_plan (gs_state g') = as_plan (gs_state g)")
      case True
      then show ?thesis by (rule keep)
    next
      case False
      with run pre early_plan_sound [OF assms(1)] have "sound_plan (env_reg v) (as_plan (gs_state g'))"
        by (auto simp: preflight_node_def split: sum.splits option.splits)
      then show ?thesis by (simp add: plan_ok_def allowed_sound)
    qed
  next
    case tool
    with run have "as_plan (gs_state g') = as_plan (gs_state g)"
      by (auto simp: execute_tool_node_def Let_def turn_kept_def dest!: maybe_execute_kept split: prod.splits sum.splits)
    then show ?thesis by (rule keep)
  next
    case other
    have "as_plan (gs_state g') = as_plan (gs_state g)"
      using run other by (cases n; auto simp: node_defs Let_def dest: create_approval_plan generate_answer_plan
          split: prod.splits sum.splits option.splits if_splits)
    then show ?thesis by (rule keep)
  qed
qed

lemma run_graph_same:
  assumes "keyed (env_reg v)"
  shows "same_for v g w' \<Longrightarrow> plan_ok v g \<Longrightarrow> run_graph (env_world w' v) mode limit n g = run_graph v mode limit n g"
proof (induction limit arbitrary: n g)
  case (Suc limit)
  obtain h r where r: "run_node v n g = (h, r)" by fastforce
  then have r': "run_node (env_world w' v) n g = (h, r)" using node_same [OF Suc.prems] by simp
  show ?case
  proof (cases r)
    case (Inl e)
    then show ?thesis using r r' by (simp split: option.split)
  next
    case (Inr u)
    then have "plan_ok v h" using node_plan_ok [OF assms Suc.prems(2), of n h] r by simp
    then have "plan_ok v (h\<lparr>gs_steps := Suc (gs_steps h)\<rparr>)" by (simp add: plan_ok_def)
    moreover have "same_for v (h\<lparr>gs_steps := Suc (gs_steps h)\<rparr>) w'"
      using Suc.prems(1) node_counters(2) [OF r] by (simp add: same_for_def)
    ultimately show ?thesis using r r' Inr Suc.IH by (simp split: option.split)
  qed
qed simp

lemma chat_start_simps [simp]:
  "gs_state (chat_start v q d) = start_state v q" "gs_confirmed (chat_start v q d) = None"
  "gs_tool_rounds (chat_start v q d) = 0" "gs_max_tool_rounds (chat_start v q d) = max (rq_rounds q) 0"
  "gs_db (chat_start v q d) = d" "gs_saved (chat_start v q d) = d" "gs_save_user (chat_start v q d)"
  "chat_start (env_world w v) q d = chat_start v q d"
  by (simp_all add: chat_start_def start_graph_def start_state_def)

lemma start_plan_ok: "plan_ok v (chat_start v q d)"
  by (simp add: plan_ok_def start_state_def allowed_plan_def sound_plan_def default_plan_def)

lemma confirmed_start_simps [simp]:
  "gs_confirmed (confirmed_start v q m a d) = Some (ap_tool_name a, ap_arguments a, (lit ''Confirmed: '')
    @ ap_reason a)"
  "as_plan (gs_state (confirmed_start v q m a d)) = default_plan"
  "gs_db (confirmed_start v q m a d) = d" "gs_saved (confirmed_start v q m a d) = d"
  "gs_tool_rounds (confirmed_start v q m a d) = 0"
  "confirmed_start (env_world w v) q m a d = confirmed_start v q m a d"
  by (simp_all add: confirmed_start_def start_graph_def start_state_def Let_def split: option.split)

text \<open>
  C2. A chat turn never runs a tool that needs confirmation: if two worlds differ only in what such tools
  do, the whole turn is the same in both: the committed database, every event sent and how it ends.
\<close>

theorem chat_never_runs_guarded_tools:
  assumes "keyed (env_reg v)" and "same_open_tools (env_reg v) (sv_env (ge_tools v)) (sv_world (ge_tools v)) w'"
  shows "stream (env_world w' v) limit q d = stream v limit q d"
proof -
  have "same_for v (chat_start v q d) w'" using assms(2) by (simp add: same_for_def same_tools_def)
  from run_graph_same [OF assms(1) this start_plan_ok] show ?thesis by (simp add: stream_def run_agent_def)
qed

text \<open>
  C4. A confirmation covers one call: if two worlds agree on the tools that need no confirmation and on the
  stored call of the approval, the confirmed turn is the same in both, whatever other guarded tools, or the
  same tool with other arguments, would do. The arguments come from the stored approval, not from the request.
\<close>

theorem confirmation_covers_one_call:
  assumes "keyed (env_reg v)" and "m_approval m = Some a"
    and "same_open_tools (env_reg v) (sv_env (ge_tools v)) (sv_world (ge_tools v)) w'"
    and "same_call (env_reg v) (sv_env (ge_tools v)) (ap_tool_name a) (ap_arguments a) (sv_world (ge_tools v)) w'"
  shows "stream_confirmed_tool (env_world w' v) limit q m now_done now_end d
    = stream_confirmed_tool v limit q m now_done now_end d"
proof -
  let ?g = "confirmed_start v q m a d"
  have "same_for v ?g w'" using assms(3,4) by (simp add: same_for_def same_tools_def)
  moreover have "plan_ok v ?g" by (simp add: plan_ok_def allowed_plan_def sound_plan_def default_plan_def)
  ultimately have "run_graph (env_world w' v) ConfirmedTool limit LoadContext ?g = run_graph v ConfirmedTool limit LoadContext ?g"
    by (rule run_graph_same [OF assms(1)])
  then show ?thesis by (simp add: stream_confirmed_tool_def assms(2) run_agent_def)
qed

text \<open>
  C8. A chat turn ends: whatever the model, the tools and the services answer, the graph reaches its end or
  an exception within nine steps and two for each tool round, before any larger step limit, and the tools
  are visited at most once per allowed round (once when no round is allowed and the message itself names a
  guarded tool). For the default of three rounds that is fifteen steps.
\<close>

theorem chat_turn_ends:
  "snd (run_graph v ChatMode (9 + 2 * nat (rq_rounds q) + k) EnsureConversation (chat_start v q d)) \<noteq> OverLimit
   \<and> gs_tool_rounds (fst (run_graph v ChatMode limit EnsureConversation (chat_start v q d))) \<le> max 1 (rq_rounds q)"
proof
  have "rounds_left (chat_start v q d) = nat (rq_rounds q)" by (simp add: rounds_left_def)
  then show "snd (run_graph v ChatMode (9 + 2 * nat (rq_rounds q) + k) EnsureConversation (chat_start v q d)) \<noteq> OverLimit"
    by (intro run_graph_ends) simp_all
  have "rounds_ok EnsureConversation (chat_start v q d)" by (simp add: rounds_ok_def)
  then show "gs_tool_rounds (fst (run_graph v ChatMode limit EnsureConversation (chat_start v q d))) \<le> max 1 (rq_rounds q)"
    using run_graph_rounds [of EnsureConversation "chat_start v q d" v limit]
    by (cases "run_graph v ChatMode limit EnsureConversation (chat_start v q d)") simp
qed

end
