(* ===== verification/Agent_Saved.thy ===== *)
theory Agent_Saved
  imports Agent_Safety
begin

text \<open>
  What a turn leaves in the database: stored messages stay, a finished chat turn has saved the user's
  message and either the answer it announced or the approval it waits for, and a claimed approval ends as
  completed or interrupted.
\<close>

section \<open>Stored messages stay\<close>

definition message_kept :: "message \<Rightarrow> graph_state \<Rightarrow> bool" where
  "message_kept m g \<longleftrightarrow> get_message (m_id m) (gs_db g) = Some m \<and> get_message (m_id m) (gs_saved g) = Some m"

lemma get_message_cong: "db_messages d' = db_messages d \<Longrightarrow> get_message i d' = get_message i d"
  by (simp add: get_message_def)

lemma ensure_keeps_messages: "ensure_conversation u rq i now d = (d',
  c) \<Longrightarrow> db_messages d' = db_messages d"
  by (auto simp: ensure_conversation_def Let_def split: option.splits if_splits)

lemma title_keeps_messages: "auto_title_conversation l now c msg h d = (d',
  r) \<Longrightarrow> db_messages d' = db_messages d"
  by (auto simp: auto_title_conversation_def Let_def split: sum.splits if_splits)

lemma update_memory_keeps_messages:
  "update_memory uni s f u k i conv now d = (d', r) \<Longrightarrow> db_messages d' = db_messages d"
  by (auto simp: update_memory_def update_steps_def Let_def split: prod.splits option.splits sum.splits if_splits)

lemma create_approval_keeps:
  "create_approval i now st route ty ttl d = (d', r) \<Longrightarrow> get_message (m_id m) d = Some m \<Longrightarrow> get_message (m_id m) d' = Some m"
  by (auto simp: create_approval_def Let_def get_message_append split: list.splits option.splits if_splits)

lemma save_assistant_keeps:
  "save_assistant_message l now i st route d = (d',
    r) \<Longrightarrow> get_message (m_id m) d = Some m \<Longrightarrow> get_message (m_id m) d' = Some m"
  by (auto simp: save_assistant_message_def dest: save_message_keeps split: option.splits)

lemma node_keeps_messages:
  assumes "run_node v n g = (g', r)" and "message_kept m g"
  shows "message_kept m g'"
proof (cases n)
  case ExecuteTool
  with assms show ?thesis
    by (auto simp: execute_tool_node_def Let_def turn_kept_def message_kept_def dest!: maybe_execute_kept
        intro: get_message_cong [THEN trans] split: prod.splits sum.splits)
next
  case EnsureConversation
  with assms show ?thesis
    by (auto simp: ensure_conversation_node_def Let_def message_kept_def dest!: ensure_keeps_messages
        intro: get_message_cong [THEN trans] split: prod.splits)
next
  case LoadContext
  with assms show ?thesis
    by (auto simp: load_context_node_def Let_def message_kept_def dest!: title_keeps_messages
        intro: get_message_cong [THEN trans] split: prod.splits option.splits sum.splits if_splits)
next
  case UpdateMemorySummary
  with assms show ?thesis
    by (auto simp: update_memory_node_def Let_def message_kept_def dest!: update_memory_keeps_messages
        intro: get_message_cong [THEN trans] split: prod.splits option.splits sum.splits)
next
  case SaveUserMessage
  with assms show ?thesis
    by (auto simp: save_user_message_node_def Let_def message_kept_def dest: save_message_keeps
        split: prod.splits option.splits sum.splits if_splits)
next
  case SaveAssistantMessage
  with assms show ?thesis
    by (auto simp: save_assistant_message_node_def Let_def message_kept_def dest: save_assistant_keeps
        split: prod.splits option.splits sum.splits)
next
  case AwaitConfirmation
  with assms show ?thesis
    by (auto simp: await_confirmation_node_def Let_def message_kept_def dest: create_approval_keeps
        split: prod.splits option.splits sum.splits if_splits)
next
  case Preflight
  with assms show ?thesis
    by (auto simp: preflight_node_def message_kept_def split: option.splits sum.splits)
next
  case RetrieveContext
  with assms show ?thesis
    by (auto simp: retrieve_context_node_def Let_def message_kept_def split: prod.splits sum.splits if_splits)
next
  case Plan
  with assms show ?thesis
    by (auto simp: plan_node_def Let_def message_kept_def split: prod.splits option.splits sum.splits if_splits)
next
  case GenerateAnswer
  with assms show ?thesis
    by (auto simp: generate_answer_node_def Let_def message_kept_def split: prod.splits option.splits sum.splits if_splits)
qed

lemma run_graph_keeps_messages:
  "message_kept m g \<Longrightarrow> run_graph v mode limit n g = (g', r) \<Longrightarrow> message_kept m g'"
proof (induction limit arbitrary: n g)
  case (Suc limit)
  obtain h x where x: "run_node v n g = (h, x)" by fastforce
  have k: "message_kept m h" by (rule node_keeps_messages [OF x Suc.prems(1)])
  then have k': "message_kept m (h\<lparr>gs_steps := Suc (gs_steps h)\<rparr>)" by (simp add: message_kept_def)
  show ?case
    using Suc.prems x k Suc.IH [OF k'] by (auto split: option.splits sum.splits)
qed auto

section \<open>A claimed approval is settled\<close>

lemma settle_status:
  assumes "get_message i d = Some m" and "m_approval m = Some a" and "ap_status a = Approved"
  shows "status_of i (fst (interrupt_approval i now d)) = Some Interrupted"
    and "finish_approval i Completed None now d = (d',
      r) \<Longrightarrow> r = Inr () \<and> status_of i d' = Some Completed"
proof -
  have i: "i = m_id m" using get_message_id [OF assms(1)] by simp
  have put: "status_of i (put_message (finish_row st e now m) d) = Some st" for st e
    using assms(1,2) i by (simp add: status_of_def get_put_message)
  show "status_of i (fst (interrupt_approval i now d)) = Some Interrupted"
    using assms put by (simp add: interrupt_approval_def finish_approval_def)
  show "r = Inr () \<and> status_of i d' = Some Completed" if "finish_approval i Completed None now d = (d', r)"
    using that assms put by (auto simp: finish_approval_def)
qed

lemma settled_status:
  assumes "get_message (m_id m) d = Some m" and "m_approval m = Some a" and "ap_status a = Approved"
    and "stream_confirmed_tool v limit q m now_done now_end d = (d', events, e)"
  shows "status_of (m_id m) d' = Some (if snd (run_agent v ConfirmedTool limit LoadContext (confirmed_start v q m a d)) = Inr ()
    then Completed else Interrupted)"
proof -
  let ?g = "confirmed_start v q m a d"
  obtain g r where r: "run_agent v ConfirmedTool limit LoadContext ?g = (g, r)" by fastforce
  have "message_kept m ?g" using assms(1) by (simp add: message_kept_def)
  then have k: "message_kept m g"
    using r run_graph_keeps_messages [of m ?g v ConfirmedTool limit LoadContext]
    by (auto simp: run_agent_def split: if_splits prod.splits graph_end.splits)
  note db = k [unfolded message_kept_def, THEN conjunct1] and saved = k [unfolded message_kept_def, THEN conjunct2]
  show ?thesis
  proof (cases r)
    case (Inl exc)
    then have "d' = fst (interrupt_approval (m_id m) now_end (gs_saved g))"
      using assms(2,4) r by (auto simp: stream_confirmed_tool_def stream_error_def Let_def split: if_splits)
    then show ?thesis using settle_status(1) [OF saved assms(2,3)] r Inl by simp
  next
    case (Inr u)
    obtain d1 x where f: "finish_approval (m_id m) Completed None now_done (gs_db g) = (d1, x)" by fastforce
    from settle_status(2) [OF db assms(2,3) f] have x: "x = Inr ()" "status_of (m_id m) d1 = Some Completed" by simp_all
    have "d' = d1" using assms(2,4) r Inr f x(1) by (simp add: stream_confirmed_tool_def Let_def)
    with x(2) r Inr show ?thesis by simp
  qed
qed


section \<open>A finished turn is saved\<close>

text \<open>
  What is known at a node of an interactive chat turn, without a worker's lease: the message and the route
  are there, the user's message is stored once past its node, and at the memory node the answer is stored.
\<close>

definition user_saved :: "graph_state \<Rightarrow> bool" where
  "user_saved g \<longleftrightarrow> (\<exists>conv. as_conversation_id (gs_state g) = Some conv
     \<and> (\<exists>m \<in> set (db_messages (gs_db g)). m_conversation_id m = conv \<and> m_role m = UserRole
          \<and> m_content m = as_message (gs_state g)))"

definition answer_row :: "graph_state \<Rightarrow> message \<Rightarrow> bool" where
  "answer_row g m \<longleftrightarrow> as_conversation_id (gs_state g) = Some (m_conversation_id m) \<and> m_role m = AssistantRole
     \<and> m_tool_calls m = as_tool_calls (gs_state g)"

definition answer_saved :: "graph_state \<Rightarrow> bool" where
  "answer_saved g \<longleftrightarrow> (\<exists>m \<in> set (db_messages (gs_db g)). answer_row g m
     \<and> m_content m = as_final_answer (gs_state g) \<and> m_approval m = None)"

definition approval_saved :: "graph_state \<Rightarrow> bool" where
  "approval_saved g \<longleftrightarrow> (\<exists>m \<in> set (db_messages (gs_db g)). answer_row g m
     \<and> map_option ap_status (m_approval m) = Some Pending)"

definition saved_so_far :: "node \<Rightarrow> graph_state \<Rightarrow> bool" where
  "saved_so_far n g \<longleftrightarrow> gs_save_user g \<and> as_task_id (gs_state g) = None
     \<and> (n \<notin> {EnsureConversation, LoadContext,
       SaveUserMessage} \<longrightarrow> user_saved g \<and> gs_saved g = gs_db g)
     \<and> (n = UpdateMemorySummary \<longrightarrow> answer_saved g)"

lemma node_save_user: "run_node v n g = (g', r) \<Longrightarrow> gs_save_user g' = gs_save_user g"
  by (cases n; auto simp: node_defs Let_def split: prod.splits sum.splits option.splits if_splits)

lemma save_unleased:
  assumes "save_message None now i conv n d = (d', Inr ())"
  shows "db_messages d' = db_messages d @ [message_row i conv now None n]"
  using assms by (auto simp: save_message_def lock_task_lease_def insert_message_def split: if_splits)

lemma create_approval_state:
  assumes "create_approval i now st route ty ttl d = (d', Inr st')"
  shows "as_message st' = as_message st" "as_conversation_id st' = as_conversation_id st"
    "as_final_answer st' = as_final_answer st" "as_task_id st' = as_task_id st"
    "\<exists>m. db_messages d' = db_messages d @ [m] \<and> as_conversation_id st = Some (m_conversation_id m) \<and> m_role m = AssistantRole
       \<and> m_tool_calls m = as_tool_calls st' \<and> map_option ap_status (m_approval m) = Some Pending"
  using assms by (auto simp: create_approval_def Let_def split: list.splits option.splits if_splits)

lemma generate_answer_keeps:
  assumes "generate_answer lib reg ml n m st = Inr (st', ts)"
  shows "as_message st' = as_message st" "as_conversation_id st' = as_conversation_id st" "as_task_id st' = as_task_id st"
  using assms by (auto simp: generate_answer_def Let_def split: sum.splits prod.splits)

text \<open>A node keeps the message of the turn, its task and, past the first one, its conversation.\<close>

lemma node_turn:
  assumes "run_node v n g = (g', Inr ())"
  shows "as_message (gs_state g') = as_message (gs_state g)" "as_task_id (gs_state g') = as_task_id (gs_state g)"
    "n \<noteq> EnsureConversation \<Longrightarrow> as_conversation_id (gs_state g') = as_conversation_id (gs_state g)"
proof -
  have "as_message (gs_state g') = as_message (gs_state g) \<and> as_task_id (gs_state g') = as_task_id (gs_state g)
      \<and> (n \<noteq> EnsureConversation \<longrightarrow> as_conversation_id (gs_state g') = as_conversation_id (gs_state g))"
  proof (cases "n = ExecuteTool")
    case True
    with assms show ?thesis
      by (auto simp: execute_tool_node_def Let_def turn_kept_def dest!: maybe_execute_kept split: prod.splits sum.splits)
  next
    case False
    then show ?thesis
      using assms by (cases n; auto simp: node_defs Let_def create_approval_state generate_answer_keeps
          split: prod.splits sum.splits option.splits if_splits)
  qed
  then show "as_message (gs_state g') = as_message (gs_state g)" "as_task_id (gs_state g') = as_task_id (gs_state g)"
    "n \<noteq> EnsureConversation \<Longrightarrow> as_conversation_id (gs_state g') = as_conversation_id (gs_state g)" by simp_all
qed

text \<open>Messages are only appended.\<close>

lemma node_appends:
  assumes "run_node v n g = (g', Inr ())" and "env_lease v = None" and "n \<noteq> RetrieveContext"
  shows "set (db_messages (gs_db g)) \<subseteq> set (db_messages (gs_db g'))"
proof (cases "n = ExecuteTool")
  case True
  with assms(1) show ?thesis
    by (auto simp: execute_tool_node_def Let_def turn_kept_def dest!: maybe_execute_kept split: prod.splits sum.splits)
next
  case False
  note d = ensure_keeps_messages title_keeps_messages update_memory_keeps_messages save_unleased
  have ap: "x \<in> set (db_messages d')" if "create_approval i now st route ty ttl d = (d',
    Inr st')" "x \<in> set (db_messages d)"
    for i now st route ty ttl d d' st' x
    using create_approval_state(5) [OF that(1)] that(2) by auto
  show ?thesis
    using assms False by (cases n; auto simp: node_defs Let_def save_assistant_message_def dest!: d intro: ap
        split: prod.splits sum.splits option.splits if_splits)
qed

text \<open>Past the user's message every change is committed.\<close>

lemma node_commits:
  assumes "run_node v n g = (g', Inr ())" and "n \<notin> {EnsureConversation, LoadContext}"
    and "if n = SaveUserMessage then gs_save_user g else gs_saved g = gs_db g"
  shows "gs_saved g' = gs_db g'"
  using assms by (cases n; auto simp: node_defs Let_def split: prod.splits sum.splits option.splits if_splits)

lemma user_node_saves:
  assumes "save_user_message_node v g = (g', Inr ())" and "env_lease v = None" and "gs_save_user g"
  shows "user_saved g'"
  using assms by (auto simp: save_user_message_node_def user_saved_def Let_def message_row_def user_message_def
      dest!: save_unleased split: option.splits prod.splits sum.splits)

lemma answer_node_saves:
  assumes "save_assistant_message_node v g = (g', Inr ())" and "env_lease v = None"
  shows "answer_saved g'"
  using assms by (auto simp: save_assistant_message_node_def save_assistant_message_def answer_saved_def answer_row_def
      Let_def message_row_def assistant_message_def dest!: save_unleased split: option.splits prod.splits sum.splits)

lemma approval_node_saves:
  assumes "await_confirmation_node v g = (g', Inr ())" and "as_task_id (gs_state g) = None"
  shows "approval_saved g'"
proof -
  obtain conv route st d where c: "as_conversation_id (gs_state g) = Some conv" "gs_route g = Some route"
    "create_approval (fresh_of v g) (now_of v g) (gs_state g) route (gs_task_type g)
       (agent_approval_ttl_seconds (ge_settings v)) (gs_db g) = (d, Inr st)"
    and g': "gs_state g' = st" "gs_db g' = d"
    using assms by (auto simp: await_confirmation_node_def Let_def split: option.splits prod.splits sum.splits if_splits)
  from create_approval_state(5) [OF c(3)] create_approval_state(2) [OF c(3)] show ?thesis
    by (auto simp: approval_saved_def answer_row_def g')
qed

lemma user_saved_mono:
  "user_saved g \<Longrightarrow> set (db_messages (gs_db g)) \<subseteq> set (db_messages (gs_db g')) \<Longrightarrow>
   as_conversation_id (gs_state g') = as_conversation_id (gs_state g) \<Longrightarrow> as_message (gs_state g') = as_message (gs_state g) \<Longrightarrow>
   user_saved g'"
  by (auto simp: user_saved_def)

lemma retrieve_keeps_db:
  "retrieve_context_node v g = (g', r) \<Longrightarrow> gs_saved g = gs_db g \<Longrightarrow> gs_db g' = gs_db g"
  by (auto simp: retrieve_context_node_def Let_def split: prod.splits sum.splits if_splits)

lemma saved_step:
  assumes run: "run_node v n g = (g', Inr ())" and lease: "env_lease v = None" and ok: "saved_so_far n g"
  shows "gs_save_user g' \<and> as_task_id (gs_state g') = None
    \<and> (n \<notin> {EnsureConversation, LoadContext} \<longrightarrow> user_saved g' \<and> gs_saved g' = gs_db g')"
proof -
  have user: "gs_save_user g'" using node_save_user [OF run] ok by (simp add: saved_so_far_def)
  have task: "as_task_id (gs_state g') = None" using node_turn(2) [OF run] ok by (simp add: saved_so_far_def)
  show ?thesis
  proof (cases "n \<in> {EnsureConversation, LoadContext}")
    case True
    with user task show ?thesis by simp
  next
    case False
    then have commits: "gs_saved g' = gs_db g'"
      using node_commits [OF run] ok by (cases "n = SaveUserMessage") (auto simp: saved_so_far_def)
    have "user_saved g'"
    proof (cases "n = SaveUserMessage")
      case True
      with run user_node_saves [OF _ lease] ok show ?thesis by (simp add: saved_so_far_def)
    next
      case other: False
      then have s: "user_saved g" "gs_saved g = gs_db g" using ok False by (auto simp: saved_so_far_def)
      have "set (db_messages (gs_db g)) \<subseteq> set (db_messages (gs_db g'))"
        using node_appends [OF run lease] retrieve_keeps_db [of v g g' "Inr ()"] run s(2) by (cases "n = RetrieveContext") auto
      with user_saved_mono [OF s(1)] node_turn [OF run] False show ?thesis by simp
    qed
    with user task commits show ?thesis by simp
  qed
qed

lemma saved_next:
  assumes run: "run_node v n g = (g', Inr ())" and nxt: "next_node ChatMode n g' = Some n'"
    and lease: "env_lease v = None" and ok: "saved_so_far n g"
  shows "saved_so_far n' g'"
proof -
  have late: "n' \<notin> {EnsureConversation, LoadContext,
    SaveUserMessage} \<Longrightarrow> n \<notin> {EnsureConversation, LoadContext}"
    using nxt by (cases n) auto
  have "answer_saved g'" if "n' = UpdateMemorySummary"
  proof -
    have "n = SaveAssistantMessage" using nxt that by (cases n) (auto split: if_splits)
    with run answer_node_saves [OF _ lease] show ?thesis by simp
  qed
  with saved_step [OF run lease ok] late show ?thesis by (simp add: saved_so_far_def)
qed

lemma last_node_saves:
  assumes run: "run_node v n g = (g', Inr ())" and nxt: "next_node ChatMode n g' = None"
    and lease: "env_lease v = None" and ok: "saved_so_far n g"
  shows "user_saved g' \<and> gs_saved g' = gs_db g' \<and> (answer_saved g' \<or> approval_saved g')"
proof -
  have "n = AwaitConfirmation \<or> n = UpdateMemorySummary" using nxt by (cases n) auto
  then show ?thesis
  proof
    assume n: "n = AwaitConfirmation"
    with run ok have "approval_saved g'" using approval_node_saves by (simp add: saved_so_far_def)
    with saved_step [OF run lease ok] n show ?thesis by simp
  next
    assume n: "n = UpdateMemorySummary"
    then have "db_messages (gs_db g') = db_messages (gs_db g)" and "gs_state g' = gs_state g"
      using run by (auto simp: update_memory_node_def Let_def dest!: update_memory_keeps_messages
          split: option.splits prod.splits sum.splits)
    with ok n have "answer_saved g'" by (simp add: saved_so_far_def answer_saved_def answer_row_def)
    with saved_step [OF run lease ok] n show ?thesis by simp
  qed
qed

lemma finished_saved:
  assumes "env_lease v = None"
  shows "saved_so_far n g \<Longrightarrow> run_graph v ChatMode limit n g = (g', Finished) \<Longrightarrow>
    user_saved g' \<and> gs_saved g' = gs_db g' \<and> (answer_saved g' \<or> approval_saved g')"
proof (induction limit arbitrary: n g)
  case (Suc limit)
  then obtain h where h: "run_node v n g = (h, Inr ())" and i: "ge_interrupt v (gs_steps g) = None"
    by (auto split: option.splits prod.splits sum.splits)
  show ?case
  proof (cases "next_node ChatMode n h")
    case None
    with h i Suc.prems(2) have "g' = h" by simp
    with last_node_saves [OF h None assms Suc.prems(1)] show ?thesis by simp
  next
    case (Some n')
    let ?h = "h\<lparr>gs_steps := Suc (gs_steps h)\<rparr>"
    have "saved_so_far n' ?h"
      using saved_next [OF h Some assms Suc.prems(1)]
      by (simp add: saved_so_far_def user_saved_def answer_saved_def answer_row_def)
    moreover have "run_graph v ChatMode limit n' ?h = (g', Finished)" using h i Some Suc.prems(2) by simp
    ultimately show ?thesis by (rule Suc.IH)
  qed
qed simp


end
