(* ===== verification/Agent_Examples.thy ===== *)
theory Agent_Examples
  imports Agent_Saved
begin

text \<open>
  Concrete turns: a chat turn that runs to its end with a model that answers nothing, worlds that differ in
  a guarded tool, and a confirmed turn that is cancelled.
\<close>

definition demo_services :: "registry option \<Rightarrow> tool_world \<Rightarrow> tool_services" where
  "demo_services reg w = \<lparr>sv_lib = demo_text_lib, sv_registry = reg, sv_world = w, sv_env = demo_env,
    sv_lease = None,
     sv_audit = (\<lambda>n. UUID (100 + n)), sv_trace = (\<lambda>_. (lit ''t'')),
       sv_now = (\<lambda>n. int n)\<rparr>"

definition demo_models :: model_services where
  "demo_models = \<lparr>ml_settings = demo_model_settings, ml_provider = demo_provider JNull,
    ml_client = demo_stream_client\<rparr>"

definition demo_graph_env :: "registry option \<Rightarrow> tool_world \<Rightarrow> exn option \<Rightarrow> graph_env" where
  "demo_graph_env reg w stop = \<lparr>ge_tools = demo_services reg w, ge_settings = default_agent_settings,
     ge_models = demo_models, ge_user = Some (UUID 7), ge_mcp = None, ge_retrieval = demo_retrieval,
     ge_loads_in_time = 0, ge_memory_locked = True, ge_now = (\<lambda>n. int n),
       ge_fresh = (\<lambda>n. UUID (200 + n)),
     ge_interrupt = (\<lambda>_. stop)\<rparr>"

definition demo_turn :: turn_request where
  "demo_turn = \<lparr>rq_conversation_id = None, rq_message = (lit ''x''), rq_task_type = (lit ''conversation''),
    rq_trace_id = (lit ''t''),
     rq_task_id = None, rq_rounds = 0\<rparr>"

section \<open>Guarded tools\<close>

lemma demo_open_tools:
  "keyed (Some [demo_tool])" "same_open_tools (Some [demo_tool]) demo_env w w'"
  by (auto simp: keyed_def same_open_tools_def reg_get_def registry_get_def find_row_def demo_tool_def split: if_splits)

theorem chat_never_runs_guarded_tools_witness:
  "tw_handler (demo_world (JStr (lit ''a''))) \<noteq> tw_handler (demo_world (JStr (lit ''b'')))
   \<and> stream (env_world (demo_world (JStr (lit ''b''))) (demo_graph_env (Some [demo_tool]) (demo_world (JStr (lit ''a''))) None)) 25
       demo_turn empty_db
     = stream (demo_graph_env (Some [demo_tool]) (demo_world (JStr (lit ''a''))) None) 25 demo_turn empty_db"
proof
  show "tw_handler (demo_world (JStr (lit ''a''))) \<noteq> tw_handler (demo_world (JStr (lit ''b'')))"
    by (simp add: demo_world_def fun_eq_iff lit_def)
  show "stream (env_world (demo_world (JStr (lit ''b''))) (demo_graph_env (Some [demo_tool]) (demo_world (JStr (lit ''a''))) None)) 25
       demo_turn empty_db
     = stream (demo_graph_env (Some [demo_tool]) (demo_world (JStr (lit ''a''))) None) 25 demo_turn empty_db"
    by (rule chat_never_runs_guarded_tools) (simp_all add: demo_graph_env_def demo_services_def demo_open_tools)
qed

section \<open>A cancelled confirmed turn\<close>

definition demo_approved :: message where
  "demo_approved = finish_row Approved None 1 demo_approval_message"

definition demo_approved_db :: db where
  "demo_approved_db = demo_approval_db\<lparr>db_messages := [demo_approved]\<rparr>"

lemma demo_approved_simps:
  "get_message (m_id demo_approved) demo_approved_db = Some demo_approved"
  "\<exists>a. m_approval demo_approved = Some a \<and> ap_status a = Approved \<and> ap_message a = (lit ''find x'')
     \<and> ap_tool_name a = (lit ''web_search'')"
  by (simp_all add: demo_approved_def demo_approved_db_def demo_approval_message_def get_message_def find_row_def)

abbreviation demo_cancelled :: "stream_result" where
  "demo_cancelled \<equiv> stream_confirmed_tool (demo_graph_env None (demo_world JNull) (Some Cancelled)) 25 demo_turn
     demo_approved 2 3 demo_approved_db"

lemma run_graph_interrupted:
  "ge_interrupt v (gs_steps g) = Some e \<Longrightarrow> 0 < limit \<Longrightarrow> run_graph v mode limit n g = (g, Failed_with e)"
  by (cases limit) simp_all

lemma run_agent_cancelled:
  assumes "length (as_message (gs_state g)) \<le> agent_context_max_chars (ge_settings v)"
    and "ge_interrupt v (gs_steps g) = Some Cancelled" and "0 < limit"
  shows "run_agent v mode limit n g = (g, Inl Cancelled)"
  using assms run_graph_interrupted [OF assms(2,3)] by (simp add: run_agent_def is_timeout_def)


theorem confirmation_covers_one_call_witness:
  "stream_confirmed_tool (env_world (demo_world (JStr (lit ''b''))) (demo_graph_env (Some [demo_tool]) (demo_world (JStr (lit ''a''))) None))
      25 demo_turn demo_approved 2 3 demo_approved_db
   = stream_confirmed_tool (demo_graph_env (Some [demo_tool]) (demo_world (JStr (lit ''a''))) None)
      25 demo_turn demo_approved 2 3 demo_approved_db"
proof -
  obtain a where a: "m_approval demo_approved = Some a" "ap_tool_name a = (lit ''web_search'')"
    using demo_approved_simps(2) by blast
  have "same_call (Some [demo_tool]) demo_env (ap_tool_name a) (ap_arguments a) w w'" for w w'
    by (simp add: same_call_def a(2) reg_get_def registry_get_def find_row_def demo_tool_def tool_name_def)
  then show ?thesis
    by (intro confirmation_covers_one_call [OF _ a(1)]) (simp_all add: demo_graph_env_def demo_services_def demo_open_tools)
qed

section \<open>A chat turn that ends\<close>

abbreviation demo_chat_env :: graph_env where
  "demo_chat_env \<equiv> demo_graph_env None (demo_world JNull) None"

lemmas rx_eval = rx_find_def rx_search_def rx_at_def rx_opt_def rx_plus_def rx_lit_def rx_ilit_def icase_def at_bound_def
  re_word_def ascii_word_def

lemma demo_no_urls:
  "found_url demo_text_lib github_url_re (lit ''x'') = None" "found_url demo_text_lib fetch_url_re (lit ''x'') = None"
  by (simp_all add: found_url_def github_url_re_def fetch_url_re_def rx_scheme_def rx_eval str_eval)

lemma lower_x: "lower (lit ''x'') = (lit ''x'')"
  by (simp add: lower_def lower_cp_def str_eval)

lemma demo_preflight: "plan_early_confirmable_tool demo_text_lib None n (lit ''x'') = Inr None"
  by (simp add: plan_early_confirmable_tool_def extract_github_reference_def plan_fetch_tool_def extract_fetch_url_def
      demo_no_urls)

lemma demo_inventory: "tool_availability_answer demo_text_lib None (lit ''x'') = None"
proof -
  have "\<not> rx_search u r (lit ''x'')" if "r \<in> set (english_inventory_patterns u)" for u r
    using that by (auto simp: english_inventory_patterns_def rx_eval str_eval)
  moreover have "\<not> substr tool_zh (lit ''x'')" by (auto simp: tool_zh_def dest: sublist_length_le)
  ultimately have "\<not> requests_tool_inventory demo_text_lib (lit ''x'')"
    by (auto simp: requests_tool_inventory_def list_ex_iff)
  then show ?thesis by (simp add: tool_availability_answer_def available_tools_def lower_x Let_def)
qed

lemma demo_generates:
  assumes "as_message st = (lit ''x'')" "as_history st = []" "as_memory_summaries st = []" "as_citations st = []"
    "as_mcp_resources st = []" "as_mcp_prompts st = []" "as_observations st = []"
  shows "\<exists>st'. generate_answer demo_text_lib None demo_models 48000 name st = Inr (st',
    []) \<and> as_conversation_id st' = as_conversation_id st
    \<and> as_task_id st' = as_task_id st"
proof -
  have c: "answer_context demo_text_lib None st = []"
    using assms by (simp add: answer_context_def available_tools_context_def available_tools_def)
  obtain b where f: "fit_context (lit ''x'') [] [] 48000 = Inr ([], [], b)" by (simp add: fit_context_def Let_def)
  obtain q where q: "chat_request demo_model_settings name (lit ''x'') [] [] = Inr q"
    by (simp add: chat_request_def auth_headers_def chat_api_key_def demo_model_settings_def default_model_settings_def)
  obtain q0 where q0: "chat_request demo_model_settings (lit ''m'') (lit ''hi'') [] [] = Inr q0"
    by (simp add: chat_request_def auth_headers_def chat_api_key_def demo_model_settings_def default_model_settings_def)
  have "demo_stream_client q = demo_stream_client q0" by (simp add: demo_stream_client_def fun_eq_iff)
  then have r: "stream_reply demo_model_settings (demo_provider JNull) demo_stream_client name (lit ''x'') [] [] = ([], [1 / 2], Inr ())"
    using demo_reply_runs by (simp add: stream_reply_def q q0)
  have m: "\<not> contains_raw_tool_protocol []"
    by (simp add: contains_raw_tool_protocol_def raw_tool_protocol_markers_def lower_def)
  show ?thesis
    using assms by (simp add: generate_answer_def c f r m demo_models_def sanitize_model_answer_def Let_def)
qed

text \<open>What holds at every node past the first: nothing has been loaded and no tool was called.\<close>

definition demo_at :: "graph_state \<Rightarrow> bool" where
  "demo_at g \<longleftrightarrow> gs_confirmed g = None \<and> gs_save_user g \<and> gs_saved g = gs_db g \<and> gs_tool_rounds g = 0
     \<and> gs_max_tool_rounds g = 0 \<and> (\<exists>st. gs_state g = st \<and> as_message st = (lit ''x'') \<and> as_task_id st = None
     \<and> as_tool_calls st = [] \<and> as_final_answer st = [] \<and> as_history st = [] \<and> as_memory_summaries st = []
     \<and> as_citations st = [] \<and> as_mcp_resources st = [] \<and> as_mcp_prompts st = [] \<and> as_observations st = []
     \<and> pl_no_tool (as_plan st) \<and> as_conversation_id st = Some (UUID 200))
     \<and> UUID 200 \<in> c_id ` set (db_conversations (gs_db g)) \<and> gs_route g \<noteq> None"

lemmas demo_env_defs = demo_graph_env_def demo_services_def demo_turn_def

lemma demo_first_two:
  "\<exists>g1 g2. run_node demo_chat_env EnsureConversation (chat_start demo_chat_env demo_turn empty_db) = (g1,
    Inr ())
     \<and> gs_steps g1 = 0 \<and> run_node demo_chat_env LoadContext (g1\<lparr>gs_steps := Suc 0\<rparr>) = (g2,
       Inr ())
     \<and> demo_at g2 \<and> gs_steps g2 = Suc 0 \<and> db_messages (gs_db g2) = []"
proof -
  let ?g = "chat_start demo_chat_env demo_turn empty_db"
  let ?c = "\<lparr>c_id = UUID 200, c_user_id = Some (UUID 7), c_title = new_conversation_title,
    c_memory_cursor = NoCursor, c_updated_at = 0\<rparr>"
  let ?d = "empty_db\<lparr>db_conversations := [?c]\<rparr>"
  have e: "ensure_conversation (Some (UUID 7)) None (UUID 200) 0 empty_db = (?d, ?c)"
    by (simp add: ensure_conversation_def empty_db_def Let_def)
  have st: "gs_state ?g = start_state demo_chat_env demo_turn" "gs_db ?g = empty_db" "gs_steps ?g = 0"
    by (simp_all add: chat_start_def start_graph_def)
  have env: "ge_now demo_chat_env 0 = 0" "ge_fresh demo_chat_env 0 = UUID 200" "ge_user demo_chat_env = Some (UUID 7)"
    "env_lease demo_chat_env = None"
    unfolding st by (simp_all add: demo_graph_env_def demo_services_def)
  have q: "as_conversation_id (start_state demo_chat_env demo_turn) = None" "rq_rounds demo_turn = 0"
    by (simp_all add: start_state_def demo_turn_def)
  obtain g1 where g1: "run_node demo_chat_env EnsureConversation ?g = (g1, Inr ())"
    "gs_state g1 = (start_state demo_chat_env demo_turn)\<lparr>as_conversation_id := Some (UUID 200)\<rparr>" "gs_db g1 = ?d"
    "gs_conversation g1 = Some ?c" "gs_steps g1 = 0" "gs_save_user g1" "gs_confirmed g1 = None"
    "gs_tool_rounds g1 = 0" "gs_max_tool_rounds g1 = 0"
    using q by (simp add: ensure_conversation_node_def env st(3) e Let_def)
  let ?h = "g1\<lparr>gs_steps := Suc 0\<rparr>"
  have hist: "load_recent_history s None (UUID 200) ?d = []" "load_active_memory_summaries u (UUID 200) ?d = []" for s u
    by (simp_all add: load_recent_history_def load_active_memory_summaries_def newest_first_def empty_db_def)
  have title: "strip new_conversation_title = new_conversation_title"
    by (simp add: new_conversation_title_def str_eval)
  have "\<exists>d2. auto_title_conversation None 1 ?c (lit ''x'') [] ?d = (d2,
    Inr ()) \<and> c_id ` set (db_conversations d2) = {UUID 200}
      \<and> db_messages d2 = []"
    by (cases "summarize_title (lit ''x'') = new_conversation_title")
      (simp_all add: auto_title_conversation_def title lock_task_lease_def Let_def put_conversation_def put_row_def empty_db_def)
  then obtain d2 where t: "auto_title_conversation None 1 ?c (lit ''x'') [] ?d = (d2, Inr ())"
    and d2: "c_id ` set (db_conversations d2) = {UUID 200}" "db_messages d2 = []" by blast
  have now: "ge_now demo_chat_env (Suc 0) = 1" by (simp add: demo_env_defs)
  have task: "as_task_id (gs_state g1) = None" "as_conversation_id (gs_state g1) = Some (UUID 200)"
    "as_message (gs_state g1) = (lit ''x'')"
    using g1(2) by (simp_all add: start_state_def demo_turn_def)
  obtain g2 where g2: "run_node demo_chat_env LoadContext ?h = (g2, Inr ())"
    "gs_state g2 = (gs_state g1)\<lparr>as_history := [],
      as_memory_summaries := []\<rparr>" "gs_db g2 = d2" "gs_saved g2 = d2"
    "gs_route g2 \<noteq> None" "gs_steps g2 = Suc 0" "gs_save_user g2" "gs_confirmed g2 = None" "gs_tool_rounds g2 = 0" "gs_max_tool_rounds g2 = 0"
    using g1(6-9) by (simp add: load_context_node_def task g1(3,4) hist title t now env(4) Let_def)
  have "demo_at g2"
    using g2 g1(2) d2 by (simp add: demo_at_def start_state_def demo_turn_def default_plan_def)
  with g1(1,5) g2 d2 show ?thesis by blast
qed

lemma demo_env_fields:
  "env_lib demo_chat_env = demo_text_lib" "env_reg demo_chat_env = None" "env_lease demo_chat_env = None"
  "ge_models demo_chat_env = demo_models" "agent_context_max_chars (ge_settings demo_chat_env) = 48000"
  "ge_memory_locked demo_chat_env" "ge_loads_in_time demo_chat_env = 0" "fresh_of demo_chat_env g = UUID (200 + gs_steps g)"
  by (simp_all add: demo_env_defs default_agent_settings_def)

lemma demo_save_message:
  assumes "UUID 200 \<in> c_id ` set (db_conversations d)" and "\<forall>m \<in> set (db_messages d). m_id m \<noteq> i"
  shows "\<exists>d'. save_message None now i (UUID 200) n d = (d',
    Inr ()) \<and> db_conversations d' = db_conversations d
    \<and> (\<forall>m \<in> set (db_messages d'). m \<in> set (db_messages d) \<or> m_id m = i)"
proof -
  have "get_message i d = None" using assms(2) by (auto simp: get_message_def find_row_None_iff)
  with assms(1) show ?thesis by (simp add: save_message_def lock_task_lease_def insert_message_def message_row_def)
qed

text \<open>The ids of the messages stored so far are those of earlier steps.\<close>

definition demo_ids :: "graph_state \<Rightarrow> bool" where
  "demo_ids g \<longleftrightarrow> (\<forall>m \<in> set (db_messages (gs_db g)). \<exists>k < gs_steps g. m_id m = UUID (200 + k))"

lemma demo_middle:
  assumes "demo_at g" and "demo_ids g"
  shows "n \<in> {SaveUserMessage, Preflight, RetrieveContext, Plan} \<Longrightarrow>
    \<exists>g'. run_node demo_chat_env n g = (g', Inr ()) \<and> demo_at g' \<and> gs_steps g' = gs_steps g
      \<and> (\<forall>m \<in> set (db_messages (gs_db g')). m \<in> set (db_messages (gs_db g)) \<or> m_id m = UUID (200 + gs_steps g))"
proof -
  have conv: "as_conversation_id (gs_state g) = Some (UUID 200)" "UUID 200 \<in> c_id ` set (db_conversations (gs_db g))"
    and msg: "as_message (gs_state g) = (lit ''x'')"
    using assms(1) by (auto simp: demo_at_def)
  have fresh: "\<forall>m \<in> set (db_messages (gs_db g)). m_id m \<noteq> UUID (200 + gs_steps g)"
    using assms(2) by (fastforce simp: demo_ids_def)
  obtain d' where d': "save_message None (now_of demo_chat_env g) (UUID (200 + gs_steps g)) (UUID 200) (user_message (lit ''x'')) (gs_db g) = (d', Inr ())"
    "db_conversations d' = db_conversations (gs_db g)"
    "\<forall>m \<in> set (db_messages d'). m \<in> set (db_messages (gs_db g)) \<or> m_id m = UUID (200 + gs_steps g)"
    using demo_save_message [OF conv(2) fresh] by blast
  have sources: "load_sources demo_chat_env g = ([], [], [], Inl (TimeoutError []))"
    by (simp add: load_sources_def in_time_def demo_env_fields)
  assume "n \<in> {SaveUserMessage, Preflight, RetrieveContext, Plan}"
  then consider "n = SaveUserMessage" | "n = Preflight" | "n = RetrieveContext" | "n = Plan" by blast
  then show ?thesis
  proof cases
    case 1
    with assms(1) d' show ?thesis
      by (simp add: save_user_message_node_def conv msg demo_env_fields Let_def) (auto simp: demo_at_def)
  next
    case 2
    with assms(1) show ?thesis by (simp add: preflight_node_def msg demo_env_fields demo_preflight)
  next
    case 3
    with assms(1) show ?thesis
      by (simp add: retrieve_context_node_def sources is_timeout_def Let_def) (auto simp: demo_at_def)
  next
    case 4
    have "gs_confirmed g = None" "gs_max_tool_rounds g \<le> gs_tool_rounds g" using assms(1) by (auto simp: demo_at_def)
    with 4 assms(1) show ?thesis
      by (simp add: plan_node_def) (auto simp: demo_at_def rounds_exhausted_def no_tool_plan_def default_plan_def)
  qed
qed

definition demo_ends :: "nat \<Rightarrow> node \<Rightarrow> graph_state \<Rightarrow> bool" where
  "demo_ends l n g \<longleftrightarrow> (\<exists>g'. run_graph demo_chat_env ChatMode l n g = (g', Finished))"

abbreviation tick :: "graph_state \<Rightarrow> graph_state" where
  "tick g \<equiv> g\<lparr>gs_steps := Suc (gs_steps g)\<rparr>"

lemma demo_ends_step:
  assumes "run_node demo_chat_env n g = (g', Inr ())" and "next_node ChatMode n g' = Some n'" and "demo_ends l n' (tick g')"
  shows "demo_ends (Suc l) n g"
  using assms by (simp add: demo_ends_def demo_graph_env_def)

lemma demo_no_interrupt: "ge_interrupt demo_chat_env k = None"
  by (simp add: demo_graph_env_def)

lemma demo_memory_ends:
  assumes "as_conversation_id (gs_state g) = Some c" and "gs_route g \<noteq> None"
  shows "demo_ends (Suc l) UpdateMemorySummary g"
proof -
  have u: "update_memory u s f usr True i conv now d = (d, Inr False)" for u s f usr i conv now d
    by (simp add: update_memory_def update_steps_def)
  have "\<exists>g'. run_node demo_chat_env UpdateMemorySummary g = (g', Inr ())"
    using assms by (auto simp: update_memory_node_def u demo_env_fields(6))
  then obtain g' where "run_node demo_chat_env UpdateMemorySummary g = (g', Inr ())" ..
  then show ?thesis by (simp add: demo_ends_def demo_no_interrupt)
qed

lemma demo_save_ends:
  assumes "as_conversation_id (gs_state g) = Some (UUID 200)" and "gs_route g = Some route"
    and "UUID 200 \<in> c_id ` set (db_conversations (gs_db g))" and "demo_ids g"
  shows "demo_ends (Suc (Suc l)) SaveAssistantMessage g"
proof -
  let ?g = "emit_to (StatusEv (lit ''save_assistant_message'')) g"
  have "\<forall>m \<in> set (db_messages (gs_db g)). m_id m \<noteq> UUID (200 + gs_steps g)" using assms(4) by (fastforce simp: demo_ids_def)
  from demo_save_message [OF assms(3) this, of "now_of demo_chat_env g" "assistant_message (gs_state g) route"]
  obtain d' where "save_message None (now_of demo_chat_env g) (UUID (200 + gs_steps g)) (UUID 200)
    (assistant_message (gs_state g) route) (gs_db g) = (d', Inr ())" by blast
  then have run: "run_node demo_chat_env SaveAssistantMessage g = (commit_db d' ?g, Inr ())"
    by (simp add: save_assistant_message_node_def save_assistant_message_def demo_env_fields Let_def assms(1,2))
  have "demo_ends (Suc l) UpdateMemorySummary (tick (commit_db d' ?g))"
    by (rule demo_memory_ends) (simp_all add: assms(1,2))
  then show ?thesis by (rule demo_ends_step [OF run, rotated]) simp
qed

lemma demo_answer_ends:
  assumes "demo_at g" and "demo_ids g"
  shows "demo_ends (Suc (Suc (Suc l))) GenerateAnswer g"
proof -
  obtain route where r: "gs_route g = Some route" using assms(1) by (auto simp: demo_at_def)
  let ?st = "gs_state g"
  have st: "as_message ?st = (lit ''x'')" "as_history ?st = []" "as_memory_summaries ?st = []" "as_citations ?st = []"
    "as_mcp_resources ?st = []" "as_mcp_prompts ?st = []" "as_observations ?st = []" "as_tool_calls ?st = []"
    "as_final_answer ?st = []" "gs_confirmed g = None" "as_conversation_id ?st = Some (UUID 200)"
    and conv: "UUID 200 \<in> c_id ` set (db_conversations (gs_db g))"
    using assms(1) by (auto simp: demo_at_def)
  obtain st' where a: "generate_answer demo_text_lib None demo_models 48000 (mr_model_name route) ?st = Inr (st', [])"
    "as_conversation_id st' = as_conversation_id ?st"
    using demo_generates [OF st(1-7)] by blast
  have f: "tool_failure_answer demo_text_lib ?st = None" by (simp add: tool_failure_answer_def st)
  let ?g = "upd_state (\<lambda>_. st') (emit_to (GeneratingEv (mr_model_name route)) g)"
  have run: "run_node demo_chat_env GenerateAnswer g = (?g, Inr ())"
    by (simp add: generate_answer_node_def r st demo_env_fields demo_inventory f a Let_def)
  have "demo_ids (tick ?g)" using assms(2) less_SucI by (fastforce simp: demo_ids_def)
  then have "demo_ends (Suc (Suc l)) SaveAssistantMessage (tick ?g)"
    using a(2) st(11) conv r by (intro demo_save_ends) simp_all
  then show ?thesis by (rule demo_ends_step [OF run, rotated]) simp
qed

lemma demo_middle_ends:
  assumes "n \<in> {SaveUserMessage, Preflight, RetrieveContext, Plan}" and "demo_at g" and "demo_ids g"
    and nxt: "\<And>g'. demo_at g' \<Longrightarrow> next_node ChatMode n g' = Some n'"
    and "\<And>g'. demo_at g' \<Longrightarrow> demo_ids g' \<Longrightarrow> demo_ends l n' g'"
  shows "demo_ends (Suc l) n g"
proof -
  obtain g' where g': "run_node demo_chat_env n g = (g', Inr ())" "demo_at g'" "gs_steps g' = gs_steps g"
    "\<forall>m \<in> set (db_messages (gs_db g')). m \<in> set (db_messages (gs_db g)) \<or> m_id m = UUID (200 + gs_steps g)"
    using demo_middle [OF assms(2,3,1)] by blast
  have "demo_ids (tick g')" using assms(3) g'(3,4) less_SucI unfolding demo_ids_def by fastforce
  moreover have "demo_at (tick g')" using g'(2) by (simp add: demo_at_def)
  ultimately show ?thesis using demo_ends_step [OF g'(1) nxt [OF g'(2)]] assms(5) by blast
qed

lemma demo_at_plan: "demo_at g \<Longrightarrow> pl_no_tool (as_plan (gs_state g))"
  by (auto simp: demo_at_def)

lemma demo_plan_ends: "demo_at g \<Longrightarrow> demo_ids g \<Longrightarrow> demo_ends (Suc (Suc (Suc (Suc l)))) Plan g"
  by (rule demo_middle_ends [where n' = GenerateAnswer]) (simp_all add: demo_answer_ends demo_at_plan)

lemma demo_retrieve_ends: "demo_at g \<Longrightarrow> demo_ids g \<Longrightarrow> demo_ends (Suc (Suc (Suc (Suc (Suc l))))) RetrieveContext g"
  by (rule demo_middle_ends [where n' = Plan]) (simp_all add: demo_plan_ends)

lemma demo_preflight_ends: "demo_at g \<Longrightarrow> demo_ids g \<Longrightarrow> demo_ends (Suc (Suc (Suc (Suc (Suc (Suc l)))))) Preflight g"
  by (rule demo_middle_ends [where n' = RetrieveContext]) (simp_all add: demo_retrieve_ends demo_at_plan)

lemma demo_user_ends: "demo_at g \<Longrightarrow> demo_ids g \<Longrightarrow> demo_ends (Suc (Suc (Suc (Suc (Suc (Suc (Suc l))))))) SaveUserMessage g"
  by (rule demo_middle_ends [where n' = Preflight]) (simp_all add: demo_preflight_ends)

lemma demo_chat_ends: "demo_ends 25 EnsureConversation (chat_start demo_chat_env demo_turn empty_db)"
proof -
  obtain g1 g2 where g: "run_node demo_chat_env EnsureConversation (chat_start demo_chat_env demo_turn empty_db) = (g1, Inr ())"
    "gs_steps g1 = 0" "run_node demo_chat_env LoadContext (tick g1) = (g2, Inr ())"
    "demo_at g2" "gs_steps g2 = Suc 0" "db_messages (gs_db g2) = []"
    using demo_first_two by (elim exE conjE) simp
  have "demo_at (tick g2)" "demo_ids (tick g2)" using g(4,6) by (simp_all add: demo_at_def demo_ids_def)
  then have "demo_ends (Suc (Suc (Suc (Suc (Suc (Suc (Suc 16))))))) SaveUserMessage (tick g2)" by (rule demo_user_ends)
  then have "demo_ends (Suc (Suc (Suc (Suc (Suc (Suc (Suc (Suc 16)))))))) LoadContext (tick g1)"
    by (intro demo_ends_step [OF g(3)]) (simp_all add: g(5))
  then have "demo_ends (Suc (Suc (Suc (Suc (Suc (Suc (Suc (Suc (Suc 16))))))))) EnsureConversation (chat_start demo_chat_env demo_turn empty_db)"
    by (intro demo_ends_step [OF g(1)]) simp_all
  then show ?thesis by (simp add: eval_nat_numeral)
qed


end
