(* ===== verification/Chat_Routes.thy ===== *)
theory Chat_Routes
  imports Agent_Examples Conversations
begin

text \<open>
  The chat routes with the streams they start (\<open>chat_stream\<close> and \<open>confirm_tool_stream\<close> of
  \<open>api/routes/conversations.py\<close>): a request names its user,
    the checks of \<open>Conversations\<close> come first, and the
  runtime then runs with the default of three tool rounds and no task.
\<close>

section \<open>Routes\<close>

definition chat_stream_route ::
  "graph_env \<Rightarrow> nat \<Rightarrow> uuid \<Rightarrow> uuid option \<Rightarrow> ustr \<Rightarrow> ustr \<Rightarrow> ustr \<Rightarrow> db \<Rightarrow> stream_result res" where
  "chat_stream_route v limit usr conversation message task_type trace_id d =
     (case chat_stream_guard usr conversation d of
        Inl e \<Rightarrow> Inl e
      | Inr _ \<Rightarrow> Inr (stream (v\<lparr>ge_user := Some usr\<rparr>) limit
          \<lparr>rq_conversation_id = conversation, rq_message = message, rq_task_type = task_type,
            rq_trace_id = trace_id,
           rq_task_id = None, rq_rounds = 3\<rparr> d))"

definition confirmed_request :: "confirmation_request \<Rightarrow> ustr \<Rightarrow> turn_request" where
  "confirmed_request p trace_id = \<lparr>rq_conversation_id = Some (cr_conversation_id p), rq_message = cr_message p,
     rq_task_type = cr_task_type p, rq_trace_id = trace_id, rq_task_id = None, rq_rounds = 3\<rparr>"

text \<open>\<open>now\<close> is the clock of the claim, \<open>now_done\<close> and \<open>now_end\<close> those of the stream.\<close>

definition confirm_stream_route ::
  "graph_env \<Rightarrow> nat \<Rightarrow> uuid \<Rightarrow> confirmation_request \<Rightarrow> ustr \<Rightarrow> time \<Rightarrow> time \<Rightarrow> time \<Rightarrow> db
     \<Rightarrow> db \<times> (agent_event list \<times> exn option) res" where
  "confirm_stream_route v limit usr p trace_id now now_done now_end d =
     (case confirm_tool_stream usr p now d of
        (d1, Inl e) \<Rightarrow> (d1, Inl e)
      | (d1, Inr m) \<Rightarrow>
          (case stream_confirmed_tool (v\<lparr>ge_user := Some usr\<rparr>) limit (confirmed_request p trace_id) m
                  now_done now_end d1 of
             (d2, events, exc) \<Rightarrow> (d2, Inr (events, exc))))"

section \<open>Facts\<close>

text \<open>What a refused confirmation may do to an approval: nothing, or mark it as expired.\<close>

definition untouched_or_expired :: "uuid \<Rightarrow> db \<Rightarrow> db \<Rightarrow> bool" where
  "untouched_or_expired i d d' \<longleftrightarrow>
     status_of i d' = status_of i d \<or> status_of i d = Some Pending \<and> status_of i d' = Some Expired"

lemma confirm_refused:
  assumes "confirm_tool_stream usr p now d = (d', Inl e)" and "messages_ok d"
  shows "untouched_or_expired i d d'"
proof (cases "get_owned_conversation d (cr_conversation_id p) usr = None")
  case True
  with assms(1) show ?thesis by (simp add: confirm_tool_stream_def untouched_or_expired_def)
next
  case False
  with assms(1) have c: "claim_approval (Some usr) p now d = (d', Inl e)" by (simp add: confirm_tool_stream_def)
  from c assms(2) show ?thesis
  proof (cases rule: claim_approval_cases)
    case (expired m a x)
    with status_of_Some [OF expired(1)] show ?thesis by (auto simp: untouched_or_expired_def status_of_put)
  qed (simp_all add: untouched_or_expired_def)
qed



end
