(* ===== verification/Mcp_Tools.thy ===== *)
theory Mcp_Tools
  imports Tool_Output Mcp_Security Protocol "HOL-Library.Multiset"
begin

text \<open>
  MCP tools as registered tools (\<open>mcp/tools.py\<close>), the registry that joins them to the local plugins
  (\<open>mcp/registry.py\<close>), and the routes over both (\<open>api/routes/tools.py\<close>,
    \<open>api/routes/mcp.py\<close>). A catalog is
  what a server, or the configuration, says about its tools, so nothing in it is trusted: descriptions lose
  instructions to the model, and permissions can be raised but not lowered below what the transport demands.
\<close>

section \<open>Descriptions\<close>

definition instruction_markers :: "ustr list" where
  "instruction_markers = [(lit ''grants you''), (lit ''ignore previous''), (lit ''ignore prior''),
    (lit ''now you can''), (lit ''originally you''),
     (lit ''system prompt''), (lit ''tell the user''), (lit ''were advised''), (lit ''you are''),
       (lit ''you must''), (lit ''you should'')]"

definition description_max_chars :: nat where
  "description_max_chars = 300"

definition sentence_end :: "nat \<Rightarrow> bool" where
  "sentence_end c \<longleftrightarrow> c \<in> {46, 33, 63}"

text \<open>\<open>re.split\<close> at the blanks that follow a full stop, an exclamation or a question mark.\<close>

function (sequential) split_sentences :: "ustr \<Rightarrow> ustr \<Rightarrow> ustr list" where
  "split_sentences cur [] = [cur]"
| "split_sentences cur (c # cs) =
     (if py_space c \<and> cur \<noteq> [] \<and> sentence_end (last cur)
      then cur # split_sentences [] (dropWhile py_space cs)
      else split_sentences (cur @ [c]) cs)"
  by pat_completeness auto
termination
  by (relation "measure (\<lambda>(cur, s). length s)") (auto simp: less_Suc_eq_le length_dropWhile_le)

definition instructs :: "ustr \<Rightarrow> bool" where
  "instructs sentence \<longleftrightarrow> any_in instruction_markers (casefold sentence)"

definition safe_mcp_tool_description :: "py_repr \<Rightarrow> ustr \<Rightarrow> ustr \<Rightarrow> json \<Rightarrow> ustr" where
  "safe_mcp_tool_description fr server name raw =
     (let fallback = (lit ''MCP tool '') @ name @ (lit '' from '') @ server @ (lit ''.'');
          normalized = join [32] (split_ws (str_or fr raw []));
          sentences = takeWhile (\<lambda>s. \<not> instructs s) (split_sentences [] normalized);
          description = strip (join [32] sentences) in
      if normalized = [] \<or> description = [] then fallback
      else rstrip_by py_space (take description_max_chars description))"

section \<open>From a catalog entry to a tool\<close>

text \<open>Methods a value lacks: an attribute error, which the registry does not catch.\<close>

definition no_attribute :: "ustr \<Rightarrow> exn" where
  "no_attribute name = OtherError ((lit ''object has no attribute '') @ name)"

text \<open>\<open>int(value)\<close>.\<close>

definition int_of_json :: "json \<Rightarrow> int res" where
  "int_of_json j = (case j of
     JInt i \<Rightarrow> Inr i
   | JBool b \<Rightarrow> Inr (if b then 1 else 0)
   | JFloat (Fin r) \<Rightarrow> Inr (if 0 \<le> r then \<lfloor>r\<rfloor> else \<lceil>r\<rceil>)
   | JFloat NaN \<Rightarrow> Inl (ValueError (lit ''cannot convert float NaN to integer''))
   | JFloat _ \<Rightarrow> Inl (OtherError (lit ''cannot convert float infinity to integer''))
   | JStr s \<Rightarrow> (case py_int s of Some i \<Rightarrow> Inr i | None \<Rightarrow> Inl (ValueError (lit ''invalid literal for int()'')))
   | _ \<Rightarrow> Inl (TypeError (lit ''int() argument must be a string or a number'')))"

text \<open>\<open>normalize_mcp_permission\<close> of any value.\<close>

definition permission_of :: "json \<Rightarrow> ustr res" where
  "permission_of j =
     (if \<not> truthy j then Inr (normalize_mcp_permission None)
      else case j of JStr s \<Rightarrow> Inr (normalize_mcp_permission (Some s)) | _ \<Rightarrow> Inl (no_attribute (lit ''strip'')))"

definition first_truthy :: "json list \<Rightarrow> json" where
  "first_truthy js = (case find truthy js of Some j \<Rightarrow> j | None \<Rightarrow> JNull)"

text \<open>What the transport of the tool demands, whatever its entry says.\<close>

definition remote_transports :: "ustr set" where
  "remote_transports = {(lit ''http''), (lit ''sse''), (lit ''streamable-http'')}"

definition reaches_network :: "ustr \<Rightarrow> ustr \<Rightarrow> ustr \<Rightarrow> bool" where
  "reaches_network server transport name \<longleftrightarrow> (server = (lit ''fetch'') \<and> name = (lit ''fetch''))
     \<or> server \<in> {(lit ''github''), (lit ''huggingface'')} \<or> transport \<in> remote_transports"

text \<open>\<open>PluginManifest(...)\<close>: the types of the fields and their constraints.\<close>

definition invalid_manifest :: exn where
  "invalid_manifest = ValueError (lit ''validation error for PluginManifest'')"

definition dict_field :: "json \<Rightarrow> dict res" where
  "dict_field j = (case j of JObj d \<Rightarrow> Inr d | _ \<Rightarrow> Inl invalid_manifest)"

definition optional_dict_field :: "json \<Rightarrow> dict option res" where
  "optional_dict_field j = (case j of JNull \<Rightarrow> Inr None | JObj d \<Rightarrow> Inr (Some d) | _ \<Rightarrow> Inl invalid_manifest)"

definition build_manifest ::
  "ustr \<Rightarrow> ustr \<Rightarrow> ustr \<Rightarrow> bool \<Rightarrow> json \<Rightarrow> json \<Rightarrow> int \<Rightarrow> json \<Rightarrow> bool \<Rightarrow> plugin_manifest res" where
  "build_manifest name description permission confirm parameters output_schema timeout strategy enabled =
     (case (dict_field parameters, optional_dict_field output_schema, dict_field strategy) of
        (Inr ps, Inr out, Inr st) \<Rightarrow>
          (let m = \<lparr>pm_name = name, pm_description = description, pm_permission = permission,
                    pm_requires_confirmation = confirm, pm_parameters = ps, pm_output_schema = out,
                    pm_timeout_seconds = timeout, pm_output_strategy = st, pm_entrypoint = (lit ''mcp:call_tool''),
                    pm_enabled = enabled\<rparr> in
           if valid_manifest m then Inr m else Inl invalid_manifest)
      | _ \<Rightarrow> Inl invalid_manifest)"

definition annotations_of :: "dict \<Rightarrow> dict res" where
  "annotations_of tool =
     (if \<not> truthy (dget tool (lit ''annotations'')) then Inr []
      else case dget tool (lit ''annotations'') of JObj d \<Rightarrow> Inr d | _ \<Rightarrow> Inl (no_attribute (lit ''get'')))"

definition effective_permission :: "ustr \<Rightarrow> ustr \<Rightarrow> ustr \<Rightarrow> ustr \<Rightarrow> ustr" where
  "effective_permission server transport name declared =
     (if reaches_network server transport name then (lit ''network'') else declared)"

definition manifest_of ::
  "mcp_settings \<Rightarrow> py_repr \<Rightarrow> ustr \<Rightarrow> dict \<Rightarrow> dict \<Rightarrow> ustr \<Rightarrow> ustr \<Rightarrow> int \<Rightarrow> plugin_manifest res" where
  "manifest_of s fr server tool annotations permission name timeout =
     build_manifest ((lit ''mcp.'') @ server @ (lit ''.'') @ name)
       (safe_mcp_tool_description fr server name (dget tool (lit ''description'')))
       permission
       (truthy (dget annotations (lit ''requires_confirmation'')) \<or> truthy (dget tool (lit ''requires_confirmation''))
        \<or> requires_mcp_confirmation s (Some permission) False)
       (first_truthy [dget tool (lit ''inputSchema''), dget tool (lit ''input_schema''), JObj [((lit ''type''),
         JStr (lit ''object''))]])
       (dget tool (lit ''outputSchema'')) timeout
       (if truthy (dget tool (lit ''output_strategy'')) then dget tool (lit ''output_strategy'') else JObj [])
       (case map_of tool (lit ''enabled'') of None \<Rightarrow> True | Some b \<Rightarrow> truthy b)"

definition mcp_tool_to_registered_tool ::
  "mcp_settings \<Rightarrow> py_repr \<Rightarrow> ustr \<Rightarrow> ustr \<Rightarrow> dict \<Rightarrow> registered_tool res" where
  "mcp_tool_to_registered_tool s fr server transport tool =
     (case annotations_of tool of
        Inl e \<Rightarrow> Inl e
      | Inr annotations \<Rightarrow>
          (case permission_of (first_truthy [dget annotations (lit ''permission''),
            dget tool (lit ''permission'')]) of
             Inl e \<Rightarrow> Inl e
           | Inr declared \<Rightarrow>
               (case map_of tool (lit ''name'') of
                  None \<Rightarrow> Inl (KeyError ([39] @ lit ''name'' @ [39]))
                | Some j \<Rightarrow>
                    (let name = scalar_str fr j in
                     case int_of_json (first_truthy [dget tool (lit ''timeout_seconds''), JInt 30]) of
                       Inl e \<Rightarrow> Inl e
                     | Inr timeout \<Rightarrow>
                         (case manifest_of s fr server tool annotations
                                 (effective_permission server transport name declared) name timeout of
                            Inl e \<Rightarrow> Inl e
                          | Inr m \<Rightarrow> Inr \<lparr>rt_manifest = m, rt_has_handler = False,
                            rt_provider = mcp_server,
                              rt_provider_tool_id = Some name, rt_transport = transport,
                              rt_server_name = Some server, rt_has_client = True\<rparr>)))))"

definition local_tool_to_mcp_schema :: "registered_tool \<Rightarrow> dict" where
  "local_tool_to_mcp_schema t =
     [((lit ''name''), JStr (tool_name t)), ((lit ''description''), JStr (pm_description (rt_manifest t))),
      ((lit ''inputSchema''), JObj (pm_parameters (rt_manifest t))),
      ((lit ''annotations''), JObj [((lit ''provider''), JStr (rt_provider t)),
         ((lit ''permission''), JStr (normalize_mcp_permission (Some (pm_permission (rt_manifest t))))),
         ((lit ''requires_confirmation''), JBool (pm_requires_confirmation (rt_manifest t)))])]"

section \<open>The unified registry\<close>

record unified =
  un_plugins :: registry
  un_mcp :: registry
  un_errors :: "(ustr \<times> ustr) list"

text \<open>
  One answer per server that is not disabled: its name, transport, and its catalog or the exception. The
  tools of a server with one invalid entry are all left out; an exception of another kind ends the refresh.
\<close>

definition catalog_error :: "exn \<Rightarrow> bool" where
  "catalog_error e \<longleftrightarrow> (case e of ValueError _ \<Rightarrow> True | TypeError _ \<Rightarrow> True | KeyError _ \<Rightarrow> True | _ \<Rightarrow> False)"

fun server_tools :: "mcp_settings \<Rightarrow> py_repr \<Rightarrow> ustr \<Rightarrow> ustr \<Rightarrow> dict list \<Rightarrow> registry \<Rightarrow> registry res" where
  "server_tools s fr server transport [] acc = Inr acc"
| "server_tools s fr server transport (tool # tools) acc =
     (case mcp_tool_to_registered_tool s fr server transport tool of
        Inl e \<Rightarrow> Inl e
      | Inr t \<Rightarrow>
          if tool_name t \<in> tool_name ` set acc then Inl (ValueError (lit ''Duplicate tool identifier''))
          else server_tools s fr server transport tools (acc @ [t]))"

type_synonym server_answer = "ustr \<times> ustr \<times> dict list res"

fun refresh_servers ::
  "mcp_settings \<Rightarrow> py_repr \<Rightarrow> server_answer list \<Rightarrow> registry \<Rightarrow> (ustr \<times> ustr) list
     \<Rightarrow> (registry \<times> (ustr \<times> ustr) list) res" where
  "refresh_servers s fr [] tools errors = Inr (tools, errors)"
| "refresh_servers s fr ((server, transport, answer) # rest) tools errors =
     (case answer of
        Inl e \<Rightarrow> refresh_servers s fr rest tools (errors @ [(server, exn_str e)])
      | Inr catalog \<Rightarrow>
          (case server_tools s fr server transport catalog [] of
             Inr new \<Rightarrow> refresh_servers s fr rest (fold register_tool new tools) errors
           | Inl e \<Rightarrow>
               if catalog_error e
               then refresh_servers s fr rest tools
                      (errors @ [(server, (lit ''MCP server '') @ server @ (lit '': invalid tool catalog''))])
               else Inl e))"

definition refresh_mcp_tools :: "mcp_settings \<Rightarrow> py_repr \<Rightarrow> server_answer list option \<Rightarrow> unified \<Rightarrow> unified \<times> unit res" where
  "refresh_mcp_tools s fr answers u = (case answers of
     None \<Rightarrow> (u, Inr ())
   | Some as \<Rightarrow>
       (case refresh_servers s fr as [] [] of
          Inl e \<Rightarrow> (u, Inl e)
        | Inr (tools, errors) \<Rightarrow> (u\<lparr>un_mcp := tools, un_errors := errors\<rparr>, Inr ())))"

definition unified_list :: "unified \<Rightarrow> registered_tool list" where
  "unified_list u = sort_key tool_name (list_tools (un_plugins u) @ un_mcp u)"

definition unified_get :: "unified \<Rightarrow> ustr \<Rightarrow> registered_tool option" where
  "unified_get u name = (case registry_get (un_plugins u) name of
     Some t \<Rightarrow> Some t | None \<Rightarrow> registry_get (un_mcp u) name)"

text \<open>The registry the agent sees.\<close>

definition unified_registry :: "unified \<Rightarrow> registry" where
  "unified_registry u = un_plugins u @ un_mcp u"

section \<open>Facts: descriptions\<close>

lemma casefold_simps [simp]: "casefold [] = []" "casefold (a @ b) = casefold a @ casefold b"
  "casefold (c # b) = casefold_cp c @ casefold b"
  by (simp_all add: casefold_def)

lemma sublist_casefold: "sublist a b \<Longrightarrow> sublist (casefold a) (casefold b)"
proof -
  assume "sublist a b"
  then obtain p q where "b = p @ a @ q" by (auto simp: sublist_def)
  then have "casefold b = casefold p @ casefold a @ casefold q" by simp
  then show ?thesis unfolding sublist_def by blast
qed

lemma instructs_sublist: "sublist a b \<Longrightarrow> instructs a \<Longrightarrow> instructs b"
  using sublist_casefold sublist_order.order_trans unfolding instructs_def list_ex_iff by blast

lemma marker_chars: "m \<in> set instruction_markers \<Longrightarrow> m \<noteq> [] \<and> hd m \<noteq> 32 \<and> 46 \<notin> set m \<and> 33 \<notin> set m \<and> 63 \<notin> set m"
  by (auto simp: instruction_markers_def str_eval)

lemma not_instructs_Nil [simp]: "\<not> instructs []"
  using marker_chars by (auto simp: instructs_def list_ex_iff)

lemma casefold_stop: "sentence_end c \<Longrightarrow> casefold_cp c = [c]" "casefold_cp 32 = [32]"
  by (auto simp: sentence_end_def casefold_cp_def lower_cp_def)

text \<open>No marker crosses the end of a sentence.\<close>

lemma instructs_across:
  assumes "a \<noteq> []" and "sentence_end (last a)" and "\<not> instructs a" and "\<not> instructs b"
  shows "\<not> instructs (a @ 32 # b)"
proof
  assume "instructs (a @ 32 # b)"
  then obtain m where m: "m \<in> set instruction_markers" "sublist m (casefold (a @ 32 # b))"
    by (auto simp: instructs_def list_ex_iff)
  let ?x = "last a"
  have a: "casefold a = casefold (butlast a) @ [?x]"
    using assms(1,2) casefold_stop(1) by (metis append_butlast_last_id casefold_simps append_Nil2)
  have x: "?x \<notin> set m" using assms(2) marker_chars [OF m(1)] by (auto simp: sentence_end_def)
  have "sublist m (casefold (butlast a) @ ?x # 32 # casefold b)"
    using m(2) a by (simp add: casefold_stop(2))
  from sublist_across [OF this x] show False
  proof
    assume "sublist m (casefold (butlast a))"
    then have "sublist m (casefold a)" unfolding a using sublist_append_rightI sublist_order.order_trans by blast
    with m(1) assms(3) show False by (auto simp: instructs_def list_ex_iff)
  next
    assume "sublist m (32 # casefold b)"
    moreover have "\<not> prefix m (32 # casefold b)"
      using marker_chars [OF m(1)] by (cases m) auto
    ultimately have "sublist m (casefold b)" by (simp add: sublist_Cons_right)
    with m(1) assms(4) show False by (auto simp: instructs_def list_ex_iff)
  qed
qed

abbreviation complete_sentence :: "ustr \<Rightarrow> bool" where
  "complete_sentence x \<equiv> x \<noteq> [] \<and> sentence_end (last x)"

lemma split_sentences_not_Nil [simp]: "split_sentences cur s \<noteq> []"
  by (induction cur s rule: split_sentences.induct) auto

lemma split_sentences_complete: "list_all complete_sentence (butlast (split_sentences cur s))"
  by (induction cur s rule: split_sentences.induct) auto

lemma not_instructs_join:
  "list_all complete_sentence (butlast ss) \<Longrightarrow> list_all (\<lambda>s. \<not> instructs s) ss \<Longrightarrow> \<not> instructs (join [32] ss)"
proof (induction ss)
  case (Cons s ss)
  show ?case
  proof (cases ss)
    case Nil
    with Cons(3) show ?thesis by simp
  next
    case (Cons x xs)
    with Cons.IH Cons.prems instructs_across [of s "join [32] ss"] show ?thesis by simp
  qed
qed simp

lemma butlast_prefix: "prefix a b \<Longrightarrow> prefix (butlast a) (butlast b)"
proof -
  assume "prefix a b"
  then obtain c where c: "b = a @ c" by (auto simp: prefix_def)
  have "prefix (butlast a) a" by (metis append_butlast_last_id butlast.simps(1) prefixI prefix_order.order_refl)
  then show ?thesis
    by (cases "c = []") (auto simp: c butlast_append intro: prefix_order.order_trans [OF _ prefixI])
qed

lemma safe_description_props:
  assumes "safe_mcp_tool_description fr server name raw \<noteq> (lit ''MCP tool '') @ name @ (lit '' from '')
    @ server @ (lit ''.'')"
  shows "\<not> instructs (safe_mcp_tool_description fr server name raw)
    \<and> length (safe_mcp_tool_description fr server name raw) \<le> 300"
proof -
  let ?ss = "split_sentences [] (join [32] (split_ws (str_or fr raw [])))"
  let ?d = "strip (join [32] (takeWhile (\<lambda>s. \<not> instructs s) ?ss))"
  have eq: "safe_mcp_tool_description fr server name raw = rstrip_by py_space (take 300 ?d)"
    using assms unfolding safe_mcp_tool_description_def Let_def description_max_chars_def by (simp split: if_splits)
  have "prefix (takeWhile (\<lambda>s. \<not> instructs s) ?ss) ?ss" by (metis prefixI takeWhile_dropWhile_id)
  then obtain rest where "butlast ?ss = butlast (takeWhile (\<lambda>s. \<not> instructs s) ?ss) @ rest"
    using butlast_prefix by (auto simp: prefix_def)
  then have "list_all complete_sentence (butlast (takeWhile (\<lambda>s. \<not> instructs s) ?ss))"
    using split_sentences_complete [of "[]" "join [32] (split_ws (str_or fr raw []))"] by simp
  moreover have "list_all (\<lambda>s. \<not> instructs s) (takeWhile (\<lambda>s. \<not> instructs s) ?ss)"
    by (auto simp: list_all_iff dest: set_takeWhileD)
  ultimately have "\<not> instructs (join [32] (takeWhile (\<lambda>s. \<not> instructs s) ?ss))" by (rule not_instructs_join)
  then have d: "\<not> instructs ?d" using instructs_sublist [OF strip_sublist] by blast
  have p: "prefix (rstrip_by py_space x) x" for x
    using suffix_dropWhile [of py_space "rev x"] by (simp add: rstrip_by_def suffix_to_prefix)
  have "prefix (rstrip_by py_space (take 300 ?d)) ?d"
    by (rule prefix_order.order_trans [OF p take_is_prefix])
  then have "sublist (rstrip_by py_space (take 300 ?d)) ?d" by (rule prefix_imp_sublist)
  with d have "\<not> instructs (rstrip_by py_space (take 300 ?d))" using instructs_sublist by blast
  moreover have "length (rstrip_by py_space (take 300 ?d)) \<le> 300"
    using prefix_length_le [OF p, of "take 300 ?d"] by simp
  ultimately show ?thesis unfolding eq by blast
qed

text \<open>
  C24. A server cannot instruct the model through a tool description: the description that reaches a prompt
  contains none of the instruction markers, in any letter case and across sentences, and at most 300
  characters; otherwise it is the fixed sentence that names the tool and its server.
\<close>

theorem descriptions_carry_no_instructions:
  "if safe_mcp_tool_description fr server name raw = (lit ''MCP tool '') @ name @ (lit '' from '') @ server
    @ (lit ''.'') then True
   else list_all (\<lambda>m. substr m (casefold (safe_mcp_tool_description fr server name raw)) = False) instruction_markers
     \<and> length (safe_mcp_tool_description fr server name raw) \<le> 300"
  using safe_description_props [of fr server name raw] by (auto simp: instructs_def list_ex_iff list_all_iff)

section \<open>Facts: the registry\<close>

text \<open>
  What a refreshed registry may hold: a tool of a server that answered, under that server's name, and behind
  a confirmation when its transport is remote.
\<close>

definition tool_of_answer :: "server_answer list \<Rightarrow> registered_tool \<Rightarrow> bool" where
  "tool_of_answer answers t \<longleftrightarrow> (\<exists>server transport catalog i.
     (server, transport, Inr catalog) \<in> set answers \<and> tool_name t = (lit ''mcp.'') @ server @ (lit ''.'') @ i
     \<and> rt_provider t = mcp_server \<and> rt_provider_tool_id t = Some i \<and> rt_server_name t = Some server
     \<and> rt_transport t = transport
     \<and> (reaches_network server transport i \<longrightarrow>
          pm_permission (rt_manifest t) = (lit ''network'') \<and> pm_requires_confirmation (rt_manifest t)))"

lemma network_needs_confirmation: "requires_mcp_confirmation s (Some (lit ''network'')) False"
  by (simp add: requires_mcp_confirmation_def normalize_mcp_permission_def mcp_permissions_def
      risky_mcp_permissions_def lower_def lower_cp_def str_eval Let_def)

lemma manifest_of_Inr:
  assumes "manifest_of s fr server tool annotations permission name timeout = Inr m"
  shows "pm_name m = (lit ''mcp.'') @ server @ (lit ''.'') @ name \<and> pm_permission m = permission
    \<and> (requires_mcp_confirmation s (Some permission) False \<longrightarrow> pm_requires_confirmation m)"
  using assms by (auto simp: manifest_of_def build_manifest_def Let_def split: sum.splits if_splits)

lemma registered_tool_of_answer:
  assumes "mcp_tool_to_registered_tool s fr server transport tool = Inr t"
    and "(server, transport, Inr catalog) \<in> set answers"
  shows "tool_of_answer answers t"
proof -
  obtain annotations declared name timeout m where
    m: "manifest_of s fr server tool annotations (effective_permission server transport name declared) name timeout = Inr m"
    and t: "t = \<lparr>rt_manifest = m, rt_has_handler = False, rt_provider = mcp_server,
        rt_provider_tool_id = Some name, rt_transport = transport, rt_server_name = Some server,
          rt_has_client = True\<rparr>"
    using assms(1) by (auto simp: mcp_tool_to_registered_tool_def Let_def split: sum.splits option.splits)
  have "pm_permission (rt_manifest t) = (lit ''network'') \<and> pm_requires_confirmation (rt_manifest t)"
    if "reaches_network server transport name"
    using manifest_of_Inr [OF m] that network_needs_confirmation by (simp add: effective_permission_def t)
  with assms(2) manifest_of_Inr [OF m] show ?thesis
    unfolding tool_of_answer_def
    by (intro exI [of _ server] exI [of _ transport] exI [of _ catalog] exI [of _ name]) (simp add: t tool_name_def)
qed

lemma server_tools_props:
  assumes "server_tools s fr server transport tools acc = Inr new" and "distinct (map tool_name acc)"
    and "(server, transport, Inr catalog) \<in> set answers" and "list_all (tool_of_answer answers) acc"
  shows "distinct (map tool_name new) \<and> list_all (tool_of_answer answers) new"
  using assms
proof (induction tools arbitrary: acc)
  case (Cons tool tools)
  then obtain t where t: "mcp_tool_to_registered_tool s fr server transport tool = Inr t"
    "tool_name t \<notin> tool_name ` set acc" "server_tools s fr server transport tools (acc @ [t]) = Inr new"
    by (auto split: sum.splits if_splits)
  with Cons.IH [OF t(3)] Cons.prems registered_tool_of_answer [OF t(1) Cons.prems(3)] show ?case by simp
qed simp

lemma register_tool_props:
  assumes "distinct (map tool_name r)" and "list_all P r" and "P t"
  shows "distinct (map tool_name (register_tool t r)) \<and> list_all P (register_tool t r)"
  using assms keys_distinct_put_row [of tool_name t r] set_put_row [of _ tool_name t r]
  by (auto simp: register_tool_def keys_distinct_def list_all_iff)

lemma fold_register_props:
  "distinct (map tool_name r) \<Longrightarrow> list_all P r \<Longrightarrow> list_all P new
   \<Longrightarrow> distinct (map tool_name (fold register_tool new r)) \<and> list_all P (fold register_tool new r)"
proof (induction new arbitrary: r)
  case (Cons t new)
  then have "P t" "list_all P new" by simp_all
  with Cons.IH register_tool_props [OF Cons.prems(1,2)] show ?case by simp
qed simp

lemma refresh_servers_props:
  assumes "refresh_servers s fr rest tools errors = Inr (tools', errors')" and "set rest \<subseteq> set answers"
    and "distinct (map tool_name tools)" and "list_all (tool_of_answer answers) tools"
  shows "distinct (map tool_name tools') \<and> list_all (tool_of_answer answers) tools'"
  using assms
proof (induction s fr rest tools errors rule: refresh_servers.induct)
  case (2 s fr server transport answer rest tools errors)
  show ?case
  proof (cases answer)
    case (Inl e)
    with 2 show ?thesis by simp
  next
    case (Inr catalog)
    show ?thesis
    proof (cases "server_tools s fr server transport catalog []")
      case (Inl e)
      with \<open>answer = Inr catalog\<close> 2 show ?thesis by (simp split: if_splits)
    next
      case ok: (Inr new)
      have "(server, transport, Inr catalog) \<in> set answers" using 2(5) Inr by simp
      from server_tools_props [OF ok _ this] have n: "list_all (tool_of_answer answers) new" by simp
      note f = fold_register_props [OF 2(6,7) n]
      show ?thesis using "2.IH"(3) [OF Inr ok] 2(4,5) f Inr ok by simp
    qed
  qed
qed simp

lemma refresh_mcp_tools_props:
  assumes "refresh_mcp_tools s fr answers u = (u', r)"
  shows "un_plugins u' = un_plugins u
    \<and> (case (r, answers) of
         (Inr _, Some as) \<Rightarrow> distinct (map tool_name (un_mcp u')) \<and> list_all (tool_of_answer as) (un_mcp u')
       | _ \<Rightarrow> u' = u)"
proof (cases answers)
  case None
  with assms show ?thesis by (auto simp: refresh_mcp_tools_def)
next
  case (Some as)
  show ?thesis
  proof (cases "refresh_servers s fr as [] []")
    case (Inl e)
    with assms Some show ?thesis by (auto simp: refresh_mcp_tools_def)
  next
    case (Inr x)
    obtain tools errors where x: "x = (tools, errors)" by fastforce
    from assms Some Inr x have "u' = u\<lparr>un_mcp := tools, un_errors := errors\<rparr>" "r = Inr ()"
      by (simp_all add: refresh_mcp_tools_def)
    with refresh_servers_props [of s fr as "[]" "[]" tools errors as] Inr x Some show ?thesis by simp
  qed
qed

text \<open>
  A catalog can neither displace nor unguard a tool: whatever the MCP servers answer, a refresh leaves the
  local plugins as they are and, unless it fails and changes nothing, registers under distinct names only
  tools of servers that answered, named after their server, and every tool that reaches the network (by its
  server or its transport) with the network permission and behind a confirmation.
\<close>

theorem refresh_registers_guarded_tools:
  "case refresh_mcp_tools s fr answers u of (u', r) \<Rightarrow>
     un_plugins u' = un_plugins u
     \<and> (case (r, answers) of
          (Inr _, Some as) \<Rightarrow> distinct (map tool_name (un_mcp u')) \<and> list_all (tool_of_answer as) (un_mcp u')
        | _ \<Rightarrow> u' = u)"
  using refresh_mcp_tools_props by (cases "refresh_mcp_tools s fr answers u") blast

text \<open>The unified registry reads as one registry in which the plugins come first.\<close>

lemma unified_get_registry: "unified_get u name = registry_get (unified_registry u) name"
  by (simp add: unified_get_def unified_registry_def registry_get_def find_row_def find_append split: option.split)

lemma unified_list_registry: "unified_list u = list_tools (unified_registry u)"
  unfolding unified_list_def list_tools_def unified_registry_def
proof (rule properties_for_sort_key)
  fix k
  have "filter (\<lambda>x. tool_name x = tool_name k) (sort_key tool_name (un_plugins u @ un_mcp u))
    = filter (\<lambda>x. tool_name x = tool_name k) (sort_key tool_name (un_plugins u) @ un_mcp u)"
    by (simp only: sort_key_stable filter_append)
  then show "filter (\<lambda>x. tool_name k = tool_name x) (sort_key tool_name (un_plugins u @ un_mcp u))
    = filter (\<lambda>x. tool_name k = tool_name x) (sort_key tool_name (un_plugins u) @ un_mcp u)"
    by (simp only: eq_commute [of "tool_name k"])
qed simp_all

text \<open>One entry with annotations that are no object fails the refresh of all servers.\<close>

lemma untyped_annotations_fail_refresh:
  "refresh_mcp_tools s fr (Some ((server, transport, Inr [[((lit ''annotations''), JStr [c])]]) # rest)) u
    = (u, Inl (no_attribute (lit ''get'')))"
  by (simp add: refresh_mcp_tools_def mcp_tool_to_registered_tool_def annotations_of_def dget_def catalog_error_def
      no_attribute_def)

end
