(* ===== verification/Mcp_Client.thy ===== *)
theory Mcp_Client
  imports Mcp_Tools Regex
begin

text \<open>
  The MCP client (\<open>mcp/client.py\<close>, \<open>mcp/config.py\<close>): the configured servers and what is known about them,
  paginated discovery with a cache per server and kind, and the requests. What the SDK and the subprocess
  adapter answer is an argument: a connection gives the protocol version and the capabilities, or fails, and
  the n-th request on it gives a result or fails. \<open>wire\<close> is the length of the UTF-8 encoding of
  \<open>json.dumps\<close>. The clock of the cache is an argument too; timeouts are failures of a connection or request.
\<close>

section \<open>Configuration and state\<close>

record mcp_server_config =
  mc_name :: ustr
  mc_transport :: ustr
  mc_command :: "ustr option"
  mc_env :: "(ustr \<times> ustr) list"
  mc_url :: "ustr option"
  mc_headers :: "(ustr \<times> ustr) list"
  mc_stdio_framing :: ustr
  mc_protocol_mode :: ustr
  mc_discovery_cache_seconds :: time
  mc_discovery_max_pages :: nat
  mc_discovery_max_items :: nat
  mc_max_response_bytes :: nat
  mc_enabled :: bool
  mc_tools :: "dict list"
  mc_resources :: "dict list"
  mc_prompts :: "dict list"

text \<open>\<open>unique_names\<close>; pydantic has checked the fields.\<close>

definition unique_names :: "mcp_server_config list \<Rightarrow> mcp_server_config list res" where
  "unique_names servers =
     (if distinct (map mc_name servers) then Inr servers
      else Inl (ValueError (lit ''MCP server names must be unique'')))"

text \<open>\<open>_resolve_server_command\<close>: only a relative path with a separator is resolved.\<close>

definition resolve_server_command :: "(ustr \<Rightarrow> bool) \<Rightarrow> (ustr \<Rightarrow> ustr) \<Rightarrow> dict \<Rightarrow> dict" where
  "resolve_server_command is_absolute resolve server = (case dget server (lit ''command'') of
     JStr command \<Rightarrow>
       if (47 \<notin> set command \<and> 92 \<notin> set command) \<or> is_absolute command then server
       else dset (lit ''command'') (JStr (resolve command)) server
   | _ \<Rightarrow> server)"

text \<open>
  \<open>load_mcp_config\<close> up to pydantic's validation: the server entries and the discovery concurrency of the parsed
  file, which is refused when it holds a plaintext secret; no file is an empty configuration.
\<close>

definition server_entries :: "json \<Rightarrow> dict list res" where
  "server_entries servers = (case servers of
     JObj items \<Rightarrow>
       map_res (\<lambda>(name, v). case v of JObj d \<Rightarrow> Inr (dupdate [((lit ''name''), JStr name)] d)
         | _ \<Rightarrow> Inl (TypeError (lit ''object is not a mapping''))) items
   | JList xs \<Rightarrow> map_res (\<lambda>x. case x of JObj d \<Rightarrow> Inr d | _ \<Rightarrow> Inl (no_attribute (lit ''get''))) xs
   | JStr s \<Rightarrow> if s = [] then Inr [] else Inl (no_attribute (lit ''get''))
   | _ \<Rightarrow> Inl (TypeError (lit ''object is not iterable'')))"

definition load_mcp_config :: "(ustr \<Rightarrow> bool) \<Rightarrow> (ustr \<Rightarrow> ustr) \<Rightarrow> json option \<Rightarrow> (dict list \<times> json) res" where
  "load_mcp_config is_absolute resolve file = (case file of
     None \<Rightarrow> Inr ([], JInt 4)
   | Some raw \<Rightarrow>
       if contains_plaintext_mcp_secret raw then Inl (ValueError (lit ''MCP config contains plaintext secret fields''))
       else (case raw of
         JObj d \<Rightarrow>
           (case server_entries (case map_of d (lit ''servers'') of None \<Rightarrow> JList [] | Some v \<Rightarrow> v) of
              Inl e \<Rightarrow> Inl e
            | Inr servers \<Rightarrow>
                Inr (map (resolve_server_command is_absolute resolve) servers,
                     case map_of d (lit ''discovery_concurrency'') of None \<Rightarrow> JInt 4 | Some v \<Rightarrow> v))
       | _ \<Rightarrow> Inl (no_attribute (lit ''get''))))"

datatype catalog_kind = ToolKind | ResourceKind | PromptKind

fun kind_str :: "catalog_kind \<Rightarrow> ustr" where
  "kind_str ToolKind = (lit ''tools'')"
| "kind_str ResourceKind = (lit ''resources'')"
| "kind_str PromptKind = (lit ''prompts'')"

fun configured_items :: "catalog_kind \<Rightarrow> mcp_server_config \<Rightarrow> dict list" where
  "configured_items ToolKind sv = mc_tools sv"
| "configured_items ResourceKind sv = mc_resources sv"
| "configured_items PromptKind sv = mc_prompts sv"

record server_state =
  st_status :: ustr
  st_protocol_version :: json
  st_last_checked_at :: "time option"
  st_error :: "ustr option"
  st_capabilities :: dict
  st_counts :: "catalog_kind \<Rightarrow> nat"

record manager =
  mm_servers :: "mcp_server_config list"
  mm_catalogs :: "((ustr \<times> catalog_kind) \<times> time \<times> dict list) list"
  mm_state :: "ustr \<Rightarrow> server_state"

definition new_manager :: "mcp_server_config list \<Rightarrow> manager" where
  "new_manager servers = \<lparr>mm_servers = servers, mm_catalogs = [],
     mm_state = (\<lambda>n. case find_row mc_name n servers of
       None \<Rightarrow> \<lparr>st_status = (lit ''disabled''), st_protocol_version = JNull,
         st_last_checked_at = None, st_error = None,
                 st_capabilities = [], st_counts = (\<lambda>_. 0)\<rparr>
     | Some sv \<Rightarrow> \<lparr>st_status = (if mc_enabled sv then (lit ''configured'') else (lit ''disabled'')), st_protocol_version = JNull,
                   st_last_checked_at = None, st_error = None, st_capabilities = [],
                   st_counts = (\<lambda>k. length (configured_items k sv))\<rparr>)\<rparr>"

definition set_state :: "ustr \<Rightarrow> (server_state \<Rightarrow> server_state) \<Rightarrow> manager \<Rightarrow> manager" where
  "set_state n f m = m\<lparr>mm_state := (mm_state m)(n := f (mm_state m n))\<rparr>"

definition get_server :: "manager \<Rightarrow> ustr \<Rightarrow> mcp_server_config res" where
  "get_server m name = (case find_row mc_name name (mm_servers m) of
     Some sv \<Rightarrow> if mc_enabled sv then Inr sv else Inl (RuntimeError ((lit ''MCP server is not enabled: '') @ name))
   | None \<Rightarrow> Inl (RuntimeError ((lit ''MCP server is not enabled: '') @ name)))"

definition has_transport :: "mcp_server_config \<Rightarrow> bool" where
  "has_transport sv = ((if mc_transport sv = (lit ''stdio'') then mc_command sv else mc_url sv) \<notin> {None,
    Some []})"

definition invalidate_catalogs :: "manager \<Rightarrow> manager" where
  "invalidate_catalogs m = m\<lparr>mm_catalogs := []\<rparr>"

section \<open>Environment variables\<close>

text \<open>\<open>\$\{([A-Za-z_][A-Za-z0-9_]*)\}\<close> at the start of a text: the name and the rest.\<close>

definition name_start :: "nat \<Rightarrow> bool" where
  "name_start c \<longleftrightarrow> (65 \<le> c \<and> c \<le> 90) \<or> (97 \<le> c \<and> c \<le> 122) \<or> c = 95"

definition name_part :: "nat \<Rightarrow> bool" where
  "name_part c \<longleftrightarrow> name_start c \<or> (48 \<le> c \<and> c \<le> 57)"

definition variable_at :: "ustr \<Rightarrow> (ustr \<times> ustr) option" where
  "variable_at s = (case s of
     a # b # c # cs \<Rightarrow>
       (case dropWhile name_part cs of
          e # rest \<Rightarrow>
            if a = 36 \<and> b = 123 \<and> e = 125 \<and> name_start c then Some (c # takeWhile name_part cs,
              rest) else None
        | [] \<Rightarrow> None)
   | _ \<Rightarrow> None)"

lemma variable_at_shorter: "variable_at s = Some (n, rest) \<Longrightarrow> length rest < length s"
proof -
  have "length (dropWhile name_part cs) \<le> length cs" for cs by (rule length_dropWhile_le)
  then have "dropWhile name_part cs = e # rest \<Longrightarrow> length rest < length cs" for e cs
    by (metis Suc_le_eq length_Cons)
  then show "variable_at s = Some (n, rest) \<Longrightarrow> length rest < length s"
    by (auto simp: variable_at_def less_SucI split: list.splits if_splits)
qed

text \<open>\<open>_expand\<close>: the environment gives a non-empty value or the expansion fails.\<close>

function expand :: "(ustr \<Rightarrow> ustr option) \<Rightarrow> ustr \<Rightarrow> ustr res" where
  "expand env s = (case s of
     [] \<Rightarrow> Inr []
   | c # cs \<Rightarrow>
       (case variable_at s of
          Some (n, rest) \<Rightarrow>
            (case env n of
               Some (v # vs) \<Rightarrow> (case expand env rest of Inl e \<Rightarrow> Inl e | Inr r \<Rightarrow> Inr ((v # vs) @ r))
             | _ \<Rightarrow> Inl (RuntimeError ((lit ''Missing MCP environment variable: '') @ n)))
        | None \<Rightarrow> (case expand env cs of Inl e \<Rightarrow> Inl e | Inr r \<Rightarrow> Inr (c # r))))"
  by pat_completeness auto
termination
  by (relation "measure (\<lambda>(env, s). length s)") (auto dest: variable_at_shorter)

declare expand.simps [simp del]

function variables_of :: "ustr \<Rightarrow> ustr list" where
  "variables_of s = (case s of
     [] \<Rightarrow> []
   | c # cs \<Rightarrow> (case variable_at s of Some (n,
     rest) \<Rightarrow> n # variables_of rest | None \<Rightarrow> variables_of cs))"
  by pat_completeness auto
termination
  by (relation "measure length") (auto dest: variable_at_shorter)

declare variables_of.simps [simp del]

section \<open>Failures\<close>

text \<open>
  The exceptions of a connection or request, as far as \<open>_record_error\<close> tells them apart; \<open>Group\<close> is an
  \<open>ExceptionGroup\<close> and \<open>Failed\<close> any other exception with its class and message.
\<close>

datatype mcp_failure =
    StatusFailure int
  | TimedOut
  | RpcFailure int
  | InvalidResponse
  | TransportFailure ustr
  | Failed ustr ustr
  | Group "mcp_failure list"

fun innermost :: "mcp_failure \<Rightarrow> mcp_failure" where
  "innermost (Group (e # es)) = innermost e"
| "innermost e = e"

definition safe_prefixes :: "ustr list" where
  "safe_prefixes = [(lit ''MCP ''), (lit ''No MCP ''), (lit ''Missing MCP ''), (lit ''HTTP ''),
    (lit ''Unsupported legacy MCP''),
     (lit ''Invalid or oversized MCP''), (lit ''Invalid MCP'')]"

fun failure_detail :: "mcp_failure \<Rightarrow> ustr" where
  "failure_detail (StatusFailure n) = (lit ''HTTP '') @ show_int n
    @ (lit ''; check server access and configured credentials'')"
| "failure_detail TimedOut = (lit ''operation timed out'')"
| "failure_detail (RpcFailure code) = (lit ''JSON-RPC error '') @ show_int code"
| "failure_detail InvalidResponse = (lit ''server response failed protocol validation'')"
| "failure_detail (TransportFailure cls) = (lit ''transport unavailable ('') @ cls @ (lit '')'')"
| "failure_detail (Failed cls message) =
     (if list_ex (\<lambda>p. prefix p message) safe_prefixes then take 240 message
      else (lit ''protocol operation failed ('') @ cls @ (lit '')''))"
| "failure_detail (Group es) = (lit ''protocol operation failed (ExceptionGroup)'')"

definition redact :: "ustr \<Rightarrow> ustr \<Rightarrow> ustr" where
  "redact secret detail = (if secret = [] then detail else replace_all secret (lit ''[redacted]'') detail)"

text \<open>One configured value: its variables, then its expansion when it has one.\<close>

definition redact_value :: "(ustr \<Rightarrow> ustr option) \<Rightarrow> ustr \<Rightarrow> ustr \<Rightarrow> ustr" where
  "redact_value env v detail =
     (let d = fold (\<lambda>n. case env n of None \<Rightarrow> id | Some secret \<Rightarrow> redact secret) (variables_of v) detail in
      case expand env v of Inl _ \<Rightarrow> d | Inr x \<Rightarrow> redact x d)"

definition endpoint_re :: rx where
  "endpoint_re = rx_seq [rx_lit (lit ''http''), rx_opt (rx_lit (lit ''s'')), rx_lit (lit ''://''),
    rx_plus (Cls (\<lambda>c. \<not> py_space c))]"

definition error_detail :: "(ustr \<Rightarrow> ustr option) \<Rightarrow> mcp_server_config \<Rightarrow> mcp_failure \<Rightarrow> ustr" where
  "error_detail env sv failure =
     rx_sub (\<lambda>_. False) endpoint_re (lit ''[endpoint]'')
       (fold (redact_value env) (map snd (mc_headers sv) @ map snd (mc_env sv)) (failure_detail (innermost failure)))"

definition error_text :: "(ustr \<Rightarrow> ustr option) \<Rightarrow> mcp_server_config \<Rightarrow> mcp_failure \<Rightarrow> ustr" where
  "error_text env sv failure = (lit ''MCP server '') @ mc_name sv @ (lit '': '') @ error_detail env sv failure"

definition record_error ::
  "(ustr \<Rightarrow> ustr option) \<Rightarrow> time \<Rightarrow> mcp_server_config \<Rightarrow> mcp_failure \<Rightarrow> manager \<Rightarrow> manager" where
  "record_error env now sv failure = set_state (mc_name sv)
     (\<lambda>s. s\<lparr>st_status := (lit ''error''), st_error := Some (error_text env sv failure),
       st_last_checked_at := Some now\<rparr>)"

definition record_connection :: "time \<Rightarrow> mcp_server_config \<Rightarrow> json \<Rightarrow> dict \<Rightarrow> manager \<Rightarrow> manager" where
  "record_connection now sv version capabilities = set_state (mc_name sv)
     (\<lambda>s. s\<lparr>st_status := (lit ''ready''), st_protocol_version := version,
       st_capabilities := capabilities,
            st_error := None, st_last_checked_at := Some now\<rparr>)"

section \<open>HTTP bodies\<close>

text \<open>
  \<open>LimitedStream\<close>: the chunks that are passed on and whether the limit ended them; \<open>size\<close> bytes came before.
\<close>

fun limited_stream :: "nat \<Rightarrow> nat \<Rightarrow> nat list list \<Rightarrow> nat list list \<times> bool" where
  "limited_stream limit n [] = ([], False)"
| "limited_stream limit n (chunk # chunks) =
     (if limit < n + length chunk then ([], True)
      else (case limited_stream limit (n + length chunk) chunks of (out, over) \<Rightarrow> (chunk # out, over)))"

text \<open>\<open>BoundedHttpClient.send\<close>: the last refusing status is kept, and a body is read or streamed up to the limit.\<close>

datatype http_body = Consumed "nat list" | Streamed "nat list list"

definition error_status :: "int \<Rightarrow> int option \<Rightarrow> int option" where
  "error_status status last_error = (if status \<in> {401,
    403} \<or> 500 \<le> status then Some status else last_error)"

definition bounded_send ::
  "nat \<Rightarrow> int \<Rightarrow> http_body \<Rightarrow> int option \<Rightarrow> int option \<times> (nat list list \<times> mcp_failure option)" where
  "bounded_send limit status body last_error =
     (let over = Failed (lit ''RuntimeError'') (lit ''MCP HTTP response exceeded its byte limit'') in
      (error_status status last_error,
       case body of
         Consumed content \<Rightarrow> if limit < length content then ([], Some over) else ([content], None)
       | Streamed chunks \<Rightarrow>
           (case limited_stream limit 0 chunks of (out, e) \<Rightarrow> (out, if e then Some over else None))))"

text \<open>What a failure over streamable HTTP becomes when the server refused: only the status is told.\<close>

definition http_failure :: "int option \<Rightarrow> mcp_failure \<Rightarrow> mcp_failure" where
  "http_failure last_error f = (case last_error of
     None \<Rightarrow> f
   | Some n \<Rightarrow> Failed (lit ''RuntimeError'') ((lit ''HTTP '') @ show_int n
     @ (lit ''; check server access and configured credentials'')))"

lemma limited_stream_bounded:
  "n \<le> limit \<Longrightarrow> n + length (concat (fst (limited_stream limit n chunks))) \<le> limit
   \<and> prefix (fst (limited_stream limit n chunks)) chunks"
proof (induction chunks arbitrary: n)
  case (Cons chunk chunks)
  from Cons.IH [of "n + length chunk"] show ?case
    by (cases "limited_stream limit (n + length chunk) chunks") (auto simp: Cons.prems)
qed simp

section \<open>Requests\<close>

text \<open>
  What lies outside: \<open>cw_connect\<close> opens a connection,
    \<open>cw_request\<close> answers the n-th request of a connection
  to a server, a method with its parameters; \<open>cw_now\<close> is the wall clock.
\<close>

record client_world =
  cw_env :: "ustr \<Rightarrow> ustr option"
  cw_connect :: "mcp_server_config \<Rightarrow> mcp_failure + (json \<times> dict)"
  cw_request :: "mcp_server_config \<Rightarrow> nat \<Rightarrow> ustr \<Rightarrow> dict \<Rightarrow> mcp_failure + dict"
  cw_wire :: "json \<Rightarrow> nat"
  cw_now :: time

definition runtime_failure :: "ustr \<Rightarrow> mcp_failure" where
  "runtime_failure message = Failed (lit ''RuntimeError'') message"

text \<open>A failure as the caller sees it: recorded, and raised with the recorded text.\<close>

definition fail_with :: "client_world \<Rightarrow> mcp_server_config \<Rightarrow> mcp_failure \<Rightarrow> manager \<Rightarrow> manager \<times> 'a res" where
  "fail_with w sv failure m =
     (record_error (cw_env w) (cw_now w) sv failure m, Inl (RuntimeError (error_text (cw_env w) sv failure)))"

text \<open>
  \<open>_sdk_client\<close>: the newest protocol is asked for as \<open>auto\<close> and insisted on; SSE is always legacy. A subprocess
  framed by length does not go through the SDK and checks its version itself.
\<close>

definition requested_mode :: "mcp_server_config \<Rightarrow> ustr" where
  "requested_mode sv = (if mc_transport sv = (lit ''sse'') then (lit ''legacy'') else mc_protocol_mode sv)"

definition sdk_mode :: "mcp_server_config \<Rightarrow> ustr" where
  "sdk_mode sv = (if requested_mode sv = (lit ''2026-07-28'') then (lit ''auto'') else requested_mode sv)"

definition framed_by_length :: "mcp_server_config \<Rightarrow> bool" where
  "framed_by_length sv \<longleftrightarrow> mc_transport sv = (lit ''stdio'') \<and> mc_stdio_framing sv = (lit ''content-length'')"

definition check_version :: "mcp_server_config \<Rightarrow> json \<Rightarrow> mcp_failure + unit" where
  "check_version sv version =
     (if \<not> framed_by_length sv \<and> requested_mode sv = (lit ''2026-07-28'') \<and> version \<noteq> JStr (lit ''2026-07-28'')
      then Inl (runtime_failure (lit ''MCP server does not support the configured protocol version''))
      else Inr ())"

text \<open>\<open>_connection\<close>: the environment of the process or the headers of the request are expanded first.\<close>

definition connection_values :: "mcp_server_config \<Rightarrow> ustr list" where
  "connection_values sv = map snd (if mc_transport sv = (lit ''stdio'') then mc_env sv else mc_headers sv)"

definition connect :: "client_world \<Rightarrow> mcp_server_config \<Rightarrow> manager \<Rightarrow> manager \<times> (mcp_failure + unit)" where
  "connect w sv m = (case map_res (expand (cw_env w)) (connection_values sv) of
     Inl e \<Rightarrow> (m, Inl (runtime_failure (exn_str e)))
   | Inr _ \<Rightarrow>
       (case cw_connect w sv of
          Inl f \<Rightarrow> (m, Inl f)
        | Inr (version, capabilities) \<Rightarrow>
            (case check_version sv version of
               Inl f \<Rightarrow> (m, Inl f)
             | Inr _ \<Rightarrow> (record_connection (cw_now w) sv version capabilities m, Inr ()))))"

definition run_request :: "client_world \<Rightarrow> mcp_server_config \<Rightarrow> ustr \<Rightarrow> dict \<Rightarrow> manager \<Rightarrow> manager \<times> dict res" where
  "run_request w sv rpc params m =
     (if \<not> has_transport sv
      then fail_with w sv (runtime_failure (lit ''No MCP transport or explicit mock result is configured'')) m
      else
        (case connect w sv m of
           (m1, Inl f) \<Rightarrow> fail_with w sv f m1
         | (m1, Inr _) \<Rightarrow>
             (case cw_request w sv 0 rpc params of
                Inl f \<Rightarrow> fail_with w sv f m1
              | Inr result \<Rightarrow>
                  if mc_max_response_bytes sv < cw_wire w (JObj result)
                  then fail_with w sv (runtime_failure (lit ''MCP result exceeded its byte limit'')) m1
                  else (m1, Inr result))))"

text \<open>\<open>_request\<close>: which operation of the SDK client a method stands for.\<close>

datatype sdk_call =
    ListCall ustr json
  | CallToolCall json json
  | ReadResourceCall json
  | GetPromptCall json json

definition sdk_call_of :: "ustr \<Rightarrow> dict \<Rightarrow> sdk_call" where
  "sdk_call_of rpc params =
     (if rpc \<in> {(lit ''tools/list''), (lit ''resources/list''), (lit ''prompts/list'')}
      then ListCall ((lit ''list_'') @ takeWhile (\<lambda>c. c \<noteq> 47) rpc) (dget params (lit ''cursor''))
      else if rpc = (lit ''tools/call'') then CallToolCall (dget params (lit ''name'')) (dget params (lit ''arguments''))
      else if rpc = (lit ''resources/read'') then ReadResourceCall (dget params (lit ''uri''))
      else GetPromptCall (dget params (lit ''name'')) (dget params (lit ''arguments'')))"

section \<open>Discovery\<close>

definition catalog_failure :: "ustr \<Rightarrow> mcp_failure" where
  "catalog_failure what = runtime_failure ((lit ''MCP catalog '') @ what)"

text \<open>The key that identifies an item, and whether it is new; an unhashable one is a type error.\<close>

definition identity_of :: "catalog_kind \<Rightarrow> json \<Rightarrow> json" where
  "identity_of kind item = (case item of
     JObj d \<Rightarrow> dget d (if kind = ResourceKind then (lit ''uri'') else (lit ''name'')) | _ \<Rightarrow> JNull)"

fun read_batch ::
  "nat \<Rightarrow> catalog_kind \<Rightarrow> json list \<Rightarrow> dict list \<times> json list \<Rightarrow> mcp_failure + (dict list \<times> json list)" where
  "read_batch max_items kind [] acc = Inr acc"
| "read_batch max_items kind (item # items) (vals, seen) =
     (let i = identity_of kind item in
      if \<not> truthy i then Inl (catalog_failure (lit ''contains missing or duplicate identifiers''))
      else if is_list i \<or> is_obj i then Inl (Failed (lit ''TypeError'') (lit ''unhashable type''))
      else if list_ex (py_eq i) seen then Inl (catalog_failure (lit ''contains missing or duplicate identifiers''))
      else if max_items < length vals + 1 then Inl (catalog_failure (lit ''exceeded its item limit''))
      else read_batch max_items kind items (vals @ [obj_items item], seen @ [i]))"

text \<open>One page: its items, and the next cursor if there is one.\<close>

definition read_page ::
  "client_world \<Rightarrow> mcp_server_config \<Rightarrow> catalog_kind \<Rightarrow> dict \<Rightarrow> ustr list \<Rightarrow> dict list \<times> json list
     \<Rightarrow> mcp_failure + (dict list \<times> json list \<times> ustr option)" where
  "read_page w sv kind page cursors acc =
     (if mc_max_response_bytes sv < cw_wire w (JObj page)
      then Inl (catalog_failure (lit ''response exceeded its byte limit''))
      else
        (case dget page (kind_str kind) of
           JList batch \<Rightarrow>
             (case read_batch (mc_discovery_max_items sv) kind batch acc of
                Inl f \<Rightarrow> Inl f
              | Inr (vals, seen) \<Rightarrow>
                  (let cursor = dget page (lit ''nextCursor'') in
                   if \<not> truthy cursor then Inr (vals, seen, None)
                   else case cursor of
                     JStr c \<Rightarrow>
                       if c \<in> set cursors then Inl (catalog_failure (lit ''repeated an invalid pagination cursor''))
                       else Inr (vals, seen, Some c)
                   | _ \<Rightarrow> Inl (catalog_failure (lit ''repeated an invalid pagination cursor''))))
         | _ \<Rightarrow> Inl (catalog_failure (lit ''response is missing its item list''))))"

text \<open>\<open>budget\<close> pages are left; the k-th request asks for the page at the last cursor.\<close>

fun pages_from ::
  "client_world \<Rightarrow> mcp_server_config \<Rightarrow> catalog_kind \<Rightarrow> nat \<Rightarrow> ustr list \<Rightarrow> dict list \<times> json list
     \<Rightarrow> mcp_failure + dict list" where
  "pages_from w sv kind 0 cursors acc = Inl (catalog_failure (lit ''exceeded its page limit''))"
| "pages_from w sv kind (Suc budget) cursors acc =
     (case cw_request w sv (length cursors) (kind_str kind @ (lit ''/list''))
             (if cursors = [] then [] else [((lit ''cursor''), JStr (last cursors))]) of
        Inl f \<Rightarrow> (if f = RpcFailure (-32601) \<and> kind \<noteq> ToolKind then Inr [] else Inl f)
      | Inr page \<Rightarrow>
          (case read_page w sv kind page cursors acc of
             Inl f \<Rightarrow> Inl f
           | Inr (vals, seen, None) \<Rightarrow> Inr vals
           | Inr (vals, seen, Some c) \<Rightarrow> pages_from w sv kind budget (cursors @ [c]) (vals, seen)))"

definition pages :: "client_world \<Rightarrow> mcp_server_config \<Rightarrow> catalog_kind \<Rightarrow> manager \<Rightarrow> mcp_failure + dict list" where
  "pages w sv kind m =
     (if dhas (st_capabilities (mm_state m (mc_name sv))) (kind_str kind)
      then pages_from w sv kind (mc_discovery_max_pages sv) [] ([], [])
      else Inr [])"

text \<open>An enabled item under the configured identity of its server, whatever the item says itself.\<close>

definition item_enabled :: "dict \<Rightarrow> bool" where
  "item_enabled item = (case map_of item (lit ''enabled'') of None \<Rightarrow> True | Some v \<Rightarrow> truthy v)"

definition routed :: "mcp_server_config \<Rightarrow> dict \<Rightarrow> dict" where
  "routed sv item = dset (lit ''transport'') (JStr (mc_transport sv)) (dset (lit ''server_name'') (JStr (mc_name sv)) item)"

definition store_catalog ::
  "mcp_server_config \<Rightarrow> catalog_kind \<Rightarrow> time \<Rightarrow> dict list \<Rightarrow> manager \<Rightarrow> manager \<times> dict list res" where
  "store_catalog sv kind clock items m =
     (let vals = map (routed sv) (filter item_enabled items);
          m1 = set_state (mc_name sv) (\<lambda>s. s\<lparr>st_counts := (st_counts s)(kind := length vals)\<rparr>) m in
      (m1\<lparr>mm_catalogs := ((mc_name sv, kind), clock + mc_discovery_cache_seconds sv, vals)
            # filter (\<lambda>(key, _). key \<noteq> (mc_name sv, kind)) (mm_catalogs m1)\<rparr>, Inr vals))"

definition catalog_miss ::
  "client_world \<Rightarrow> time \<Rightarrow> mcp_server_config \<Rightarrow> catalog_kind \<Rightarrow> manager \<Rightarrow> manager \<times> dict list res" where
  "catalog_miss w clock sv kind m =
     (let configured = configured_items kind sv in
      if configured \<noteq> []
      then store_catalog sv kind clock configured
             (if \<not> has_transport sv \<and> list_ex (\<lambda>i. dhas i (lit ''mock_result'')) configured
              then set_state (mc_name sv) (\<lambda>s. s\<lparr>st_status := (lit ''mock'')\<rparr>) m else m)
      else if \<not> has_transport sv then store_catalog sv kind clock [] m
      else
        (case connect w sv m of
           (m1, Inl f) \<Rightarrow> fail_with w sv f m1
         | (m1, Inr _) \<Rightarrow>
             (case pages w sv kind m1 of
                Inl f \<Rightarrow> fail_with w sv f m1
              | Inr items \<Rightarrow> store_catalog sv kind clock items m1)))"

text \<open>\<open>clock\<close> is \<open>monotonic()\<close> at the lookup, \<open>clock'\<close> when the catalog is stored.\<close>

definition catalog ::
  "client_world \<Rightarrow> time \<Rightarrow> time \<Rightarrow> mcp_server_config \<Rightarrow> catalog_kind \<Rightarrow> manager \<Rightarrow> manager \<times> dict list res" where
  "catalog w clock clock' sv kind m =
     (case map_of (mm_catalogs m) (mc_name sv, kind) of
        Some (expires, vals) \<Rightarrow> if clock < expires then (m, Inr vals) else
          catalog_miss w clock' sv kind m
      | None \<Rightarrow> catalog_miss w clock' sv kind m)"

text \<open>All enabled servers, or one; a server that fails adds nothing to the whole list.\<close>

definition list_one :: "client_world \<Rightarrow> time \<Rightarrow> time \<Rightarrow> ustr \<Rightarrow> catalog_kind \<Rightarrow> manager \<Rightarrow> manager \<times> dict list res" where
  "list_one w clock clock' name kind m = (case get_server m name of
     Inl e \<Rightarrow> (m, Inl e) | Inr sv \<Rightarrow> catalog w clock clock' sv kind m)"

fun gather :: "client_world \<Rightarrow> time \<Rightarrow> time \<Rightarrow> catalog_kind \<Rightarrow> mcp_server_config list \<Rightarrow> manager \<Rightarrow> manager \<times> dict list" where
  "gather w clock clock' kind [] m = (m, [])"
| "gather w clock clock' kind (sv # svs) m =
     (case catalog w clock clock' sv kind m of
        (m1, r) \<Rightarrow>
          (case gather w clock clock' kind svs m1 of
             (m2, rest) \<Rightarrow> (m2, (case r of Inl _ \<Rightarrow> [] | Inr vals \<Rightarrow> vals) @ rest)))"

definition list_all_servers :: "client_world \<Rightarrow> time \<Rightarrow> time \<Rightarrow> catalog_kind \<Rightarrow> manager \<Rightarrow> manager \<times> dict list" where
  "list_all_servers w clock clock' kind m = gather w clock clock' kind (filter mc_enabled (mm_servers m)) m"

section \<open>Calls\<close>

definition item_named :: "ustr \<Rightarrow> ustr \<Rightarrow> dict list \<Rightarrow> dict option" where
  "item_named key name items = find (\<lambda>i. dget i key = JStr name) items"

definition call_tool :: "client_world \<Rightarrow> ustr \<Rightarrow> ustr \<Rightarrow> dict \<Rightarrow> manager \<Rightarrow> manager \<times> json res" where
  "call_tool w server_name name arguments m = (case get_server m server_name of
     Inl e \<Rightarrow> (m, Inl e)
   | Inr sv \<Rightarrow>
       (let request = (case run_request w sv (lit ''tools/call'') [((lit ''name''), JStr name),
         ((lit ''arguments''), JObj arguments)] m of
              (m1, Inl e) \<Rightarrow> (m1, Inl e) | (m1, Inr d) \<Rightarrow> (m1, Inr (JObj d))) in
        case item_named (lit ''name'') name (mc_tools sv) of
          None \<Rightarrow> request
        | Some tool \<Rightarrow>
            if \<not> item_enabled tool
            then (m, Inl (RuntimeError ((lit ''MCP tool is disabled: '') @ server_name @ (lit ''/'') @ name)))
            else (case map_of tool (lit ''mock_result'') of
                    Some r \<Rightarrow> (set_state (mc_name sv) (\<lambda>s. s\<lparr>st_status := (lit ''mock'')\<rparr>) m, Inr r)
                  | None \<Rightarrow> request)))"

definition read_resource :: "client_world \<Rightarrow> ustr \<Rightarrow> ustr \<Rightarrow> manager \<Rightarrow> manager \<times> dict res" where
  "read_resource w server_name uri m = (case get_server m server_name of
     Inl e \<Rightarrow> (m, Inl e)
   | Inr sv \<Rightarrow>
       (case item_named (lit ''uri'') uri (mc_resources sv) of
          Some r \<Rightarrow>
            if dhas r (lit ''content'') \<or> dhas r (lit ''contents'') \<or> \<not> has_transport sv then (m, Inr r)
            else run_request w sv (lit ''resources/read'') [((lit ''uri''), JStr uri)] m
        | None \<Rightarrow> run_request w sv (lit ''resources/read'') [((lit ''uri''), JStr uri)] m))"

definition get_prompt :: "client_world \<Rightarrow> ustr \<Rightarrow> ustr \<Rightarrow> dict \<Rightarrow> manager \<Rightarrow> manager \<times> dict res" where
  "get_prompt w server_name name arguments m = (case get_server m server_name of
     Inl e \<Rightarrow> (m, Inl e)
   | Inr sv \<Rightarrow>
       (let request = run_request w sv (lit ''prompts/get'') [((lit ''name''), JStr name), ((lit ''arguments''),
         JObj arguments)] m in
        case item_named (lit ''name'') name (mc_prompts sv) of
          Some p \<Rightarrow> if dhas p (lit ''messages'') \<or> \<not> has_transport sv then (m, Inr p) else request
        | None \<Rightarrow> request))"

text \<open>\<open>list_servers\<close>: name, transport and last known state.\<close>

definition list_servers :: "manager \<Rightarrow> (ustr \<times> ustr \<times> server_state) list" where
  "list_servers m = map (\<lambda>sv. (mc_name sv, mc_transport sv, mm_state m (mc_name sv))) (mm_servers m)"

section \<open>Facts: discovery\<close>

text \<open>Items with an identity each, no two of them the same.\<close>

definition well_identified :: "catalog_kind \<Rightarrow> dict list \<Rightarrow> bool" where
  "well_identified kind items \<longleftrightarrow>
     sorted_wrt (\<lambda>x y. \<not> py_eq (identity_of kind (JObj y)) (identity_of kind (JObj x))) items
     \<and> list_all (\<lambda>x. truthy (identity_of kind (JObj x))) items"

lemma well_identified_snoc:
  "well_identified kind (items @ [x]) \<longleftrightarrow> well_identified kind items \<and> truthy (identity_of kind (JObj x))
     \<and> \<not> list_ex (py_eq (identity_of kind (JObj x))) (map (\<lambda>i. identity_of kind (JObj i)) items)"
  by (auto simp: well_identified_def sorted_wrt_append list_ex_iff)

lemma identified_obj: "truthy (identity_of kind item) \<Longrightarrow> JObj (obj_items item) = item"
  by (cases item) (simp_all add: identity_of_def obj_items_def)

abbreviation read_ok :: "nat \<Rightarrow> catalog_kind \<Rightarrow> dict list \<times> json list \<Rightarrow> bool" where
  "read_ok n kind acc \<equiv> well_identified kind (fst acc) \<and> length (fst acc) \<le> n
     \<and> snd acc = map (\<lambda>i. identity_of kind (JObj i)) (fst acc)"

lemma read_batch_ok:
  "read_batch n kind items acc = Inr acc' \<Longrightarrow> read_ok n kind acc \<Longrightarrow> read_ok n kind acc'"
proof (induction n kind items acc rule: read_batch.induct)
  case (2 n kind item items vals seen)
  let ?i = "identity_of kind item"
  from 2(2) have i: "truthy ?i" "\<not> (is_list ?i \<or> is_obj ?i)" "\<not> list_ex (py_eq ?i) seen" "\<not> n < length vals + 1"
    and r: "read_batch n kind items (vals @ [obj_items item], seen @ [?i]) = Inr acc'"
    by (auto simp: Let_def split: if_splits)
  have "read_ok n kind (vals @ [obj_items item], seen @ [?i])"
    using 2(3) i identified_obj [OF i(1)] by (simp add: well_identified_snoc)
  with 2(1) [OF refl _ i(2,3,4) r] i(1) show ?case by simp
qed simp

lemma read_page_ok:
  assumes "read_page w sv kind page cursors acc = Inr (vals, seen,
    c)" and "read_ok (mc_discovery_max_items sv) kind acc"
  shows "read_ok (mc_discovery_max_items sv) kind (vals, seen)"
proof -
  obtain batch where "read_batch (mc_discovery_max_items sv) kind batch acc = Inr (vals, seen)"
    using assms(1) by (auto simp: read_page_def Let_def split: if_splits json.splits sum.splits)
  from read_batch_ok [OF this assms(2)] show ?thesis .
qed

lemma pages_from_ok:
  "pages_from w sv kind budget cursors acc = Inr vals \<Longrightarrow> read_ok (mc_discovery_max_items sv) kind acc
   \<Longrightarrow> well_identified kind vals \<and> length vals \<le> mc_discovery_max_items sv"
proof (induction w sv kind budget cursors acc rule: pages_from.induct)
  case (2 w sv kind budget cursors acc)
  let ?r = "cw_request w sv (length cursors) (kind_str kind @ (lit ''/list''))
    (if cursors = [] then [] else [((lit ''cursor''), JStr (last cursors))])"
  show ?case
  proof (cases ?r)
    case (Inl f)
    with 2(2) show ?thesis by (auto simp: well_identified_def split: if_splits)
  next
    case (Inr page)
    then obtain vs seen c where p: "read_page w sv kind page cursors acc = Inr (vs, seen, c)"
      using 2(2) by (cases "read_page w sv kind page cursors acc") (auto split: sum.splits)
    note ok = read_page_ok [OF p 2(3)]
    show ?thesis
    proof (cases c)
      case None
      with 2(2) Inr p ok show ?thesis by simp
    next
      case (Some c')
      with 2(1) [OF Inr p refl refl] 2(2) Inr p ok show ?thesis by simp
    qed
  qed
qed simp

lemma pages_ok:
  "pages w sv kind m = Inr vals \<Longrightarrow> well_identified kind vals \<and> length vals \<le> mc_discovery_max_items sv"
  using pages_from_ok [of w sv kind "mc_discovery_max_pages sv" "[]" "([], [])" vals]
  by (auto simp: pages_def well_identified_def split: if_splits)

text \<open>
  Discovery is bounded and unambiguous: a catalog read page by page has at most the configured number of
  items, each with an identifier and no two with the same one, and it is read with at most the configured
  number of requests: what the server would answer to further requests does not matter.
\<close>

theorem discovery_is_bounded:
  "(case pages w sv kind m of Inl f \<Rightarrow> True | Inr vals \<Rightarrow>
      length vals \<le> mc_discovery_max_items sv \<and> well_identified kind vals)
   \<and> pages (w\<lparr>cw_request := \<lambda>sv n. if n < mc_discovery_max_pages sv then cw_request w sv n else other sv n\<rparr>) sv kind m
      = pages w sv kind m"
proof
  show "case pages w sv kind m of Inl f \<Rightarrow> True | Inr vals \<Rightarrow>
      length vals \<le> mc_discovery_max_items sv \<and> well_identified kind vals"
    using pages_ok [of w sv kind m] by (simp split: sum.split)
  let ?w' = "w\<lparr>cw_request := \<lambda>sv n. if n < mc_discovery_max_pages sv then cw_request w sv n else other sv n\<rparr>"
  have "length cursors + budget \<le> mc_discovery_max_pages sv \<Longrightarrow>
      pages_from ?w' sv kind budget cursors acc = pages_from w sv kind budget cursors acc" for budget cursors acc
  proof (induction budget arbitrary: cursors acc)
    case (Suc budget)
    have r: "cw_request ?w' sv (length cursors) = cw_request w sv (length cursors)"
      using Suc(2) by simp
    have p: "read_page ?w' = read_page w" by (simp add: fun_eq_iff read_page_def)
    have n: "pages_from ?w' sv kind budget (cursors @ [c]) acc' = pages_from w sv kind budget (cursors
      @ [c]) acc'" for c acc'
      using Suc by simp
    show ?case unfolding pages_from.simps r p n ..
  qed simp
  then show "pages ?w' sv kind m = pages w sv kind m" by (simp add: pages_def)
qed

section \<open>Facts: routing identity\<close>

definition routed_as :: "ustr \<Rightarrow> dict \<Rightarrow> bool" where
  "routed_as n item \<longleftrightarrow> dget item (lit ''server_name'') = JStr n"

definition catalogs_ok :: "manager \<Rightarrow> bool" where
  "catalogs_ok m \<longleftrightarrow> list_all (\<lambda>((n, _), _,
    items). list_all (routed_as n) items) (mm_catalogs m)"

lemma routed_routed: "routed_as (mc_name sv) (routed sv item)"
  by (simp add: routed_as_def routed_def dget_dset str_eval)

lemma catalogs_simps [simp]:
  "mm_catalogs (set_state n f m) = mm_catalogs m" "mm_catalogs (record_error env now sv x m) = mm_catalogs m"
  "mm_catalogs (record_connection now sv v c m) = mm_catalogs m"
  by (simp_all add: set_state_def record_error_def record_connection_def)

lemma catalogs_ok_frame: "mm_catalogs m' = mm_catalogs m \<Longrightarrow> catalogs_ok m' = catalogs_ok m"
  by (simp add: catalogs_ok_def)

lemma connect_catalogs: "connect w sv m = (m', r) \<Longrightarrow> mm_catalogs m' = mm_catalogs m"
  by (auto simp: connect_def split: sum.splits)

lemma run_request_catalogs: "mm_catalogs (fst (run_request w sv rpc params m)) = mm_catalogs m"
  by (auto simp: run_request_def fail_with_def dest: connect_catalogs split: prod.splits sum.splits)

text \<open>What storing a catalog leaves and returns.\<close>

lemma store_catalog_ok:
  assumes "store_catalog sv kind clock items m = (m', r)" and "catalogs_ok m"
  shows "catalogs_ok m' \<and> (\<exists>vals. r = Inr vals \<and> list_all (routed_as (mc_name sv)) vals)"
proof -
  have "list_all (routed_as (mc_name sv)) (map (routed sv) (filter item_enabled items))"
    by (simp add: list_all_iff routed_routed)
  moreover have "list_all P (filter Q xs)" if "list_all P xs" for P Q and xs :: "'b list"
    using that by (simp add: list_all_iff)
  ultimately show ?thesis using assms
    by (simp only: store_catalog_def catalogs_ok_def Let_def prod.inject) (elim conjE, hypsubst, simp)
qed

lemma catalog_miss_ok:
  assumes "catalog_miss w clock sv kind m = (m', r)" and "catalogs_ok m"
  shows "catalogs_ok m' \<and> (case r of Inl _ \<Rightarrow> True | Inr vals \<Rightarrow> list_all (routed_as (mc_name sv)) vals)"
proof -
  have store: ?thesis if "store_catalog sv kind clock items m1 = (m',
    r)" "mm_catalogs m1 = mm_catalogs m" for items m1
    using store_catalog_ok [OF that(1)] catalogs_ok_frame [OF that(2)] assms(2) by auto
  have failed: ?thesis if "fail_with w sv f m1 = (m', r)" "mm_catalogs m1 = mm_catalogs m" for f m1
    using that catalogs_ok_frame [of m' m] assms(2) by (auto simp: fail_with_def)
  show ?thesis
  proof (cases "configured_items kind sv = [] \<and> has_transport sv")
    case False
    with assms(1) store show ?thesis by (auto simp: catalog_miss_def Let_def split: if_splits)
  next
    case True
    obtain m1 c where c: "connect w sv m = (m1, c)" by fastforce
    from True assms(1) c store [OF _ connect_catalogs [OF c]] failed [OF _ connect_catalogs [OF c]] show ?thesis
      by (auto simp: catalog_miss_def Let_def split: sum.splits)
  qed
qed

lemma catalog_ok:
  assumes "catalog w clock clock' sv kind m = (m', r)" and "catalogs_ok m"
  shows "catalogs_ok m' \<and> (case r of Inl _ \<Rightarrow> True | Inr vals \<Rightarrow> list_all (routed_as (mc_name sv)) vals)"
proof (cases "\<exists>expires vals. map_of (mm_catalogs m) (mc_name sv, kind) = Some (expires,
  vals) \<and> clock < expires")
  case True
  then obtain expires vals where v: "map_of (mm_catalogs m) (mc_name sv, kind) = Some (expires,
    vals)" "clock < expires" by blast
  from assms(2) map_of_SomeD [OF v(1)] have "list_all (routed_as (mc_name sv)) vals"
    by (auto simp: catalogs_ok_def list_all_iff)
  moreover from v assms(1) have "m' = m" "r = Inr vals" by (simp_all add: catalog_def)
  ultimately show ?thesis using assms(2) by simp
next
  case False
  then have "catalog_miss w clock' sv kind m = (m', r)"
    using assms(1) by (auto simp: catalog_def split: option.splits if_splits)
  then show ?thesis using assms(2) by (rule catalog_miss_ok)
qed

lemma gather_ok: "gather w clock clock' kind svs m = (m',
  vals) \<Longrightarrow> catalogs_ok m \<Longrightarrow> catalogs_ok m'"
proof (induction svs arbitrary: m m' vals)
  case (Cons sv svs)
  obtain m1 r where c: "catalog w clock clock' sv kind m = (m1, r)" by fastforce
  obtain m2 rest where g: "gather w clock clock' kind svs m1 = (m2, rest)" by fastforce
  from Cons.IH [OF g] catalog_ok [OF c Cons.prems(2)] Cons.prems(1) c g show ?case by simp
qed simp

text \<open>Anything that may happen to the client: requests of all kinds, in any world, and cleared caches.\<close>

datatype client_op =
    ListOne client_world time time ustr catalog_kind
  | ListAll client_world time time catalog_kind
  | CallTool client_world ustr ustr dict
  | ReadResource client_world ustr ustr
  | GetPrompt client_world ustr ustr dict
  | Invalidate

fun client_step :: "client_op \<Rightarrow> manager \<Rightarrow> manager" where
  "client_step (ListOne w c c' n k) m = fst (list_one w c c' n k m)"
| "client_step (ListAll w c c' k) m = fst (list_all_servers w c c' k m)"
| "client_step (CallTool w n t a) m = fst (call_tool w n t a m)"
| "client_step (ReadResource w n u) m = fst (read_resource w n u m)"
| "client_step (GetPrompt w n p a) m = fst (get_prompt w n p a m)"
| "client_step Invalidate m = invalidate_catalogs m"

lemma list_one_ok:
  assumes "list_one w clock clock' name kind m = (m', r)" and "catalogs_ok m"
  shows "catalogs_ok m' \<and> (case r of Inl _ \<Rightarrow> True | Inr vals \<Rightarrow> list_all (routed_as name) vals)"
proof (cases "get_server m name")
  case (Inl e)
  then have "m' = m" "r = Inl e" using assms(1) by (simp_all add: list_one_def)
  with assms(2) show ?thesis by simp
next
  case (Inr sv)
  then have n: "name = mc_name sv" by (auto simp: get_server_def dest: find_row_Some split: option.splits if_splits)
  with Inr assms catalog_ok [of w clock clock' sv kind m] show ?thesis unfolding n by (simp add: list_one_def)
qed

lemma call_tool_catalogs: "mm_catalogs (fst (call_tool w n t a m)) = mm_catalogs m"
proof (cases "get_server m n")
  case (Inr sv)
  let ?q = "run_request w sv (lit ''tools/call'') [((lit ''name''), JStr t), ((lit ''arguments''), JObj a)] m"
  define request where "request = (case ?q of (m1, Inl e) \<Rightarrow> (m1, Inl e) | (m1, Inr d) \<Rightarrow> (m1,
    Inr (JObj d)))"
  have q: "mm_catalogs (fst request) = mm_catalogs m"
    unfolding request_def using run_request_catalogs [of w sv "(lit ''tools/call'')" "[((lit ''name''), JStr t),
      ((lit ''arguments''), JObj a)]" m]
    by (cases ?q; cases "snd ?q") simp_all
  show ?thesis
  proof (cases "item_named (lit ''name'') t (mc_tools sv)")
    case None
    with Inr q show ?thesis by (simp add: call_tool_def Let_def flip: request_def)
  next
    case (Some tool)
    with Inr q show ?thesis
      by (cases "map_of tool (lit ''mock_result'')") (simp_all add: call_tool_def Let_def flip: request_def)
  qed
qed (simp add: call_tool_def)

lemma read_resource_catalogs: "mm_catalogs (fst (read_resource w n u m)) = mm_catalogs m"
proof (cases "get_server m n")
  case (Inr sv)
  then show ?thesis
    by (cases "item_named (lit ''uri'') u (mc_resources sv)") (simp_all add: read_resource_def run_request_catalogs)
qed (simp add: read_resource_def)

lemma get_prompt_catalogs: "mm_catalogs (fst (get_prompt w n p a m)) = mm_catalogs m"
proof (cases "get_server m n")
  case (Inr sv)
  then show ?thesis
    by (cases "item_named (lit ''name'') p (mc_prompts sv)") (simp_all add: get_prompt_def Let_def run_request_catalogs)
qed (simp add: get_prompt_def)

lemma client_step_ok:
  assumes "catalogs_ok m"
  shows "catalogs_ok (client_step op m)"
proof (cases op)
  case (ListOne w c c' n k)
  with assms list_one_ok [of w c c' n k m] show ?thesis by (cases "list_one w c c' n k m") simp
next
  case (ListAll w c c' k)
  with assms gather_ok [of w c c' k "filter mc_enabled (mm_servers m)" m] show ?thesis
    by (cases "gather w c c' k (filter mc_enabled (mm_servers m)) m") (simp add: list_all_servers_def)
next
  case Invalidate
  then show ?thesis by (simp add: invalidate_catalogs_def catalogs_ok_def)
qed (simp_all add: assms catalogs_ok_frame [OF call_tool_catalogs] catalogs_ok_frame [OF read_resource_catalogs]
      catalogs_ok_frame [OF get_prompt_catalogs])

interpretation client: op_system client_step catalogs_ok
  by unfold_locales (rule client_step_ok)

text \<open>
  C18. A server cannot pass its items off as another's: after any history of discoveries, calls, failures and
  cleared caches, every item a listing of a server returns, fresh or cached, carries that server's
  configured name, whatever \<open>server_name\<close> the item itself claims.
\<close>

theorem catalog_items_are_routed:
  "case snd (list_one w clock clock' name kind (fold client_step ops (new_manager servers))) of
     Inl _ \<Rightarrow> True
   | Inr items \<Rightarrow> list_all (\<lambda>i. dget i (lit ''server_name'') = JStr name) items"
proof -
  have "catalogs_ok (fold client_step ops (new_manager servers))"
    by (rule client.history_keeps) (simp add: new_manager_def catalogs_ok_def)
  from list_one_ok [OF surjective_pairing this, of w clock clock' name kind] show ?thesis
    by (simp add: routed_as_def [abs_def] split: sum.splits)
qed

end
