(* ===== verification/Mcp_Routes.thy ===== *)
theory Mcp_Routes
  imports Mcp_Client Tool_Executor
begin

text \<open>
  The tool routes (\<open>api/routes/tools.py\<close>), the MCP routes (\<open>api/routes/mcp.py\<close>),
    the server that offers the
  local tools over MCP (\<open>mcp/server.py\<close>) and its prompts (\<open>mcp/prompts.py\<close>),
    as functions of the client's
  state, the unified registry and the database.
\<close>

section \<open>Tool routes\<close>

record manifest_read =
  mr_name :: ustr
  mr_description :: ustr
  mr_permission :: ustr
  mr_provider :: ustr
  mr_provider_tool_id :: ustr
  mr_transport :: ustr
  mr_server_name :: "ustr option"
  mr_requires_confirmation :: bool
  mr_enabled :: bool
  mr_parameters :: dict
  mr_output_schema :: "dict option"
  mr_timeout_seconds :: int
  mr_output_strategy :: dict

definition to_read_model :: "registered_tool \<Rightarrow> manifest_read" where
  "to_read_model t =
     (let m = rt_manifest t in
      \<lparr>mr_name = pm_name m, mr_description = pm_description m, mr_permission = pm_permission m,
       mr_provider = rt_provider t,
       mr_provider_tool_id = (case rt_provider_tool_id t of None \<Rightarrow> pm_name m | Some i \<Rightarrow> if i = [] then pm_name m else i),
       mr_transport = rt_transport t, mr_server_name = rt_server_name t,
       mr_requires_confirmation = pm_requires_confirmation m, mr_enabled = pm_enabled m,
       mr_parameters = pm_parameters m, mr_output_schema = pm_output_schema m,
       mr_timeout_seconds = pm_timeout_seconds m, mr_output_strategy = pm_output_strategy m\<rparr>)"

definition list_tools_route :: "unified \<Rightarrow> manifest_read list" where
  "list_tools_route u = map to_read_model (unified_list u)"

record tool_run_request =
  tp_arguments :: dict
  tp_confirmed :: bool

definition route_call :: "bool \<Rightarrow> uuid \<Rightarrow> tool_call" where
  "route_call confirmed user_id = \<lparr>tq_confirmed = confirmed, tq_session = False, tq_user_id = Some user_id,
     tq_conversation_id = None, tq_task_id = None, tq_identity = None\<rparr>"

text \<open>No task lease is current in a request.\<close>

definition run_tool_route ::
  "tool_world \<Rightarrow> tool_env \<Rightarrow> time \<Rightarrow> uuid \<Rightarrow> ustr \<Rightarrow> unified \<Rightarrow> uuid \<Rightarrow> ustr \<Rightarrow> tool_run_request \<Rightarrow> db
     \<Rightarrow> db \<times> tool_response res" where
  "run_tool_route w env now audit_id trace_id u user_id name payload d = (case unified_get u name of
     None \<Rightarrow> (d, Inl (HttpError 404 (lit ''Tool not found'')))
   | Some tool \<Rightarrow>
       if \<not> pm_enabled (rt_manifest tool) then (d, Inl (HttpError 404 (lit ''Tool not found'')))
       else run_tool w env None now audit_id trace_id (route_call (tp_confirmed payload) user_id) tool
              (tp_arguments payload) d)"

section \<open>MCP routes\<close>

text \<open>A server as the route shows it: its name, transport and state, and how many of its tools are registered.\<close>

record server_view =
  sw_name :: ustr
  sw_transport :: ustr
  sw_state :: server_state
  sw_registered_tool_count :: nat

definition view_server :: "unified \<Rightarrow> ustr \<times> ustr \<times> server_state \<Rightarrow> server_view" where
  "view_server u sv = (case sv of (name, transport, st) \<Rightarrow>
     \<lparr>sw_name = name, sw_transport = transport,
      sw_state = (case map_of (un_errors u) name of
        None \<Rightarrow> st | Some e \<Rightarrow> st\<lparr>st_status := (lit ''error''),
          st_error := Some e\<rparr>),
      sw_registered_tool_count = length (filter (\<lambda>t. rt_server_name t = Some name) (unified_list u))\<rparr>)"

definition list_mcp_servers :: "unified \<Rightarrow> manager \<Rightarrow> server_view list" where
  "list_mcp_servers u m = map (view_server u) (list_servers m)"

text \<open>
  The catalogs of the servers that are not disabled, asked for together; servers share no state, so their
  order does not matter.
\<close>

fun server_answers ::
  "client_world \<Rightarrow> time \<Rightarrow> time \<Rightarrow> (ustr \<times> ustr \<times> server_state) list \<Rightarrow> manager \<Rightarrow> manager \<times> server_answer list" where
  "server_answers w clock clock' [] m = (m, [])"
| "server_answers w clock clock' ((name, transport, st) # svs) m =
     (case list_one w clock clock' name ToolKind m of
        (m1, r) \<Rightarrow>
          (case server_answers w clock clock' svs m1 of
             (m2, answers) \<Rightarrow> (m2, (name, transport, r) # answers)))"

definition refresh_registry ::
  "client_world \<Rightarrow> time \<Rightarrow> time \<Rightarrow> mcp_settings \<Rightarrow> py_repr \<Rightarrow> manager \<Rightarrow> unified \<Rightarrow> manager \<times> unified \<times> unit res" where
  "refresh_registry w clock clock' s fr m u =
     (case server_answers w clock clock' (filter (\<lambda>(_, _,
       st). st_status st \<noteq> (lit ''disabled'')) (list_servers m)) m of
        (m', answers) \<Rightarrow> (m', refresh_mcp_tools s fr (Some answers) u))"

definition refresh_mcp_servers ::
  "client_world \<Rightarrow> time \<Rightarrow> time \<Rightarrow> mcp_settings \<Rightarrow> py_repr \<Rightarrow> manager \<Rightarrow> unified
     \<Rightarrow> manager \<times> unified \<times> server_view list res" where
  "refresh_mcp_servers w clock clock' s fr m u =
     (case refresh_registry w clock clock' s fr (invalidate_catalogs m) u of
        (m', u', Inl e) \<Rightarrow> (m', u', Inl e)
      | (m', u', Inr _) \<Rightarrow> (m', u', Inr (list_mcp_servers u' m')))"

definition list_mcp_resources :: "client_world \<Rightarrow> time \<Rightarrow> time \<Rightarrow> manager \<Rightarrow> manager \<times> dict list" where
  "list_mcp_resources w clock clock' m = list_all_servers w clock clock' ResourceKind m"

definition list_mcp_prompts :: "client_world \<Rightarrow> time \<Rightarrow> time \<Rightarrow> manager \<Rightarrow> manager \<times> dict list" where
  "list_mcp_prompts w clock clock' m = list_all_servers w clock clock' PromptKind m"

section \<open>The local tools over MCP\<close>

definition server_list_tools :: "mcp_settings \<Rightarrow> registry \<Rightarrow> dict list res" where
  "server_list_tools s r = (case require_mcp_server_enabled s of
     Inl e \<Rightarrow> Inl e | Inr _ \<Rightarrow> Inr (map local_tool_to_mcp_schema (list_tools r)))"

definition server_call :: "bool \<Rightarrow> bool \<Rightarrow> uuid option \<Rightarrow> tool_call" where
  "server_call confirmed session user_id = \<lparr>tq_confirmed = confirmed, tq_session = session,
    tq_user_id = user_id,
     tq_conversation_id = None, tq_task_id = None,
     tq_identity = Some \<lparr>mi_user_id = user_id, mi_service_id = None, mi_is_admin = False\<rparr>\<rparr>"

definition server_call_tool ::
  "tool_world \<Rightarrow> tool_env \<Rightarrow> mcp_settings \<Rightarrow> lease option \<Rightarrow> time \<Rightarrow> uuid \<Rightarrow> ustr \<Rightarrow> registry \<Rightarrow> ustr \<Rightarrow> dict \<Rightarrow> bool
     \<Rightarrow> bool \<Rightarrow> uuid option \<Rightarrow> db \<Rightarrow> db \<times> tool_response res" where
  "server_call_tool w env s current now audit_id trace_id r name arguments confirmed session user_id d =
     (case require_mcp_server_enabled s of
        Inl e \<Rightarrow> (d, Inl e)
      | Inr _ \<Rightarrow>
          (case registry_get r name of
             None \<Rightarrow> (d, Inl (RuntimeError ((lit ''MCP tool is not available: '') @ name)))
           | Some tool \<Rightarrow>
               run_tool w env current now audit_id trace_id (server_call confirmed session user_id) tool arguments d))"

text \<open>\<open>LOCAL_PROMPTS\<close> and the resource that quotes the first of them.\<close>

definition prompt_of :: "ustr \<Rightarrow> ustr \<Rightarrow> ustr \<Rightarrow> ustr \<Rightarrow> dict" where
  "prompt_of name description role content =
     [((lit ''name''), JStr name), ((lit ''description''), JStr description),
      ((lit ''messages''), JList [JObj [((lit ''role''), JStr role), ((lit ''content''), JStr content)]])]"

definition default_agent_prompt :: ustr where
  "default_agent_prompt = (lit ''You are a local personal AI Agent. Answer clearly and practically.'')"

definition local_prompts :: "dict list" where
  "local_prompts =
     [prompt_of (lit ''agent_default'') (lit ''Default AgentDemo assistant prompt.'') (lit ''system'') default_agent_prompt,
      prompt_of (lit ''document_summary'') (lit ''Summarize a document with concise evidence-backed bullets.'') (lit ''user'')
        (lit ''Summarize the provided document and cite the most relevant passages.''),
      prompt_of (lit ''tool_planning'') (lit ''Choose whether a tool should be called for the current task.'') (lit ''user'')
        (lit ''Decide whether the task needs a tool and return a structured plan.'')]"

definition local_resource :: "ustr \<Rightarrow> ustr \<Rightarrow> ustr \<Rightarrow> dict" where
  "local_resource uri name content =
     [((lit ''uri''), JStr uri), ((lit ''name''), JStr name), ((lit ''mimeType''), JStr (lit ''text/plain'')),
       ((lit ''text''), JStr content)]"

definition server_list_resources :: "mcp_settings \<Rightarrow> dict list res" where
  "server_list_resources s = (case require_mcp_server_enabled s of
     Inl e \<Rightarrow> Inl e
   | Inr _ \<Rightarrow> Inr [local_resource (lit ''agentdemo://prompts/agent_default'') (lit ''Default Agent Prompt'') default_agent_prompt])"

definition server_list_prompts :: "mcp_settings \<Rightarrow> dict list res" where
  "server_list_prompts s = (case require_mcp_server_enabled s of Inl e \<Rightarrow> Inl e | Inr _ \<Rightarrow> Inr local_prompts)"

section \<open>Facts\<close>

lemma servers_simps [simp]:
  "mm_servers (set_state n f m) = mm_servers m" "mm_servers (record_error env now sv x m) = mm_servers m"
  "mm_servers (record_connection now sv v c m) = mm_servers m" "mm_servers (invalidate_catalogs m) = mm_servers m"
  by (simp_all add: set_state_def record_error_def record_connection_def invalidate_catalogs_def)

lemma store_catalog_servers [simp]: "mm_servers (fst (store_catalog sv kind clock items m)) = mm_servers m"
  by (simp add: store_catalog_def Let_def)

lemma fail_with_servers [simp]: "mm_servers (fst (fail_with w sv f m)) = mm_servers m"
  by (simp add: fail_with_def)

lemma connect_servers: "connect w sv m = (m', r) \<Longrightarrow> mm_servers m' = mm_servers m"
  by (auto simp: connect_def split: sum.splits)

lemma catalog_miss_servers [simp]: "mm_servers (fst (catalog_miss w clock sv kind m)) = mm_servers m"
proof (cases "configured_items kind sv = [] \<and> has_transport sv")
  case True
  obtain m1 c where c: "connect w sv m = (m1, c)" by fastforce
  with True connect_servers [OF c] show ?thesis
    by (cases c; cases "pages w sv kind m1") (simp_all add: catalog_miss_def)
qed (auto simp: catalog_miss_def Let_def)

lemma list_one_servers [simp]: "mm_servers (fst (list_one w clock clock' name kind m)) = mm_servers m"
proof (cases "get_server m name")
  case (Inr sv)
  then show ?thesis
    by (cases "map_of (mm_catalogs m) (mc_name sv, kind)") (auto simp: list_one_def catalog_def split: if_splits)
qed (simp add: list_one_def)

lemma server_answers_servers: "server_answers w clock clock' svs m = (m',
  as) \<Longrightarrow> mm_servers m' = mm_servers m"
proof (induction svs arbitrary: m m' as)
  case (Cons x svs)
  obtain n transport st where x: "x = (n, transport, st)" by (metis prod_cases3)
  obtain m1 r where l: "list_one w clock clock' n ToolKind m = (m1, r)" by fastforce
  obtain m2 rest where g: "server_answers w clock clock' svs m1 = (m2, rest)" by fastforce
  from Cons.IH [OF g] Cons.prems x l g list_one_servers [of w clock clock' n ToolKind m] show ?case by simp
qed simp

lemma list_one_enabled:
  "list_one w clock clock' n kind m = (m', Inr items) \<Longrightarrow> \<exists>sv. find_row mc_name n (mm_servers m) = Some sv \<and> mc_enabled sv"
  by (auto simp: list_one_def get_server_def split: sum.splits option.splits if_splits)

lemma server_answers_source:
  "server_answers w clock clock' svs m = (m', as) \<Longrightarrow> (n, transport, Inr items) \<in> set as
   \<Longrightarrow> (\<exists>st. (n, transport, st) \<in> set svs) \<and> (\<exists>sv. find_row mc_name n (mm_servers m) = Some sv \<and> mc_enabled sv)"
proof (induction svs arbitrary: m m' as)
  case (Cons x svs)
  obtain k tr st where x: "x = (k, tr, st)" by (metis prod_cases3)
  obtain m1 r where l: "list_one w clock clock' k ToolKind m = (m1, r)" by fastforce
  obtain m2 rest where g: "server_answers w clock clock' svs m1 = (m2, rest)" by fastforce
  have m1: "mm_servers m1 = mm_servers m" using list_one_servers [of w clock clock' k ToolKind m] l by simp
  have as: "as = (k, tr, r) # rest" using Cons.prems(1) x l g by simp
  show ?case
  proof (cases "(n, transport, Inr items) \<in> set rest")
    case True
    with Cons.IH [OF g True] m1 show ?thesis by auto
  next
    case False
    with Cons.prems(2) as have e: "k = n" "tr = transport" "r = Inr items" by simp_all
    with x l list_one_enabled [of w clock clock' n ToolKind m m1 items] show ?thesis by auto
  qed
qed simp

text \<open>A registered tool of an enabled server, under its name and, when the server is remote, behind a confirmation.\<close>

definition tool_of_server :: "manager \<Rightarrow> registered_tool \<Rightarrow> bool" where
  "tool_of_server m t \<longleftrightarrow> list_ex (\<lambda>sv. mc_enabled sv \<and> rt_server_name t = Some (mc_name sv)
     \<and> rt_transport t = mc_transport sv \<and> prefix ((lit ''mcp.'') @ mc_name sv @ (lit ''.'')) (tool_name t)
     \<and> (mc_transport sv \<in> remote_transports \<longrightarrow> pm_requires_confirmation (rt_manifest t))) (mm_servers m)"

lemma unique_server:
  "distinct (map mc_name svs) \<Longrightarrow> sv \<in> set svs \<Longrightarrow> find_row mc_name (mc_name sv) svs = Some sv"
  by (induction svs) (auto simp: find_row_def)

lemma tool_of_answer_server:
  assumes "distinct (map mc_name (mm_servers m))" "tool_of_answer as t"
    and "server_answers w clock clock' (filter P (list_servers m1)) m1 = (m', as)" "mm_servers m1 = mm_servers m"
  shows "tool_of_server m t"
proof -
  obtain n transport cat i where t: "(n, transport, Inr cat) \<in> set as" "tool_name t = (lit ''mcp.'') @ n
    @ (lit ''.'') @ i"
    "rt_server_name t = Some n" "rt_transport t = transport"
    and net: "reaches_network n transport i \<longrightarrow> pm_requires_confirmation (rt_manifest t)"
    using assms(2) unfolding tool_of_answer_def by blast
  from server_answers_source [OF assms(3) t(1)] obtain st sv where s: "(n, transport,
    st) \<in> set (filter P (list_servers m1))"
    "find_row mc_name n (mm_servers m) = Some sv" "mc_enabled sv"
    unfolding assms(4) by blast
  obtain sv' where sv': "sv' \<in> set (mm_servers m)" "n = mc_name sv'" "transport = mc_transport sv'"
    using s(1) by (auto simp: list_servers_def assms(4))
  with unique_server [OF assms(1), of sv'] s(2) have "sv' = sv" by simp
  with sv' s(3) t net show ?thesis
    by (auto simp: tool_of_server_def list_ex_iff reaches_network_def intro!: bexI [of _ sv'])
qed

text \<open>
  The registry tells which server a tool comes from: after a refresh, whatever the servers answered, each
  MCP tool belongs to an enabled configured server, carries its name and transport, and needs a confirmation
  when that server is remote; every configured server is listed; a refresh that fails leaves the registry as
  it was, and the local plugins are never touched.
\<close>

theorem refreshed_tools_belong_to_servers:
  "case unique_names (mm_servers m) of Inl _ \<Rightarrow> True | Inr _ \<Rightarrow>
     (case refresh_mcp_servers w clock clock' s fr m u of (m', u', r) \<Rightarrow>
        mm_servers m' = mm_servers m \<and> un_plugins u' = un_plugins u
        \<and> (case r of
             Inl _ \<Rightarrow> u' = u
           | Inr views \<Rightarrow> map sw_name views = map mc_name (mm_servers m) \<and> list_all (tool_of_server m) (un_mcp u')))"
proof (cases "distinct (map mc_name (mm_servers m))")
  case True
  let ?m = "invalidate_catalogs m"
  let ?live = "filter (\<lambda>(_, _, st). st_status st \<noteq> (lit ''disabled'')) (list_servers ?m)"
  obtain m' as where a: "server_answers w clock clock' ?live ?m = (m', as)" by fastforce
  have ms: "mm_servers m' = mm_servers m" using server_answers_servers [OF a] by simp
  obtain u' r where r: "refresh_mcp_tools s fr (Some as) u = (u', r)" by fastforce
  note reg = refresh_mcp_tools_props [OF r]
  show ?thesis
  proof (cases r)
    case (Inl e)
    with reg a r ms show ?thesis by (simp add: refresh_mcp_servers_def refresh_registry_def split: sum.split)
  next
    case (Inr x)
    have "list_all (tool_of_server m) (un_mcp u')"
      using reg Inr tool_of_answer_server [OF True _ a] by (simp add: list_all_iff)
    moreover have "map sw_name (list_mcp_servers u' m') = map mc_name (mm_servers m)"
      by (simp add: list_mcp_servers_def list_servers_def view_server_def ms)
    ultimately show ?thesis
      using reg a r ms Inr by (simp add: refresh_mcp_servers_def refresh_registry_def split: sum.split)
  qed
qed (simp add: unique_names_def)

end
