(* ===== verification/Startup.thy ===== *)
theory Startup
  imports Mcp_Routes
begin

text \<open>
  The start of the application (\<open>lifespan\<close> of \<open>main.py\<close>) as far as it builds state,
    and its health checks: the plugin registry, the MCP
  client from its configuration file and the first refresh of the unified registry, and the headers every
  response gets. What the plugin directory holds, the parsed configuration file and pydantic's reading of a
  server entry (\<open>build\<close>) are arguments; the scheduler is started empty and is modelled by itself.
\<close>

section \<open>Configuration\<close>

text \<open>pydantic's validation of the entries, then the check of the names, then at most 64 servers.\<close>

definition build_config ::
  "(dict \<Rightarrow> mcp_server_config res) \<Rightarrow> dict list \<Rightarrow> mcp_server_config list res" where
  "build_config build entries =
     (if 64 < length entries then Inl (ValueError (lit ''List should have at most 64 items''))
      else (case map_res build entries of Inl e \<Rightarrow> Inl e | Inr servers \<Rightarrow> unique_names servers))"

section \<open>Startup\<close>

definition startup ::
  "client_world \<Rightarrow> time \<Rightarrow> time \<Rightarrow> mcp_settings \<Rightarrow> py_repr \<Rightarrow> (dict \<Rightarrow> mcp_server_config res) \<Rightarrow> (ustr \<Rightarrow> bool)
     \<Rightarrow> (ustr \<Rightarrow> ustr) \<Rightarrow> json option \<Rightarrow> bool \<Rightarrow> registered_tool option list \<Rightarrow> (manager \<times> unified) res" where
  "startup w clock clock' s fr build is_absolute resolve file dir_exists found =
     (case load_mcp_config is_absolute resolve file of
        Inl e \<Rightarrow> Inl e
      | Inr (entries, _) \<Rightarrow>
          (case build_config build entries of
             Inl e \<Rightarrow> Inl e
           | Inr servers \<Rightarrow>
               (let u = \<lparr>un_plugins = registry_load dir_exists found, un_mcp = [], un_errors = []\<rparr> in
                case refresh_registry w clock clock' s fr (new_manager servers) u of
                  (m, u', Inl e) \<Rightarrow> Inl e
                | (m, u', Inr _) \<Rightarrow> Inr (m, u'))))"

text \<open>The headers \<open>AuthResponseHeadersMiddleware\<close> sets.\<close>

definition response_headers :: "ustr \<Rightarrow> (ustr \<times> ustr) list" where
  "response_headers path =
     (if prefix (lit ''/api/auth/'') path then [((lit ''Cache-Control''), (lit ''no-store'')), ((lit ''Pragma''),
       (lit ''no-cache''))] else [])
     @ [((lit ''X-Content-Type-Options''), (lit ''nosniff''))]"

section \<open>Health\<close>

text \<open>The routes of \<open>api/routes/health.py\<close>: the query for the schema version gives it, or fails or times out.\<close>

datatype version_query = Version "ustr option" | Unavailable

definition required_schema :: ustr where
  "required_schema = (lit ''0010_auth_sessions'')"

definition health :: dict where
  "health = [((lit ''status''), JStr (lit ''ok''))]"

definition readiness :: "version_query \<Rightarrow> int \<times> dict" where
  "readiness q = (case q of
     Version v \<Rightarrow>
       if v \<noteq> Some required_schema
       then (503, [((lit ''status''), JStr (lit ''unavailable'')), ((lit ''database''), JStr (lit ''ok'')),
         ((lit ''schema''), JStr (lit ''outdated''))])
       else (200, [((lit ''status''), JStr (lit ''ready'')), ((lit ''database''), JStr (lit ''ok'')),
         ((lit ''schema''), JStr (lit ''ok''))])
   | Unavailable \<Rightarrow> (503, [((lit ''status''), JStr (lit ''unavailable'')), ((lit ''database''),
     JStr (lit ''unavailable''))]))"

section \<open>Facts\<close>

text \<open>The service is ready exactly on the schema the code was written for.\<close>

lemma ready_iff_current_schema: "fst (readiness q) = 200 \<longleftrightarrow> q = Version (Some required_schema)"
  by (simp add: readiness_def split: version_query.split)


lemma load_config_clean:
  "load_mcp_config is_absolute resolve (Some raw) = Inr x \<Longrightarrow> \<not> contains_plaintext_mcp_secret raw"
  by (auto simp: load_mcp_config_def split: if_splits)

lemma build_config_unique: "build_config build entries = Inr servers \<Longrightarrow> distinct (map mc_name servers)"
  by (auto simp: build_config_def unique_names_def split: if_splits sum.splits)

lemma refresh_registry_props:
  assumes "refresh_registry w clock clock' s fr m u = (m', u', Inr x)" "distinct (map mc_name (mm_servers m))"
  shows "mm_servers m' = mm_servers m \<and> un_plugins u' = un_plugins u \<and> distinct (map tool_name (un_mcp u'))
    \<and> list_all (tool_of_server m) (un_mcp u')"
proof -
  let ?live = "filter (\<lambda>(_, _, st). st_status st \<noteq> (lit ''disabled'')) (list_servers m)"
  obtain as where a: "server_answers w clock clock' ?live m = (m', as)"
    and r: "refresh_mcp_tools s fr (Some as) u = (u', Inr x)"
    using assms(1) by (auto simp: refresh_registry_def split: prod.splits)
  from refresh_mcp_tools_props [OF r] tool_of_answer_server [OF assms(2) _ a refl] server_answers_servers [OF a]
  show ?thesis by (simp add: list_all_iff)
qed

text \<open>The tools of a server an application started with: a guard on what the configuration did not name.\<close>

definition started_well :: "registry \<Rightarrow> manager \<Rightarrow> unified \<Rightarrow> bool" where
  "started_well plugins m u \<longleftrightarrow> un_plugins u = plugins \<and> distinct (map mc_name (mm_servers m))
     \<and> distinct (map tool_name (un_mcp u)) \<and> list_all (tool_of_server m) (un_mcp u)"

text \<open>
  C14. The application starts with the tools its configuration names and no others: if the configuration file
  holds a plaintext secret it does not start at all; otherwise the plugins are those of the plugin
  directory, the server names are distinct, and every MCP tool, under its own name, belongs to an enabled
  configured server and needs a confirmation when that server is remote.
\<close>

theorem startup_registers_configured_tools:
  "case startup w clock clock' s fr build is_absolute resolve file dir_exists found of
     Inl _ \<Rightarrow> True
   | Inr (m, u) \<Rightarrow> started_well (registry_load dir_exists found) m u
       \<and> (case file of None \<Rightarrow> True | Some raw \<Rightarrow> \<not> contains_plaintext_mcp_secret raw)"
proof (cases "startup w clock clock' s fr build is_absolute resolve file dir_exists found")
  case (Inr mu)
  obtain m u where mu: "mu = (m, u)" by fastforce
  let ?u = "\<lparr>un_plugins = registry_load dir_exists found, un_mcp = [], un_errors = []\<rparr>"
  obtain entries c servers where l: "load_mcp_config is_absolute resolve file = Inr (entries, c)"
    and b: "build_config build entries = Inr servers"
    and r: "\<exists>x. refresh_registry w clock clock' s fr (new_manager servers) ?u = (m, u, Inr x)"
    using Inr mu unfolding startup_def Let_def by (auto split: sum.splits prod.splits)
  from r obtain x where r: "refresh_registry w clock clock' s fr (new_manager servers) ?u = (m, u, Inr x)" by blast
  have n: "mm_servers (new_manager servers) = servers" by (simp add: new_manager_def)
  note props = refresh_registry_props [OF r, unfolded n, OF build_config_unique [OF b]]
  then have "tool_of_server (new_manager servers) = tool_of_server m" by (simp add: fun_eq_iff tool_of_server_def n)
  with props build_config_unique [OF b] have "started_well (registry_load dir_exists found) m u"
    by (simp add: started_well_def)
  moreover have "case file of None \<Rightarrow> True | Some raw \<Rightarrow> \<not> contains_plaintext_mcp_secret raw"
    using l load_config_clean [of is_absolute resolve _ "(entries, c)"] by (cases "file") auto
  ultimately show ?thesis using Inr mu by simp
qed simp

end
