(* ===== verification/Legacy_Stdio.thy ===== *)
theory Legacy_Stdio
  imports Mcp_Client Utf8
begin

text \<open>
  The adapter for subprocess servers that frame their messages by length (\<open>mcp/legacy_stdio.py\<close>). A
  connection is the number of requests made, the bytes the process has written that are not read yet and the
  bytes sent to it; what the process writes is an argument,
    \<open>loads\<close> stands for \<open>json.loads\<close> on bytes and
  \<open>mk_error\<close> for the SDK's \<open>MCPError\<close>. Starting and stopping the process are not modelled.
\<close>

section \<open>Messages as bytes\<close>

text \<open>\<open>json.dumps(message, separators=(",", ":"))\<close>: everything beyond ASCII is escaped.\<close>

definition hex4 :: "nat \<Rightarrow> ustr" where
  "hex4 n = [92, 117, hex_digit (n div 4096 mod 16), hex_digit (n div 256 mod 16), hex_digit (n div 16 mod 16),
     hex_digit (n mod 16)]"

definition ascii_escape :: "nat \<Rightarrow> ustr" where
  "ascii_escape c =
     (if c < 127 then escape_cp c
      else if c < 65536 then hex4 c
      else hex4 (55296 + (c - 65536) div 1024) @ hex4 (56320 + (c - 65536) mod 1024))"

definition compact_str :: "ustr \<Rightarrow> ustr" where
  "compact_str s = [34] @ concat (map ascii_escape s) @ [34]"

fun compact :: "py_repr \<Rightarrow> json \<Rightarrow> ustr"
  and compact_list :: "py_repr \<Rightarrow> json list \<Rightarrow> ustr list"
  and compact_items :: "py_repr \<Rightarrow> dict \<Rightarrow> ustr list"
where
  "compact fr JNull = (lit ''null'')"
| "compact fr (JBool b) = (if b then (lit ''true'') else (lit ''false''))"
| "compact fr (JInt i) = show_int i"
| "compact fr (JFloat x) = dumps_float fr x"
| "compact fr (JStr s) = compact_str s"
| "compact fr (JList xs) = (lit ''['') @ join (lit '','') (compact_list fr xs) @ (lit '']'')"
| "compact fr (JObj d) = (lit ''{'') @ join (lit '','') (compact_items fr d) @ (lit ''}'')"
| "compact_list fr [] = []"
| "compact_list fr (x # xs) = compact fr x # compact_list fr xs"
| "compact_items fr [] = []"
| "compact_items fr ((k, v) # d) = (compact_str k @ (lit '':'') @ compact fr v) # compact_items fr d"

definition header_name :: ustr where
  "header_name = (lit ''Content-Length: '')"

definition frame :: "nat list \<Rightarrow> nat list" where
  "frame body = header_name @ show_nat (length body) @ [13, 10, 13, 10] @ body"

record legacy_connection =
  lg_counter :: nat
  lg_unread :: "nat list"
  lg_sent :: "nat list"

text \<open>\<open>_write\<close>.\<close>

definition write_message :: "py_repr \<Rightarrow> dict \<Rightarrow> legacy_connection \<Rightarrow> legacy_connection" where
  "write_message fr message lg = lg\<lparr>lg_sent := lg_sent lg
    @ frame (encode_utf8 (compact fr (JObj message)))\<rparr>"

section \<open>Reading a frame\<close>

text \<open>\<open>StreamReader.readline\<close> with its limit: a line with its end, or what is left of the stream.\<close>

definition readline :: "nat \<Rightarrow> nat list \<Rightarrow> mcp_failure + (nat list \<times> nat list)" where
  "readline limit bs =
     (let line = takeWhile (\<lambda>b. b \<noteq> 10) bs in
      if length line < length bs
      then (if limit < length line then Inl (Failed (lit ''ValueError'') (lit ''Separator is found, but chunk is longer than limit''))
            else Inr (line @ [10], drop (Suc (length line)) bs))
      else (if limit < length line then Inl (Failed (lit ''ValueError'') (lit ''Separator is not found, and chunk exceed the limit''))
            else Inr (line, [])))"

definition byte_space :: "nat \<Rightarrow> bool" where
  "byte_space b \<longleftrightarrow> b = 32 \<or> (9 \<le> b \<and> b \<le> 13)"

definition lower_byte :: "nat \<Rightarrow> nat" where
  "lower_byte b = (if 65 \<le> b \<and> b \<le> 90 then b + 32 else b)"

text \<open>\<open>int(bytes)\<close>.\<close>

definition bytes_int :: "nat list \<Rightarrow> int option" where
  "bytes_int s = (case strip_by byte_space s of
     [] \<Rightarrow> None
   | c # cs \<Rightarrow> if c = 45 then map_option uminus (parse_digits 0 False cs)
              else if c = 43 then parse_digits 0 False cs
              else parse_digits 0 False (c # cs))"

text \<open>
  At most 16 header lines, up to a blank one; the last \<open>Content-Length\<close> counts. The text of the failed
  conversion is cut before the offending literal, which no caller shows.
\<close>

fun read_headers :: "nat \<Rightarrow> nat \<Rightarrow> int option \<Rightarrow> nat list \<Rightarrow> mcp_failure + (int option \<times> nat list)" where
  "read_headers limit 0 n bs = Inl (runtime_failure (lit ''Invalid MCP frame: too many headers''))"
| "read_headers limit (Suc k) n bs =
     (case readline limit bs of
        Inl f \<Rightarrow> Inl f
      | Inr (line, rest) \<Rightarrow>
          if line = [] then Inl (runtime_failure (lit ''MCP subprocess ended before returning a response''))
          else if strip_by byte_space line = [] then Inr (n, rest)
          else if prefix (lit ''content-length:'') (map lower_byte line)
          then (case bytes_int (drop 15 line) of
                  None \<Rightarrow> Inl (Failed (lit ''ValueError'') (lit ''invalid literal for int() with base 10''))
                | Some i \<Rightarrow> read_headers limit k (Some i) rest)
          else read_headers limit k n rest)"

definition read_frame :: "nat \<Rightarrow> nat list \<Rightarrow> mcp_failure + (nat list \<times> nat list)" where
  "read_frame limit bs = (case read_headers limit 16 None bs of
     Inl f \<Rightarrow> Inl f
   | Inr (n, rest) \<Rightarrow>
       (case n of
          None \<Rightarrow> Inl (runtime_failure (lit ''Invalid or oversized MCP Content-Length frame''))
        | Some i \<Rightarrow>
            if \<not> (0 < i \<and> i \<le> int limit)
            then Inl (runtime_failure (lit ''Invalid or oversized MCP Content-Length frame''))
            else if length rest < nat i then Inl (Failed (lit ''IncompleteReadError'')
              (show_nat (length rest) @ (lit '' bytes read on a total of '') @ show_nat (nat i)
                @ (lit '' expected bytes'')))
            else Inr (take (nat i) rest, drop (nat i) rest)))"

lemma readline_shorter:
  "readline limit bs = Inr (line, rest) \<Longrightarrow> line \<noteq> [] \<Longrightarrow> length rest < length bs"
  by (auto simp: readline_def Let_def split: if_splits)

lemma read_headers_shorter: "read_headers limit k n bs = Inr (m, rest) \<Longrightarrow> length rest < length bs"
proof (induction limit k n bs arbitrary: m rest rule: read_headers.induct)
  case (2 limit k n bs)
  obtain line tail where l: "readline limit bs = Inr (line, tail)" "line \<noteq> []"
    using 2(3) by (auto split: sum.splits if_splits)
  from readline_shorter [OF l] have s: "length tail < length bs" .
  consider "strip_by byte_space line = []" "tail = rest"
    | i where "read_headers limit k (Some i) tail = Inr (m, rest)" "bytes_int (drop 15 line) = Some i"
        "strip_by byte_space line \<noteq> []" "prefix (lit ''content-length:'') (map lower_byte line)"
    | "read_headers limit k n tail = Inr (m, rest)" "strip_by byte_space line \<noteq> []"
        "\<not> prefix (lit ''content-length:'') (map lower_byte line)"
    using 2(3) l by (auto split: if_splits option.splits)
  then show ?case
  proof cases
    case 1
    with s show ?thesis by simp
  next
    case (2 i)
    with \<open>line \<noteq> []\<close> l(1) "2.IH"(1) [OF l(1) refl _ _ _ _ 2(1)] s show ?thesis by fastforce
  next
    case 3
    with "2.IH"(2) [OF l(1) refl] l s show ?thesis by fastforce
  qed
qed simp

lemma read_frame_shorter: "read_frame limit bs = Inr (body, rest) \<Longrightarrow> length rest < length bs"
  by (auto simp: read_frame_def split: sum.splits option.splits if_splits dest!: read_headers_shorter)

section \<open>Requests\<close>

definition unsupported_reply :: "json \<Rightarrow> dict" where
  "unsupported_reply i = [((lit ''jsonrpc''), JStr (lit ''2.0'')), ((lit ''id''), i),
     ((lit ''error''), JObj [((lit ''code''), JInt (-32601)), ((lit ''message''),
       JStr (lit ''Client capability not supported''))])]"

text \<open>The answer to the request: the error of the server, or an object.\<close>

definition read_answer :: "(json \<Rightarrow> json \<Rightarrow> mcp_failure) \<Rightarrow> nat \<Rightarrow> dict \<Rightarrow> mcp_failure + dict" where
  "read_answer mk_error request_id d =
     (if \<not> py_eq (dget d (lit ''id'')) (JInt (int request_id))
      then Inl (runtime_failure (lit ''MCP response does not match its request''))
      else
        (case map_of d (lit ''error'') of
           Some (JObj e) \<Rightarrow>
             (case map_of e (lit ''code'') of
                None \<Rightarrow> Inl (Failed (lit ''KeyError'') ([39] @ lit ''code'' @ [39]))
              | Some code \<Rightarrow>
                  Inl (mk_error code (case map_of e (lit ''message'') of None \<Rightarrow> JStr (lit ''MCP error'') | Some m \<Rightarrow> m)))
         | Some _ \<Rightarrow> Inl (Failed (lit ''TypeError'') (lit ''object is not subscriptable''))
         | None \<Rightarrow>
             (case dget d (lit ''result'') of
                JObj r \<Rightarrow> Inr r
              | _ \<Rightarrow> Inl (runtime_failure (lit ''MCP returned a non-object result'')))))"

type_synonym byte_loads = "nat list \<Rightarrow> mcp_failure + json"

text \<open>Reading up to the answer: notifications are skipped and requests of the server refused.\<close>

function respond ::
  "byte_loads \<Rightarrow> (json \<Rightarrow> json \<Rightarrow> mcp_failure) \<Rightarrow> py_repr \<Rightarrow> nat \<Rightarrow> nat \<Rightarrow> nat list \<Rightarrow> nat list
     \<Rightarrow> (nat list \<times> nat list) \<times> (mcp_failure + dict)" where
  "respond loads mk_error fr limit request_id unread sent =
     (case read_frame limit unread of
        Inl f \<Rightarrow> ((unread, sent), Inl f)
      | Inr (body, rest) \<Rightarrow>
          (case loads body of
             Inl f \<Rightarrow> ((rest, sent), Inl f)
           | Inr (JObj d) \<Rightarrow>
               if dget d (lit ''jsonrpc'') \<noteq> JStr (lit ''2.0'')
               then ((rest, sent), Inl (runtime_failure (lit ''Invalid MCP JSON-RPC response'')))
               else if dhas d (lit ''method'')
               then respond loads mk_error fr limit request_id rest
                      (case map_of d (lit ''id'') of
                         None \<Rightarrow> sent
                       | Some i \<Rightarrow> sent @ frame (encode_utf8 (compact fr (JObj (unsupported_reply i)))))
               else ((rest, sent), read_answer mk_error request_id d)
           | Inr _ \<Rightarrow> ((rest, sent), Inl (runtime_failure (lit ''Invalid MCP JSON-RPC response'')))))"
  by pat_completeness auto
termination
  by (relation "measure (\<lambda>(loads, mk_error, fr, limit, request_id, unread, sent). length unread)")
    (auto dest: read_frame_shorter)

declare respond.simps [simp del]

definition request_message :: "nat \<Rightarrow> ustr \<Rightarrow> dict \<Rightarrow> dict" where
  "request_message n rpc params = [((lit ''jsonrpc''), JStr (lit ''2.0'')), ((lit ''id''), JInt (int n)),
    ((lit ''method''), JStr rpc),
     ((lit ''params''), JObj params)]"

definition legacy_request ::
  "byte_loads \<Rightarrow> (json \<Rightarrow> json \<Rightarrow> mcp_failure) \<Rightarrow> py_repr \<Rightarrow> nat \<Rightarrow> ustr \<Rightarrow> dict \<Rightarrow> legacy_connection
     \<Rightarrow> legacy_connection \<times> (mcp_failure + dict)" where
  "legacy_request loads mk_error fr limit rpc params lg =
     (let n = lg_counter lg + 1;
          lg1 = write_message fr (request_message n rpc params) (lg\<lparr>lg_counter := n\<rparr>) in
      case respond loads mk_error fr limit n (lg_unread lg1) (lg_sent lg1) of
        ((unread, sent), r) \<Rightarrow> (lg1\<lparr>lg_unread := unread, lg_sent := sent\<rparr>, r))"

text \<open>\<open>__aenter__\<close>: the handshake; the protocol version and the capabilities of the server.\<close>

definition supported_versions :: "ustr list" where
  "supported_versions = [(lit ''2024-11-05''), (lit ''2025-03-26''), (lit ''2025-06-18''), (lit ''2025-11-25'')]"

definition initialize_params :: dict where
  "initialize_params = [((lit ''protocolVersion''), JStr (lit ''2025-11-25'')), ((lit ''capabilities''), JObj []),
     ((lit ''clientInfo''), JObj [((lit ''name''), JStr (lit ''AgentDemo'')), ((lit ''version''),
       JStr (lit ''0.1.0''))])]"

definition legacy_connect ::
  "byte_loads \<Rightarrow> (json \<Rightarrow> json \<Rightarrow> mcp_failure) \<Rightarrow> py_repr \<Rightarrow> nat \<Rightarrow> nat list
     \<Rightarrow> legacy_connection \<times> (mcp_failure + (json \<times> json))" where
  "legacy_connect loads mk_error fr limit stdout =
     (case legacy_request loads mk_error fr limit (lit ''initialize'') initialize_params
             \<lparr>lg_counter = 0, lg_unread = stdout, lg_sent = []\<rparr> of
        (lg, Inl f) \<Rightarrow> (lg, Inl f)
      | (lg, Inr d) \<Rightarrow>
          (let version = dget d (lit ''protocolVersion'') in
           if is_list version \<or> is_obj version then (lg,
             Inl (Failed (lit ''TypeError'') (lit ''unhashable type'')))
           else if version \<notin> set (map JStr supported_versions)
           then (lg, Inl (runtime_failure (lit ''Unsupported legacy MCP protocol version'')))
           else (write_message fr [((lit ''jsonrpc''), JStr (lit ''2.0'')), ((lit ''method''),
             JStr (lit ''notifications/initialized'')),
                   ((lit ''params''), JObj [])] lg,
                 Inr (version, case map_of d (lit ''capabilities'') of None \<Rightarrow> JObj [] | Some c \<Rightarrow> c))))"

section \<open>Facts: frames\<close>

lemma parse_digits_show:
  "parse_digits acc seen (rev (digits_rev n) @ s) = parse_digits (acc * 10 ^ length (digits_rev n) + int n) True s"
proof (induction n arbitrary: s rule: digits_rev.induct)
  case (1 n)
  show ?case
  proof (cases "n < 10")
    case True
    then show ?thesis by (simp add: digits_rev.simps [of n])
  next
    case False
    have d: "digits_rev n = (48 + n mod 10) # digits_rev (n div 10)" using False by (simp add: digits_rev.simps [of n])
    have n: "int n = int (n div 10) * 10 + int (n mod 10)"
      by (metis div_mult_mod_eq of_nat_add of_nat_mult of_nat_numeral)
    have m: "n mod 10 < 10" by simp
    then have "48 + n mod 10 \<le> 57" by linarith
    with 1 [OF False] show ?thesis unfolding d by (simp add: n algebra_simps)
  qed
qed

lemma digits_rev_digit: "c \<in> set (digits_rev n) \<Longrightarrow> 48 \<le> c \<and> c \<le> 57"
proof (induction n rule: digits_rev.induct)
  case (1 n)
  then show ?case by (auto simp: digits_rev.simps [of n] split: if_splits)
qed

lemma digits_rev_length: "n < 10 ^ k \<Longrightarrow> 0 < k \<Longrightarrow> length (digits_rev n) \<le> k"
proof (induction n arbitrary: k rule: digits_rev.induct)
  case (1 n)
  show ?case
  proof (cases "n < 10")
    case False
    with 1(2,3) obtain j where j: "k = Suc j" "0 < j" by (cases k; cases "k - 1") auto
    then have "n div 10 < 10 ^ j" using 1(2) by (simp add: less_mult_imp_div_less mult.commute)
    from 1(1) [OF False this j(2)] j False show ?thesis by (simp add: digits_rev.simps [of n])
  qed (use 1(3) in \<open>simp add: digits_rev.simps [of n]\<close>)
qed

lemma show_nat_ne: "show_nat n \<noteq> []"
  by (simp add: show_nat_def digits_rev.simps [of n])

lemma dropWhile_all: "list_all P a \<Longrightarrow> dropWhile P (a @ s) = dropWhile P s"
  by (induction a) simp_all

lemma dropWhile_hd: "s \<noteq> [] \<Longrightarrow> \<not> P (hd s) \<Longrightarrow> dropWhile P (s @ t) = s @ t"
  by (cases s) simp_all

lemma strip_by_middle:
  assumes "list_all P a" "list_all P b" "s \<noteq> []" "\<not> P (hd s)" "\<not> P (last s)"
  shows "strip_by P (a @ s @ b) = s"
proof -
  have "dropWhile P (a @ s @ b) = s @ b" using assms(1,3,4) by (simp add: dropWhile_all dropWhile_hd)
  moreover have "dropWhile P (rev b @ rev s) = rev s"
    using assms(2,3,5) dropWhile_hd [of "rev s" P "[]"] by (simp add: dropWhile_all hd_rev list_all_rev)
  ultimately show ?thesis by (simp add: strip_by_def lstrip_by_def rstrip_by_def)
qed

lemma readline_line: "10 \<notin> set l \<Longrightarrow> length l \<le> limit \<Longrightarrow> readline limit (l
  @ 10 # r) = Inr (l @ [10], r)"
proof -
  assume l: "10 \<notin> set l" "length l \<le> limit"
  then have "takeWhile (\<lambda>b. b \<noteq> 10) (l @ 10 # r) = l" by (subst takeWhile_append2) auto
  with l show ?thesis by (simp add: readline_def Let_def)
qed

lemma show_nat_digits: "c \<in> set (show_nat n) \<Longrightarrow> 48 \<le> c \<and> c \<le> 57"
  using digits_rev_digit [of c n] by (simp add: show_nat_def)

lemma bytes_int_show: "list_all byte_space b \<Longrightarrow> bytes_int (32 # show_nat n @ b) = Some (int n)"
proof -
  assume b: "list_all byte_space b"
  have ends: "48 \<le> hd (show_nat n)" "hd (show_nat n) \<le> 57" "48 \<le> last (show_nat n)" "last (show_nat n) \<le> 57"
    using show_nat_digits [of _ n] show_nat_ne [of n] by simp_all
  then have "strip_by byte_space ([32] @ show_nat n @ b) = show_nat n"
    using b show_nat_ne by (intro strip_by_middle) (auto simp: byte_space_def)
  then have s: "strip_by byte_space (32 # show_nat n @ b) = show_nat n" by simp
  obtain c cs where c: "show_nat n = c # cs" using show_nat_ne by (meson neq_Nil_conv)
  have "parse_digits 0 False (show_nat n) = Some (int n)"
    using parse_digits_show [of 0 False n "[]"] by (simp add: show_nat_def)
  with s c ends show ?thesis by (simp add: bytes_int_def)
qed

text \<open>The header line of a frame.\<close>

definition header_line :: "nat \<Rightarrow> nat list" where
  "header_line n = header_name @ show_nat n @ [13]"

lemma header_line_facts:
  "10 \<notin> set (header_line n)" "prefix (lit ''content-length:'') (map lower_byte (header_line n @ [10]))"
  "drop 15 (header_line n @ [10]) = 32 # show_nat n @ [13, 10]" "\<not> byte_space (hd (header_line n))"
  using show_nat_digits [of 10 n]
  by (auto simp: header_line_def header_name_def byte_space_def lower_byte_def str_eval)

lemma strip_by_ne: "\<not> P (hd s) \<Longrightarrow> s \<noteq> [] \<Longrightarrow> strip_by P s \<noteq> []"
  by (cases s) (auto simp: strip_by_def lstrip_by_def rstrip_by_def)

text \<open>The limits of the configuration leave room for the header.\<close>

definition limit_ok :: "nat \<Rightarrow> bool" where
  "limit_ok limit \<longleftrightarrow> 1024 \<le> limit \<and> limit \<le> 16777216"

lemma read_frame_frame:
  assumes "limit_ok limit" "body \<noteq> []" "length body \<le> limit"
  shows "read_frame limit (frame body @ rest) = Inr (body, rest)"
proof -
  let ?n = "length body"
  have "length (show_nat ?n) \<le> 8"
    using digits_rev_length [of ?n 8] assms by (simp add: show_nat_def limit_ok_def)
  then have len: "length (header_line ?n) \<le> limit"
    using assms(1) by (simp add: header_line_def header_name_def limit_ok_def str_eval)
  have f: "frame body @ rest = header_line ?n @ 10 # [13] @ 10 # body @ rest"
    by (simp add: frame_def header_line_def)
  have first: "readline limit (frame body @ rest) = Inr (header_line ?n @ [10], [13] @ 10 # body @ rest)"
    unfolding f by (rule readline_line [OF header_line_facts(1) len])
  have second: "readline limit ([13] @ 10 # body @ rest) = Inr ([13, 10], body @ rest)"
    using readline_line [of "[13]" limit "body @ rest"] assms(1) by (simp add: limit_ok_def)
  have blank: "strip_by byte_space [13, 10] = []"
    by (simp add: strip_by_def lstrip_by_def rstrip_by_def byte_space_def)
  have line: "strip_by byte_space (header_line ?n @ [10]) \<noteq> []"
    using header_line_facts(4) [of ?n] by (intro strip_by_ne) (auto simp: header_line_def header_name_def str_eval)
  have "read_headers limit 16 None (frame body @ rest) = Inr (Some (int ?n), body @ rest)"
    using first second blank line header_line_facts(2,3) [of ?n] bytes_int_show [of "[13, 10]" ?n]
    by (simp add: numeral_eq_Suc byte_space_def)
  with assms(2,3) show ?thesis by (simp add: read_frame_def)
qed

section \<open>Facts: requests\<close>

text \<open>A body the process frames and the JSON-RPC message it holds.\<close>

definition server_message :: "byte_loads \<Rightarrow> nat \<Rightarrow> nat list \<times> dict \<Rightarrow> bool" where
  "server_message loads limit m \<longleftrightarrow> fst m \<noteq> [] \<and> length (fst m) \<le> limit \<and> loads (fst m) = Inr (JObj (snd m))
     \<and> dget (snd m) (lit ''jsonrpc'') = JStr (lit ''2.0'')"

text \<open>What is sent back for a message that is not the answer.\<close>

definition refusal :: "py_repr \<Rightarrow> dict \<Rightarrow> nat list" where
  "refusal fr d = (case map_of d (lit ''id'') of
     None \<Rightarrow> [] | Some i \<Rightarrow> frame (encode_utf8 (compact fr (JObj (unsupported_reply i)))))"

lemma respond_answer:
  assumes "limit_ok limit" "server_message loads limit (body, d)" "\<not> dhas d (lit ''method'')"
  shows "respond loads mk_error fr limit n (frame body @ rest) sent = ((rest, sent), read_answer mk_error n d)"
  using assms read_frame_frame [of limit body rest]
  by (subst respond.simps) (simp add: server_message_def)

lemma respond_skip:
  assumes "limit_ok limit" "server_message loads limit (body, d)" "dhas d (lit ''method'')"
  shows "respond loads mk_error fr limit n (frame body @ rest) sent
    = respond loads mk_error fr limit n rest (sent @ refusal fr d)"
proof -
  have "(case map_of d (lit ''id'') of None \<Rightarrow> sent
      | Some i \<Rightarrow> sent @ frame (encode_utf8 (compact fr (JObj (unsupported_reply i))))) = sent
        @ refusal fr d"
    by (simp add: refusal_def split: option.split)
  with assms read_frame_frame [of limit body rest] show ?thesis
    by (subst respond.simps) (simp add: server_message_def)
qed

lemma respond_messages:
  assumes "limit_ok limit" "server_message loads limit answer" "\<not> dhas (snd answer) (lit ''method'')"
  shows "list_all (\<lambda>m. server_message loads limit m \<and> dhas (snd m) (lit ''method'')) before \<Longrightarrow>
    respond loads mk_error fr limit n (concat (map (\<lambda>m. frame (fst m)) before) @ frame (fst answer)
      @ rest) sent
    = ((rest, sent @ concat (map (\<lambda>m. refusal fr (snd m)) before)), read_answer mk_error n (snd answer))"
proof (induction before arbitrary: sent)
  case Nil
  show ?case using respond_answer [of limit loads "fst answer" "snd answer"] assms by simp
next
  case (Cons m before)
  with respond_skip [of limit loads "fst m" "snd m"] assms(1) show ?case by simp
qed

text \<open>
  C17. A request finds its answer: whatever notifications and requests of its own the server frames before the
  answer, each request of the server is refused once, in order, each notification is skipped, and the
  outcome is read from the first message that is neither, leaving what follows it unread.
\<close>

theorem legacy_answer_is_read:
  assumes "limit_ok limit" "server_message loads limit answer" "\<not> dhas (snd answer) (lit ''method'')"
    and "list_all (\<lambda>m. server_message loads limit m \<and> dhas (snd m) (lit ''method'')) before"
    and "lg_unread lg = concat (map (\<lambda>m. frame (fst m)) before) @ frame (fst answer) @ rest"
  shows "legacy_request loads mk_error fr limit rpc params lg =
    (lg\<lparr>lg_counter := lg_counter lg + 1, lg_unread := rest,
        lg_sent := lg_sent lg
          @ frame (encode_utf8 (compact fr (JObj (request_message (lg_counter lg + 1) rpc params))))
          @ concat (map (\<lambda>m. refusal fr (snd m)) before)\<rparr>,
     read_answer mk_error (lg_counter lg + 1) (snd answer))"
  using respond_messages [OF assms(1-4)] by (simp add: legacy_request_def write_message_def Let_def assms(5))

text \<open>A process that logs, asks for something and then answers the first request.\<close>

definition demo_note :: dict where
  "demo_note = [((lit ''jsonrpc''), JStr (lit ''2.0'')), ((lit ''method''), JStr (lit ''log''))]"

definition demo_ask :: dict where
  "demo_ask = [((lit ''jsonrpc''), JStr (lit ''2.0'')), ((lit ''method''), JStr (lit ''roots/list'')),
    ((lit ''id''), JInt 7)]"

definition demo_answer :: dict where
  "demo_answer = [((lit ''jsonrpc''), JStr (lit ''2.0'')), ((lit ''id''), JInt 1), ((lit ''result''),
    JObj [((lit ''ok''), JBool True)])]"

definition demo_loads :: byte_loads where
  "demo_loads bs = (if bs = [1] then Inr (JObj demo_note) else if bs = [2] then Inr (JObj demo_ask)
     else if bs = [3] then Inr (JObj demo_answer) else Inl InvalidResponse)"

definition demo_connection :: legacy_connection where
  "demo_connection = \<lparr>lg_counter = 0, lg_unread = frame [1] @ frame [2] @ frame [3] @ [9],
    lg_sent = []\<rparr>"

lemma legacy_answer_is_read_witness:
  "limit_ok 1024 \<and>
   snd (legacy_request demo_loads (\<lambda>_ _. TimedOut) (\<lambda>_. []) 1024 (lit ''tools/list'') [] demo_connection)
     = Inr [((lit ''ok''), JBool True)]
   \<and> lg_unread (fst (legacy_request demo_loads (\<lambda>_ _. TimedOut) (\<lambda>_. []) 1024 (lit ''tools/list'') [] demo_connection)) = [9]"
proof -
  have l: "limit_ok 1024" by (simp add: limit_ok_def)
  have a: "server_message demo_loads 1024 ([3], demo_answer)" "\<not> dhas (snd ([3 :: nat],
    demo_answer)) (lit ''method'')"
    by (simp_all add: server_message_def demo_loads_def demo_answer_def dget_def dhas_def str_eval)
  have b: "list_all (\<lambda>m. server_message demo_loads 1024 m \<and> dhas (snd m) (lit ''method''))
      [([1 :: nat], demo_note), ([2], demo_ask)]"
    by (simp add: server_message_def demo_loads_def demo_note_def demo_ask_def dget_def dhas_def str_eval)
  have c: "lg_unread demo_connection = concat (map (\<lambda>m. frame (fst m)) [([1 :: nat], demo_note), ([2],
    demo_ask)])
      @ frame (fst ([3 :: nat], demo_answer)) @ [9]"
    by (simp add: demo_connection_def)
  have r: "read_answer (\<lambda>_ _. TimedOut) 1 demo_answer = Inr [((lit ''ok''), JBool True)]"
    by (simp add: read_answer_def demo_answer_def dget_def str_eval)
  show ?thesis
    using l r legacy_answer_is_read [OF l a b c, of "\<lambda>_ _. TimedOut" "\<lambda>_. []" "(lit ''tools/list'')" "[]"]
    by (simp add: demo_connection_def)
qed

end
