(* ===== verification/Plugins.thy ===== *)
theory Plugins
  imports Json Utf8
begin

text \<open>
  The file plugins (\<open>plugins/list_dir\<close>, \<open>plugins/read_file\<close>,
    \<open>plugins/search_files\<close>). The file system is an
  argument: \<open>fs_resolve\<close> stands for \<open>Path(..).expanduser()\<close> made absolute under the workspace and resolved,
  \<open>fs_node\<close> tells what is at a path, symbolic links followed,
    and \<open>fs_below\<close> lists what \<open>rglob\<close> finds below a
  directory, relative to it. A path is the list of its components; paths are rendered as POSIX paths.
\<close>

section \<open>The file system\<close>

type_synonym path = "ustr list"

datatype read_result = Bytes "nat list" | Denied ustr

datatype fs_entry = FileNode read_result | DirNode "ustr list" | SpecialNode

record file_system =
  fs_workspace :: path
  fs_resolve :: "ustr \<Rightarrow> path res"
  fs_node :: "path \<Rightarrow> fs_entry option"
  fs_below :: "path \<Rightarrow> path list"

definition path_str :: "path \<Rightarrow> ustr" where
  "path_str p = (if p = [] then (lit ''/'') else concat (map (\<lambda>s. 47 # s) p))"

definition relative_str :: "file_system \<Rightarrow> path \<Rightarrow> ustr" where
  "relative_str fs p = (let r = drop (length (fs_workspace fs)) p in if r = [] then (lit ''.'') else join (lit ''/'') r)"

definition is_dir :: "file_system \<Rightarrow> path \<Rightarrow> bool" where
  "is_dir fs p = (case fs_node fs p of Some (DirNode _) \<Rightarrow> True | _ \<Rightarrow> False)"

definition os_error :: "ustr \<Rightarrow> exn" where
  "os_error message = OtherError message"

section \<open>What the plugins refuse\<close>

definition forbidden_names :: "ustr list" where
  "forbidden_names = [(lit ''.env''), (lit ''.local''), (lit ''.venv''), (lit ''venv''), (lit ''env''),
    (lit ''downloads''), (lit ''node_modules''),
     (lit ''dist''), (lit ''build''), (lit ''__pycache__'')]"

definition forbidden_parts :: "path \<Rightarrow> ustr list" where
  "forbidden_parts p = filter (\<lambda>s. s \<in> set forbidden_names) p"

text \<open>\<open>verb\<close> is the word of the plugin's message: list, read or search.\<close>

definition ensure_allowed_path :: "ustr \<Rightarrow> file_system \<Rightarrow> path \<Rightarrow> unit res" where
  "ensure_allowed_path verb fs target =
     (if \<not> prefix (fs_workspace fs) target
      then Inl (ValueError ((lit ''Refusing to '') @ verb @ (lit '' outside workspace: '') @ path_str target))
      else if forbidden_parts target \<noteq> []
      then Inl (ValueError ((lit ''Refusing to '') @ verb @ (lit '' protected path segment: '')
        @ hd (sort (forbidden_parts target))))
      else Inr ())"

definition allowed_target :: "ustr \<Rightarrow> file_system \<Rightarrow> ustr \<Rightarrow> path res" where
  "allowed_target verb fs p = (case fs_resolve fs p of
     Inl e \<Rightarrow> Inl e
   | Inr target \<Rightarrow> (case ensure_allowed_path verb fs target of Inl e \<Rightarrow> Inl e | Inr _ \<Rightarrow> Inr target))"

section \<open>Listing a directory\<close>

definition dir_entry :: "file_system \<Rightarrow> path \<Rightarrow> ustr \<Rightarrow> dict" where
  "dir_entry fs target name =
     [((lit ''name''), JStr name), ((lit ''path''), JStr (relative_str fs (target @ [name]))),
      ((lit ''type''), JStr (if is_dir fs (target @ [name]) then (lit ''directory'') else (lit ''file'')))]"

definition list_dir :: "file_system \<Rightarrow> ustr \<Rightarrow> int \<Rightarrow> dict res" where
  "list_dir fs p max_entries = (case allowed_target (lit ''list'') fs p of
     Inl e \<Rightarrow> Inl e
   | Inr target \<Rightarrow>
       (case fs_node fs target of
          None \<Rightarrow> Inl (os_error ((lit ''Directory not found: '') @ path_str target))
        | Some (DirNode names) \<Rightarrow>
            Inr [((lit ''path''), JStr (path_str target)),
                 ((lit ''entries''), JList (map (\<lambda>n. JObj (dir_entry fs target n))
                    (filter (\<lambda>n. forbidden_parts (target
                      @ [n]) = []) (py_take max_entries (sort_key lower names)))))]
        | Some _ \<Rightarrow> Inl (ValueError ((lit ''Path is not a directory: '') @ path_str target))))"

section \<open>Reading a file\<close>

definition read_file :: "file_system \<Rightarrow> ustr \<Rightarrow> dict res" where
  "read_file fs p = (case allowed_target (lit ''read'') fs p of
     Inl e \<Rightarrow> Inl e
   | Inr target \<Rightarrow>
       (case fs_node fs target of
          None \<Rightarrow> Inl (os_error ((lit ''File not found: '') @ path_str target))
        | Some (FileNode (Denied _)) \<Rightarrow> Inl (os_error ((lit ''Permission denied reading file: '')
          @ path_str target))
        | Some (FileNode (Bytes raw)) \<Rightarrow>
            (case decode_strict raw of
               None \<Rightarrow> Inl (ValueError ((lit ''File is not UTF-8 text: '') @ path_str target))
             | Some content \<Rightarrow>
                 Inr [((lit ''path''), JStr (path_str target)), ((lit ''chars''), JInt (int (length content))),
                      ((lit ''content''), JStr (take 8000 content))])
        | Some _ \<Rightarrow> Inl (ValueError ((lit ''Path is not a file: '') @ path_str target))))"

section \<open>Searching files\<close>

text \<open>\<open>Path.suffix\<close>: from the last dot of the name, unless the name begins or ends with it.\<close>

definition path_suffix :: "path \<Rightarrow> ustr" where
  "path_suffix p =
     (let name = (if p = [] then [] else last p);
          ext = takeWhile (\<lambda>c. c \<noteq> 46) (rev name) in
      if length ext + 1 < length name \<and> ext \<noteq> [] then 46 # rev ext else [])"

definition text_extensions :: "ustr list" where
  "text_extensions = [(lit ''.md''), (lit ''.py''), (lit ''.json''), (lit ''.toml''), (lit ''.txt''),
    (lit ''.tsx''), (lit ''.ts''), (lit ''.css''), (lit ''.html'')]"

record file_hit =
  fh_path :: path
  fh_line :: nat
  fh_text :: ustr

definition searchable :: "file_system \<Rightarrow> path \<Rightarrow> bool" where
  "searchable fs p \<longleftrightarrow> (case fs_node fs p of Some (FileNode _) \<Rightarrow> True | _ \<Rightarrow> False)
     \<and> lower (path_suffix p) \<in> set text_extensions \<and> forbidden_parts p = []"

text \<open>
  \<open>read_text(errors="ignore").splitlines()\<close>: translating the line ends first does not change the lines.
\<close>

definition file_lines :: "file_system \<Rightarrow> path \<Rightarrow> ustr list res" where
  "file_lines fs p = (case fs_node fs p of
     Some (FileNode (Bytes raw)) \<Rightarrow> Inr (splitlines (decode_ignore raw))
   | Some (FileNode (Denied message)) \<Rightarrow> Inl (os_error message)
   | _ \<Rightarrow> Inr [])"

definition first_match :: "ustr \<Rightarrow> ustr list \<Rightarrow> (nat \<times> ustr) option" where
  "first_match needle ls = find (\<lambda>(n, line). sublist needle (lower line)) (enumerate 1 ls)"

fun search_loop :: "file_system \<Rightarrow> ustr \<Rightarrow> int \<Rightarrow> path list \<Rightarrow> file_hit list \<Rightarrow> file_hit list res" where
  "search_loop fs needle max_results [] results = Inr results"
| "search_loop fs needle max_results (p # ps) results =
     (if max_results \<le> int (length results) then Inr results
      else if \<not> searchable fs p then search_loop fs needle max_results ps results
      else
        (case file_lines fs p of
           Inl e \<Rightarrow> Inl e
         | Inr ls \<Rightarrow>
             search_loop fs needle max_results ps
               (case first_match needle ls of
                  None \<Rightarrow> results
                | Some (n, line) \<Rightarrow> results @ [\<lparr>fh_path = p, fh_line = n,
                  fh_text = take 500 line\<rparr>])))"

definition searched_files :: "file_system \<Rightarrow> path \<Rightarrow> path list" where
  "searched_files fs base = (case fs_node fs base of
     Some (FileNode _) \<Rightarrow> [base] | _ \<Rightarrow> map (\<lambda>r. base @ r) (fs_below fs base))"

definition search_hits :: "file_system \<Rightarrow> ustr \<Rightarrow> ustr \<Rightarrow> int \<Rightarrow> file_hit list res" where
  "search_hits fs query p max_results =
     (if strip query = [] then Inl (ValueError (lit ''Query is required''))
      else
        (case allowed_target (lit ''search'') fs p of
           Inl e \<Rightarrow> Inl e
         | Inr base \<Rightarrow>
             (if fs_node fs base = None then Inl (os_error ((lit ''Search path not found: '') @ path_str base))
              else search_loop fs (lower query) max_results (searched_files fs base) [])))"

definition hit_dict :: "file_system \<Rightarrow> file_hit \<Rightarrow> dict" where
  "hit_dict fs h = [((lit ''path''), JStr (relative_str fs (fh_path h))), ((lit ''line''), JInt (int (fh_line h))),
     ((lit ''text''), JStr (fh_text h))]"

definition search_files :: "file_system \<Rightarrow> ustr \<Rightarrow> ustr \<Rightarrow> int \<Rightarrow> dict res" where
  "search_files fs query p max_results = (case search_hits fs query p max_results of
     Inl e \<Rightarrow> Inl e
   | Inr hits \<Rightarrow>
       Inr [((lit ''query''), JStr query), ((lit ''results''), JList (map (\<lambda>h. JObj (hit_dict fs h)) hits))])"

section \<open>Facts\<close>

text \<open>The part of the file system the plugins may show.\<close>

definition visible :: "file_system \<Rightarrow> path \<Rightarrow> bool" where
  "visible fs p \<longleftrightarrow> prefix (fs_workspace fs) p \<and> forbidden_parts p = []"

text \<open>The same file system with anything else in place of what is not visible.\<close>

definition veiled :: "(path \<Rightarrow> fs_entry option) \<Rightarrow> file_system \<Rightarrow> file_system" where
  "veiled other fs = fs\<lparr>fs_node := \<lambda>p. if visible fs p then fs_node fs p else other p\<rparr>"

lemma veiled_simps [simp]:
  "fs_workspace (veiled other fs) = fs_workspace fs" "fs_resolve (veiled other fs) = fs_resolve fs"
  "fs_below (veiled other fs) = fs_below fs"
  "visible fs p \<Longrightarrow> fs_node (veiled other fs) p = fs_node fs p"
  by (simp_all add: veiled_def)

lemma allowed_target_veiled [simp]: "allowed_target verb (veiled other fs) p = allowed_target verb fs p"
proof -
  have "ensure_allowed_path verb (veiled other fs) = ensure_allowed_path verb fs"
    by (simp add: fun_eq_iff ensure_allowed_path_def)
  then show ?thesis by (cases "fs_resolve fs p") (simp_all add: allowed_target_def)
qed

lemma allowed_target_visible: "allowed_target verb fs p = Inr target \<Longrightarrow> visible fs target"
  by (auto simp: allowed_target_def ensure_allowed_path_def visible_def split: sum.splits if_splits)

lemma visible_child: "visible fs target \<Longrightarrow> forbidden_parts (target
  @ r) = [] \<Longrightarrow> visible fs (target @ r)"
  by (auto simp: visible_def intro: prefix_order.trans)

lemma list_dir_veiled: "list_dir (veiled other fs) p n = list_dir fs p n"
proof (cases "allowed_target (lit ''list'') fs p")
  case (Inr target)
  note v = allowed_target_visible [OF Inr]
  have "dir_entry (veiled other fs) target c = dir_entry fs target c" if "forbidden_parts (target @ [c]) = []" for c
    using visible_child [OF v that] by (simp add: dir_entry_def relative_str_def is_dir_def)
  then show ?thesis
    using Inr v by (auto simp: list_dir_def split: option.split fs_entry.split)
qed (simp add: list_dir_def)

lemma read_file_veiled: "read_file (veiled other fs) p = read_file fs p"
  by (cases "allowed_target (lit ''read'') fs p") (simp_all add: read_file_def allowed_target_visible)

lemma search_loop_veiled:
  "list_all (\<lambda>p. prefix (fs_workspace fs) p) ps \<Longrightarrow>
   search_loop (veiled other fs) needle n ps acc = search_loop fs needle n ps acc"
proof (induction ps arbitrary: acc)
  case (Cons p ps)
  show ?case
  proof (cases "forbidden_parts p = []")
    case True
    with Cons.prems have "visible fs p" by (simp add: visible_def)
    then have "searchable (veiled other fs) p = searchable fs p" "file_lines (veiled other fs) p = file_lines fs p"
      by (simp_all add: searchable_def file_lines_def)
    with Cons show ?thesis by (simp split: sum.split)
  next
    case False
    with Cons show ?thesis by (simp add: searchable_def)
  qed
qed simp

lemma searched_files_inside:
  "visible fs base \<Longrightarrow> list_all (\<lambda>p. prefix (fs_workspace fs) p) (searched_files fs base)"
  by (auto simp: searched_files_def visible_def list_all_iff intro: prefix_order.trans split: option.split fs_entry.split)

lemma search_files_veiled: "search_files (veiled other fs) query p n = search_files fs query p n"
proof (cases "allowed_target (lit ''search'') fs p")
  case (Inr base)
  note v = allowed_target_visible [OF Inr]
  have "searched_files (veiled other fs) base = searched_files fs base"
    using v by (simp add: searched_files_def split: option.split fs_entry.split)
  then have "search_hits (veiled other fs) query p n = search_hits fs query p n"
    using Inr v search_loop_veiled [OF searched_files_inside [OF v]] by (simp add: search_hits_def)
  moreover have "hit_dict (veiled other fs) = hit_dict fs" by (simp add: fun_eq_iff hit_dict_def relative_str_def)
  ultimately show ?thesis by (cases "search_hits fs query p n") (simp_all add: search_files_def)
qed (simp add: search_files_def search_hits_def)


text \<open>A hit quotes the first line of a visible text file that contains the query.\<close>

definition hit_ok :: "file_system \<Rightarrow> ustr \<Rightarrow> file_hit \<Rightarrow> bool" where
  "hit_ok fs needle h \<longleftrightarrow> visible fs (fh_path h) \<and>
     (case file_lines fs (fh_path h) of
        Inl _ \<Rightarrow> False
      | Inr ls \<Rightarrow>
          0 < fh_line h \<and> fh_line h \<le> length ls \<and> fh_text h = take 500 (ls ! (fh_line h - 1))
          \<and> sublist needle (lower (ls ! (fh_line h - 1)))
          \<and> \<not> list_ex (\<lambda>l. sublist needle (lower l)) (take (fh_line h - 1) ls))"

lemma first_match_ok:
  assumes "first_match needle ls = Some (n, line)"
  shows "0 < n \<and> n \<le> length ls \<and> line = ls ! (n - 1) \<and> sublist needle (lower line)
    \<and> \<not> list_ex (\<lambda>l. sublist needle (lower l)) (take (n - 1) ls)"
proof -
  obtain i where i: "i < length (enumerate 1 ls)" "case enumerate 1 ls ! i of (n,
    l) \<Rightarrow> sublist needle (lower l)"
    and e: "(n, line) = enumerate 1 ls ! i"
    and before: "\<forall>j<i. \<not> (case enumerate 1 ls ! j of (n, l) \<Rightarrow> sublist needle (lower l))"
    using assms unfolding first_match_def find_Some_iff by (elim exE conjE)
  from i e have n: "n = Suc i" "line = ls ! i" "i < length ls" "sublist needle (lower line)"
    by (simp_all add: nth_enumerate_eq)
  have "\<not> list_ex (\<lambda>l. sublist needle (lower l)) (take i ls)"
    using before n(3) by (auto simp: list_ex_iff in_set_conv_nth nth_enumerate_eq)
  with n show ?thesis by simp
qed

lemma search_loop_ok:
  "search_loop fs needle n ps acc = Inr hits \<Longrightarrow> list_all (\<lambda>p. prefix (fs_workspace fs) p) ps
   \<Longrightarrow> list_all (hit_ok fs needle) acc \<and> int (length acc) \<le> max 0 n
   \<Longrightarrow> list_all (hit_ok fs needle) hits \<and> int (length hits) \<le> max 0 n"
proof (induction fs needle n ps acc rule: search_loop.induct)
  case (2 fs needle n p ps acc)
  consider (full) "n \<le> int (length acc)" | (skip) "int (length acc) < n" "\<not> searchable fs p"
    | (read) "int (length acc) < n" "searchable fs p" by linarith
  then show ?case
  proof cases
    case full
    with 2(3,5) show ?thesis by simp
  next
    case skip
    with 2 show ?thesis by simp
  next
    case read
    then obtain ls where ls: "file_lines fs p = Inr ls" using 2(3) by (auto split: sum.splits)
    have v: "visible fs p" using read(2) 2(4) by (simp add: visible_def searchable_def)
    show ?thesis
    proof (cases "first_match needle ls")
      case None
      with 2 read ls show ?thesis by simp
    next
      case (Some m)
      obtain k line where m: "m = (k, line)" by fastforce
      have "0 < k" "k \<le> length ls" "sublist needle (lower (ls ! (k - 1)))"
        "\<not> list_ex (\<lambda>l. sublist needle (lower l)) (take (k - 1) ls)" and line: "line = ls ! (k - 1)"
        using first_match_ok [of needle ls k line] Some m by auto
      with v ls have "hit_ok fs needle \<lparr>fh_path = p, fh_line = k,
        fh_text = take 500 line\<rparr>" by (simp add: hit_ok_def)
      with 2 read ls Some m show ?thesis by simp
    qed
  qed
qed simp

text \<open>
  A file search quotes what it found: at most the requested number of hits, each the first line of a
  text file inside the workspace and outside the protected directories that contains the query regardless of
  case, with its number and its first 500 characters.
\<close>

theorem file_hits_quote_lines:
  "case search_hits fs query p n of
     Inl _ \<Rightarrow> True
   | Inr hits \<Rightarrow> int (length hits) \<le> max 0 n \<and> list_all (hit_ok fs (lower query)) hits"
proof (cases "search_hits fs query p n")
  case (Inr hits)
  then obtain base where base: "allowed_target (lit ''search'') fs p = Inr base"
    and loop: "search_loop fs (lower query) n (searched_files fs base) [] = Inr hits"
    by (auto simp: search_hits_def split: if_splits sum.splits)
  have "list_all (\<lambda>p. prefix (fs_workspace fs) p) (searched_files fs base)"
    by (rule searched_files_inside [OF allowed_target_visible [OF base]])
  from search_loop_ok [OF loop this] Inr show ?thesis by simp
qed simp

text \<open>What was written as UTF-8 is read back, cut to 8000 characters.\<close>

lemma read_file_text:
  assumes "fs_resolve fs p = Inr target" "visible fs target" "list_all encodable s"
    and "fs_node fs target = Some (FileNode (Bytes (encode_utf8 s)))"
  shows "read_file fs p = Inr [((lit ''path''), JStr (path_str target)), ((lit ''chars''), JInt (int (length s))),
    ((lit ''content''), JStr (take 8000 s))]"
  using assms by (simp add: read_file_def allowed_target_def ensure_allowed_path_def visible_def decode_encode)

text \<open>The listing is cut before the protected names are dropped: they use up its places.\<close>

lemma protected_names_use_up_entries:
  assumes "fs_resolve fs p = Inr target" "visible fs target" "fs_node fs target = Some (DirNode [(lit ''.env''),
    (lit ''a'')])"
  shows "list_dir fs p 1 = Inr [((lit ''path''), JStr (path_str target)), ((lit ''entries''), JList [])]"
proof -
  have "sort_key lower [(lit ''.env''), (lit ''a'')] = [(lit ''.env''), (lit ''a'')]"
    by (simp add: sort_key_def insort_key_def lower_def lower_cp_def str_eval)
  moreover have "forbidden_parts (target @ [(lit ''.env'')]) \<noteq> []"
    by (simp add: forbidden_parts_def forbidden_names_def)
  ultimately show ?thesis using assms
    by (simp add: list_dir_def allowed_target_def ensure_allowed_path_def visible_def py_take_def)
qed

end
