(* ===== verification/Web_Search.thy ===== *)
theory Web_Search
  imports Config
begin

text \<open>
  The web search service (\<open>services/web_search.py\<close>) and the plugin that calls it (\<open>plugins/web_search\<close>). A
  provider makes at most one HTTP request; what the request answers is an argument of the search, and so is
  Python's \<open>repr\<close> behind \<open>str\<close>.
\<close>

section \<open>Requests and answers\<close>

text \<open>\<open>rq_key\<close> is the key the request carries in a header; \<open>BingGet\<close> and \<open>JsonPost\<close> name the two shapes.\<close>

datatype search_shape = BingGet | JsonPost

record search_request =
  rq_shape :: search_shape
  rq_url :: ustr
  rq_params :: dict
  rq_key :: "ustr option"
  rq_timeout :: int

text \<open>
  The decoded body, an \<open>httpx.HTTPError\<close> with its text and class, or another exception of the client.
\<close>

datatype search_answer = Answer json | HttpFailure ustr ustr | ClientFailure exn

type_synonym search_client = "search_request \<Rightarrow> search_answer"

record search_result =
  sr_title :: ustr
  sr_url :: ustr
  sr_snippet :: ustr
  sr_source :: ustr
  sr_published_at :: json

definition to_dict :: "search_result \<Rightarrow> dict" where
  "to_dict r = [((lit ''title''), JStr (sr_title r)), ((lit ''url''), JStr (sr_url r)), ((lit ''snippet''),
    JStr (sr_snippet r)),
     ((lit ''source''), JStr (sr_source r)), ((lit ''published_at''), sr_published_at r)]"

section \<open>Reading the results\<close>

text \<open>Python's \<open>a or b or ..\<close>: the first true value, or the last.\<close>

fun or_chain :: "json list \<Rightarrow> json" where
  "or_chain [] = JNull"
| "or_chain [j] = j"
| "or_chain (j # js) = (if truthy j then j else or_chain js)"

definition wrong_type :: exn where
  "wrong_type = OtherError (lit ''object has no attribute get'')"

text \<open>The slice \<open>values[:n]\<close> and the items of it that have a URL.\<close>

fun bing_results :: "py_repr \<Rightarrow> json list \<Rightarrow> search_result list res" where
  "bing_results fr [] = Inr []"
| "bing_results fr (item # items) =
     (case item of
        JObj d \<Rightarrow>
          (case bing_results fr items of
             Inl e \<Rightarrow> Inl e
           | Inr rs \<Rightarrow>
               if truthy (dget d (lit ''url''))
               then Inr (\<lparr>sr_title = str_or fr (dget d (lit ''name'')) ([]),
                 sr_url = str_or fr (dget d (lit ''url'')) ([]),
                          sr_snippet = str_or fr (dget d (lit ''snippet'')) ([]), sr_source = (lit ''bing''),
                          sr_published_at = dget d (lit ''dateLastCrawled'')\<rparr> # rs)
               else Inr rs)
      | _ \<Rightarrow> Inl wrong_type)"

definition parse_bing :: "py_repr \<Rightarrow> nat \<Rightarrow> json \<Rightarrow> search_result list res" where
  "parse_bing fr n body = (case body of
     JObj d \<Rightarrow>
       (case map_of d (lit ''webPages'') of
          None \<Rightarrow> Inr []
        | Some (JObj pages) \<Rightarrow>
            (case dget pages (lit ''value'') of
               JList items \<Rightarrow> bing_results fr (take n items)
             | JStr s \<Rightarrow> if s = [] then Inr [] else Inl wrong_type
             | v \<Rightarrow> if truthy v then Inl (TypeError (lit ''object is not subscriptable'')) else Inr [])
        | Some _ \<Rightarrow> Inl wrong_type)
   | _ \<Rightarrow> Inl wrong_type)"

text \<open>One item of the common format; an item that is no object or has no URL is left out.\<close>

definition common_result :: "py_repr \<Rightarrow> ustr \<Rightarrow> json \<Rightarrow> search_result option" where
  "common_result fr provider item = (case item of
     JObj d \<Rightarrow>
       (let url = str_or fr (or_chain [dget d (lit ''url''), dget d (lit ''link''), dget d (lit ''href'')]) ([]) in
        if url = [] then None
        else Some \<lparr>sr_title = scalar_str fr (or_chain [dget d (lit ''title''), dget d (lit ''name''),
          JStr url]), sr_url = url,
                   sr_snippet = str_or fr (or_chain [dget d (lit ''snippet''), dget d (lit ''summary''),
                     dget d (lit ''content'')]) ([]),
                   sr_source = scalar_str fr (or_chain [dget d (lit ''source''), JStr provider]),
                   sr_published_at = or_chain [dget d (lit ''published_at''), dget d (lit ''date''),
                     dget d (lit ''publishedDate'')]\<rparr>)
   | _ \<Rightarrow> None)"

definition parse_common_results :: "py_repr \<Rightarrow> ustr \<Rightarrow> nat \<Rightarrow> json \<Rightarrow> search_result list res" where
  "parse_common_results fr provider n payload = (case payload of
     JObj d \<Rightarrow>
       (case or_chain [dget d (lit ''results''), dget d (lit ''items''), dget d (lit ''data''), JList []] of
          JList items \<Rightarrow> Inr (List.map_filter (common_result fr provider) (take n items))
        | _ \<Rightarrow> Inr [])
   | _ \<Rightarrow> Inl wrong_type)"

section \<open>Providers\<close>

datatype search_provider = DisabledSearch | MockSearch | BingSearch | TavilySearch | HttpJsonSearch

fun provider_name :: "search_provider \<Rightarrow> ustr" where
  "provider_name DisabledSearch = (lit ''disabled'')"
| "provider_name MockSearch = (lit ''mock'')"
| "provider_name BingSearch = (lit ''bing'')"
| "provider_name TavilySearch = (lit ''tavily'')"
| "provider_name HttpJsonSearch = (lit ''http-json'')"

definition get_search_provider :: "tool_settings \<Rightarrow> search_provider res" where
  "get_search_provider s =
     (let p = lower (strip (web_search_provider s)) in
      if p \<in> {([]), (lit ''disabled''), (lit ''none''), (lit ''off'')} then Inr DisabledSearch
      else if p = (lit ''mock'') then Inr MockSearch
      else if p = (lit ''bing'') then Inr BingSearch
      else if p = (lit ''tavily'') then Inr TavilySearch
      else if p \<in> {(lit ''http''), (lit ''http-json''), (lit ''generic'')} then Inr HttpJsonSearch
      else Inl (RuntimeError ((lit ''Unsupported WEB_SEARCH_PROVIDER: '') @ web_search_provider s)))"

definition bing_freshness :: "int option \<Rightarrow> ustr option" where
  "bing_freshness recency_days = (case recency_days of
     None \<Rightarrow> None
   | Some d \<Rightarrow> if d \<le> 1 then Some (lit ''Day'') else if d \<le> 7 then Some (lit ''Week'')
               else if d \<le> 31 then Some (lit ''Month'') else None)"

definition base_url_or :: "tool_settings \<Rightarrow> ustr \<Rightarrow> ustr" where
  "base_url_or s default_base_url = (if web_search_base_url s = [] then default_base_url else web_search_base_url s)"

definition opt_int :: "int option \<Rightarrow> json" where
  "opt_int n = (case n of None \<Rightarrow> JNull | Some i \<Rightarrow> JInt i)"

text \<open>The request of a provider, or its refusal; the disabled and the mock provider make none.\<close>

definition bing_request :: "tool_settings \<Rightarrow> ustr \<Rightarrow> nat \<Rightarrow> int option \<Rightarrow> search_request res" where
  "bing_request s query n recency_days =
     (if web_search_api_key s = [] then Inl (RuntimeError (lit ''WEB_SEARCH_API_KEY is required when WEB_SEARCH_PROVIDER=bing''))
      else Inr \<lparr>rq_shape = BingGet, rq_url = base_url_or s (lit ''https://api.bing.microsoft.com/v7.0/search''),
        rq_params = [((lit ''q''), JStr query), ((lit ''count''), JInt (int n)), ((lit ''responseFilter''),
          JStr (lit ''Webpages''))]
          @ (case bing_freshness recency_days of None \<Rightarrow> [] | Some f \<Rightarrow> [((lit ''freshness''),
            JStr f)]),
        rq_key = Some (web_search_api_key s), rq_timeout = web_search_timeout_seconds s\<rparr>)"

definition tavily_request :: "tool_settings \<Rightarrow> ustr \<Rightarrow> nat \<Rightarrow> int option \<Rightarrow> search_request res" where
  "tavily_request s query n recency_days =
     (if web_search_api_key s = [] then Inl (RuntimeError (lit ''WEB_SEARCH_API_KEY is required when WEB_SEARCH_PROVIDER=tavily''))
      else Inr \<lparr>rq_shape = JsonPost, rq_url = base_url_or s (lit ''https://api.tavily.com/search''),
        rq_params = [((lit ''query''), JStr query), ((lit ''max_results''), JInt (int n)), ((lit ''search_depth''),
          JStr (lit ''basic'')),
            ((lit ''include_answer''), JBool False), ((lit ''include_raw_content''), JBool False)]
          @ (case recency_days of None \<Rightarrow> [] | Some d \<Rightarrow> [((lit ''days''), JInt (max 1 d)),
            ((lit ''topic''), JStr (lit ''news''))]),
        rq_key = Some (web_search_api_key s), rq_timeout = web_search_timeout_seconds s\<rparr>)"

definition http_json_request :: "tool_settings \<Rightarrow> ustr \<Rightarrow> nat \<Rightarrow> int option \<Rightarrow> search_request res" where
  "http_json_request s query n recency_days =
     (if web_search_base_url s = []
      then Inl (RuntimeError (lit ''WEB_SEARCH_BASE_URL is required when WEB_SEARCH_PROVIDER=http-json''))
      else Inr \<lparr>rq_shape = JsonPost, rq_url = web_search_base_url s,
        rq_params = [((lit ''query''), JStr query), ((lit ''max_results''), JInt (int n)), ((lit ''recency_days''),
          opt_int recency_days)],
        rq_key = (if web_search_api_key s = [] then None else Some (web_search_api_key s)),
        rq_timeout = web_search_timeout_seconds s\<rparr>)"

definition format_http_error :: "ustr \<Rightarrow> ustr \<Rightarrow> ustr \<Rightarrow> ustr" where
  "format_http_error provider message cls =
     (lit ''Web search request failed for provider '' @ [39]) @ provider @ ([39] @ lit '': '')
       @ (if message = [] then cls else message)
     @ (lit ''. Check WEB_SEARCH_BASE_URL, network/proxy access, and TLS compatibility.'')"

text \<open>Making the request and reading its answer.\<close>

definition ask ::
  "search_client \<Rightarrow> search_provider \<Rightarrow> search_request res \<Rightarrow> (json \<Rightarrow> search_result list res) \<Rightarrow> search_result list res" where
  "ask client provider request parse = (case request of
     Inl e \<Rightarrow> Inl e
   | Inr r \<Rightarrow>
       (case client r of
          Answer body \<Rightarrow> parse body
        | HttpFailure message cls \<Rightarrow> Inl (RuntimeError (format_http_error (provider_name provider) message cls))
        | ClientFailure e \<Rightarrow> Inl e))"

fun provider_search ::
  "py_repr \<Rightarrow> tool_settings \<Rightarrow> search_client \<Rightarrow> search_provider \<Rightarrow> ustr \<Rightarrow> nat \<Rightarrow> int option \<Rightarrow> search_result list res" where
  "provider_search fr s client DisabledSearch query n days =
     Inl (RuntimeError ((lit ''Web search provider is disabled. Set WEB_SEARCH_PROVIDER and WEB_SEARCH_API_KEY '')
       @ (lit ''to enable live search.'')))"
| "provider_search fr s client MockSearch query n days =
     Inr (take n [\<lparr>sr_title = (lit ''Mock result for '') @ query,
       sr_url = (lit ''https://example.com/mock-search-result''),
        sr_snippet = (lit ''Deterministic mock web search result for query: '') @ query, sr_source = (lit ''mock''),
        sr_published_at = JNull\<rparr>])"
| "provider_search fr s client BingSearch query n days =
     ask client BingSearch (bing_request s query n days) (parse_bing fr n)"
| "provider_search fr s client TavilySearch query n days =
     ask client TavilySearch (tavily_request s query n days) (parse_common_results fr (lit ''tavily'') n)"
| "provider_search fr s client HttpJsonSearch query n days =
     ask client HttpJsonSearch (http_json_request s query n days) (parse_common_results fr (lit ''http-json'') n)"

section \<open>The search\<close>

definition clamp_limit :: "int option \<Rightarrow> int \<Rightarrow> nat" where
  "clamp_limit requested configured_max =
     (let dflt = max 1 configured_max in
      nat (case requested of None \<Rightarrow> dflt | Some r \<Rightarrow> max 1 (min r dflt)))"

record search_report =
  sp_query :: ustr
  sp_provider :: ustr
  sp_results :: "search_result list"

definition search_web ::
  "py_repr \<Rightarrow> tool_settings \<Rightarrow> search_client \<Rightarrow> ustr \<Rightarrow> int option \<Rightarrow> int option \<Rightarrow> search_report res" where
  "search_web fr s client query max_results recency_days =
     (let clean_query = join (lit '' '') (split_ws (strip query)) in
      if clean_query = [] then Inl (ValueError (lit ''Query is required''))
      else
        (case get_search_provider s of
           Inl e \<Rightarrow> Inl e
         | Inr provider \<Rightarrow>
             (case provider_search fr s client provider clean_query
                     (clamp_limit max_results (web_search_max_results s)) recency_days of
                Inl e \<Rightarrow> Inl e
              | Inr results \<Rightarrow>
                  Inr \<lparr>sp_query = clean_query, sp_provider = provider_name provider,
                    sp_results = results\<rparr>)))"

definition report_dict :: "search_report \<Rightarrow> dict" where
  "report_dict r = [((lit ''query''), JStr (sp_query r)), ((lit ''provider''), JStr (sp_provider r)),
     ((lit ''results''), JList (map (\<lambda>x. JObj (to_dict x)) (sp_results r)))]"

text \<open>The plugin.\<close>

definition run_web_search ::
  "py_repr \<Rightarrow> tool_settings \<Rightarrow> search_client \<Rightarrow> ustr \<Rightarrow> int option \<Rightarrow> int option \<Rightarrow> dict res" where
  "run_web_search fr s client query max_results recency_days = (case search_web fr s client query max_results recency_days of
     Inl e \<Rightarrow> Inl e | Inr r \<Rightarrow> Inr (report_dict r))"

section \<open>Facts\<close>

lemma clamp_limit_bounds: "1 \<le> clamp_limit requested m" "int (clamp_limit requested m) \<le> max 1 m"
  "requested = Some r \<Longrightarrow> 1 \<le> r \<Longrightarrow> int (clamp_limit requested m) \<le> r"
  by (auto simp: clamp_limit_def Let_def split: option.split)

lemma bing_results_length: "bing_results fr items = Inr rs \<Longrightarrow> length rs \<le> length items"
proof (induction items arbitrary: rs)
  case (Cons item items)
  then obtain d rs' where d: "item = JObj d" and r: "bing_results fr items = Inr rs'"
    by (auto split: json.splits sum.splits)
  with Cons.IH [OF r] Cons.prems show ?case by (auto split: if_splits)
qed simp

lemma parse_bing_length: "parse_bing fr n body = Inr rs \<Longrightarrow> length rs \<le> n"
  using bing_results_length [of fr "take n items" rs for items]
  by (auto simp: parse_bing_def split: json.splits option.splits if_splits)

lemma map_filter_length: "length (List.map_filter f xs) \<le> length xs"
  by (induction xs) (auto simp: map_filter_simps split: option.split)

lemma parse_common_length: "parse_common_results fr p n body = Inr rs \<Longrightarrow> length rs \<le> n"
  by (auto simp: parse_common_results_def split: json.splits
      intro: order_trans [OF map_filter_length])

lemma map_filter_urls: "list_all (\<lambda>x. sr_url x \<noteq> []) (List.map_filter (common_result fr p) xs)"
proof (induction xs)
  case (Cons x xs)
  have "common_result fr p x = Some r \<Longrightarrow> sr_url r \<noteq> []" for r
    by (auto simp: common_result_def Let_def split: json.splits if_splits)
  with Cons show ?case by (auto simp: map_filter_simps split: option.split)
qed (simp add: map_filter_simps)

lemma parse_common_urls: "parse_common_results fr p n body = Inr rs \<Longrightarrow> list_all (\<lambda>x. sr_url x \<noteq> []) rs"
  by (auto simp: parse_common_results_def map_filter_urls split: json.splits)

lemma ask_Inr: "ask client p request parse = Inr rs \<Longrightarrow> \<exists>body. parse body = Inr rs"
  by (auto simp: ask_def split: sum.splits search_answer.splits)

lemma provider_search_bounded:
  assumes "provider_search fr s client p query n days = Inr rs"
  shows "length rs \<le> n \<and> (p = BingSearch \<or> list_all (\<lambda>x. sr_url x \<noteq> []) rs)"
proof (cases p)
  case MockSearch
  with assms show ?thesis by (auto simp: take_Cons split: nat.splits)
next
  case BingSearch
  with assms obtain body where "parse_bing fr n body = Inr rs" by (auto dest: ask_Inr)
  from parse_bing_length [OF this] BingSearch show ?thesis by simp
next
  case TavilySearch
  with assms obtain body where "parse_common_results fr (lit ''tavily'') n body = Inr rs" by (auto dest: ask_Inr)
  from parse_common_length [OF this] parse_common_urls [OF this] show ?thesis by simp
next
  case HttpJsonSearch
  with assms obtain body where "parse_common_results fr (lit ''http-json'') n body = Inr rs" by (auto dest: ask_Inr)
  from parse_common_length [OF this] parse_common_urls [OF this] show ?thesis by simp
qed (use assms in simp)

text \<open>The request a provider may make goes to the configured address or the provider's own.\<close>

definition search_urls :: "tool_settings \<Rightarrow> ustr set" where
  "search_urls s = {web_search_base_url s, (lit ''https://api.bing.microsoft.com/v7.0/search''),
    (lit ''https://api.tavily.com/search'')}"

definition only :: "search_request \<Rightarrow> search_client \<Rightarrow> search_client \<Rightarrow> search_client" where
  "only rq client other = (\<lambda>r. if r = rq then client r else other r)"

lemma ask_only: "request = Inr rq \<or> is_ok request = False \<Longrightarrow> ask (only rq client other) p request parse = ask client p request parse"
  by (cases request) (auto simp: ask_def only_def)

lemma provider_search_one_request:
  "\<exists>rq. rq_url rq \<in> search_urls s \<and> (\<forall>other. provider_search fr s (only rq client other) p query n days
     = provider_search fr s client p query n days)"
proof -
  have one: ?thesis if "\<And>client. provider_search fr s client p query n days = ask client q request parse"
    "\<And>rq. request = Inr rq \<Longrightarrow> rq_url rq \<in> search_urls s" for q request parse
  proof (cases request)
    case (Inl e)
    obtain rq :: search_request where "rq_url rq = web_search_base_url s"
      by (metis search_request.select_convs(2))
    moreover have "provider_search fr s c p query n days = Inl e" for c using that(1) Inl by (simp add: ask_def)
    ultimately show ?thesis by (auto simp: search_urls_def)
  next
    case (Inr rq)
    then show ?thesis using that ask_only [of request rq] by auto
  qed
  have none: ?thesis if "\<And>c c'. provider_search fr s c p query n days = provider_search fr s c' p query n days"
  proof -
    obtain rq :: search_request where "rq_url rq = web_search_base_url s"
      by (metis search_request.select_convs(2))
    with that show ?thesis by (auto simp: search_urls_def)
  qed
  show ?thesis
  proof (cases p)
    case BingSearch
    show ?thesis by (rule one [of _ "bing_request s query n days"])
        (auto simp: BingSearch bing_request_def base_url_or_def search_urls_def split: if_splits)
  next
    case TavilySearch
    show ?thesis by (rule one [of _ "tavily_request s query n days"])
        (auto simp: TavilySearch tavily_request_def base_url_or_def search_urls_def split: if_splits)
  next
    case HttpJsonSearch
    show ?thesis by (rule one [of _ "http_json_request s query n days"])
        (auto simp: HttpJsonSearch http_json_request_def search_urls_def split: if_splits)
  qed (rule none; simp)+
qed

lemma search_web_Inr:
  assumes "search_web fr s client query max_results days = Inr r"
  obtains p where "get_search_provider s = Inr p" "sp_provider r = provider_name p"
    "provider_search fr s client p (join (lit '' '') (split_ws (strip query)))
       (clamp_limit max_results (web_search_max_results s)) days = Inr (sp_results r)"
  using assms by (auto simp: search_web_def Let_def split: if_splits sum.splits)

lemma search_web_one_request:
  "\<exists>rq. rq_url rq \<in> search_urls s \<and>
     search_web fr s (only rq client other) query max_results days = search_web fr s client query max_results days"
proof (cases "get_search_provider s")
  case (Inl e)
  then have "search_web fr s c query max_results days
      = (if join (lit '' '') (split_ws (strip query)) = [] then Inl (ValueError (lit ''Query is required'')) else Inl e)" for c
    by (simp add: search_web_def)
  moreover obtain rq :: search_request where "rq_url rq = web_search_base_url s"
    by (metis search_request.select_convs(2))
  ultimately show ?thesis by (auto simp: search_urls_def)
next
  case (Inr p)
  let ?q = "join (lit '' '') (split_ws (strip query))" and ?n = "clamp_limit max_results (web_search_max_results s)"
  obtain rq where rq: "rq_url rq \<in> search_urls s"
    "provider_search fr s (only rq client other) p ?q ?n days = provider_search fr s client p ?q ?n days"
    using provider_search_one_request [of s fr client p ?q ?n days] by blast
  have "search_web fr s (only rq client other) query max_results days = search_web fr s client query max_results days"
    unfolding search_web_def Let_def Inr sum.case rq(2) ..
  with rq(1) show ?thesis by blast
qed

text \<open>
  A web search is bounded: it makes at most one request, to the configured address or the provider's own,
  so that no other answer of the network matters; it returns at most the requested and the configured number
  of results, at least one being allowed, and every result of the common format has a URL.
\<close>

theorem web_search_is_bounded:
  "(\<exists>rq. rq_url rq \<in> search_urls s \<and>
      search_web fr s (only rq client other) query max_results days = search_web fr s client query max_results days)
   \<and> (case search_web fr s client query max_results days of
        Inl _ \<Rightarrow> True
      | Inr r \<Rightarrow> int (length (sp_results r)) \<le> max 1 (web_search_max_results s)
          \<and> int (length (sp_results r)) \<le> max 1 (case max_results of None \<Rightarrow> web_search_max_results s | Some m \<Rightarrow> m)
          \<and> (sp_provider r = (lit ''bing'') \<or> list_all (\<lambda>x. sr_url x \<noteq> []) (sp_results r)))"
proof (intro conjI search_web_one_request)
  let ?m = "web_search_max_results s"
  have n: "int (clamp_limit max_results ?m) \<le> max 1 (case max_results of None \<Rightarrow> ?m | Some m \<Rightarrow> m)"
    by (auto simp: clamp_limit_def Let_def split: option.split)
  show "case search_web fr s client query max_results days of
        Inl _ \<Rightarrow> True
      | Inr r \<Rightarrow> int (length (sp_results r)) \<le> max 1 ?m
          \<and> int (length (sp_results r)) \<le> max 1 (case max_results of None \<Rightarrow> ?m | Some m \<Rightarrow> m)
          \<and> (sp_provider r = (lit ''bing'') \<or> list_all (\<lambda>x. sr_url x \<noteq> []) (sp_results r))"
  proof (cases "search_web fr s client query max_results days")
    case (Inr r)
    from Inr obtain p where "sp_provider r = provider_name p" "length (sp_results r) \<le> clamp_limit max_results ?m"
      "p = BingSearch \<or> list_all (\<lambda>x. sr_url x \<noteq> []) (sp_results r)"
      by (elim search_web_Inr) (use provider_search_bounded in blast)
    with Inr n clamp_limit_bounds(2) [of max_results ?m] show ?thesis by auto
  qed simp
qed

end
