(* ===== verification/Evals.thy ===== *)
theory Evals
  imports Agent_Turn "HOL-Library.AList" "HOL-Library.Multiset"
begin

text \<open>
  The offline evaluations (\<open>evals/runner.py\<close>): a suite of scenarios, what each expects of the runtime,
    the
  failures, and the report with its score. How the runtime answers a scenario of the three kinds that run it
  is an argument; \<open>fr\<close> stands for Python's \<open>repr\<close> and \<open>to_float\<close> for \<open>float\<close>. Printing is not modelled.
\<close>

section \<open>Expectations\<close>

text \<open>\<open>_compare_subset\<close>: every expected key is there with what is expected of it; other keys do not matter.\<close>

fun compare_subset :: "py_repr \<Rightarrow> json \<Rightarrow> json \<Rightarrow> ustr \<Rightarrow> ustr list"
  and compare_items :: "py_repr \<Rightarrow> dict \<Rightarrow> dict \<Rightarrow> ustr \<Rightarrow> ustr list"
where
  "compare_subset fr actual (JObj items) p = (case actual of
     JObj a \<Rightarrow> compare_items fr a items p | _ \<Rightarrow> [p @ (lit '' should be an object'')])"
| "compare_subset fr actual expected p =
     (if py_eq actual expected then [] else [p @ (lit '' expected '') @ fr expected @ (lit '', got '') @ fr actual])"
| "compare_items fr a [] p = []"
| "compare_items fr a ((k, v) # items) p =
     (case map_of a k of
        None \<Rightarrow> [p @ (lit ''.'') @ k @ (lit '' is missing'')]
      | Some x \<Rightarrow> compare_subset fr x v (p @ (lit ''.'') @ k)) @ compare_items fr a items p"

text \<open>What a \<open>for\<close> loop over a value runs through.\<close>

definition iterate :: "json \<Rightarrow> json list res" where
  "iterate j = (case j of
     JList xs \<Rightarrow> Inr xs
   | JStr s \<Rightarrow> Inr (map (\<lambda>c. JStr [c]) s)
   | JObj d \<Rightarrow> Inr (map (\<lambda>(k, _). JStr k) d)
   | _ \<Rightarrow> Inl (TypeError (lit ''object is not iterable'')))"

definition dget_or_empty :: "dict \<Rightarrow> ustr \<Rightarrow> json" where
  "dget_or_empty d k = (case map_of d k of None \<Rightarrow> JList [] | Some v \<Rightarrow> v)"

definition actual_text :: "py_repr \<Rightarrow> json \<Rightarrow> ustr" where
  "actual_text fr actual = (case actual of JStr s \<Rightarrow> s | _ \<Rightarrow> dumps fr actual)"

definition exact_failures :: "py_repr \<Rightarrow> json \<Rightarrow> dict \<Rightarrow> ustr list" where
  "exact_failures fr actual expected = (case map_of expected (lit ''equals'') of
     None \<Rightarrow> []
   | Some v \<Rightarrow> if py_eq actual v then [] else [(lit ''expected exact value '') @ fr v @ (lit '', got '')
     @ fr actual])"

definition subset_failures :: "py_repr \<Rightarrow> json \<Rightarrow> dict \<Rightarrow> ustr list" where
  "subset_failures fr actual expected = (case map_of expected (lit ''subset'') of
     None \<Rightarrow> [] | Some v \<Rightarrow> compare_subset fr actual v (lit ''actual''))"

definition missing_fragments :: "py_repr \<Rightarrow> ustr \<Rightarrow> json list \<Rightarrow> ustr list" where
  "missing_fragments fr out fragments =
     map (\<lambda>f. (lit ''missing required fragment '')
       @ fr f) (filter (\<lambda>f. \<not> substr (scalar_str fr f) out) fragments)"

definition forbidden_fragments :: "py_repr \<Rightarrow> ustr \<Rightarrow> json list \<Rightarrow> ustr list" where
  "forbidden_fragments fr out fragments =
     map (\<lambda>f. (lit ''found forbidden fragment '') @ fr f)
       (filter (\<lambda>f. substr (casefold (scalar_str fr f)) (casefold out)) fragments)"

text \<open>Expectations that are no object raise an exception, whose text is abbreviated here.\<close>

definition expectation_failures :: "py_repr \<Rightarrow> json \<Rightarrow> json \<Rightarrow> ustr list res" where
  "expectation_failures fr actual expected = (case expected of
     JObj d \<Rightarrow>
       (case (iterate (dget_or_empty d (lit ''contains'')), iterate (dget_or_empty d (lit ''not_contains''))) of
          (Inl e, _) \<Rightarrow> Inl e
        | (_, Inl e) \<Rightarrow> Inl e
        | (Inr wanted, Inr unwanted) \<Rightarrow>
            Inr (exact_failures fr actual d @ subset_failures fr actual d
              @ missing_fragments fr (actual_text fr actual) wanted
              @ forbidden_fragments fr (actual_text fr actual) unwanted))
   | _ \<Rightarrow> Inl (TypeError (lit ''argument is not a mapping'')))"

section \<open>Scenarios\<close>

record eval_runtime =
  ev_plan :: "dict \<Rightarrow> json res"
  ev_answer_safety :: "dict \<Rightarrow> json res"
  ev_grounding :: "dict \<Rightarrow> json res"

definition scenario_actual :: "py_repr \<Rightarrow> eval_runtime \<Rightarrow> ustr \<Rightarrow> dict \<Rightarrow> json res" where
  "scenario_actual fr rt kind scenario =
     (if kind = (lit ''plan'') then ev_plan rt scenario
      else if kind = (lit ''answer_safety'') then ev_answer_safety rt scenario
      else if kind = (lit ''grounding_context'') then ev_grounding rt scenario
      else if kind = (lit ''keyword_terms'')
      then Inr (JList (map JStr (keyword_terms (str_or fr (dget scenario (lit ''query'')) ([])))))
      else Inl (ValueError ((lit ''Unsupported scenario kind: '') @ kind)))"

record scenario_result =
  sn_id :: ustr
  sn_category :: ustr
  sn_passed :: bool
  sn_failures :: "ustr list"
  sn_actual :: json

text \<open>An exception of the runtime or of the comparison is the only failure, and leaves no actual value.\<close>

definition evaluate_scenario :: "py_repr \<Rightarrow> eval_runtime \<Rightarrow> dict \<Rightarrow> scenario_result" where
  "evaluate_scenario fr rt scenario =
     (let kind = str_or fr (dget scenario (lit ''kind'')) ([]);
          outcome =
            (case scenario_actual fr rt kind scenario of
               Inl e \<Rightarrow> Inl e
             | Inr actual \<Rightarrow>
                 (case expectation_failures fr actual
                         (case map_of scenario (lit ''expected'') of None \<Rightarrow> JObj [] | Some v \<Rightarrow> v) of
                    Inl e \<Rightarrow> Inl e | Inr fs \<Rightarrow> Inr (fs, actual)));
          (failures, actual) = (case outcome of
             Inl e \<Rightarrow> ([(lit ''raised '') @ exn_class e @ (lit '': '') @ exn_str e],
               JNull) | Inr r \<Rightarrow> r) in
      \<lparr>sn_id = str_or fr (dget scenario (lit ''id'')) (lit ''unnamed''),
        sn_category = str_or fr (dget scenario (lit ''category'')) kind,
       sn_passed = (failures = []), sn_failures = failures, sn_actual = actual\<rparr>)"

section \<open>The report\<close>

record eval_report =
  ep_name :: json
  ep_minimum_score :: pyfloat
  ep_passed :: nat
  ep_total :: nat
  ep_score :: rat
  ep_categories :: "(ustr \<times> nat \<times> nat) list"
  ep_results :: "scenario_result list"

text \<open>The counts of each category, passed and total, by name; its score is their quotient.\<close>

definition count_result :: "scenario_result \<Rightarrow> (ustr \<times> nat \<times> nat) list \<Rightarrow> (ustr \<times> nat \<times> nat) list" where
  "count_result r counts =
     (let (p, t) = (case map_of counts (sn_category r) of None \<Rightarrow> (0, 0) | Some c \<Rightarrow> c) in
      AList.update (sn_category r) (p + (if sn_passed r then 1 else 0), t + 1) counts)"

definition category_counts :: "scenario_result list \<Rightarrow> (ustr \<times> nat \<times> nat) list" where
  "category_counts results = sort_key fst (fold count_result results [])"

definition score_of :: "nat \<Rightarrow> nat \<Rightarrow> rat" where
  "score_of passed n = (if n = 0 then 0 else of_nat passed / of_nat n)"

definition suite_report :: "json \<Rightarrow> pyfloat \<Rightarrow> scenario_result list \<Rightarrow> eval_report" where
  "suite_report name minimum results =
     (let passed = length (filter sn_passed results) in
      \<lparr>ep_name = name, ep_minimum_score = minimum, ep_passed = passed, ep_total = length results,
       ep_score = score_of passed (length results), ep_categories = category_counts results,
         ep_results = results\<rparr>)"

definition evaluate_suite :: "py_repr \<Rightarrow> (json \<Rightarrow> pyfloat res) \<Rightarrow> eval_runtime \<Rightarrow> dict \<Rightarrow> eval_report res" where
  "evaluate_suite fr to_float rt suite =
     (case iterate (dget_or_empty suite (lit ''scenarios'')) of
        Inl e \<Rightarrow> Inl e
      | Inr scenarios \<Rightarrow>
          (case map_res (\<lambda>s. case s of JObj d \<Rightarrow> Inr (evaluate_scenario fr rt d)
                  | _ \<Rightarrow> Inl (OtherError (lit ''object has no attribute get''))) scenarios of
             Inl e \<Rightarrow> Inl e
           | Inr results \<Rightarrow>
               (case to_float (case map_of suite (lit ''minimum_score'') of None \<Rightarrow> JFloat (Fin 1) | Some v \<Rightarrow> v) of
                  Inl e \<Rightarrow> Inl e
                | Inr minimum \<Rightarrow>
                    Inr (suite_report (case map_of suite (lit ''name'') of None \<Rightarrow> JStr (lit ''agent-evals'') | Some v \<Rightarrow> v)
                           minimum results))))"

text \<open>The exit code of \<open>main\<close>.\<close>

definition exit_code :: "eval_report \<Rightarrow> int" where
  "exit_code r = (case ep_minimum_score r of
     Fin m \<Rightarrow> if m \<le> ep_score r then 0 else 1 | NInf \<Rightarrow> 0 | _ \<Rightarrow> 1)"

section \<open>Facts\<close>

text \<open>The comparison finds nothing exactly when the expectation is contained in the value.\<close>

fun contained :: "json \<Rightarrow> json \<Rightarrow> bool"
  and items_contained :: "dict \<Rightarrow> dict \<Rightarrow> bool"
where
  "contained actual (JObj items) = (is_obj actual \<and> items_contained (obj_items actual) items)"
| "contained actual expected = py_eq actual expected"
| "items_contained a [] = True"
| "items_contained a ((k, v) # items) =
     ((case map_of a k of None \<Rightarrow> False | Some x \<Rightarrow> contained x v) \<and> items_contained a items)"

lemma compare_subset_contained:
  "compare_subset fr actual expected p = [] \<longleftrightarrow> contained actual expected"
  "compare_items fr a items p = [] \<longleftrightarrow> items_contained a items"
  by (induction fr actual expected p and fr a items p rule: compare_subset_compare_items.induct)
    (auto simp: is_obj_def obj_items_def split: json.split option.split)

definition total_of :: "(ustr \<times> nat \<times> nat) list \<Rightarrow> nat" where
  "total_of counts = sum_list (map (\<lambda>c. snd (snd c)) counts)"

definition passed_of :: "(ustr \<times> nat \<times> nat) list \<Rightarrow> nat" where
  "passed_of counts = sum_list (map (\<lambda>c. fst (snd c)) counts)"

lemma sum_update:
  "distinct (map fst xs) \<Longrightarrow> sum_list (map (\<lambda>c. f (snd c)) (AList.update k w xs))
     + (case map_of xs k of None \<Rightarrow> 0 | Some v \<Rightarrow> f v) = sum_list (map (\<lambda>c. f (snd c)) xs) + (f w :: nat)"
  by (induction xs) (auto split: option.splits)

lemma count_result_adds:
  assumes "distinct (map fst counts)"
  shows "total_of (count_result r counts) = total_of counts + 1"
    "passed_of (count_result r counts) = passed_of counts + (if sn_passed r then 1 else 0)"
    "distinct (map fst (count_result r counts))"
proof -
  obtain p t where c: "(case map_of counts (sn_category r) of None \<Rightarrow> (0,
    0) | Some c \<Rightarrow> c) = (p, t)" by fastforce
  let ?w = "(p + (if sn_passed r then 1 else 0), t + 1)"
  have u: "count_result r counts = AList.update (sn_category r) ?w counts" by (simp add: count_result_def c)
  have pt: "(case map_of counts (sn_category r) of None \<Rightarrow> 0 | Some v \<Rightarrow> snd v) = t"
    "(case map_of counts (sn_category r) of None \<Rightarrow> 0 | Some v \<Rightarrow> fst v) = p"
    using c by (auto split: option.splits)
  show "total_of (count_result r counts) = total_of counts + 1"
    using sum_update [OF assms, of snd "sn_category r" ?w] by (simp add: u total_of_def pt)
  show "passed_of (count_result r counts) = passed_of counts + (if sn_passed r then 1 else 0)"
    using sum_update [OF assms, of fst "sn_category r" ?w] by (simp add: u passed_of_def pt)
  show "distinct (map fst (count_result r counts))" using assms by (simp add: u distinct_update)
qed

lemma fold_counts:
  "distinct (map fst counts) \<Longrightarrow> distinct (map fst (fold count_result rs counts))
   \<and> total_of (fold count_result rs counts) = total_of counts + length rs
   \<and> passed_of (fold count_result rs counts) = passed_of counts + length (filter sn_passed rs)"
proof (induction rs arbitrary: counts)
  case (Cons r rs)
  from Cons.IH [OF count_result_adds(3) [OF Cons.prems, of r]] count_result_adds(1,2) [OF Cons.prems, of r]
  show ?case by simp
qed simp

lemma sum_list_sort_key: "sum_list (map f (sort_key g xs)) = (sum_list (map f xs) :: nat)"
  by (metis mset_map mset_sort sum_mset_sum_list)

lemma category_counts_props:
  "sorted (map fst (category_counts rs)) \<and> distinct (map fst (category_counts rs))
   \<and> total_of (category_counts rs) = length rs \<and> passed_of (category_counts rs) = length (filter sn_passed rs)"
proof -
  have d: "distinct (map fst (fold count_result rs []))" using fold_counts [of "[]" rs] by simp
  have "mset (map fst (category_counts rs)) = mset (map fst (fold count_result rs []))"
    unfolding category_counts_def mset_map mset_sort ..
  then have "distinct (map fst (category_counts rs))" using d by (metis mset_eq_imp_distinct_iff)
  then show ?thesis using fold_counts [of "[]" rs]
    by (simp add: category_counts_def total_of_def passed_of_def sum_list_sort_key)
qed

text \<open>
  The report adds up: the categories are listed once each in order, their counts sum to the number of
  scenarios and of passed ones, a scenario has passed exactly when it has no failures, the score lies
  between 0 and 1, and it is 1 exactly when there is a scenario and all have passed.
\<close>

theorem report_adds_up:
  "case evaluate_suite fr to_float rt suite of
     Inl _ \<Rightarrow> True
   | Inr r \<Rightarrow> sorted (map fst (ep_categories r)) \<and> distinct (map fst (ep_categories r))
       \<and> total_of (ep_categories r) = length (ep_results r)
       \<and> passed_of (ep_categories r) = length (filter sn_passed (ep_results r))
       \<and> list_all (\<lambda>s. sn_passed s = (sn_failures s = [])) (ep_results r)
       \<and> 0 \<le> ep_score r \<and> ep_score r \<le> 1
       \<and> (ep_score r = 1) = (ep_results r \<noteq> [] \<and> list_all sn_passed (ep_results r))"
proof (cases "evaluate_suite fr to_float rt suite")
  case (Inr r)
  then obtain scenarios results name minimum where
    res: "map_res (\<lambda>s. case s of JObj d \<Rightarrow> Inr (evaluate_scenario fr rt d)
        | _ \<Rightarrow> Inl (OtherError (lit ''object has no attribute get''))) scenarios = Inr results"
    and r: "r = suite_report name minimum results"
    by (auto simp: evaluate_suite_def split: sum.splits)
  have "list_all (\<lambda>s. sn_passed s = (sn_failures s = [])) results"
    using res by (induction scenarios arbitrary: results)
      (auto simp: evaluate_scenario_def Let_def split_beta split: json.splits sum.splits)
  moreover have "length (filter sn_passed results) \<le> length results" by (rule length_filter_le)
  moreover have "(length (filter sn_passed results) = length results) = list_all sn_passed results"
    by (metis filter_id_conv length_filter_less list_all_iff nat_neq_iff)
  moreover have "0 \<le> score_of p t \<and> score_of p t \<le> 1 \<and> (score_of p t = 1) = (t \<noteq> 0 \<and> p = t)" if "p \<le> t" for p t
    using that by (auto simp: score_of_def divide_simps)
  ultimately show ?thesis using category_counts_props [of results] Inr
    by (simp add: r suite_report_def Let_def)
qed simp

end
