(* ===== verification/Spec2Isabelle.thy ===== *)
theory Spec2Isabelle
  imports Task_Lifecycle Tool_Approvals Auth_System Context_Budget Retrieval Reranker Knowledge_Routes
    Stream_Spec Chat_Routes Startup Legacy_Stdio Plugins Web_Search Evals
begin

text \<open>
  A model of the backend of AgentDemo, a personal agent: a FastAPI application over PostgreSQL
  (\<open>src/backend/app\<close>) with its file and search plugins (\<open>src/plugins\<close>), and the theorems that make it correct.
  Paths below are relative to \<open>src/backend/app\<close> unless they begin with \<open>plugins\<close>.

  \<^bold>\<open>The program.\<close> A user signs in (\<open>api/routes/auth.py\<close>) and talks to the agent in conversations
  (\<open>api/routes/conversations.py\<close>). A chat turn is a graph of nodes (\<open>agent/graph.py\<close>, \<open>agent/nodes.py\<close>): it saves the
  message, retrieves knowledge (\<open>services/rag.py\<close>), plans a tool (\<open>agent/runtime.py\<close>), runs it through the executor
  (\<open>services/tool_executor.py\<close>) or stops for the user's approval (\<open>services/tool_approvals.py\<close>), asks the model
  (\<open>services/model_gateway.py\<close>), saves the answer and compacts the conversation's memory (\<open>services/memory.py\<close>). The
  same runtime works in the background under a lease (\<open>services/agent_task_runner.py\<close>, \<open>services/task_lease.py\<close>),
  driven by a scheduler with recurring tasks (\<open>services/task_scheduler.py\<close>, \<open>services/task_schedules.py\<close>). Tools are
  local plugins or come from MCP servers (\<open>mcp/client.py\<close>, \<open>mcp/registry.py\<close>).

  \<^bold>\<open>How the code is modelled.\<close> A table is a list of records in the record \<open>db\<close>, one record type per ORM class with
  its columns; a handler or service operation is a function from the database to the database and a result,
  \<open>Inl\<close> the exception or \<open>Inr\<close> the value, and an operation that rolls back returns the database it was given. One
  transaction reads the clock once. What the code gets from outside is an argument: clocks, fresh UUIDs and
  tokens, the random jitter, digests and Argon2, the time zone database, \<open>json.loads\<close>, \<open>repr\<close>, \<open>jsonschema\<close>, URL
  and address parsing, the Unicode table of word characters, and the answers of models, MCP servers, HTTP
  services, plugins and the file system. Rows that another transaction holds are an argument (\<open>SKIP LOCKED\<close>); what
  other transactions do while an operation awaits is a function on the database. Strings are lists of code
  points, dynamic values the datatype \<open>json\<close>, floats exact rationals with infinities and NaN, times whole
  microseconds. Durations that are only logged are not modelled.

  \<^bold>\<open>The theories.\<close>

  \<^item> Library: \<open>Prelude\<close> (strings, times, exceptions, UUIDs, tables; the locales \<open>keyed_store\<close> of tables,
    \<open>step_system\<close> of state machines and \<open>op_system\<close> of operation histories; the fact collections), \<open>Json\<close>, \<open>Regex\<close>
    (the part of \<open>re\<close> the code uses, executable, with word classes as arguments), \<open>Utf8\<close> (decoders, encoder and
    their round trip), \<open>Config\<close> (settings with their field constraints), \<open>Db_Model\<close> (\<open>models/\<close>).
  \<^item> Background tasks: \<open>Task_Lease\<close> (fencing; the locale \<open>fence\<close>), \<open>Task_Invariant\<close>, \<open>Task_Runner\<close>
    (\<open>services/agent_task_runner.py\<close>), \<open>Task_Schedules\<close>, \<open>Task_Scheduler\<close>, \<open>Task_Routes\<close> (\<open>api/routes/tasks.py\<close>,
    \<open>api/routes/task_schedules.py\<close>), \<open>Task_System\<close> (all of them as one transition system over one database) and
    \<open>Task_Lifecycle\<close> (the abstract lifecycle the system refines).
  \<^item> Tools: \<open>Tool_Schema\<close> (\<open>services/tool_schema.py\<close>, \<open>services/plugin_registry.py\<close>), \<open>Tool_Output\<close>, \<open>Mcp_Security\<close>
    (\<open>core/mcp_security.py\<close>), \<open>Tool_Executor\<close>, \<open>Tool_Approvals\<close>, \<open>Plugins\<close> (\<open>plugins/\<close>), \<open>Web_Search\<close>
    (\<open>services/web_search.py\<close>).
  \<^item> MCP: \<open>Mcp_Content\<close> (\<open>mcp/resources.py\<close>), \<open>Mcp_Tools\<close> (\<open>mcp/tools.py\<close>, \<open>mcp/registry.py\<close>), \<open>Mcp_Client\<close>
    (\<open>mcp/client.py\<close>, \<open>mcp/config.py\<close>), \<open>Legacy_Stdio\<close> (\<open>mcp/legacy_stdio.py\<close>), \<open>Mcp_Routes\<close> (\<open>mcp/server.py\<close>,
    \<open>mcp/prompts.py\<close>, \<open>api/routes/mcp.py\<close>, \<open>api/routes/tools.py\<close>), \<open>Startup\<close> (\<open>main.py\<close>, \<open>api/routes/health.py\<close>).
  \<^item> The agent: \<open>Protocol\<close> and \<open>Response_Policy\<close> (\<open>agent/response_policy.py\<close>), \<open>Context_Budget\<close>
    (\<open>agent/context_budget.py\<close>), \<open>Intents\<close>, \<open>Web_Query\<close> and \<open>Planner\<close> (what \<open>agent/runtime.py\<close> reads off a message and
    plans), \<open>Agent_State\<close>, \<open>Tool_Loop\<close> (the tool step), \<open>Agent_Answer\<close>, \<open>Agent_Store\<close> (what a turn reads and writes),
    \<open>Agent_Graph\<close> (nodes and routing), \<open>Agent_Turn\<close> (a whole turn, both streams), \<open>Agent_Turn_Facts\<close>, \<open>Agent_Safety\<close>
    and \<open>Agent_Saved\<close> (facts about whole turns), \<open>Agent_Examples\<close> (concrete turns), \<open>Chat_Routes\<close>, \<open>Conversations\<close>,
    \<open>Memory\<close> (\<open>services/memory.py\<close>, \<open>api/routes/memory.py\<close>), \<open>Evals\<close> (\<open>evals/runner.py\<close>).
  \<^item> Models and knowledge: \<open>Model_Gateway\<close>, \<open>Stream_Spec\<close> (a reference definition of its event stream), \<open>Chunking\<close>,
    \<open>Knowledge\<close> and \<open>Retrieval\<close> (\<open>services/rag.py\<close>), \<open>Reranker\<close>, \<open>Knowledge_Routes\<close>.
  \<^item> Sign-in: \<open>Security\<close> (\<open>core/security.py\<close>, the access gate), \<open>Auth\<close> (\<open>services/auth_limits.py\<close>,
    \<open>api/routes/auth.py\<close>), \<open>Auth_System\<close> (all handlers as one transition system).

  \<^bold>\<open>What the theorems show.\<close>

  \<^item> Background work: a worker that lost its lease writes nothing more; in every reachable state exactly the
    running background tasks have a lease and no schedule has two active tasks; every step of workers,
    maintenance and API is a step of the abstract lifecycle; tasks whose effects must not be replayed are never
    tried again; retries, recovery and dispatch do exactly what they decide; tasks of users do not mix.
  \<^item> The agent: whatever the model and the services answer, a chat turn ends, runs no tool that needs
    confirmation, and has saved message and answer when it finishes; a confirmed turn runs the approved call only,
    and its approval is granted once and used up. The two safety theorems compare runs in worlds that differ
    only in what must not matter, so they speak about every effect of a tool and not about chosen ones.
  \<^item> Tools: a handler is reached only after all checks and the durable fence, each run is audited once, plugins
    show nothing but the workspace, descriptions from servers carry no instructions, registered tools are those of
    configured servers, and framed messages are read back whole.
  \<^item> Text and models: indexing loses no text, searches stay in scope and quote word for word, a reply is the text
    of one complete attempt, the stream reader equals its reference, answers carry no tool markup, the input fits
    its budget, memory reads every character once.
  \<^item> Sign-in: limits hold in every window, sessions are capped, signed-out tokens are dead, and a session is opened
    only for the password that is still stored.

  Each main theorem that has a hypothesis is followed by a theorem that applies it to concrete data.

  \<^bold>\<open>Loops and bounds.\<close> Every recursion is total. The graph has the step limit of the graph library as an argument;
  a chat turn needs at most \<open>9 + 2 * rounds\<close> steps (fifteen for the default of three rounds, below the library's
  limit of 25), so the limit is never what ends it. Attempts of the model, pages of a catalog, batches of the
  memory, tool rounds and fetched pages recurse over the configured bound; scans of text and bytes over what is
  left. \<open>rx_ends\<close> of \<open>Regex\<close> lists the ends of all matches in the order in which \<open>re\<close> tries them, so matching needs
  no fuel; unbounded repetition is bounded by the rest of the text.

  \<^bold>\<open>What modelling showed.\<close> The fallback for an answer of nothing but tool markup raises an exception when the
  successful tool was not \<open>read_file\<close> (\<open>markup_after_successful_tool_fails\<close>); the 415 answer of \<open>extract_text\<close> is never
  given (\<open>extract_text_answer\<close>); one catalog entry with annotations that are no object fails the refresh of all
  servers (\<open>untyped_annotations_fail_refresh\<close>); protected names use up places of a directory listing
  (\<open>protected_names_use_up_entries\<close>); \<open>search_files\<close> follows symbolic links out of the workspace; the table of task
  transitions lacks the step from running back to queued that retry and recovery make.

  \<^bold>\<open>Not modelled.\<close> Migrations (\<open>migrations/\<close>) and \<open>db/database.py\<close>: DDL and the configuration of SQLAlchemy; the model's
  handlers are functions of the tables they create. Pydantic's parsing of requests and the read models of
  \<open>schemas.py\<close> that only copy columns: requests are records whose validators are modelled where they decide. The
  mounting of routers and CORS in \<open>main.py\<close>. LangGraph, SQLAlchemy, httpx, the MCP SDK and asyncio are libraries: the
  graph is interpreted by \<open>run_graph\<close>, and concurrency is the interleaving of transactions in \<open>Task_System\<close> and
  \<open>Auth_System\<close>, cancellation a failure at any step of a turn. Starting and stopping processes, opening connections
  and logging. How \<open>evals\<close> runs a scenario through the runtime, and its printing. The frontend, which is TypeScript.
\<close>

end
